(* ===== verification/Prelude.thy ===== *)
theory Prelude
  imports Main "HOL-Library.AList" "HOL-Library.Char_ord" "HOL-Library.List_Lexorder"
    "HOL-Library.Product_Lexorder" "HOL-Library.Multiset"
begin

text \<open>
  Shared vocabulary of the development: the Python exceptions of the program as values, time
  stamps, insertion-ordered dictionaries, the truthiness idiom \<open>a or b\<close>, and the interfaces
  (locales) that several components implement: dictionaries, machines with an invariant,
  machines that only ever grow in some order, and observations whose updates commute.
\<close>

section \<open>Collections of facts\<close>

named_theorems dict_simps \<open>rewriting of dictionary lookups, insertions and key sets\<close>
named_theorems wf_intros \<open>well-formedness of the data model and its preservation\<close>
named_theorems frame_simps \<open>fields an operation leaves alone\<close>
named_theorems handler_defs \<open>definitions of the event handlers and their helpers\<close>

section \<open>Exceptions\<close>

text \<open>
  One constructor per exception class the modelled code raises; the arguments are the values
  the code puts into the message or the attributes of the exception.
\<close>

datatype exn =
    ValueError string
  | KeyError string
  | JobNotFoundError string
  | VersionConflictError string int int
  | AssertionError string
  | IndexError
  | StaleClaimError string
  | HandlerError string string bool
  | SyntheticFault string string
  | PollTimeout string int nat
  | DriverError string
  | AttributeError string
  | TypeError string
  | TimeoutError string
  | RuntimeError string
  | OverflowError string
  | ZeroDivisionError
  | ConfigurationError string
  | ValidationError "string list"

type_synonym 'a result = "exn + 'a"

primrec bind_result :: "'a result \<Rightarrow> ('a \<Rightarrow> 'b result) \<Rightarrow> 'b result" where
  "bind_result (Inl e) f = Inl e"
| "bind_result (Inr a) f = f a"

lemma bind_result_Inr_iff: "bind_result m f = Inr b \<longleftrightarrow> (\<exists>a. m = Inr a \<and> f a = Inr b)"
  by (cases m) auto

section \<open>Time\<close>

text \<open>
  A time zone aware \<open>datetime\<close> is its instant: the number of microseconds since the epoch in UTC
  (the resolution of Python's \<open>datetime\<close>), so comparison and subtraction are those of \<open>int\<close>. A
  \<open>timedelta\<close> is a number of microseconds.
\<close>

type_synonym time = int

abbreviation seconds :: "int \<Rightarrow> int" where
  "seconds n \<equiv> n * 1000000"

abbreviation minutes :: "int \<Rightarrow> int" where
  "minutes n \<equiv> n * 60000000"

text \<open>\<open>int(delta.total_seconds())\<close>: truncation towards zero.\<close>

definition int_total_seconds :: "int \<Rightarrow> int" where
  "int_total_seconds d = (if d < 0 then - ((- d) div 1000000) else d div 1000000)"

lemma int_total_seconds_nonneg: "0 \<le> d \<Longrightarrow> 0 \<le> int_total_seconds d"
  by (simp add: int_total_seconds_def)

lemma max_int_total_seconds:
  "max 0 (int_total_seconds d) = (if d < 0 then 0 else d div 1000000)"
proof (cases "d < 0")
  case True
  then have "0 \<le> (- d) div 1000000" by simp
  then have "int_total_seconds d \<le> 0" using True by (simp add: int_total_seconds_def)
  then show ?thesis using True by (simp add: max_def)
next
  case False
  then show ?thesis by (simp add: int_total_seconds_def)
qed

section \<open>Truthiness\<close>

text \<open>Python's \<open>a or b\<close> on strings (the empty string is false) and on optional objects.\<close>

definition str_or :: "string \<Rightarrow> string \<Rightarrow> string" where
  "str_or a b = (if a = [] then b else a)"

definition opt_or :: "'a option \<Rightarrow> 'a option \<Rightarrow> 'a option" where
  "opt_or a b = (case a of None \<Rightarrow> b | Some x \<Rightarrow> Some x)"

text \<open>A string that may be \<open>None\<close>: both \<open>None\<close> and the empty string are false.\<close>

definition truthy_str :: "string option \<Rightarrow> bool" where
  "truthy_str a = (case a of None \<Rightarrow> False | Some s \<Rightarrow> s \<noteq> [])"

definition optstr_or :: "string option \<Rightarrow> string \<Rightarrow> string" where
  "optstr_or a b = (if truthy_str a then the a else b)"

lemma opt_or_simps [simp]: "opt_or None b = b" "opt_or (Some x) b = Some x"
  by (simp_all add: opt_or_def)

lemma opt_or_eq_None [simp]: "opt_or a b = None \<longleftrightarrow> a = None \<and> b = None"
  by (cases a) auto

section \<open>Dictionaries\<close>

text \<open>
  A Python \<open>dict\<close> keeps its keys in the order of first insertion; assigning to a present key keeps
  its position. The association lists of the library with \<open>map_of\<close> and \<open>AList.update\<close> have
  exactly this behaviour. The interface every component relies on is the locale below.
\<close>

type_synonym ('k, 'v) dict = "('k \<times> 'v) list"

abbreviation dict_get :: "('k, 'v) dict \<Rightarrow> 'k \<Rightarrow> 'v option" where
  "dict_get d k \<equiv> map_of d k"

abbreviation dict_put :: "'k \<Rightarrow> 'v \<Rightarrow> ('k, 'v) dict \<Rightarrow> ('k, 'v) dict" where
  "dict_put k v d \<equiv> AList.update k v d"

abbreviation dict_keys :: "('k, 'v) dict \<Rightarrow> 'k list" where
  "dict_keys d \<equiv> map fst d"

abbreviation dict_values :: "('k, 'v) dict \<Rightarrow> 'v list" where
  "dict_values d \<equiv> map snd d"

definition wf_dict :: "('k, 'v) dict \<Rightarrow> bool" where
  "wf_dict d \<longleftrightarrow> distinct (dict_keys d)"

locale dictionary =
  fixes get :: "'d \<Rightarrow> 'k \<Rightarrow> 'v option"
    and put :: "'k \<Rightarrow> 'v \<Rightarrow> 'd \<Rightarrow> 'd"
    and keys :: "'d \<Rightarrow> 'k list"
    and vals :: "'d \<Rightarrow> 'v list"
    and ok :: "'d \<Rightarrow> bool"
  assumes get_put: "get (put k v d) k' = (if k' = k then Some v else get d k')"
    and get_keys: "get d k = None \<longleftrightarrow> k \<notin> set (keys d)"
    and keys_old: "k \<in> set (keys d) \<Longrightarrow> keys (put k v d) = keys d"
    and keys_new: "k \<notin> set (keys d) \<Longrightarrow> keys (put k v d) = keys d @ [k]"
    and ok_keys: "ok d \<longleftrightarrow> distinct (keys d)"
    and vals_get: "ok d \<Longrightarrow> v \<in> set (vals d) \<longleftrightarrow> (\<exists>k. get d k = Some v)"
begin

lemma get_put_same: "get (put k v d) k = Some v"
  by (simp add: get_put)

lemma get_put_other: "k' \<noteq> k \<Longrightarrow> get (put k v d) k' = get d k'"
  by (simp add: get_put)

lemma set_keys_put: "set (keys (put k v d)) = insert k (set (keys d))"
  by (cases "k \<in> set (keys d)") (auto simp: keys_old keys_new)

lemma ok_put: "ok d \<Longrightarrow> ok (put k v d)"
  by (cases "k \<in> set (keys d)") (auto simp: ok_keys keys_old keys_new)

lemma keys_get: "k \<in> set (keys d) \<longleftrightarrow> (\<exists>v. get d k = Some v)"
  using get_keys [of d k] by auto

lemma vals_put:
  assumes "ok d" and "v' \<in> set (vals (put k v d))"
  shows "v' = v \<or> v' \<in> set (vals d)"
proof -
  from assms obtain k' where "get (put k v d) k' = Some v'"
    using vals_get ok_put by blast
  then have "v' = v \<or> get d k' = Some v'" by (auto simp: get_put split: if_splits)
  then show ?thesis using assms(1) vals_get by blast
qed

end

lemma keys_update:
  "dict_keys (dict_put k v d) =
     (if k \<in> set (dict_keys d) then dict_keys d else dict_keys d @ [k])"
  by (induction d) auto

interpretation pd: dictionary map_of AList.update dict_keys dict_values wf_dict
  by unfold_locales
    (auto simp: update_conv' wf_dict_def keys_update map_of_eq_None_iff
      dest: map_of_SomeD intro: map_of_is_SomeI rev_image_eqI)

lemmas dict_rules [dict_simps] =
  pd.get_put pd.get_put_same pd.get_put_other pd.set_keys_put

lemma distinct_map_sort: "distinct (map f xs) \<Longrightarrow> distinct (map f (sort_key k xs))"
  using mset_eq_imp_distinct_iff [of "map f (sort_key k xs)" "map f xs"] by simp

lemma sort_key_map: "sort_key f (map g xs) = map g (sort_key (\<lambda>x. f (g x)) xs)"
proof (induction xs)
  case (Cons x xs)
  have "insort_key f (g x) (map g ys) = map g (insort_key (\<lambda>x. f (g x)) x ys)" for ys
    by (induction ys) simp_all
  then show ?case using Cons by simp
qed simp

lemma dict_put_new: "k \<notin> set (dict_keys d) \<Longrightarrow> dict_put k v d = d @ [(k, v)]"
  by (induction d) auto

lemma wf_dict_Nil [simp]: "wf_dict []"
  by (simp add: wf_dict_def)

lemma wf_dict_put [wf_intros]: "wf_dict d \<Longrightarrow> wf_dict (dict_put k v d)"
  by (rule pd.ok_put)

text \<open>A property of all entries, and its preservation by an insertion.\<close>

definition dict_all :: "('k \<Rightarrow> 'v \<Rightarrow> bool) \<Rightarrow> ('k, 'v) dict \<Rightarrow> bool" where
  "dict_all P d \<longleftrightarrow> (\<forall>(k, v) \<in> set d. P k v)"

lemma dict_all_Nil [simp]: "dict_all P []"
  by (simp add: dict_all_def)

lemma dict_all_Cons: "dict_all P ((k, v) # d) \<longleftrightarrow> P k v \<and> dict_all P d"
  by (auto simp: dict_all_def)

lemma dict_all_put: "dict_all P d \<Longrightarrow> P k v \<Longrightarrow> dict_all P (dict_put k v d)"
  by (induction d) (auto simp: dict_all_def)

lemma dict_all_get: "dict_all P d \<Longrightarrow> dict_get d k = Some v \<Longrightarrow> P k v"
  by (auto simp: dict_all_def dest: map_of_SomeD)

lemma dict_all_mono: "dict_all P d \<Longrightarrow> (\<And>k v. P k v \<Longrightarrow> Q k v) \<Longrightarrow> dict_all Q d"
  by (auto simp: dict_all_def)

section \<open>Machines\<close>

text \<open>
  Several components are deterministic machines driven by a list of inputs. The interface: a step
  function, the inputs it accepts and an invariant every accepted input keeps. What follows for
  whole runs (\<open>foldl\<close> of the step) is proved once, here.
\<close>

locale invariant_machine =
  fixes step :: "'s \<Rightarrow> 'e \<Rightarrow> 's"
    and accepts :: "'e \<Rightarrow> bool"
    and inv :: "'s \<Rightarrow> bool"
  assumes step_inv: "inv s \<Longrightarrow> accepts e \<Longrightarrow> inv (step s e)"
begin

lemma run_inv: "inv s \<Longrightarrow> list_all accepts es \<Longrightarrow> inv (foldl step s es)"
  by (induction es arbitrary: s) (auto intro: step_inv)

end

text \<open>A machine whose every step moves up in a preorder on its states.\<close>

locale monotone_machine = invariant_machine +
  fixes le :: "'s \<Rightarrow> 's \<Rightarrow> bool"
  assumes le_refl: "le s s"
    and le_trans: "le s t \<Longrightarrow> le t u \<Longrightarrow> le s u"
    and step_le: "inv s \<Longrightarrow> accepts e \<Longrightarrow> le s (step s e)"
begin

lemma run_le: "inv s \<Longrightarrow> list_all accepts es \<Longrightarrow> le s (foldl step s es)"
proof (induction es arbitrary: s)
  case Nil
  then show ?case by (simp add: le_refl)
next
  case (Cons e es)
  then have "le s (step s e)" and "le (step s e) (foldl step (step s e) es)"
    by (auto intro: step_le step_inv)
  then show ?case by (auto intro: le_trans)
qed

end

text \<open>
  A machine some of whose state can be observed through contributions of the inputs that commute:
  that part of the state does not depend on the order of delivery.
\<close>

locale commuting_observation =
  fixes step :: "'s \<Rightarrow> 'e \<Rightarrow> 's"
    and obs :: "'s \<Rightarrow> 'o"
    and contribute :: "'e \<Rightarrow> 'o \<Rightarrow> 'o"
  assumes obs_step: "obs (step s e) = contribute e (obs s)"
    and contribute_commute: "contribute e (contribute f x) = contribute f (contribute e x)"
begin

lemma obs_run: "obs (foldl step s es) = fold contribute es (obs s)"
  by (induction es arbitrary: s) (simp_all add: obs_step)

lemma obs_order_irrelevant:
  assumes "mset es = mset fs"
  shows "obs (foldl step s es) = obs (foldl step s fs)"
proof -
  have "fold contribute es = fold contribute fs"
    using assms by (intro fold_multiset_equiv) (auto simp: fun_eq_iff contribute_commute)
  then show ?thesis by (simp add: obs_run)
qed

end

end
