(* ===== verification/Json_Values.thy ===== *)
theory Json_Values
  imports Prelude
begin

text \<open>
  The values the program hands to its HTTP and JSON boundaries. A Python \<open>dict[str, Any]\<close> built for
  a response is a \<open>json\<close> object with its keys in the order the code writes them; time stamps are
  rendered by \<open>iso\<close> exactly as \<open>model.iso\<close> does, with the calendar computation of Python's
  \<open>datetime\<close> (proleptic Gregorian ordinals).
\<close>

section \<open>JSON\<close>

datatype json =
    JNull
  | JBool bool
  | JInt int
  | JStr string
  | JList "json list"
  | JObj "(string \<times> json) list"

primrec jfield :: "json \<Rightarrow> string \<Rightarrow> json option" where
  "jfield JNull k = None"
| "jfield (JBool b) k = None"
| "jfield (JInt i) k = None"
| "jfield (JStr s) k = None"
| "jfield (JList xs) k = None"
| "jfield (JObj kvs) k = map_of kvs k"

definition jopt :: "('a \<Rightarrow> json) \<Rightarrow> 'a option \<Rightarrow> json" where
  "jopt f a = (case a of None \<Rightarrow> JNull | Some x \<Rightarrow> f x)"

lemma jopt_simps [simp]: "jopt f None = JNull" "jopt f (Some x) = f x"
  by (simp_all add: jopt_def)

section \<open>Decimal numerals\<close>

definition digit_char :: "nat \<Rightarrow> char" where
  "digit_char d = char_of (48 + d)"

fun nat_digits :: "nat \<Rightarrow> string" where
  "nat_digits n =
     (if n < 10 then [digit_char n] else nat_digits (n div 10) @ [digit_char (n mod 10)])"

declare nat_digits.simps [simp del]

text \<open>The format specification \<open>:0kd\<close>: pad with zeros on the left to width \<open>k\<close>.\<close>

definition zero_pad :: "nat \<Rightarrow> nat \<Rightarrow> string" where
  "zero_pad k n = replicate (k - length (nat_digits n)) (CHR ''0'') @ nat_digits n"

lemma length_zero_pad: "k \<le> length (zero_pad k n)"
  by (simp add: zero_pad_def)

section \<open>Substring replacement\<close>

function str_replace :: "string \<Rightarrow> string \<Rightarrow> string \<Rightarrow> string" where
  "str_replace old new [] = []"
| "str_replace old new (c # cs) =
     (if old \<noteq> [] \<and> take (length old) (c # cs) = old
      then new @ str_replace old new (drop (length old - 1) cs)
      else c # str_replace old new cs)"
  by pat_completeness auto
termination
  by (relation "measure (\<lambda>(old, new, s). length s)") auto

section \<open>Calendar dates\<close>

definition is_leap :: "int \<Rightarrow> bool" where
  "is_leap y \<longleftrightarrow> y mod 4 = 0 \<and> (y mod 100 \<noteq> 0 \<or> y mod 400 = 0)"

text \<open>Days before each month of a common year, indexed from January = 1.\<close>

definition days_before_month :: "int \<Rightarrow> int" where
  "days_before_month m =
     (if m \<le> 1 then 0 else if m = 2 then 31 else if m = 3 then 59 else if m = 4 then 90
      else if m = 5 then 120 else if m = 6 then 151 else if m = 7 then 181 else if m = 8 then 212
      else if m = 9 then 243 else if m = 10 then 273 else if m = 11 then 304 else 334)"

text \<open>
  Year, month and day of a proleptic ordinal (1 is 1 January of year 1), by cycles of 400, 100, 4
  and 1 years.
\<close>

definition ord2ymd :: "int \<Rightarrow> int \<times> int \<times> int" where
  "ord2ymd ordinal =
     (let n = ordinal - 1;
          n400 = n div 146097; n = n mod 146097;
          n100 = n div 36524; n = n mod 36524;
          n4 = n div 1461; n = n mod 1461;
          n1 = n div 365; n = n mod 365;
          year = n400 * 400 + 1 + n100 * 100 + n4 * 4 + n1
      in if n1 = 4 \<or> n100 = 4 then (year - 1, 12, 31)
         else
           (let leap = (n1 = 3 \<and> (n4 \<noteq> 24 \<or> n100 = 3));
                before = (\<lambda>m. days_before_month m + (if m > 2 \<and> leap then 1 else 0));
                month = (n + 50) div 32;
                month = (if before month > n then month - 1 else month)
            in (year, month, n - before month + 1)))"

text \<open>The ordinal of 1 January 1970 is 719163.\<close>

definition isoformat_utc :: "time \<Rightarrow> string" where
  "isoformat_utc t =
     (let days = t div 86400000000; us = t mod 86400000000; secs = us div 1000000;
          micro = us mod 1000000; (y, m, d) = ord2ymd (days + 719163)
      in zero_pad 4 (nat y) @ ''-'' @ zero_pad 2 (nat m) @ ''-'' @ zero_pad 2 (nat d) @ ''T'' @
         zero_pad 2 (nat (secs div 3600)) @ '':'' @ zero_pad 2 (nat (secs div 60 mod 60)) @ '':'' @
         zero_pad 2 (nat (secs mod 60)) @
         (if micro = 0 then [] else ''.'' @ zero_pad 6 (nat micro)) @ ''+00:00'')"

definition iso :: "time option \<Rightarrow> string option" where
  "iso value = map_option (\<lambda>t. str_replace ''+00:00'' ''Z'' (isoformat_utc t)) value"

abbreviation jtime :: "time option \<Rightarrow> json" where
  "jtime t \<equiv> jopt JStr (iso t)"

lemma iso_None [simp]: "iso None = None"
  by (simp add: iso_def)

lemma iso_eq_None [simp]: "iso t = None \<longleftrightarrow> t = None"
  by (simp add: iso_def)

end
