(* ===== verification/Visibility_Model.thy ===== *)
theory Visibility_Model
  imports Json_Values
begin

text \<open>
  The domain model of \<open>src/job_visibility/model.py\<close>: the lifecycle event (EDR) vocabulary and its
  taxonomy, the event record with the checks of its \<open>__post_init__\<close>, the attempt, finding and
  decision records and the \<open>JobVisibility\<close> aggregate the reducer folds events into. Field names
  carry a prefix per class (\<open>ev_\<close>, \<open>at_\<close>, \<open>fi_\<close>, \<open>de_\<close>, \<open>jv_\<close>, \<open>cf_\<close>, \<open>pr_\<close>).
\<close>

section \<open>Enumerations\<close>

datatype event_type =
    JOB_CREATED
  | JOB_SCHEDULER_SUBMISSION_REQUESTED
  | JOB_SCHEDULER_SUBMISSION_ACKNOWLEDGED
  | JOB_SCHEDULER_SUBMISSION_FAILED
  | JOB_SCHEDULER_ITEM_RETRIEVED
  | JOB_EXECUTION_STARTED
  | JOB_EXECUTION_SUCCEEDED
  | JOB_EXECUTION_FAILED
  | JOB_RETRY_REQUESTED
  | JOB_RETRY_ACKNOWLEDGED
  | JOB_RETRY_REJECTED
  | JOB_RETRIES_EXHAUSTED
  | JOB_CANCELLED

text \<open>Iterating the Python enumeration visits the members in the order of their definition.\<close>

definition event_types :: "event_type list" where
  "event_types =
     [JOB_CREATED, JOB_SCHEDULER_SUBMISSION_REQUESTED, JOB_SCHEDULER_SUBMISSION_ACKNOWLEDGED,
      JOB_SCHEDULER_SUBMISSION_FAILED, JOB_SCHEDULER_ITEM_RETRIEVED, JOB_EXECUTION_STARTED,
      JOB_EXECUTION_SUCCEEDED, JOB_EXECUTION_FAILED, JOB_RETRY_REQUESTED, JOB_RETRY_ACKNOWLEDGED,
      JOB_RETRY_REJECTED, JOB_RETRIES_EXHAUSTED, JOB_CANCELLED]"

instantiation event_type :: enum
begin

definition enum_event_type :: "event_type list" where
  "enum_event_type = event_types"

definition enum_all_event_type :: "(event_type \<Rightarrow> bool) \<Rightarrow> bool" where
  "enum_all_event_type P \<longleftrightarrow> list_all P event_types"

definition enum_ex_event_type :: "(event_type \<Rightarrow> bool) \<Rightarrow> bool" where
  "enum_ex_event_type P \<longleftrightarrow> list_ex P event_types"

instance
proof
  have all: "t \<in> set event_types" for t :: event_type
    by (cases t) (simp_all add: event_types_def)
  then show "UNIV = set (enum_class.enum :: event_type list)"
    by (auto simp: enum_event_type_def)
  show "distinct (enum_class.enum :: event_type list)"
    by (simp add: enum_event_type_def event_types_def)
  show "enum_class.enum_all P \<longleftrightarrow> Ball UNIV P" for P :: "event_type \<Rightarrow> bool"
    using all by (auto simp: enum_all_event_type_def list_all_iff)
  show "enum_class.enum_ex P \<longleftrightarrow> Bex UNIV P" for P :: "event_type \<Rightarrow> bool"
    using all by (auto simp: enum_ex_event_type_def list_ex_iff)
qed

end

primrec event_type_value :: "event_type \<Rightarrow> string" where
  "event_type_value JOB_CREATED = ''JOB_CREATED''"
| "event_type_value JOB_SCHEDULER_SUBMISSION_REQUESTED = ''JOB_SCHEDULER_SUBMISSION_REQUESTED''"
| "event_type_value JOB_SCHEDULER_SUBMISSION_ACKNOWLEDGED =
     ''JOB_SCHEDULER_SUBMISSION_ACKNOWLEDGED''"
| "event_type_value JOB_SCHEDULER_SUBMISSION_FAILED = ''JOB_SCHEDULER_SUBMISSION_FAILED''"
| "event_type_value JOB_SCHEDULER_ITEM_RETRIEVED = ''JOB_SCHEDULER_ITEM_RETRIEVED''"
| "event_type_value JOB_EXECUTION_STARTED = ''JOB_EXECUTION_STARTED''"
| "event_type_value JOB_EXECUTION_SUCCEEDED = ''JOB_EXECUTION_SUCCEEDED''"
| "event_type_value JOB_EXECUTION_FAILED = ''JOB_EXECUTION_FAILED''"
| "event_type_value JOB_RETRY_REQUESTED = ''JOB_RETRY_REQUESTED''"
| "event_type_value JOB_RETRY_ACKNOWLEDGED = ''JOB_RETRY_ACKNOWLEDGED''"
| "event_type_value JOB_RETRY_REJECTED = ''JOB_RETRY_REJECTED''"
| "event_type_value JOB_RETRIES_EXHAUSTED = ''JOB_RETRIES_EXHAUSTED''"
| "event_type_value JOB_CANCELLED = ''JOB_CANCELLED''"

text \<open>\<open>EventType(value)\<close>: the member with that value, a \<open>ValueError\<close> when there is none.\<close>

definition event_type_of_value :: "string \<Rightarrow> event_type result" where
  "event_type_of_value s =
     (case find (\<lambda>t. event_type_value t = s) event_types of
        None \<Rightarrow> Inl (ValueError s)
      | Some t \<Rightarrow> Inr t)"

lemma event_type_value_roundtrip: "event_type_of_value (event_type_value t) = Inr t"
  by (cases t) (simp_all add: event_type_of_value_def event_types_def)

datatype edr_type = ET_SCHEDULING | ET_ATTEMPT

datatype edr_group = EG_SCHEDULING | EG_EXECUTION | EG_RETRY | EG_TERMINAL

datatype edr_requirement = ER_OPTIONAL | ER_MANDATORY

primrec edr_type_value :: "edr_type \<Rightarrow> string" where
  "edr_type_value ET_SCHEDULING = ''SCHEDULING''"
| "edr_type_value ET_ATTEMPT = ''ATTEMPT''"

primrec edr_group_value :: "edr_group \<Rightarrow> string" where
  "edr_group_value EG_SCHEDULING = ''SCHEDULING''"
| "edr_group_value EG_EXECUTION = ''EXECUTION''"
| "edr_group_value EG_RETRY = ''RETRY''"
| "edr_group_value EG_TERMINAL = ''TERMINAL''"

primrec edr_requirement_value :: "edr_requirement \<Rightarrow> string" where
  "edr_requirement_value ER_OPTIONAL = ''OPTIONAL''"
| "edr_requirement_value ER_MANDATORY = ''MANDATORY''"

record edr_lifecycle =
  lc_edr_type :: edr_type
  lc_group :: edr_group
  lc_requirement :: edr_requirement

section \<open>Classification of events\<close>

definition SCHEDULING_EVENTS :: "event_type list" where
  "SCHEDULING_EVENTS =
     [JOB_CREATED, JOB_SCHEDULER_SUBMISSION_REQUESTED, JOB_SCHEDULER_SUBMISSION_ACKNOWLEDGED]"

definition EXECUTION_EVENTS :: "event_type list" where
  "EXECUTION_EVENTS = [JOB_SCHEDULER_ITEM_RETRIEVED, JOB_EXECUTION_STARTED]"

definition RETRY_EVENTS :: "event_type list" where
  "RETRY_EVENTS = [JOB_EXECUTION_FAILED, JOB_RETRY_REQUESTED, JOB_RETRY_ACKNOWLEDGED]"

definition SCHEDULING_TERMINAL_EVENTS :: "event_type list" where
  "SCHEDULING_TERMINAL_EVENTS =
     [JOB_SCHEDULER_SUBMISSION_FAILED, JOB_RETRY_REJECTED, JOB_CANCELLED]"

definition classify_event :: "event_type \<Rightarrow> edr_lifecycle" where
  "classify_event t =
     (if t \<in> set SCHEDULING_EVENTS
      then \<lparr>lc_edr_type = ET_SCHEDULING, lc_group = EG_SCHEDULING, lc_requirement = ER_OPTIONAL\<rparr>
      else if t \<in> set EXECUTION_EVENTS
      then \<lparr>lc_edr_type = ET_ATTEMPT, lc_group = EG_EXECUTION, lc_requirement = ER_OPTIONAL\<rparr>
      else if t \<in> set RETRY_EVENTS
      then \<lparr>lc_edr_type = ET_ATTEMPT, lc_group = EG_RETRY, lc_requirement = ER_OPTIONAL\<rparr>
      else \<lparr>lc_edr_type =
              (if t \<in> set SCHEDULING_TERMINAL_EVENTS then ET_SCHEDULING else ET_ATTEMPT),
            lc_group = EG_TERMINAL, lc_requirement = ER_MANDATORY\<rparr>)"

lemmas event_set_defs =
  SCHEDULING_EVENTS_def EXECUTION_EVENTS_def RETRY_EVENTS_def SCHEDULING_TERMINAL_EVENTS_def

section \<open>Statuses\<close>

datatype status =
    CREATED | PENDING_SUBMISSION | SCHEDULED | AWAITING_EXECUTION | RUNNING | RETRY_PENDING
  | RETRY_SCHEDULED | SUCCEEDED | FAILED | RETRIES_EXHAUSTED | OVERDUE | CANCELLED | UNKNOWN

primrec status_value :: "status \<Rightarrow> string" where
  "status_value CREATED = ''CREATED''"
| "status_value PENDING_SUBMISSION = ''PENDING_SUBMISSION''"
| "status_value SCHEDULED = ''SCHEDULED''"
| "status_value AWAITING_EXECUTION = ''AWAITING_EXECUTION''"
| "status_value RUNNING = ''RUNNING''"
| "status_value RETRY_PENDING = ''RETRY_PENDING''"
| "status_value RETRY_SCHEDULED = ''RETRY_SCHEDULED''"
| "status_value SUCCEEDED = ''SUCCEEDED''"
| "status_value FAILED = ''FAILED''"
| "status_value RETRIES_EXHAUSTED = ''RETRIES_EXHAUSTED''"
| "status_value OVERDUE = ''OVERDUE''"
| "status_value CANCELLED = ''CANCELLED''"
| "status_value UNKNOWN = ''UNKNOWN''"

lemma status_value_inj: "status_value s = status_value t \<longleftrightarrow> s = t"
  by (cases s; cases t) simp_all

datatype delay_classification =
    NOT_YET_ELIGIBLE | AWAITING_POLL_WINDOW | POSSIBLE_BATCH_BACKLOG | RETRIEVED_AWAITING_WORKER
  | EXECUTION_OVERDUE | EDR_DELIVERY_DELAY | CAUSE_UNKNOWN

primrec delay_classification_value :: "delay_classification \<Rightarrow> string" where
  "delay_classification_value NOT_YET_ELIGIBLE = ''NOT_YET_ELIGIBLE''"
| "delay_classification_value AWAITING_POLL_WINDOW = ''AWAITING_POLL_WINDOW''"
| "delay_classification_value POSSIBLE_BATCH_BACKLOG = ''POSSIBLE_BATCH_BACKLOG''"
| "delay_classification_value RETRIEVED_AWAITING_WORKER = ''RETRIEVED_AWAITING_WORKER''"
| "delay_classification_value EXECUTION_OVERDUE = ''EXECUTION_OVERDUE''"
| "delay_classification_value EDR_DELIVERY_DELAY = ''EDR_DELIVERY_DELAY''"
| "delay_classification_value CAUSE_UNKNOWN = ''CAUSE_UNKNOWN''"

definition TERMINAL_STATUSES :: "status list" where
  "TERMINAL_STATUSES = [SUCCEEDED, FAILED, RETRIES_EXHAUSTED, CANCELLED]"

definition is_terminal :: "status \<Rightarrow> bool" where
  "is_terminal s \<longleftrightarrow> s \<in> set TERMINAL_STATUSES"

lemma is_terminal_simps [simp]:
  "is_terminal SUCCEEDED" "is_terminal FAILED" "is_terminal RETRIES_EXHAUSTED"
  "is_terminal CANCELLED" "\<not> is_terminal CREATED" "\<not> is_terminal PENDING_SUBMISSION"
  "\<not> is_terminal SCHEDULED" "\<not> is_terminal AWAITING_EXECUTION" "\<not> is_terminal RUNNING"
  "\<not> is_terminal RETRY_PENDING" "\<not> is_terminal RETRY_SCHEDULED" "\<not> is_terminal OVERDUE"
  "\<not> is_terminal UNKNOWN"
  by (simp_all add: is_terminal_def TERMINAL_STATUSES_def)

lemma is_terminal_iff:
  "is_terminal s \<longleftrightarrow> s = SUCCEEDED \<or> s = FAILED \<or> s = RETRIES_EXHAUSTED \<or> s = CANCELLED"
  by (cases s) simp_all

section \<open>Events\<close>

record event =
  ev_event_id :: string
  ev_event_type :: event_type
  ev_event_time :: time
  ev_ingestion_time :: time
  ev_job_id :: string
  ev_correlation_id :: string
  ev_job_type :: string
  ev_source_system :: string
  ev_scheduler_reference :: "string option"
  ev_scheduled_at :: "time option"
  ev_attempt_number :: int
  ev_retryable :: "bool option"
  ev_max_attempts :: int
  ev_next_retry_at :: "time option"
  ev_result_code :: "string option"
  ev_error_code :: "string option"
  ev_error_message :: "string option"
  ev_trace_id :: "string option"
  ev_payload_reference :: "string option"
  ev_poll_id :: "string option"
  ev_poll_time :: "time option"
  ev_batch_position :: "int option"
  ev_batch_limit :: "int option"

text \<open>The event with the defaults of the dataclass; call sites override fields.\<close>

definition new_event :: "string \<Rightarrow> event_type \<Rightarrow> time \<Rightarrow> time \<Rightarrow> string \<Rightarrow> event" where
  "new_event event_id event_type event_time ingestion_time job_id =
     \<lparr>ev_event_id = event_id, ev_event_type = event_type, ev_event_time = event_time,
      ev_ingestion_time = ingestion_time, ev_job_id = job_id, ev_correlation_id = '''',
      ev_job_type = ''GENERIC'', ev_source_system = ''simulation'',
      ev_scheduler_reference = None, ev_scheduled_at = None, ev_attempt_number = 0,
      ev_retryable = None, ev_max_attempts = 3, ev_next_retry_at = None, ev_result_code = None,
      ev_error_code = None, ev_error_message = None, ev_trace_id = None,
      ev_payload_reference = None, ev_poll_id = None, ev_poll_time = None,
      ev_batch_position = None, ev_batch_limit = None\<rparr>"

text \<open>\<open>__post_init__\<close>: construction fails on a negative attempt or a non-positive maximum.\<close>

definition event_post_init :: "event \<Rightarrow> event result" where
  "event_post_init e =
     (if ev_attempt_number e < 0 then Inl (ValueError ''attempt_number cannot be negative'')
      else if ev_max_attempts e < 1 then Inl (ValueError ''max_attempts must be positive'')
      else Inr e)"

definition valid_event :: "event \<Rightarrow> bool" where
  "valid_event e \<longleftrightarrow> 0 \<le> ev_attempt_number e \<and> 1 \<le> ev_max_attempts e"

lemma event_post_init_Inr_iff: "event_post_init e = Inr e' \<longleftrightarrow> e' = e \<and> valid_event e"
  by (auto simp: event_post_init_def valid_event_def)

definition event_to_dict :: "event \<Rightarrow> json" where
  "event_to_dict e =
     (let lifecycle = classify_event (ev_event_type e)
      in JObj [(''event_id'', JStr (ev_event_id e)),
               (''event_type'', JStr (event_type_value (ev_event_type e))),
               (''event_time'', jtime (Some (ev_event_time e))),
               (''ingestion_time'', jtime (Some (ev_ingestion_time e))),
               (''job_id'', JStr (ev_job_id e)),
               (''correlation_id'', JStr (ev_correlation_id e)),
               (''job_type'', JStr (ev_job_type e)),
               (''source_system'', JStr (ev_source_system e)),
               (''scheduler_reference'', jopt JStr (ev_scheduler_reference e)),
               (''scheduled_at'', jtime (ev_scheduled_at e)),
               (''attempt_number'', JInt (ev_attempt_number e)),
               (''retryable'', jopt JBool (ev_retryable e)),
               (''max_attempts'', JInt (ev_max_attempts e)),
               (''next_retry_at'', jtime (ev_next_retry_at e)),
               (''result_code'', jopt JStr (ev_result_code e)),
               (''error_code'', jopt JStr (ev_error_code e)),
               (''error_message'', jopt JStr (ev_error_message e)),
               (''trace_id'', jopt JStr (ev_trace_id e)),
               (''payload_reference'', jopt JStr (ev_payload_reference e)),
               (''poll_id'', jopt JStr (ev_poll_id e)),
               (''poll_time'', jtime (ev_poll_time e)),
               (''batch_position'', jopt JInt (ev_batch_position e)),
               (''batch_limit'', jopt JInt (ev_batch_limit e)),
               (''edr_type'', JStr (edr_type_value (lc_edr_type lifecycle))),
               (''edr_group'', JStr (edr_group_value (lc_group lifecycle))),
               (''edr_requirement'', JStr (edr_requirement_value (lc_requirement lifecycle)))])"

section \<open>Attempts, findings, decisions\<close>

text \<open>The status of an attempt is a plain string in the code; these are the values it takes.\<close>

abbreviation AT_UNKNOWN :: string where "AT_UNKNOWN \<equiv> ''UNKNOWN''"
abbreviation AT_RETRIEVED :: string where "AT_RETRIEVED \<equiv> ''RETRIEVED''"
abbreviation AT_RUNNING :: string where "AT_RUNNING \<equiv> ''RUNNING''"
abbreviation AT_SUCCEEDED :: string where "AT_SUCCEEDED \<equiv> ''SUCCEEDED''"
abbreviation AT_FAILED :: string where "AT_FAILED \<equiv> ''FAILED''"

definition attempt_statuses :: "string list" where
  "attempt_statuses = [AT_UNKNOWN, AT_RETRIEVED, AT_RUNNING, AT_SUCCEEDED, AT_FAILED]"

record attempt =
  at_attempt_number :: int
  at_status :: string
  at_retrieved_at :: "time option"
  at_started_at :: "time option"
  at_completed_at :: "time option"
  at_retryable :: "bool option"
  at_error_code :: "string option"
  at_result_code :: "string option"

definition new_attempt :: "int \<Rightarrow> attempt" where
  "new_attempt n =
     \<lparr>at_attempt_number = n, at_status = AT_UNKNOWN, at_retrieved_at = None,
      at_started_at = None, at_completed_at = None, at_retryable = None, at_error_code = None,
      at_result_code = None\<rparr>"

definition attempt_to_dict :: "attempt \<Rightarrow> json" where
  "attempt_to_dict a =
     JObj [(''attemptNumber'', JInt (at_attempt_number a)),
           (''status'', JStr (at_status a)),
           (''retrievedAt'', jtime (at_retrieved_at a)),
           (''startedAt'', jtime (at_started_at a)),
           (''completedAt'', jtime (at_completed_at a)),
           (''retryable'', jopt JBool (at_retryable a)),
           (''errorCode'', jopt JStr (at_error_code a)),
           (''resultCode'', jopt JStr (at_result_code a))]"

record finding =
  fi_code :: string
  fi_first_observed_at :: time
  fi_message :: string
  fi_active :: bool
  fi_resolved_at :: "time option"

definition finding_to_dict :: "finding \<Rightarrow> json" where
  "finding_to_dict f =
     JObj [(''code'', JStr (fi_code f)),
           (''message'', JStr (fi_message f)),
           (''firstObservedAt'', jtime (Some (fi_first_observed_at f))),
           (''active'', JBool (fi_active f)),
           (''resolvedAt'', jtime (fi_resolved_at f))]"

record projection_decision =
  de_event_id :: string
  de_decision :: string
  de_reason :: "string option"

definition projection_decision_to_dict :: "projection_decision \<Rightarrow> json" where
  "projection_decision_to_dict d =
     JObj [(''event_id'', JStr (de_event_id d)),
           (''decision'', JStr (de_decision d)),
           (''reason'', jopt JStr (de_reason d))]"

section \<open>The aggregate\<close>

record job_visibility =
  jv_job_id :: string
  jv_correlation_id :: string
  jv_job_type :: string
  jv_recorded_status :: status
  jv_created_at :: "time option"
  jv_submission_requested_at :: "time option"
  jv_scheduler_acknowledged_at :: "time option"
  jv_scheduled_at :: "time option"
  jv_scheduler_retrieved_at :: "time option"
  jv_started_at :: "time option"
  jv_completed_at :: "time option"
  jv_scheduler_reference :: "string option"
  jv_max_attempts :: int
  jv_next_retry_at :: "time option"
  jv_last_failure_at :: "time option"
  jv_last_error_code :: "string option"
  jv_retry_requested :: bool
  jv_retry_acknowledged :: bool
  jv_retry_eligible :: bool
  jv_retry_requested_at :: "time option"
  jv_cancellation_violation :: bool
  jv_retries_exhausted_violation :: bool
  jv_incomplete_lifecycle :: bool
  jv_last_event_time :: "time option"
  jv_data_as_of :: "time option"
  jv_version :: int
  jv_attempts :: "(int, attempt) dict"
  jv_findings :: "(string, finding) dict"
  jv_decisions :: "projection_decision list"

definition new_job :: "string \<Rightarrow> job_visibility" where
  "new_job job_id =
     \<lparr>jv_job_id = job_id, jv_correlation_id = '''', jv_job_type = ''GENERIC'',
      jv_recorded_status = UNKNOWN, jv_created_at = None, jv_submission_requested_at = None,
      jv_scheduler_acknowledged_at = None, jv_scheduled_at = None,
      jv_scheduler_retrieved_at = None, jv_started_at = None, jv_completed_at = None,
      jv_scheduler_reference = None, jv_max_attempts = 3, jv_next_retry_at = None,
      jv_last_failure_at = None, jv_last_error_code = None, jv_retry_requested = False,
      jv_retry_acknowledged = False, jv_retry_eligible = False, jv_retry_requested_at = None,
      jv_cancellation_violation = False, jv_retries_exhausted_violation = False,
      jv_incomplete_lifecycle = False, jv_last_event_time = None, jv_data_as_of = None,
      jv_version = 0, jv_attempts = [], jv_findings = [], jv_decisions = []\<rparr>"

definition completed_attempts :: "job_visibility \<Rightarrow> int" where
  "completed_attempts j =
     int (length (filter (\<lambda>a. at_status a = AT_SUCCEEDED \<or> at_status a = AT_FAILED)
                         (dict_values (jv_attempts j))))"

text \<open>\<open>max(self.attempts, default=0) + 1\<close> where a retry is due, \<open>None\<close> otherwise.\<close>

definition next_attempt_number :: "job_visibility \<Rightarrow> int option" where
  "next_attempt_number j =
     (if is_terminal (jv_recorded_status j) \<and> \<not> jv_retry_acknowledged j then None
      else if jv_next_retry_at j \<noteq> None \<or> jv_retry_requested j
      then Some ((case dict_keys (jv_attempts j) of
                    [] \<Rightarrow> 0 | k # ks \<Rightarrow> foldl max k ks) + 1)
      else None)"

section \<open>Configuration and polls\<close>

record visibility_config =
  cf_poll_interval_seconds :: int
  cf_max_items_per_poll :: int
  cf_worker_capacity :: int
  cf_grace_period_seconds :: int
  cf_running_timeout_seconds :: int
  cf_retry_acknowledgement_timeout_seconds :: int
  cf_submission_acknowledgement_timeout_seconds :: int
  cf_eventual_consistency_target_seconds :: int

definition default_config :: visibility_config where
  "default_config =
     \<lparr>cf_poll_interval_seconds = 60, cf_max_items_per_poll = 100, cf_worker_capacity = 20,
      cf_grace_period_seconds = 600, cf_running_timeout_seconds = 1800,
      cf_retry_acknowledgement_timeout_seconds = 120,
      cf_submission_acknowledgement_timeout_seconds = 120,
      cf_eventual_consistency_target_seconds = 10\<rparr>"

record poll_record =
  pr_poll_id :: string
  pr_poll_time :: time
  pr_eligible_count :: int
  pr_retrieved_job_ids :: "string list"
  pr_batch_limit :: int

definition poll_record_to_dict :: "poll_record \<Rightarrow> json" where
  "poll_record_to_dict p =
     JObj [(''pollId'', JStr (pr_poll_id p)),
           (''pollTime'', jtime (Some (pr_poll_time p))),
           (''eligibleCount'', JInt (pr_eligible_count p)),
           (''retrievedJobIds'', JList (map JStr (pr_retrieved_job_ids p))),
           (''batchLimit'', JInt (pr_batch_limit p))]"

end
