(* ===== verification/Reducer.thy ===== *)
theory Reducer
  imports Visibility_Model
begin

text \<open>
  The lifecycle reducer of \<open>src/job_visibility/engine.py\<close>: the thirteen event handlers, their
  helpers and \<open>reduce_visibility\<close>. A handler takes the aggregate and the event and returns the
  aggregate it leaves behind, whether it changed anything and the reason it reports. The mutable
  \<open>Attempt\<close> object a handler holds is a reference into \<open>job.attempts\<close>: \<open>attempt_of\<close> fetches (or
  creates) it and every assignment to it is written back with \<open>put_attempt\<close>.
\<close>

section \<open>Helpers\<close>

definition earliest :: "time option \<Rightarrow> time option \<Rightarrow> time option" where
  "earliest left right =
     (case left of None \<Rightarrow> right
      | Some l \<Rightarrow> (case right of None \<Rightarrow> left | Some r \<Rightarrow> Some (min l r)))"

definition latest :: "time option \<Rightarrow> time option \<Rightarrow> time option" where
  "latest left right =
     (case left of None \<Rightarrow> right
      | Some l \<Rightarrow> (case right of None \<Rightarrow> left | Some r \<Rightarrow> Some (max l r)))"

definition raise_finding ::
  "job_visibility \<Rightarrow> string \<Rightarrow> time \<Rightarrow> string \<Rightarrow> job_visibility \<times> finding" where
  "raise_finding job code observed_at message =
     (let f = (case dict_get (jv_findings job) code of
                 Some existing \<Rightarrow> existing\<lparr>fi_active := True, fi_resolved_at := None\<rparr>
               | None \<Rightarrow> \<lparr>fi_code = code, fi_first_observed_at = observed_at,
                          fi_message = message, fi_active = True, fi_resolved_at = None\<rparr>)
      in (job\<lparr>jv_findings := dict_put code f (jv_findings job)\<rparr>, f))"

definition resolve :: "job_visibility \<Rightarrow> string \<Rightarrow> time \<Rightarrow> job_visibility" where
  "resolve job code resolved_at =
     (case dict_get (jv_findings job) code of
        None \<Rightarrow> job
      | Some f \<Rightarrow>
          if fi_active f
          then job\<lparr>jv_findings :=
                 dict_put code (f\<lparr>fi_active := False, fi_resolved_at := Some resolved_at\<rparr>)
                   (jv_findings job)\<rparr>
          else job)"

text \<open>\<open>event.attempt_number or 1\<close>: attempt number zero stands for the first attempt.\<close>

definition attempt_key :: "event \<Rightarrow> int" where
  "attempt_key e = (if ev_attempt_number e = 0 then 1 else ev_attempt_number e)"

definition attempt_of :: "job_visibility \<Rightarrow> event \<Rightarrow> job_visibility \<times> attempt" where
  "attempt_of job e =
     (let number = attempt_key e;
          job = (if number > 1 \<and>
                    list_ex (\<lambda>missing. dict_get (jv_attempts job) missing = None) [1..number - 1]
                 then fst (raise_finding (job\<lparr>jv_incomplete_lifecycle := True\<rparr>)
                        ''ATTEMPT_SEQUENCE_GAP'' (ev_ingestion_time e)
                        ''Observed attempt number has no complete preceding sequence.'')
                 else job)
      in case dict_get (jv_attempts job) number of
           Some a \<Rightarrow> (job, a)
         | None \<Rightarrow>
             (job\<lparr>jv_attempts := dict_put number (new_attempt number) (jv_attempts job)\<rparr>,
              new_attempt number))"

definition put_attempt :: "event \<Rightarrow> attempt \<Rightarrow> job_visibility \<Rightarrow> job_visibility" where
  "put_attempt e a job = job\<lparr>jv_attempts := dict_put (attempt_key e) a (jv_attempts job)\<rparr>"

definition is_semantic_duplicate :: "job_visibility \<Rightarrow> event \<Rightarrow> bool" where
  "is_semantic_duplicate job e =
     (case dict_get (jv_attempts job) (attempt_key e) of
        None \<Rightarrow> False
      | Some a \<Rightarrow>
          (ev_event_type e = JOB_EXECUTION_SUCCEEDED \<and> at_status a = AT_SUCCEEDED) \<or>
          (ev_event_type e = JOB_EXECUTION_FAILED \<and> at_status a = AT_FAILED))"

definition terminal_conflict :: "job_visibility \<Rightarrow> event \<Rightarrow> job_visibility" where
  "terminal_conflict job e =
     fst (raise_finding (job\<lparr>jv_incomplete_lifecycle := True\<rparr>)
       ''CONFLICTING_TERMINAL_OUTCOME'' (ev_ingestion_time e)
       ''Conflicting terminal execution outcomes were observed.'')"

section \<open>Handlers\<close>

type_synonym handler_result = "job_visibility \<times> bool \<times> string option"

definition on_job_created :: "job_visibility \<Rightarrow> event \<Rightarrow> handler_result" where
  "on_job_created job e =
     (let job = job\<lparr>jv_created_at := earliest (jv_created_at job) (Some (ev_event_time e))\<rparr>;
          job = (if jv_recorded_status job = UNKNOWN
                 then job\<lparr>jv_recorded_status := CREATED\<rparr> else job)
      in (job, True, None))"

definition on_job_scheduler_submission_requested ::
  "job_visibility \<Rightarrow> event \<Rightarrow> handler_result" where
  "on_job_scheduler_submission_requested job e =
     (let job = job\<lparr>jv_submission_requested_at :=
                  earliest (jv_submission_requested_at job) (Some (ev_event_time e))\<rparr>;
          job = (if \<not> is_terminal (jv_recorded_status job) \<and>
                    jv_recorded_status job \<notin> {RUNNING, RETRY_PENDING, RETRY_SCHEDULED}
                 then job\<lparr>jv_recorded_status := PENDING_SUBMISSION\<rparr> else job)
      in (job, True, None))"

definition on_job_scheduler_submission_acknowledged ::
  "job_visibility \<Rightarrow> event \<Rightarrow> handler_result" where
  "on_job_scheduler_submission_acknowledged job e =
     (let job = job\<lparr>jv_scheduler_acknowledged_at :=
                  earliest (jv_scheduler_acknowledged_at job) (Some (ev_event_time e))\<rparr>;
          job = (if \<not> is_terminal (jv_recorded_status job) \<and>
                    jv_recorded_status job \<notin>
                      {RUNNING, RETRY_PENDING, RETRY_SCHEDULED, AWAITING_EXECUTION}
                 then job\<lparr>jv_recorded_status := SCHEDULED\<rparr> else job);
          job = resolve job ''SCHEDULER_ACK_TIMEOUT'' (ev_ingestion_time e)
      in (job, True, None))"

definition on_job_scheduler_submission_failed ::
  "job_visibility \<Rightarrow> event \<Rightarrow> handler_result" where
  "on_job_scheduler_submission_failed job e =
     (if is_terminal (jv_recorded_status job)
      then (job, False, Some ''terminal state preserved'')
      else (job\<lparr>jv_recorded_status := FAILED,
                jv_completed_at := latest (jv_completed_at job) (Some (ev_event_time e))\<rparr>,
            True, None))"

definition on_job_scheduler_item_retrieved ::
  "job_visibility \<Rightarrow> event \<Rightarrow> handler_result" where
  "on_job_scheduler_item_retrieved job e =
     (let (job, a) = attempt_of job e;
          retrieved_at = opt_or (ev_poll_time e) (Some (ev_event_time e));
          a = a\<lparr>at_retrieved_at := earliest (at_retrieved_at a) retrieved_at\<rparr>;
          a = (if at_status a = AT_UNKNOWN then a\<lparr>at_status := AT_RETRIEVED\<rparr> else a);
          job = put_attempt e a job;
          job = job\<lparr>jv_scheduler_retrieved_at :=
                  earliest (jv_scheduler_retrieved_at job) retrieved_at\<rparr>;
          job = (if \<not> is_terminal (jv_recorded_status job) \<and> jv_recorded_status job \<noteq> RUNNING
                 then job\<lparr>jv_recorded_status := AWAITING_EXECUTION\<rparr> else job)
      in (job, True, None))"

definition on_job_execution_started :: "job_visibility \<Rightarrow> event \<Rightarrow> handler_result" where
  "on_job_execution_started job e =
     (let (job, a) = attempt_of job e;
          job = (if at_retrieved_at a = None
                 then job\<lparr>jv_incomplete_lifecycle := True\<rparr> else job);
          a = a\<lparr>at_started_at := earliest (at_started_at a) (Some (ev_event_time e))\<rparr>;
          job = put_attempt e a job;
          job = job\<lparr>jv_started_at := earliest (jv_started_at job) (Some (ev_event_time e))\<rparr>
      in if at_status a = AT_SUCCEEDED \<or> jv_recorded_status job = SUCCEEDED
         then (job, True, Some ''startedAt backfilled; successful terminal state preserved'')
         else if at_status a = AT_FAILED \<and> jv_recorded_status job = FAILED
         then (job, True, Some ''startedAt backfilled; failed terminal state preserved'')
         else
           (let job = put_attempt e (a\<lparr>at_status := AT_RUNNING\<rparr>) job;
                job = (if jv_recorded_status job = CANCELLED
                       then fst (raise_finding (job\<lparr>jv_cancellation_violation := True\<rparr>)
                              ''EXECUTED_AFTER_CANCEL'' (ev_ingestion_time e)
                              ''Execution was observed after cancellation.'')
                       else job);
                job = (if jv_recorded_status job = RETRIES_EXHAUSTED
                       then fst (raise_finding (job\<lparr>jv_retries_exhausted_violation := True\<rparr>)
                              ''EXECUTION_AFTER_RETRY_EXHAUSTION'' (ev_ingestion_time e)
                              ''Execution was observed after retries were exhausted.'')
                       else job)
            in (job\<lparr>jv_recorded_status := RUNNING\<rparr>, True, None)))"

definition on_job_execution_succeeded :: "job_visibility \<Rightarrow> event \<Rightarrow> handler_result" where
  "on_job_execution_succeeded job e =
     (let (job, a) = attempt_of job e
      in if at_status a = AT_FAILED \<or>
            (is_terminal (jv_recorded_status job) \<and>
             jv_recorded_status job \<notin> {SUCCEEDED, CANCELLED})
         then (terminal_conflict job e, True,
               Some ''conflicting terminal outcome retained; prior terminal state preserved'')
         else
           (let job = (if at_started_at a = None
                       then job\<lparr>jv_incomplete_lifecycle := True\<rparr> else job);
                job = (if jv_recorded_status job = CANCELLED
                       then fst (raise_finding (job\<lparr>jv_cancellation_violation := True\<rparr>)
                              ''EXECUTED_AFTER_CANCEL'' (ev_ingestion_time e)
                              ''Successful execution was observed after cancellation.'')
                       else job);
                a = a\<lparr>at_status := AT_SUCCEEDED,
                      at_completed_at := latest (at_completed_at a) (Some (ev_event_time e)),
                      at_result_code := Some (optstr_or (ev_result_code e) ''SUCCESS'')\<rparr>;
                job = put_attempt e a job;
                job = job\<lparr>jv_completed_at :=
                        latest (jv_completed_at job) (Some (ev_event_time e)),
                      jv_recorded_status := SUCCEEDED,
                      jv_retry_eligible := False,
                      jv_next_retry_at := None\<rparr>
            in (job, True, None)))"

definition on_job_execution_failed :: "job_visibility \<Rightarrow> event \<Rightarrow> handler_result" where
  "on_job_execution_failed job e =
     (let (job, a) = attempt_of job e
      in if at_status a = AT_SUCCEEDED \<or> jv_recorded_status job = SUCCEEDED
         then (terminal_conflict job e, True,
               Some ''conflicting late failure retained; success preserved'')
         else if is_terminal (jv_recorded_status job) \<and> jv_recorded_status job \<notin> {CANCELLED}
         then (terminal_conflict job e, True, Some ''terminal state preserved'')
         else
           (let job = (if at_started_at a = None
                       then job\<lparr>jv_incomplete_lifecycle := True\<rparr> else job);
                a = a\<lparr>at_status := AT_FAILED,
                      at_completed_at := latest (at_completed_at a) (Some (ev_event_time e)),
                      at_retryable := ev_retryable e,
                      at_error_code := ev_error_code e\<rparr>;
                job = put_attempt e a job;
                job = job\<lparr>jv_completed_at :=
                        latest (jv_completed_at job) (Some (ev_event_time e)),
                      jv_last_failure_at :=
                        latest (jv_last_failure_at job) (Some (ev_event_time e)),
                      jv_last_error_code := ev_error_code e,
                      jv_retry_eligible := (ev_retryable e = Some True),
                      jv_retry_requested := False,
                      jv_retry_acknowledged := False,
                      jv_next_retry_at := None,
                      jv_recorded_status :=
                        (if ev_retryable e = Some True then RETRY_PENDING else FAILED)\<rparr>
            in (job, True, None)))"

definition on_job_retry_requested :: "job_visibility \<Rightarrow> event \<Rightarrow> handler_result" where
  "on_job_retry_requested job e =
     (if is_terminal (jv_recorded_status job)
      then (job, False, Some ''terminal state preserved'')
      else (job\<lparr>jv_retry_requested := True,
                jv_retry_acknowledged := False,
                jv_retry_requested_at :=
                  latest (jv_retry_requested_at job) (Some (ev_event_time e)),
                jv_next_retry_at := None,
                jv_recorded_status := RETRY_PENDING\<rparr>,
            True, None))"

definition on_job_retry_acknowledged :: "job_visibility \<Rightarrow> event \<Rightarrow> handler_result" where
  "on_job_retry_acknowledged job e =
     (let job = job\<lparr>jv_retry_requested := True,
                  jv_retry_acknowledged := True,
                  jv_next_retry_at := opt_or (ev_next_retry_at e) (jv_next_retry_at job)\<rparr>;
          job = resolve job ''RETRY_ACK_TIMEOUT'' (ev_ingestion_time e);
          job = (if \<not> is_terminal (jv_recorded_status job) \<and> jv_recorded_status job \<noteq> RUNNING
                 then job\<lparr>jv_recorded_status := RETRY_SCHEDULED\<rparr> else job)
      in (job, True, None))"

definition on_job_retry_rejected :: "job_visibility \<Rightarrow> event \<Rightarrow> handler_result" where
  "on_job_retry_rejected job e =
     (if is_terminal (jv_recorded_status job)
      then (job, False, Some ''terminal state preserved'')
      else (job\<lparr>jv_retry_requested := True,
                jv_retry_acknowledged := False,
                jv_retry_eligible := False,
                jv_next_retry_at := None,
                jv_recorded_status := FAILED\<rparr>,
            True, None))"

definition on_job_retries_exhausted :: "job_visibility \<Rightarrow> event \<Rightarrow> handler_result" where
  "on_job_retries_exhausted job e =
     (if jv_recorded_status job = SUCCEEDED
      then (job, False, Some ''successful terminal state preserved'')
      else (job\<lparr>jv_recorded_status := RETRIES_EXHAUSTED,
                jv_retry_eligible := False,
                jv_retry_acknowledged := False,
                jv_next_retry_at := None,
                jv_completed_at := latest (jv_completed_at job) (Some (ev_event_time e))\<rparr>,
            True, None))"

definition on_job_cancelled :: "job_visibility \<Rightarrow> event \<Rightarrow> handler_result" where
  "on_job_cancelled job e =
     (if is_terminal (jv_recorded_status job)
      then (job, False, Some ''existing terminal state preserved'')
      else (job\<lparr>jv_recorded_status := CANCELLED,
                jv_completed_at := latest (jv_completed_at job) (Some (ev_event_time e))\<rparr>,
            True, None))"

text \<open>\<open>getattr(self, "_on_" + event_type.lower())\<close>: every member of the enumeration has one.\<close>

primrec handler_of :: "event_type \<Rightarrow> job_visibility \<Rightarrow> event \<Rightarrow> handler_result" where
  "handler_of JOB_CREATED = on_job_created"
| "handler_of JOB_SCHEDULER_SUBMISSION_REQUESTED = on_job_scheduler_submission_requested"
| "handler_of JOB_SCHEDULER_SUBMISSION_ACKNOWLEDGED = on_job_scheduler_submission_acknowledged"
| "handler_of JOB_SCHEDULER_SUBMISSION_FAILED = on_job_scheduler_submission_failed"
| "handler_of JOB_SCHEDULER_ITEM_RETRIEVED = on_job_scheduler_item_retrieved"
| "handler_of JOB_EXECUTION_STARTED = on_job_execution_started"
| "handler_of JOB_EXECUTION_SUCCEEDED = on_job_execution_succeeded"
| "handler_of JOB_EXECUTION_FAILED = on_job_execution_failed"
| "handler_of JOB_RETRY_REQUESTED = on_job_retry_requested"
| "handler_of JOB_RETRY_ACKNOWLEDGED = on_job_retry_acknowledged"
| "handler_of JOB_RETRY_REJECTED = on_job_retry_rejected"
| "handler_of JOB_RETRIES_EXHAUSTED = on_job_retries_exhausted"
| "handler_of JOB_CANCELLED = on_job_cancelled"

definition absorb_event :: "job_visibility \<Rightarrow> event \<Rightarrow> job_visibility" where
  "absorb_event job e =
     job\<lparr>jv_correlation_id := str_or (jv_correlation_id job) (ev_correlation_id e),
         jv_job_type := str_or (ev_job_type e) (jv_job_type job),
         jv_max_attempts := max (jv_max_attempts job) (ev_max_attempts e),
         jv_scheduled_at := opt_or (jv_scheduled_at job) (ev_scheduled_at e),
         jv_scheduler_reference :=
           (if truthy_str (ev_scheduler_reference e)
            then ev_scheduler_reference e else jv_scheduler_reference job)\<rparr>"

definition project :: "job_visibility \<Rightarrow> event \<Rightarrow> job_visibility \<times> projection_decision" where
  "project job e =
     (let (job, changed, reason) = handler_of (ev_event_type e) (absorb_event job e) e
      in (job, \<lparr>de_event_id = ev_event_id e,
                de_decision = (if changed then ''APPLIED'' else ''IGNORED''),
                de_reason = reason\<rparr>))"

section \<open>The reducer\<close>

definition reduce_step :: "job_visibility \<Rightarrow> event \<Rightarrow> job_visibility \<times> projection_decision" where
  "reduce_step job e =
     (let (job, decision) =
            (if is_semantic_duplicate job e
             then (job, \<lparr>de_event_id = ev_event_id e, de_decision = ''SEMANTIC_DUPLICATE'',
                         de_reason = Some ''same outcome already observed for job attempt''\<rparr>)
             else
               (let (job, decision) = project job e
                in (if de_decision decision \<noteq> ''IGNORED''
                    then job\<lparr>jv_version := jv_version job + 1\<rparr> else job, decision)));
          job = job\<lparr>jv_decisions := jv_decisions job @ [decision]\<rparr>;
          job = job\<lparr>jv_last_event_time :=
                  latest (jv_last_event_time job) (Some (ev_event_time e)),
                jv_data_as_of := latest (jv_data_as_of job) (Some (ev_ingestion_time e))\<rparr>
      in (job, decision))"

definition reduce_visibility ::
  "job_visibility option \<Rightarrow> event \<Rightarrow> (job_visibility \<times> projection_decision) result" where
  "reduce_visibility current e =
     (let job = (case current of Some j \<Rightarrow> j | None \<Rightarrow> new_job (ev_job_id e))
      in if jv_job_id job \<noteq> ev_job_id e
         then Inl (ValueError ''current projection and event must have the same job_id'')
         else Inr (reduce_step job e))"

text \<open>The handlers' definitions as one collection, for the proofs that unfold them all.\<close>

lemmas on_defs [handler_defs] =
  on_job_created_def on_job_scheduler_submission_requested_def
  on_job_scheduler_submission_acknowledged_def on_job_scheduler_submission_failed_def
  on_job_scheduler_item_retrieved_def on_job_execution_started_def
  on_job_execution_succeeded_def on_job_execution_failed_def on_job_retry_requested_def
  on_job_retry_acknowledged_def on_job_retry_rejected_def on_job_retries_exhausted_def
  on_job_cancelled_def

section \<open>Record-level views of the helpers\<close>

lemma earliest_simps [simp]:
  "earliest None r = r" "earliest l None = l" "earliest (Some a) (Some b) = Some (min a b)"
  by (simp_all add: earliest_def split: option.splits)

lemma latest_simps [simp]:
  "latest None r = r" "latest l None = l" "latest (Some a) (Some b) = Some (max a b)"
  by (simp_all add: latest_def split: option.splits)

lemma earliest_eq_None [simp]: "earliest a b = None \<longleftrightarrow> a = None \<and> b = None"
  by (cases a; cases b) simp_all

lemma latest_eq_None [simp]: "latest a b = None \<longleftrightarrow> a = None \<and> b = None"
  by (cases a; cases b) simp_all

definition raised :: "(string, finding) dict \<Rightarrow> string \<Rightarrow> time \<Rightarrow> string \<Rightarrow> finding" where
  "raised fs c t m =
     (case dict_get fs c of
        Some existing \<Rightarrow> existing\<lparr>fi_active := True, fi_resolved_at := None\<rparr>
      | None \<Rightarrow> \<lparr>fi_code = c, fi_first_observed_at = t, fi_message = m, fi_active = True,
                 fi_resolved_at = None\<rparr>)"

definition resolved :: "(string, finding) dict \<Rightarrow> string \<Rightarrow> time \<Rightarrow> (string, finding) dict" where
  "resolved fs c t =
     (case dict_get fs c of
        None \<Rightarrow> fs
      | Some f \<Rightarrow>
          if fi_active f
          then dict_put c (f\<lparr>fi_active := False, fi_resolved_at := Some t\<rparr>) fs else fs)"

lemma raise_finding_conv [handler_defs]:
  "raise_finding job c t m =
     (job\<lparr>jv_findings := dict_put c (raised (jv_findings job) c t m) (jv_findings job)\<rparr>,
      raised (jv_findings job) c t m)"
  by (simp add: raise_finding_def raised_def Let_def)

lemma resolve_conv [handler_defs]:
  "resolve job c t = job\<lparr>jv_findings := resolved (jv_findings job) c t\<rparr>"
  by (simp add: resolve_def resolved_def split: option.splits)

definition attempt_at :: "job_visibility \<Rightarrow> event \<Rightarrow> attempt" where
  "attempt_at job e =
     (case dict_get (jv_attempts job) (attempt_key e) of
        None \<Rightarrow> new_attempt (attempt_key e) | Some a \<Rightarrow> a)"

definition with_attempt :: "job_visibility \<Rightarrow> event \<Rightarrow> (int, attempt) dict" where
  "with_attempt job e = dict_put (attempt_key e) (attempt_at job e) (jv_attempts job)"

definition gap_before :: "job_visibility \<Rightarrow> event \<Rightarrow> bool" where
  "gap_before job e \<longleftrightarrow>
     (\<exists>missing. 1 \<le> missing \<and> missing < attempt_key e \<and>
        missing \<notin> set (dict_keys (jv_attempts job)))"

definition gap_findings :: "job_visibility \<Rightarrow> event \<Rightarrow> (string, finding) dict" where
  "gap_findings job e =
     (if gap_before job e
      then dict_put ''ATTEMPT_SEQUENCE_GAP''
             (raised (jv_findings job) ''ATTEMPT_SEQUENCE_GAP'' (ev_ingestion_time e)
                ''Observed attempt number has no complete preceding sequence.'')
             (jv_findings job)
      else jv_findings job)"

lemma attempt_of_conv [handler_defs]:
  "attempt_of job e =
     (job\<lparr>jv_incomplete_lifecycle := gap_before job e \<or> jv_incomplete_lifecycle job,
          jv_findings := gap_findings job e,
          jv_attempts := with_attempt job e\<rparr>,
      attempt_at job e)"
proof -
  have gap: "(attempt_key e > 1 \<and>
      list_ex (\<lambda>missing. dict_get (jv_attempts job) missing = None) [1..attempt_key e - 1])
    \<longleftrightarrow> gap_before job e"
    unfolding gap_before_def list_ex_iff set_upto by (auto simp: map_of_eq_None_iff)
  show ?thesis
    unfolding attempt_of_def Let_def gap
    by (auto simp: attempt_at_def with_attempt_def gap_findings_def raise_finding_conv
        update_triv split: option.splits)
qed

lemma put_attempt_conv [handler_defs]:
  "put_attempt e a job = job\<lparr>jv_attempts := dict_put (attempt_key e) a (jv_attempts job)\<rparr>"
  by (fact put_attempt_def)

lemma put_with_attempt [simp]:
  "dict_put (attempt_key e) a (with_attempt job e) = dict_put (attempt_key e) a (jv_attempts job)"
  by (simp add: with_attempt_def)

lemma terminal_conflict_conv [handler_defs]:
  "terminal_conflict job e =
     job\<lparr>jv_incomplete_lifecycle := True,
         jv_findings :=
           dict_put ''CONFLICTING_TERMINAL_OUTCOME''
             (raised (jv_findings job) ''CONFLICTING_TERMINAL_OUTCOME'' (ev_ingestion_time e)
                ''Conflicting terminal execution outcomes were observed.'')
             (jv_findings job)\<rparr>"
  by (simp add: terminal_conflict_def raise_finding_conv)

lemma attempt_at_absorb [simp]:
  "attempt_at (absorb_event job e) e' = attempt_at job e'"
  "with_attempt (absorb_event job e) e' = with_attempt job e'"
  "gap_before (absorb_event job e) e' = gap_before job e'"
  by (simp_all add: absorb_event_def attempt_at_def with_attempt_def gap_before_def)

lemma gap_findings_absorb [simp]: "gap_findings (absorb_event job e) e' = gap_findings job e'"
  by (simp add: gap_findings_def) (simp add: absorb_event_def)

lemma absorb_frame [simp]:
  "jv_job_id (absorb_event job e) = jv_job_id job"
  "jv_recorded_status (absorb_event job e) = jv_recorded_status job"
  "jv_created_at (absorb_event job e) = jv_created_at job"
  "jv_submission_requested_at (absorb_event job e) = jv_submission_requested_at job"
  "jv_scheduler_acknowledged_at (absorb_event job e) = jv_scheduler_acknowledged_at job"
  "jv_scheduler_retrieved_at (absorb_event job e) = jv_scheduler_retrieved_at job"
  "jv_started_at (absorb_event job e) = jv_started_at job"
  "jv_completed_at (absorb_event job e) = jv_completed_at job"
  "jv_next_retry_at (absorb_event job e) = jv_next_retry_at job"
  "jv_retry_requested (absorb_event job e) = jv_retry_requested job"
  "jv_retry_acknowledged (absorb_event job e) = jv_retry_acknowledged job"
  "jv_retry_eligible (absorb_event job e) = jv_retry_eligible job"
  "jv_retry_requested_at (absorb_event job e) = jv_retry_requested_at job"
  "jv_last_failure_at (absorb_event job e) = jv_last_failure_at job"
  "jv_last_error_code (absorb_event job e) = jv_last_error_code job"
  "jv_cancellation_violation (absorb_event job e) = jv_cancellation_violation job"
  "jv_retries_exhausted_violation (absorb_event job e) = jv_retries_exhausted_violation job"
  "jv_incomplete_lifecycle (absorb_event job e) = jv_incomplete_lifecycle job"
  "jv_last_event_time (absorb_event job e) = jv_last_event_time job"
  "jv_data_as_of (absorb_event job e) = jv_data_as_of job"
  "jv_version (absorb_event job e) = jv_version job"
  "jv_attempts (absorb_event job e) = jv_attempts job"
  "jv_findings (absorb_event job e) = jv_findings job"
  "jv_decisions (absorb_event job e) = jv_decisions job"
  by (simp_all add: absorb_event_def)

lemma is_semantic_duplicate_iff:
  "is_semantic_duplicate job e \<longleftrightarrow>
     (ev_event_type e = JOB_EXECUTION_SUCCEEDED \<and> at_status (attempt_at job e) = AT_SUCCEEDED) \<or>
     (ev_event_type e = JOB_EXECUTION_FAILED \<and> at_status (attempt_at job e) = AT_FAILED)"
  by (auto simp: is_semantic_duplicate_def attempt_at_def new_attempt_def split: option.splits)

section \<open>One reduction in terms of the handler\<close>

text \<open>The aggregate after the handler (or the semantic duplicate), before the bookkeeping.\<close>

definition handled :: "job_visibility \<Rightarrow> event \<Rightarrow> job_visibility" where
  "handled job e =
     (if is_semantic_duplicate job e then job
      else fst (handler_of (ev_event_type e) (absorb_event job e) e))"

lemma handler_frame [frame_simps]:
  "jv_job_id (fst (handler_of t job e)) = jv_job_id job"
  "jv_version (fst (handler_of t job e)) = jv_version job"
  "jv_decisions (fst (handler_of t job e)) = jv_decisions job"
  "jv_last_event_time (fst (handler_of t job e)) = jv_last_event_time job"
  "jv_data_as_of (fst (handler_of t job e)) = jv_data_as_of job"
  "jv_scheduled_at (fst (handler_of t job e)) = jv_scheduled_at job"
  "jv_max_attempts (fst (handler_of t job e)) = jv_max_attempts job"
  by (cases t; simp add: handler_defs Let_def)+

lemma handled_frame [frame_simps]:
  "jv_job_id (handled job e) = jv_job_id job"
  "jv_version (handled job e) = jv_version job"
  "jv_decisions (handled job e) = jv_decisions job"
  "jv_last_event_time (handled job e) = jv_last_event_time job"
  "jv_data_as_of (handled job e) = jv_data_as_of job"
  by (simp_all add: handled_def frame_simps)

definition decision_of :: "job_visibility \<Rightarrow> event \<Rightarrow> projection_decision" where
  "decision_of job e = snd (reduce_step job e)"

lemma decision_of_id [simp]: "de_event_id (decision_of job e) = ev_event_id e"
  by (simp add: decision_of_def reduce_step_def project_def Let_def split_beta)

lemma reduce_step_conv:
  "reduce_step job e =
     ((handled job e)\<lparr>
        jv_version := jv_version job + (if de_decision (decision_of job e) = ''APPLIED'' then 1 else 0),
        jv_decisions := jv_decisions job @ [decision_of job e],
        jv_last_event_time := latest (jv_last_event_time job) (Some (ev_event_time e)),
        jv_data_as_of := latest (jv_data_as_of job) (Some (ev_ingestion_time e))\<rparr>,
      decision_of job e)"
  by (simp add: reduce_step_def decision_of_def project_def handled_def Let_def split_beta
      frame_simps)

end
