(* ===== verification/Reducer_Table.thy ===== *)
theory Reducer_Table
  imports Reducer
begin

text \<open>
  The reducer's contract as a decision table: which statuses an event type moves, what it does to
  the attempt it is about, to the retry flags, the times and the findings. The theorems show that
  the thirteen handlers of the engine compute exactly this table; every later proof about the
  reducer works on the table.
\<close>

section \<open>The decision table\<close>

text \<open>
  The contract of the reducer, field by field instead of handler by handler. An event type is
  enabled in some recorded statuses and has one target status; the execution events further look
  at the status of their own attempt. \<open>accepted\<close> says that the event is allowed to move the job.
\<close>

primrec enabled :: "event_type \<Rightarrow> status \<Rightarrow> bool" where
  "enabled JOB_CREATED s \<longleftrightarrow> s = UNKNOWN"
| "enabled JOB_SCHEDULER_SUBMISSION_REQUESTED s \<longleftrightarrow>
     \<not> is_terminal s \<and> s \<noteq> RUNNING \<and> s \<noteq> RETRY_PENDING \<and> s \<noteq> RETRY_SCHEDULED"
| "enabled JOB_SCHEDULER_SUBMISSION_ACKNOWLEDGED s \<longleftrightarrow>
     \<not> is_terminal s \<and> s \<noteq> RUNNING \<and> s \<noteq> RETRY_PENDING \<and> s \<noteq> RETRY_SCHEDULED \<and>
     s \<noteq> AWAITING_EXECUTION"
| "enabled JOB_SCHEDULER_SUBMISSION_FAILED s \<longleftrightarrow> \<not> is_terminal s"
| "enabled JOB_SCHEDULER_ITEM_RETRIEVED s \<longleftrightarrow> \<not> is_terminal s \<and> s \<noteq> RUNNING"
| "enabled JOB_EXECUTION_STARTED s \<longleftrightarrow> s \<noteq> SUCCEEDED"
| "enabled JOB_EXECUTION_SUCCEEDED s \<longleftrightarrow> \<not> is_terminal s \<or> s = SUCCEEDED \<or> s = CANCELLED"
| "enabled JOB_EXECUTION_FAILED s \<longleftrightarrow> \<not> is_terminal s \<or> s = CANCELLED"
| "enabled JOB_RETRY_REQUESTED s \<longleftrightarrow> \<not> is_terminal s"
| "enabled JOB_RETRY_ACKNOWLEDGED s \<longleftrightarrow> \<not> is_terminal s \<and> s \<noteq> RUNNING"
| "enabled JOB_RETRY_REJECTED s \<longleftrightarrow> \<not> is_terminal s"
| "enabled JOB_RETRIES_EXHAUSTED s \<longleftrightarrow> s \<noteq> SUCCEEDED"
| "enabled JOB_CANCELLED s \<longleftrightarrow> \<not> is_terminal s"

primrec target :: "event_type \<Rightarrow> bool option \<Rightarrow> status" where
  "target JOB_CREATED r = CREATED"
| "target JOB_SCHEDULER_SUBMISSION_REQUESTED r = PENDING_SUBMISSION"
| "target JOB_SCHEDULER_SUBMISSION_ACKNOWLEDGED r = SCHEDULED"
| "target JOB_SCHEDULER_SUBMISSION_FAILED r = FAILED"
| "target JOB_SCHEDULER_ITEM_RETRIEVED r = AWAITING_EXECUTION"
| "target JOB_EXECUTION_STARTED r = RUNNING"
| "target JOB_EXECUTION_SUCCEEDED r = SUCCEEDED"
| "target JOB_EXECUTION_FAILED r = (if r = Some True then RETRY_PENDING else FAILED)"
| "target JOB_RETRY_REQUESTED r = RETRY_PENDING"
| "target JOB_RETRY_ACKNOWLEDGED r = RETRY_SCHEDULED"
| "target JOB_RETRY_REJECTED r = FAILED"
| "target JOB_RETRIES_EXHAUSTED r = RETRIES_EXHAUSTED"
| "target JOB_CANCELLED r = CANCELLED"

definition attempt_permits :: "event_type \<Rightarrow> string \<Rightarrow> status \<Rightarrow> bool" where
  "attempt_permits t a s \<longleftrightarrow>
     (t = JOB_EXECUTION_STARTED \<longrightarrow> a \<noteq> AT_SUCCEEDED \<and> \<not> (a = AT_FAILED \<and> s = FAILED)) \<and>
     (t = JOB_EXECUTION_SUCCEEDED \<or> t = JOB_EXECUTION_FAILED \<longrightarrow>
        a \<noteq> AT_SUCCEEDED \<and> a \<noteq> AT_FAILED)"

definition accepted :: "job_visibility \<Rightarrow> event \<Rightarrow> bool" where
  "accepted job e \<longleftrightarrow>
     enabled (ev_event_type e) (jv_recorded_status job) \<and>
     attempt_permits (ev_event_type e) (at_status (attempt_at job e)) (jv_recorded_status job)"

definition attempt_events :: "event_type list" where
  "attempt_events =
     [JOB_SCHEDULER_ITEM_RETRIEVED, JOB_EXECUTION_STARTED, JOB_EXECUTION_SUCCEEDED,
      JOB_EXECUTION_FAILED]"

definition retrieval_time :: "event \<Rightarrow> time option" where
  "retrieval_time e = opt_or (ev_poll_time e) (Some (ev_event_time e))"

text \<open>The attempt an event is about, after the event.\<close>

definition attempt_after :: "job_visibility \<Rightarrow> event \<Rightarrow> attempt" where
  "attempt_after job e =
     (let a = attempt_at job e; now = Some (ev_event_time e)
      in case ev_event_type e of
           JOB_SCHEDULER_ITEM_RETRIEVED \<Rightarrow>
             (let a = a\<lparr>at_retrieved_at := earliest (at_retrieved_at a) (retrieval_time e)\<rparr>
              in if at_status a = AT_UNKNOWN then a\<lparr>at_status := AT_RETRIEVED\<rparr> else a)
         | JOB_EXECUTION_STARTED \<Rightarrow>
             (let a = a\<lparr>at_started_at := earliest (at_started_at a) now\<rparr>
              in if accepted job e then a\<lparr>at_status := AT_RUNNING\<rparr> else a)
         | JOB_EXECUTION_SUCCEEDED \<Rightarrow>
             (if accepted job e
              then a\<lparr>at_status := AT_SUCCEEDED,
                     at_completed_at := latest (at_completed_at a) now,
                     at_result_code := Some (optstr_or (ev_result_code e) ''SUCCESS'')\<rparr>
              else a)
         | JOB_EXECUTION_FAILED \<Rightarrow>
             (if accepted job e
              then a\<lparr>at_status := AT_FAILED,
                     at_completed_at := latest (at_completed_at a) now,
                     at_retryable := ev_retryable e,
                     at_error_code := ev_error_code e\<rparr>
              else a)
         | _ \<Rightarrow> a)"

definition conflict_findings ::
  "job_visibility \<Rightarrow> event \<Rightarrow> (string, finding) dict \<Rightarrow> (string, finding) dict" where
  "conflict_findings job e fs =
     (if accepted job e then fs
      else dict_put ''CONFLICTING_TERMINAL_OUTCOME''
             (raised fs ''CONFLICTING_TERMINAL_OUTCOME'' (ev_ingestion_time e)
                ''Conflicting terminal execution outcomes were observed.'') fs)"

definition findings_after :: "job_visibility \<Rightarrow> event \<Rightarrow> (string, finding) dict" where
  "findings_after job e =
     (let s = jv_recorded_status job; t = ev_ingestion_time e;
          raise_when = (\<lambda>b code message fs.
             if b then dict_put code (raised fs code t message) fs else fs)
      in case ev_event_type e of
           JOB_SCHEDULER_SUBMISSION_ACKNOWLEDGED \<Rightarrow>
             resolved (jv_findings job) ''SCHEDULER_ACK_TIMEOUT'' t
         | JOB_RETRY_ACKNOWLEDGED \<Rightarrow> resolved (jv_findings job) ''RETRY_ACK_TIMEOUT'' t
         | JOB_SCHEDULER_ITEM_RETRIEVED \<Rightarrow> gap_findings job e
         | JOB_EXECUTION_STARTED \<Rightarrow>
             raise_when (accepted job e \<and> s = RETRIES_EXHAUSTED)
               ''EXECUTION_AFTER_RETRY_EXHAUSTION''
               ''Execution was observed after retries were exhausted.''
               (raise_when (accepted job e \<and> s = CANCELLED)
                  ''EXECUTED_AFTER_CANCEL'' ''Execution was observed after cancellation.''
                  (gap_findings job e))
         | JOB_EXECUTION_SUCCEEDED \<Rightarrow>
             raise_when (accepted job e \<and> s = CANCELLED)
               ''EXECUTED_AFTER_CANCEL'' ''Successful execution was observed after cancellation.''
               (conflict_findings job e (gap_findings job e))
         | JOB_EXECUTION_FAILED \<Rightarrow> conflict_findings job e (gap_findings job e)
         | _ \<Rightarrow> jv_findings job)"

definition table_step :: "job_visibility \<Rightarrow> event \<Rightarrow> job_visibility" where
  "table_step job e =
     (let t = ev_event_type e; s = jv_recorded_status job; ok = accepted job e;
          now = Some (ev_event_time e)
      in job\<lparr>
        jv_recorded_status := (if ok then target t (ev_retryable e) else s),
        jv_created_at :=
          (if t = JOB_CREATED then earliest (jv_created_at job) now else jv_created_at job),
        jv_submission_requested_at :=
          (if t = JOB_SCHEDULER_SUBMISSION_REQUESTED
           then earliest (jv_submission_requested_at job) now
           else jv_submission_requested_at job),
        jv_scheduler_acknowledged_at :=
          (if t = JOB_SCHEDULER_SUBMISSION_ACKNOWLEDGED
           then earliest (jv_scheduler_acknowledged_at job) now
           else jv_scheduler_acknowledged_at job),
        jv_scheduler_retrieved_at :=
          (if t = JOB_SCHEDULER_ITEM_RETRIEVED
           then earliest (jv_scheduler_retrieved_at job) (retrieval_time e)
           else jv_scheduler_retrieved_at job),
        jv_started_at :=
          (if t = JOB_EXECUTION_STARTED then earliest (jv_started_at job) now
           else jv_started_at job),
        jv_completed_at :=
          (if ok \<and> t \<in> {JOB_SCHEDULER_SUBMISSION_FAILED, JOB_EXECUTION_SUCCEEDED,
                       JOB_EXECUTION_FAILED, JOB_RETRIES_EXHAUSTED, JOB_CANCELLED}
           then latest (jv_completed_at job) now else jv_completed_at job),
        jv_next_retry_at :=
          (if t = JOB_RETRY_ACKNOWLEDGED then opt_or (ev_next_retry_at e) (jv_next_retry_at job)
           else if ok \<and> t \<in> {JOB_EXECUTION_SUCCEEDED, JOB_EXECUTION_FAILED, JOB_RETRY_REQUESTED,
                            JOB_RETRY_REJECTED, JOB_RETRIES_EXHAUSTED}
           then None else jv_next_retry_at job),
        jv_last_failure_at :=
          (if ok \<and> t = JOB_EXECUTION_FAILED then latest (jv_last_failure_at job) now
           else jv_last_failure_at job),
        jv_last_error_code :=
          (if ok \<and> t = JOB_EXECUTION_FAILED then ev_error_code e else jv_last_error_code job),
        jv_retry_requested :=
          (if t = JOB_RETRY_ACKNOWLEDGED \<or> ok \<and> t \<in> {JOB_RETRY_REQUESTED, JOB_RETRY_REJECTED}
           then True
           else if ok \<and> t = JOB_EXECUTION_FAILED then False else jv_retry_requested job),
        jv_retry_acknowledged :=
          (if t = JOB_RETRY_ACKNOWLEDGED then True
           else if ok \<and> t \<in> {JOB_EXECUTION_FAILED, JOB_RETRY_REQUESTED, JOB_RETRY_REJECTED,
                            JOB_RETRIES_EXHAUSTED}
           then False else jv_retry_acknowledged job),
        jv_retry_eligible :=
          (if ok \<and> t = JOB_EXECUTION_FAILED then ev_retryable e = Some True
           else if ok \<and> t \<in> {JOB_EXECUTION_SUCCEEDED, JOB_RETRY_REJECTED, JOB_RETRIES_EXHAUSTED}
           then False else jv_retry_eligible job),
        jv_retry_requested_at :=
          (if ok \<and> t = JOB_RETRY_REQUESTED then latest (jv_retry_requested_at job) now
           else jv_retry_requested_at job),
        jv_cancellation_violation :=
          (jv_cancellation_violation job \<or>
           ok \<and> s = CANCELLED \<and> t \<in> {JOB_EXECUTION_STARTED, JOB_EXECUTION_SUCCEEDED}),
        jv_retries_exhausted_violation :=
          (jv_retries_exhausted_violation job \<or>
           ok \<and> s = RETRIES_EXHAUSTED \<and> t = JOB_EXECUTION_STARTED),
        jv_incomplete_lifecycle :=
          (t \<in> set attempt_events \<and> gap_before job e \<or> jv_incomplete_lifecycle job \<or>
           t = JOB_EXECUTION_STARTED \<and> at_retrieved_at (attempt_at job e) = None \<or>
           t \<in> {JOB_EXECUTION_SUCCEEDED, JOB_EXECUTION_FAILED} \<and>
             (\<not> ok \<or> at_started_at (attempt_at job e) = None)),
        jv_attempts :=
          (if t \<in> set attempt_events
           then dict_put (attempt_key e) (attempt_after job e) (jv_attempts job)
           else jv_attempts job),
        jv_findings := findings_after job e\<rparr>)"

lemmas table_defs =
  table_step_def accepted_def attempt_permits_def attempt_events_def attempt_after_def
  retrieval_time_def conflict_findings_def findings_after_def

lemma with_attempt_known:
  "at_status (attempt_at job e) \<noteq> AT_UNKNOWN \<Longrightarrow> with_attempt job e = jv_attempts job"
  by (simp add: with_attempt_def attempt_at_def new_attempt_def update_triv split: option.splits)

text \<open>Each handler computes its row of the table: field by field, by rewriting.\<close>

lemma table_job_created:
  "ev_event_type e = JOB_CREATED \<Longrightarrow> fst (on_job_created job e) = table_step job e"
  by (rule job_visibility.equality)
    (simp_all add: handler_defs Let_def table_defs)

lemma table_job_scheduler_submission_requested:
  "ev_event_type e = JOB_SCHEDULER_SUBMISSION_REQUESTED \<Longrightarrow>
   fst (on_job_scheduler_submission_requested job e) = table_step job e"
  by (rule job_visibility.equality)
    (simp_all add: handler_defs Let_def table_defs)

lemma table_job_scheduler_submission_acknowledged:
  "ev_event_type e = JOB_SCHEDULER_SUBMISSION_ACKNOWLEDGED \<Longrightarrow>
   fst (on_job_scheduler_submission_acknowledged job e) = table_step job e"
  by (rule job_visibility.equality)
    (simp_all add: handler_defs Let_def table_defs)

lemma table_job_scheduler_submission_failed:
  "ev_event_type e = JOB_SCHEDULER_SUBMISSION_FAILED \<Longrightarrow>
   fst (on_job_scheduler_submission_failed job e) = table_step job e"
  by (rule job_visibility.equality)
    (simp_all add: handler_defs Let_def table_defs)

lemma table_job_scheduler_item_retrieved:
  "ev_event_type e = JOB_SCHEDULER_ITEM_RETRIEVED \<Longrightarrow>
   fst (on_job_scheduler_item_retrieved job e) = table_step job e"
  by (rule job_visibility.equality)
    (simp_all add: handler_defs Let_def table_defs)

lemma table_job_execution_started:
  "ev_event_type e = JOB_EXECUTION_STARTED \<Longrightarrow>
   fst (on_job_execution_started job e) = table_step job e"
  by (rule job_visibility.equality, simp_all add: handler_defs Let_def table_defs, auto)

lemma table_job_execution_succeeded:
  "ev_event_type e = JOB_EXECUTION_SUCCEEDED \<Longrightarrow> \<not> is_semantic_duplicate job e \<Longrightarrow>
   fst (on_job_execution_succeeded job e) = table_step job e"
  by (rule job_visibility.equality, simp_all add: handler_defs Let_def table_defs
      is_semantic_duplicate_iff with_attempt_def, auto)

lemma table_job_execution_failed:
  "ev_event_type e = JOB_EXECUTION_FAILED \<Longrightarrow> \<not> is_semantic_duplicate job e \<Longrightarrow>
   fst (on_job_execution_failed job e) = table_step job e"
  by (rule job_visibility.equality, simp_all add: handler_defs Let_def table_defs
      is_semantic_duplicate_iff with_attempt_def, auto)

lemma table_job_retry_requested:
  "ev_event_type e = JOB_RETRY_REQUESTED \<Longrightarrow> fst (on_job_retry_requested job e) = table_step job e"
  by (rule job_visibility.equality)
    (simp_all add: handler_defs Let_def table_defs)

lemma table_job_retry_acknowledged:
  "ev_event_type e = JOB_RETRY_ACKNOWLEDGED \<Longrightarrow>
   fst (on_job_retry_acknowledged job e) = table_step job e"
  by (rule job_visibility.equality)
    (simp_all add: handler_defs Let_def table_defs)

lemma table_job_retry_rejected:
  "ev_event_type e = JOB_RETRY_REJECTED \<Longrightarrow> fst (on_job_retry_rejected job e) = table_step job e"
  by (rule job_visibility.equality)
    (simp_all add: handler_defs Let_def table_defs)

lemma table_job_retries_exhausted:
  "ev_event_type e = JOB_RETRIES_EXHAUSTED \<Longrightarrow>
   fst (on_job_retries_exhausted job e) = table_step job e"
  by (rule job_visibility.equality)
    (simp_all add: handler_defs Let_def table_defs)

lemma table_job_cancelled:
  "ev_event_type e = JOB_CANCELLED \<Longrightarrow> fst (on_job_cancelled job e) = table_step job e"
  by (rule job_visibility.equality)
    (simp_all add: handler_defs Let_def table_defs)

lemmas handler_rows =
  table_job_created
  table_job_scheduler_submission_requested
  table_job_scheduler_submission_acknowledged
  table_job_scheduler_submission_failed
  table_job_scheduler_item_retrieved
  table_job_execution_started
  table_job_execution_succeeded
  table_job_execution_failed
  table_job_retry_requested
  table_job_retry_acknowledged
  table_job_retry_rejected
  table_job_retries_exhausted
  table_job_cancelled

lemma is_semantic_duplicate_absorb [simp]:
  "is_semantic_duplicate (absorb_event job e) e' = is_semantic_duplicate job e'"
  by (simp add: is_semantic_duplicate_iff)

lemma handler_table:
  "\<not> is_semantic_duplicate job e \<Longrightarrow>
   fst (handler_of (ev_event_type e) job e) = table_step job e"
  by (cases "ev_event_type e") (simp_all add: handler_rows)

lemma handled_table:
  "handled job e = (if is_semantic_duplicate job e then job else table_step (absorb_event job e) e)"
  by (simp add: handled_def handler_table)

section \<open>Decisions of the reducer\<close>

text \<open>The event types whose handlers refuse instead of absorbing a late event.\<close>

definition refusing_events :: "event_type list" where
  "refusing_events =
     [JOB_SCHEDULER_SUBMISSION_FAILED, JOB_RETRY_REQUESTED, JOB_RETRY_REJECTED,
      JOB_RETRIES_EXHAUSTED, JOB_CANCELLED]"

definition decision_kind :: "job_visibility \<Rightarrow> event \<Rightarrow> string" where
  "decision_kind job e =
     (if is_semantic_duplicate job e then ''SEMANTIC_DUPLICATE''
      else if ev_event_type e \<in> set refusing_events \<and> \<not> accepted job e then ''IGNORED''
      else ''APPLIED'')"

lemma decision_of_kind: "de_decision (decision_of job e) = decision_kind job e"
proof (cases "is_semantic_duplicate job e")
  case True
  then show ?thesis
    by (simp add: decision_kind_def decision_of_def reduce_step_def Let_def)
next
  case False
  then show ?thesis
    by (cases "ev_event_type e")
      (simp_all add: decision_kind_def refusing_events_def decision_of_def reduce_step_def
        project_def Let_def split_beta handler_defs accepted_def attempt_permits_def)
qed

text \<open>
  C6. The thirteen handlers, with the semantic-duplicate check and the bookkeeping around them,
  compute the decision table: for an aggregate and an event of the same job the reducer returns
  exactly the row of the table (or the untouched aggregate for a repeated outcome), logs the
  decision kind the table predicts and moves the version only when the event was applied.
\<close>

theorem reducer_decision_table:
  assumes "jv_job_id job = ev_job_id e"
  shows "\<exists>r. let d = \<lparr>de_event_id = ev_event_id e, de_decision = decision_kind job e,
                     de_reason = r\<rparr>
    in reduce_visibility (Some job) e =
      Inr ((if is_semantic_duplicate job e then job else table_step (absorb_event job e) e)\<lparr>
             jv_version := jv_version job + (if decision_kind job e = ''APPLIED'' then 1 else 0),
             jv_decisions := jv_decisions job @ [d],
             jv_last_event_time := latest (jv_last_event_time job) (Some (ev_event_time e)),
             jv_data_as_of := latest (jv_data_as_of job) (Some (ev_ingestion_time e))\<rparr>, d)"
proof -
  obtain r where d: "decision_of job e = \<lparr>de_event_id = ev_event_id e,
      de_decision = decision_kind job e, de_reason = r\<rparr>"
    by (cases "decision_of job e") (metis decision_of_id decision_of_kind
        projection_decision.select_convs(1,2))
  show ?thesis
    using assms
    by (intro exI [of _ r]) (simp add: reduce_visibility_def Let_def reduce_step_conv d handled_table)
qed

theorem reducer_decision_table_witness:
  "let e = new_event ''evt-1'' JOB_CREATED 0 0 ''job-1'' in
   \<exists>r. let d = \<lparr>de_event_id = ''evt-1'', de_decision = ''APPLIED'', de_reason = r\<rparr>
    in reduce_visibility (Some (new_job ''job-1'')) e =
      Inr ((table_step (absorb_event (new_job ''job-1'') e) e)\<lparr>
             jv_version := 1, jv_decisions := [d],
             jv_last_event_time := Some 0, jv_data_as_of := Some 0\<rparr>, d)"
  using reducer_decision_table [of "new_job ''job-1''" "new_event ''evt-1'' JOB_CREATED 0 0 ''job-1''"]
  by (simp add: new_job_def new_event_def decision_kind_def is_semantic_duplicate_def
      refusing_events_def)

end
