(* ===== verification/Reducer_Lifecycle.thy ===== *)
theory Reducer_Lifecycle
  imports Reducer_Table "HOL-Library.Sublist"
begin

text \<open>
  What the reducer keeps over whole event histories: well-formed aggregates, evidence for the
  recorded status, the exits of the terminal statuses and the facts no later event takes back.
  The proofs read the reducer through its decision table (\<open>Reducer_Table\<close>), one field at a time.
\<close>

section \<open>One reduction, field by field\<close>

lemma reduce_step_table:
  "fst (reduce_step job e) =
     (if is_semantic_duplicate job e then job else table_step (absorb_event job e) e)\<lparr>
        jv_version := jv_version job + (if de_decision (decision_of job e) = ''APPLIED'' then 1 else 0),
        jv_decisions := jv_decisions job @ [decision_of job e],
        jv_last_event_time := latest (jv_last_event_time job) (Some (ev_event_time e)),
        jv_data_as_of := latest (jv_data_as_of job) (Some (ev_ingestion_time e))\<rparr>"
  by (simp add: reduce_step_conv handled_table)

lemma accepted_absorb [simp]: "accepted (absorb_event job e) e = accepted job e"
  by (simp add: accepted_def)

lemma attempt_after_absorb [simp]: "attempt_after (absorb_event job e) e = attempt_after job e"
  by (cases "ev_event_type e") (simp_all add: attempt_after_def Let_def)

lemma findings_after_absorb [simp]: "findings_after (absorb_event job e) e = findings_after job e"
  by (cases "ev_event_type e") (simp_all add: findings_after_def conflict_findings_def Let_def)

lemma duplicate_not_accepted: "is_semantic_duplicate job e \<Longrightarrow> \<not> accepted job e"
  by (auto simp: is_semantic_duplicate_iff accepted_def attempt_permits_def)

lemma duplicate_type:
  "is_semantic_duplicate job e \<Longrightarrow>
   ev_event_type e = JOB_EXECUTION_SUCCEEDED \<or> ev_event_type e = JOB_EXECUTION_FAILED"
  by (auto simp: is_semantic_duplicate_iff)

lemma duplicate_attempt_after:
  assumes "is_semantic_duplicate job e"
  shows "dict_put (attempt_key e) (attempt_after job e) (jv_attempts job) = jv_attempts job"
proof -
  from assms have "attempt_after job e = attempt_at job e"
    using duplicate_not_accepted [OF assms]
    by (auto simp: is_semantic_duplicate_iff attempt_after_def Let_def)
  moreover from assms have "with_attempt job e = jv_attempts job"
    by (intro with_attempt_known) (auto simp: is_semantic_duplicate_iff)
  ultimately show ?thesis by (simp add: with_attempt_def)
qed

lemma reduce_status:
  "jv_recorded_status (fst (reduce_step job e)) =
     (if accepted job e then target (ev_event_type e) (ev_retryable e)
      else jv_recorded_status job)"
  using duplicate_not_accepted [of job e] by (simp add: reduce_step_table table_step_def Let_def)

lemma reduce_attempts:
  "jv_attempts (fst (reduce_step job e)) =
     (if ev_event_type e \<in> set attempt_events
      then dict_put (attempt_key e) (attempt_after job e) (jv_attempts job)
      else jv_attempts job)"
  using duplicate_attempt_after [of job e] by (simp add: reduce_step_table table_step_def Let_def)

lemma reduce_times:
  "jv_created_at (fst (reduce_step job e)) =
     (if ev_event_type e = JOB_CREATED
      then earliest (jv_created_at job) (Some (ev_event_time e)) else jv_created_at job)"
  "jv_submission_requested_at (fst (reduce_step job e)) =
     (if ev_event_type e = JOB_SCHEDULER_SUBMISSION_REQUESTED
      then earliest (jv_submission_requested_at job) (Some (ev_event_time e))
      else jv_submission_requested_at job)"
  "jv_scheduler_acknowledged_at (fst (reduce_step job e)) =
     (if ev_event_type e = JOB_SCHEDULER_SUBMISSION_ACKNOWLEDGED
      then earliest (jv_scheduler_acknowledged_at job) (Some (ev_event_time e))
      else jv_scheduler_acknowledged_at job)"
  "jv_scheduler_retrieved_at (fst (reduce_step job e)) =
     (if ev_event_type e = JOB_SCHEDULER_ITEM_RETRIEVED
      then earliest (jv_scheduler_retrieved_at job) (retrieval_time e)
      else jv_scheduler_retrieved_at job)"
  "jv_started_at (fst (reduce_step job e)) =
     (if ev_event_type e = JOB_EXECUTION_STARTED
      then earliest (jv_started_at job) (Some (ev_event_time e)) else jv_started_at job)"
  "jv_last_event_time (fst (reduce_step job e)) =
     latest (jv_last_event_time job) (Some (ev_event_time e))"
  "jv_data_as_of (fst (reduce_step job e)) =
     latest (jv_data_as_of job) (Some (ev_ingestion_time e))"
  by (auto simp: reduce_step_table table_step_def Let_def is_semantic_duplicate_iff)

lemma reduce_completed_at:
  "jv_completed_at (fst (reduce_step job e)) =
     (if accepted job e \<and> ev_event_type e \<in>
           {JOB_SCHEDULER_SUBMISSION_FAILED, JOB_EXECUTION_SUCCEEDED, JOB_EXECUTION_FAILED,
            JOB_RETRIES_EXHAUSTED, JOB_CANCELLED}
      then latest (jv_completed_at job) (Some (ev_event_time e)) else jv_completed_at job)"
  using duplicate_not_accepted [of job e]
  by (cases "is_semantic_duplicate job e") (auto simp: reduce_step_table table_step_def Let_def)

lemma reduce_retry_requested:
  "jv_retry_requested (fst (reduce_step job e)) =
     (if ev_event_type e = JOB_RETRY_ACKNOWLEDGED \<or>
         accepted job e \<and> ev_event_type e \<in> {JOB_RETRY_REQUESTED, JOB_RETRY_REJECTED} then True
      else if accepted job e \<and> ev_event_type e = JOB_EXECUTION_FAILED then False
      else jv_retry_requested job)"
  using duplicate_not_accepted [of job e] duplicate_type [of job e]
  by (cases "is_semantic_duplicate job e")
    (auto simp: reduce_step_table table_step_def Let_def)

lemma reduce_retry_acknowledged:
  "jv_retry_acknowledged (fst (reduce_step job e)) =
     (if ev_event_type e = JOB_RETRY_ACKNOWLEDGED then True
      else if accepted job e \<and> ev_event_type e \<in>
        {JOB_EXECUTION_FAILED, JOB_RETRY_REQUESTED, JOB_RETRY_REJECTED, JOB_RETRIES_EXHAUSTED}
      then False else jv_retry_acknowledged job)"
  using duplicate_not_accepted [of job e] duplicate_type [of job e]
  by (cases "is_semantic_duplicate job e")
    (auto simp: reduce_step_table table_step_def Let_def)

lemma reduce_bookkeeping:
  "jv_job_id (fst (reduce_step job e)) = jv_job_id job"
  "jv_version (fst (reduce_step job e)) =
     jv_version job + (if de_decision (decision_of job e) = ''APPLIED'' then 1 else 0)"
  "jv_decisions (fst (reduce_step job e)) = jv_decisions job @ [decision_of job e]"
  "snd (reduce_step job e) = decision_of job e"
  by (simp_all add: reduce_step_conv frame_simps)

lemma reduce_findings:
  "jv_findings (fst (reduce_step job e)) =
     (if is_semantic_duplicate job e then jv_findings job else findings_after job e)"
  by (simp add: reduce_step_table table_step_def Let_def)

lemma reduce_max_attempts: "jv_max_attempts job \<le> jv_max_attempts (fst (reduce_step job e))"
  by (simp add: reduce_step_table table_step_def Let_def absorb_event_def)

section \<open>Well-formed aggregates\<close>

definition wf_attempt :: "int \<Rightarrow> attempt \<Rightarrow> bool" where
  "wf_attempt n a \<longleftrightarrow>
     at_attempt_number a = n \<and> 1 \<le> n \<and> at_status a \<in> set attempt_statuses \<and>
     (at_status a = AT_RETRIEVED \<longrightarrow> at_retrieved_at a \<noteq> None) \<and>
     (at_status a = AT_RUNNING \<longrightarrow> at_started_at a \<noteq> None) \<and>
     (at_status a = AT_SUCCEEDED \<longrightarrow> at_completed_at a \<noteq> None \<and> at_result_code a \<noteq> None) \<and>
     (at_status a = AT_FAILED \<longrightarrow> at_completed_at a \<noteq> None)"

definition wf_finding :: "string \<Rightarrow> finding \<Rightarrow> bool" where
  "wf_finding c f \<longleftrightarrow> fi_code f = c \<and> (fi_active f \<longleftrightarrow> fi_resolved_at f = None)"

definition applied_count :: "projection_decision list \<Rightarrow> nat" where
  "applied_count ds = length (filter (\<lambda>d. de_decision d = ''APPLIED'') ds)"

definition wf_job :: "job_visibility \<Rightarrow> bool" where
  "wf_job job \<longleftrightarrow>
     wf_dict (jv_attempts job) \<and> dict_all wf_attempt (jv_attempts job) \<and>
     wf_dict (jv_findings job) \<and> dict_all wf_finding (jv_findings job) \<and>
     jv_version job = int (applied_count (jv_decisions job)) \<and> 1 \<le> jv_max_attempts job"

lemma attempt_key_pos: "valid_event e \<Longrightarrow> 1 \<le> attempt_key e"
  by (auto simp: valid_event_def attempt_key_def)

lemma wf_attempt_at:
  "wf_job job \<Longrightarrow> valid_event e \<Longrightarrow> wf_attempt (attempt_key e) (attempt_at job e)"
  using attempt_key_pos [of e]
  by (auto simp: attempt_at_def wf_job_def new_attempt_def wf_attempt_def attempt_statuses_def
      dest: dict_all_get split: option.splits)

lemma retrieval_time_not_None [simp]: "retrieval_time e \<noteq> None"
  by (simp add: retrieval_time_def del: not_None_eq)

lemma wf_attempt_after:
  "wf_job job \<Longrightarrow> valid_event e \<Longrightarrow> wf_attempt (attempt_key e) (attempt_after job e)"
  using wf_attempt_at [of job e]
  by (cases "ev_event_type e",
      simp_all add: attempt_after_def Let_def wf_attempt_def attempt_statuses_def del: not_None_eq)
    blast

lemma wf_finding_raised:
  "dict_all wf_finding fs \<Longrightarrow> wf_finding c (raised fs c t m)"
  by (auto simp: raised_def wf_finding_def dest: dict_all_get split: option.splits)

definition wf_findings :: "(string, finding) dict \<Rightarrow> bool" where
  "wf_findings fs \<longleftrightarrow> wf_dict fs \<and> dict_all wf_finding fs"

lemma wf_findings_raised [wf_intros]:
  "wf_findings fs \<Longrightarrow> wf_findings (dict_put c (raised fs c t m) fs)"
  by (simp add: wf_findings_def wf_dict_put dict_all_put wf_finding_raised)

lemma wf_findings_resolved [wf_intros]: "wf_findings fs \<Longrightarrow> wf_findings (resolved fs c t)"
  by (auto simp: wf_findings_def resolved_def wf_dict_put wf_finding_def
      intro!: dict_all_put dest: dict_all_get split: option.splits)

lemma wf_findings_gap [wf_intros]:
  "wf_findings (jv_findings job) \<Longrightarrow> wf_findings (gap_findings job e)"
  by (simp add: gap_findings_def wf_intros)

lemma wf_findings_conflict [wf_intros]:
  "wf_findings fs \<Longrightarrow> wf_findings (conflict_findings job e fs)"
  by (simp add: conflict_findings_def wf_intros)

lemma wf_findings_after:
  "wf_findings (jv_findings job) \<Longrightarrow> wf_findings (findings_after job e)"
  by (cases "ev_event_type e") (simp_all add: findings_after_def Let_def wf_intros)

lemma applied_count_append [simp]:
  "applied_count (ds @ [d]) = applied_count ds + (if de_decision d = ''APPLIED'' then 1 else 0)"
  by (simp add: applied_count_def)

lemma wf_job_new [simp]: "wf_job (new_job i)"
  by (simp add: wf_job_def new_job_def applied_count_def)

lemma wf_job_reduce:
  assumes "wf_job job" and "valid_event e"
  shows "wf_job (fst (reduce_step job e))"
proof -
  have "wf_findings (jv_findings (fst (reduce_step job e)))"
    using assms(1) wf_findings_after [of job e]
    by (simp add: reduce_findings wf_job_def wf_findings_def)
  moreover have "wf_dict (jv_attempts (fst (reduce_step job e))) \<and>
      dict_all wf_attempt (jv_attempts (fst (reduce_step job e)))"
    using assms(1) wf_attempt_after [OF assms]
    by (simp add: reduce_attempts wf_job_def wf_dict_put dict_all_put)
  ultimately show ?thesis
    using assms(1) reduce_max_attempts [of job e]
    by (simp add: wf_job_def wf_findings_def reduce_bookkeeping)
qed

section \<open>Every status is backed by evidence\<close>

definition has_attempt :: "job_visibility \<Rightarrow> string \<Rightarrow> bool" where
  "has_attempt job s \<longleftrightarrow> list_ex (\<lambda>a. at_status a = s) (dict_values (jv_attempts job))"

primrec evidence :: "status \<Rightarrow> job_visibility \<Rightarrow> bool" where
  "evidence UNKNOWN job \<longleftrightarrow> jv_last_event_time job = None \<and> jv_attempts job = []"
| "evidence CREATED job \<longleftrightarrow> jv_created_at job \<noteq> None"
| "evidence PENDING_SUBMISSION job \<longleftrightarrow> jv_submission_requested_at job \<noteq> None"
| "evidence SCHEDULED job \<longleftrightarrow> jv_scheduler_acknowledged_at job \<noteq> None"
| "evidence AWAITING_EXECUTION job \<longleftrightarrow> jv_scheduler_retrieved_at job \<noteq> None"
| "evidence RUNNING job \<longleftrightarrow> jv_started_at job \<noteq> None \<and> has_attempt job AT_RUNNING"
| "evidence RETRY_PENDING job \<longleftrightarrow> \<not> jv_retry_acknowledged job"
| "evidence RETRY_SCHEDULED job \<longleftrightarrow> jv_retry_requested job \<and> jv_retry_acknowledged job"
| "evidence SUCCEEDED job \<longleftrightarrow> jv_completed_at job \<noteq> None \<and> has_attempt job AT_SUCCEEDED"
| "evidence FAILED job \<longleftrightarrow> jv_completed_at job \<noteq> None \<or> jv_retry_requested job"
| "evidence RETRIES_EXHAUSTED job \<longleftrightarrow> jv_completed_at job \<noteq> None"
| "evidence CANCELLED job \<longleftrightarrow> jv_completed_at job \<noteq> None"
| "evidence OVERDUE job \<longleftrightarrow> False"

definition coherent :: "job_visibility \<Rightarrow> bool" where
  "coherent job \<longleftrightarrow>
     wf_dict (jv_attempts job) \<and>
     evidence (jv_recorded_status job) job \<and>
     (has_attempt job AT_SUCCEEDED \<longrightarrow> jv_recorded_status job = SUCCEEDED)"

lemma coherent_new [simp]: "coherent (new_job i)"
  by (simp add: coherent_def new_job_def has_attempt_def)

lemma has_attempt_iff:
  "wf_dict (jv_attempts job) \<Longrightarrow>
   has_attempt job s \<longleftrightarrow> (\<exists>k a. dict_get (jv_attempts job) k = Some a \<and> at_status a = s)"
  unfolding has_attempt_def list_ex_iff Bex_def using pd.vals_get by metis

lemma attempt_at_status:
  assumes "wf_dict (jv_attempts job)" and "at_status (attempt_at job e) = s" and "s \<noteq> AT_UNKNOWN"
  shows "has_attempt job s"
  using assms by (auto simp: has_attempt_iff attempt_at_def new_attempt_def split: option.splits)

lemma has_attempt_reduce:
  assumes "wf_dict (jv_attempts job)"
  shows "has_attempt (fst (reduce_step job e)) s \<longleftrightarrow>
    (if ev_event_type e \<in> set attempt_events
     then at_status (attempt_after job e) = s \<or>
       (\<exists>k a. k \<noteq> attempt_key e \<and> dict_get (jv_attempts job) k = Some a \<and> at_status a = s)
     else has_attempt job s)"
proof -
  have "wf_dict (jv_attempts (fst (reduce_step job e)))"
    using assms by (simp add: reduce_attempts wf_dict_put)
  then show ?thesis
    using assms by (auto simp: has_attempt_iff reduce_attempts dict_simps)
qed

lemma attempt_after_status:
  "at_status (attempt_after job e) =
     (if ev_event_type e = JOB_SCHEDULER_ITEM_RETRIEVED \<and> at_status (attempt_at job e) = AT_UNKNOWN
      then AT_RETRIEVED
      else if accepted job e \<and> ev_event_type e = JOB_EXECUTION_STARTED then AT_RUNNING
      else if accepted job e \<and> ev_event_type e = JOB_EXECUTION_SUCCEEDED then AT_SUCCEEDED
      else if accepted job e \<and> ev_event_type e = JOB_EXECUTION_FAILED then AT_FAILED
      else at_status (attempt_at job e))"
  by (cases "ev_event_type e") (simp_all add: attempt_after_def Let_def)

lemma has_attempt_kept:
  assumes wf: "wf_dict (jv_attempts job)" and s: "s \<noteq> AT_UNKNOWN"
    and keeps: "at_status (attempt_at job e) = s \<Longrightarrow> at_status (attempt_after job e) = s"
    and has: "has_attempt job s"
  shows "has_attempt (fst (reduce_step job e)) s"
proof -
  from has obtain k a where "dict_get (jv_attempts job) k = Some a" and "at_status a = s"
    using has_attempt_iff [OF wf] by blast
  then show ?thesis
    using keeps has by (cases "k = attempt_key e") (auto simp: has_attempt_reduce [OF wf] attempt_at_def)
qed


lemma accepted_enabled: "accepted job e \<Longrightarrow> enabled (ev_event_type e) (jv_recorded_status job)"
  by (simp add: accepted_def)

text \<open>An accepted event leaves the evidence its target status asks for.\<close>

lemma evidence_target:
  assumes "wf_dict (jv_attempts job)" and ok: "accepted job e"
  shows "evidence (target (ev_event_type e) (ev_retryable e)) (fst (reduce_step job e))"
proof -
  have after: "has_attempt (fst (reduce_step job e)) s"
    if "ev_event_type e \<in> set attempt_events" and "at_status (attempt_after job e) = s" for s
    using that assms by (simp add: has_attempt_reduce)
  show ?thesis
    using ok after
    by (cases "ev_event_type e")
      (simp_all add: reduce_times reduce_completed_at reduce_retry_requested
        reduce_retry_acknowledged attempt_events_def attempt_after_status del: not_None_eq)
qed

text \<open>A rejected event takes no evidence away.\<close>

lemma evidence_kept:
  assumes wf: "wf_dict (jv_attempts job)" and no: "\<not> accepted job e"
    and ev: "evidence (jv_recorded_status job) job"
    and run: "has_attempt job AT_SUCCEEDED \<longrightarrow> jv_recorded_status job = SUCCEEDED"
  shows "evidence (jv_recorded_status job) (fst (reduce_step job e))"
proof -
  have kept: "has_attempt (fst (reduce_step job e)) s" if "has_attempt job s" "s \<noteq> AT_UNKNOWN" for s
    using that no by (intro has_attempt_kept [OF wf]) (auto simp: attempt_after_status)
  show ?thesis
  proof (cases "jv_recorded_status job")
    case UNKNOWN
    with ev have "at_status (attempt_at job e) = AT_UNKNOWN"
      by (simp add: attempt_at_def new_attempt_def)
    then have "accepted job e"
      using UNKNOWN by (cases "ev_event_type e") (simp_all add: accepted_def attempt_permits_def)
    with no show ?thesis by simp
  next
    case RETRY_PENDING
    with no ev show ?thesis
      by (auto simp: reduce_retry_acknowledged accepted_def attempt_permits_def)
  qed (use no ev kept in \<open>simp_all add: reduce_times reduce_completed_at reduce_retry_requested
        reduce_retry_acknowledged del: not_None_eq\<close>)
qed

lemma coherent_reduce:
  assumes "coherent job"
  shows "coherent (fst (reduce_step job e))"
proof -
  let ?job = "fst (reduce_step job e)"
  from assms have wf: "wf_dict (jv_attempts job)"
    and ev: "evidence (jv_recorded_status job) job"
    and suc: "has_attempt job AT_SUCCEEDED \<longrightarrow> jv_recorded_status job = SUCCEEDED"
    by (simp_all add: coherent_def)
  have "evidence (jv_recorded_status ?job) ?job"
    using evidence_target [OF wf] evidence_kept [OF wf _ ev suc] by (simp add: reduce_status)
  moreover have "jv_recorded_status ?job = SUCCEEDED" if has: "has_attempt ?job AT_SUCCEEDED"
  proof (cases "has_attempt job AT_SUCCEEDED")
    case True
    with suc have "jv_recorded_status job = SUCCEEDED" by simp
    then show ?thesis
      by (cases "ev_event_type e") (simp_all add: reduce_status accepted_def)
  next
    case False
    then have "at_status (attempt_at job e) \<noteq> AT_SUCCEEDED"
      using attempt_at_status [OF wf, of e AT_SUCCEEDED] by fastforce
    with has False show ?thesis
      by (auto simp: has_attempt_reduce [OF wf] attempt_after_status reduce_status
          has_attempt_iff [OF wf] split: if_splits)
  qed
  ultimately show ?thesis
    using wf by (simp add: coherent_def reduce_attempts wf_dict_put)
qed

section \<open>Terminal statuses\<close>

lemma succeeded_absorbing:
  "jv_recorded_status job = SUCCEEDED \<Longrightarrow> jv_recorded_status (fst (reduce_step job e)) = SUCCEEDED"
  by (cases "ev_event_type e") (simp_all add: reduce_status accepted_def)

text \<open>
  What may follow a terminal status: nothing after success; a start (a recovered run) or the
  exhaustion of retries after a failure; and after a cancellation also the outcomes of an
  execution that was already under way.
\<close>

primrec terminal_exits :: "status \<Rightarrow> event_type list" where
  "terminal_exits SUCCEEDED = []"
| "terminal_exits FAILED = [JOB_EXECUTION_STARTED, JOB_RETRIES_EXHAUSTED]"
| "terminal_exits RETRIES_EXHAUSTED = [JOB_EXECUTION_STARTED]"
| "terminal_exits CANCELLED =
     [JOB_EXECUTION_STARTED, JOB_EXECUTION_SUCCEEDED, JOB_EXECUTION_FAILED, JOB_RETRIES_EXHAUSTED]"
| "terminal_exits CREATED = event_types"
| "terminal_exits PENDING_SUBMISSION = event_types"
| "terminal_exits SCHEDULED = event_types"
| "terminal_exits AWAITING_EXECUTION = event_types"
| "terminal_exits RUNNING = event_types"
| "terminal_exits RETRY_PENDING = event_types"
| "terminal_exits RETRY_SCHEDULED = event_types"
| "terminal_exits OVERDUE = event_types"
| "terminal_exits UNKNOWN = event_types"

lemma in_event_types [simp]: "t \<in> set event_types"
  by (cases t) (simp_all add: event_types_def)

lemma terminal_exit:
  "jv_recorded_status (fst (reduce_step job e)) \<noteq> jv_recorded_status job \<Longrightarrow>
   ev_event_type e \<in> set (terminal_exits (jv_recorded_status job))"
  by (cases "jv_recorded_status job"; cases "ev_event_type e";
      simp add: reduce_status accepted_def split: if_splits)

section \<open>Whole histories\<close>

abbreviation advance :: "job_visibility \<Rightarrow> event \<Rightarrow> job_visibility" where
  "advance job e \<equiv> fst (reduce_step job e)"

text \<open>The loop of every caller: the aggregate of a job after a list of its events.\<close>

definition replay :: "job_visibility \<Rightarrow> event list \<Rightarrow> job_visibility" where
  "replay job es = foldl advance job es"

lemma replay_simps [simp]:
  "replay job [] = job"
  "replay job (e # es) = replay (advance job e) es"
  "replay job (es @ fs) = replay (replay job es) fs"
  by (simp_all add: replay_def)

interpretation wf_runs: invariant_machine advance valid_event wf_job
  by unfold_locales (rule wf_job_reduce)

interpretation coherent_runs: invariant_machine advance "\<lambda>e. True" coherent
  by unfold_locales (rule coherent_reduce)

lemma wf_replay: "wf_job job \<Longrightarrow> list_all valid_event es \<Longrightarrow> wf_job (replay job es)"
  unfolding replay_def by (rule wf_runs.run_inv)

lemma coherent_replay: "coherent job \<Longrightarrow> coherent (replay job es)"
  unfolding replay_def by (rule coherent_runs.run_inv) (simp_all add: list_all_iff)

text \<open>What a reduction never takes back.\<close>

definition progress :: "job_visibility \<Rightarrow> job_visibility \<Rightarrow> bool" where
  "progress j j' \<longleftrightarrow>
     jv_job_id j' = jv_job_id j \<and>
     jv_version j \<le> jv_version j' \<and>
     prefix (jv_decisions j) (jv_decisions j') \<and>
     set (dict_keys (jv_attempts j)) \<subseteq> set (dict_keys (jv_attempts j')) \<and>
     set (dict_keys (jv_findings j)) \<subseteq> set (dict_keys (jv_findings j')) \<and>
     jv_max_attempts j \<le> jv_max_attempts j' \<and>
     (jv_incomplete_lifecycle j \<longrightarrow> jv_incomplete_lifecycle j') \<and>
     (jv_cancellation_violation j \<longrightarrow> jv_cancellation_violation j') \<and>
     (jv_retries_exhausted_violation j \<longrightarrow> jv_retries_exhausted_violation j') \<and>
     (jv_recorded_status j = SUCCEEDED \<longrightarrow> jv_recorded_status j' = SUCCEEDED)"

lemma progress_refl [simp]: "progress j j"
  by (simp add: progress_def)

lemma progress_trans:
  assumes "progress i j" and "progress j k"
  shows "progress i k"
proof -
  note ij = assms(1) [unfolded progress_def] and jk = assms(2) [unfolded progress_def]
  have "prefix (jv_decisions i) (jv_decisions k)"
    using ij jk prefix_order.order_trans by blast
  moreover have "set (dict_keys (jv_attempts i)) \<subseteq> set (dict_keys (jv_attempts k))"
    using ij jk subset_trans by blast
  moreover have "set (dict_keys (jv_findings i)) \<subseteq> set (dict_keys (jv_findings k))"
    using ij jk subset_trans by blast
  moreover have "jv_version i \<le> jv_version k" and "jv_max_attempts i \<le> jv_max_attempts k"
    using ij jk by linarith+
  ultimately show ?thesis
    unfolding progress_def using ij jk by metis
qed

lemma keys_resolved [simp]: "set (dict_keys (resolved fs c t)) = set (dict_keys fs)"
  using pd.keys_get [of c fs]
  by (auto simp del: set_map simp: resolved_def pd.set_keys_put split: option.splits)

lemma keys_findings_after: "set (dict_keys (jv_findings job)) \<subseteq> set (dict_keys (findings_after job e))"
  by (cases "ev_event_type e")
    (auto simp del: set_map simp: findings_after_def Let_def gap_findings_def conflict_findings_def
       pd.set_keys_put)

lemma reduce_flags:
  "jv_incomplete_lifecycle job \<Longrightarrow> jv_incomplete_lifecycle (advance job e)"
  "jv_cancellation_violation job \<Longrightarrow> jv_cancellation_violation (advance job e)"
  "jv_retries_exhausted_violation job \<Longrightarrow> jv_retries_exhausted_violation (advance job e)"
  by (simp_all add: reduce_step_table table_step_def Let_def)

lemma progress_reduce: "progress job (advance job e)"
proof -
  have "set (dict_keys (jv_attempts job)) \<subseteq> set (dict_keys (jv_attempts (advance job e)))"
    by (auto simp del: set_map simp: reduce_attempts pd.set_keys_put)
  moreover have "set (dict_keys (jv_findings job)) \<subseteq> set (dict_keys (jv_findings (advance job e)))"
    using keys_findings_after [of job e] by (simp del: set_map add: reduce_findings)
  ultimately show ?thesis
    by (simp add: progress_def reduce_bookkeeping reduce_max_attempts reduce_flags
        succeeded_absorbing)
qed

interpretation progress_runs: monotone_machine advance "\<lambda>e. True" "\<lambda>job. True" progress
  by unfold_locales (auto intro: progress_trans progress_reduce)

lemma progress_replay: "progress job (replay job es)"
  unfolding replay_def by (rule progress_runs.run_le) (simp_all add: list_all_iff)

lemma succeeded_replay:
  "jv_recorded_status job = SUCCEEDED \<Longrightarrow> jv_recorded_status (replay job es) = SUCCEEDED"
  using progress_replay [of job es] by (simp add: progress_def)

section \<open>Properties\<close>

text \<open>
  C7. Whatever events arrive in whatever order, the recorded status is backed by evidence: a
  running job has a running attempt and a start time, a succeeded job a succeeded attempt and a
  completion time (and no succeeded attempt exists in any other status), a scheduled job its
  acknowledgement, and so on; only a job without any event is unknown and none is recorded overdue.
\<close>

theorem status_backed_by_evidence: "coherent (replay (new_job i) es)"
  by (rule coherent_replay) simp

text \<open>
  Folding events that pass the constructor's checks keeps the aggregate well formed: attempts
  and findings are stored once, under their own number and code, attempt statuses come from the
  five known values with their time stamps present, resolved findings are inactive and the version
  counts exactly the applied decisions.
\<close>

theorem replay_keeps_well_formed:
  assumes "list_all valid_event es"
  shows "wf_job (replay (new_job i) es)"
  using assms by (intro wf_replay) simp_all

theorem replay_keeps_well_formed_witness:
  "wf_job (replay (new_job ''job-1'')
     [new_event ''evt-1'' JOB_CREATED 0 0 ''job-1'',
      new_event ''evt-2'' JOB_EXECUTION_STARTED 5 6 ''job-1''])"
  by (rule replay_keeps_well_formed) (simp add: valid_event_def new_event_def)

lemma succeeded_attempt_frozen:
  assumes "dict_get (jv_attempts job) n = Some a" and "at_status a = AT_SUCCEEDED"
  shows "\<exists>b. dict_get (jv_attempts (advance job e)) n = Some b \<and> at_status b = AT_SUCCEEDED \<and>
    at_completed_at b = at_completed_at a \<and> at_result_code b = at_result_code a"
proof (cases "ev_event_type e \<in> set attempt_events \<and> n = attempt_key e")
  case True
  then have a: "attempt_at job e = a" using assms by (simp add: attempt_at_def)
  have "at_status (attempt_after job e) = AT_SUCCEEDED"
    using a assms(2) by (auto simp: attempt_after_status accepted_def attempt_permits_def)
  moreover have "at_completed_at (attempt_after job e) = at_completed_at a \<and>
      at_result_code (attempt_after job e) = at_result_code a"
    using a assms(2)
    by (cases "ev_event_type e") (auto simp: attempt_after_def Let_def accepted_def attempt_permits_def)
  ultimately show ?thesis using True by (simp add: reduce_attempts dict_simps)
next
  case False
  then show ?thesis using assms by (auto simp: reduce_attempts dict_simps)
qed

lemma succeeded_attempt_replay:
  "dict_get (jv_attempts job) n = Some a \<Longrightarrow> at_status a = AT_SUCCEEDED \<Longrightarrow>
   \<exists>b. dict_get (jv_attempts (replay job es)) n = Some b \<and> at_status b = AT_SUCCEEDED \<and>
    at_completed_at b = at_completed_at a \<and> at_result_code b = at_result_code a"
proof (induction es arbitrary: job a)
  case (Cons e es)
  then show ?case using succeeded_attempt_frozen [OF Cons.prems, of e] by fastforce
qed simp

text \<open>
  C8. Success is final: once a job is recorded as succeeded, no later event changes its status,
  and the status, completion time and result code of a succeeded attempt are frozen.
\<close>

theorem success_is_final:
  assumes "jv_recorded_status (replay (new_job i) es) = SUCCEEDED"
  shows "jv_recorded_status (replay (new_job i) (es @ fs)) = SUCCEEDED \<and>
    (\<exists>n a b. dict_get (jv_attempts (replay (new_job i) es)) n = Some a \<and>
       dict_get (jv_attempts (replay (new_job i) (es @ fs))) n = Some b \<and>
       at_status a = AT_SUCCEEDED \<and> at_status b = AT_SUCCEEDED \<and>
       at_completed_at b = at_completed_at a \<and> at_result_code b = at_result_code a)"
proof -
  have co: "coherent (replay (new_job i) es)" by (rule coherent_replay) simp
  then obtain n a where a: "dict_get (jv_attempts (replay (new_job i) es)) n = Some a"
    "at_status a = AT_SUCCEEDED"
    using assms has_attempt_iff [of "replay (new_job i) es" AT_SUCCEEDED]
    by (auto simp: coherent_def)
  then show ?thesis
    using succeeded_replay [OF assms, of fs] succeeded_attempt_replay [OF a, of fs] by force
qed

theorem success_is_final_witness:
  "jv_recorded_status (replay (new_job ''job-1'')
     ([new_event ''evt-1'' JOB_EXECUTION_SUCCEEDED 5 6 ''job-1''] @
      [new_event ''evt-2'' JOB_CANCELLED 7 8 ''job-1''])) = SUCCEEDED"
proof -
  have "jv_recorded_status (replay (new_job ''job-1'')
     [new_event ''evt-1'' JOB_EXECUTION_SUCCEEDED 5 6 ''job-1'']) = SUCCEEDED"
    by code_simp
  from success_is_final [OF this] show ?thesis by blast
qed

text \<open>
  A recorded status changes only along the exits of its row: nothing leaves success, only a
  start leaves exhausted retries, a start or the exhaustion of retries leaves a failure, and a
  cancellation yields only to an execution that was already under way.
\<close>

theorem terminal_statuses_exit:
  assumes "jv_recorded_status (replay job (es @ [e])) \<noteq> jv_recorded_status (replay job es)"
  shows "ev_event_type e \<in> set (terminal_exits (jv_recorded_status (replay job es)))"
  using assms by (intro terminal_exit) simp

theorem terminal_statuses_exit_witness:
  "JOB_EXECUTION_STARTED \<in> set (terminal_exits CANCELLED)"
proof -
  let ?es = "[new_event ''evt-1'' JOB_CANCELLED 5 6 ''job-1'']"
  let ?e = "new_event ''evt-2'' JOB_EXECUTION_STARTED 7 8 ''job-1''"
  have c: "jv_recorded_status (replay (new_job ''job-1'') ?es) = CANCELLED" by code_simp
  have "jv_recorded_status (replay (new_job ''job-1'') (?es @ [?e])) = RUNNING" by code_simp
  then show ?thesis
    using terminal_statuses_exit [of "new_job ''job-1''" ?es ?e] c by (simp add: new_event_def)
qed

end
