(* ===== verification/Engine.thy ===== *)
theory Engine
  imports Reducer_Lifecycle
begin

text \<open>
  The in-memory engine of \<open>src/job_visibility/engine.py\<close> around the reducer: the event journal
  with its exact-duplicate check and optimistic versions (\<open>apply\<close>, \<open>apply_with_retry\<close>), the reads
  that depend on the clock (\<open>get\<close>, \<open>attempts\<close>, \<open>search\<close>, \<open>snapshot\<close>) and \<open>reconcile\<close>. An operation
  returns the engine it leaves behind next to its result, also when it raises.
\<close>

section \<open>State\<close>

record engine =
  en_config :: visibility_config
  en_jobs :: "(string, job_visibility) dict"
  en_event_ids :: "string set"
  en_events :: "event list"

definition new_engine :: "visibility_config option \<Rightarrow> engine" where
  "new_engine config =
     \<lparr>en_config = (case config of None \<Rightarrow> default_config | Some c \<Rightarrow> c), en_jobs = [],
      en_event_ids = {}, en_events = []\<rparr>"

definition job_ids :: "engine \<Rightarrow> string list" where
  "job_ids en = sort (dict_keys (en_jobs en))"

section \<open>Applying events\<close>

definition engine_apply ::
  "engine \<Rightarrow> event \<Rightarrow> int option \<Rightarrow> engine \<times> projection_decision result" where
  "engine_apply en e expected_version =
     (if ev_event_id e \<in> en_event_ids en
      then
        (let decision = \<lparr>de_event_id = ev_event_id e, de_decision = ''EXACT_DUPLICATE'',
                         de_reason = Some ''eventId seen''\<rparr>
         in (case dict_get (en_jobs en) (ev_job_id e) of
               None \<Rightarrow> (en, Inr decision)
             | Some job \<Rightarrow>
                 (en\<lparr>en_jobs :=
                       dict_put (ev_job_id e) (job\<lparr>jv_decisions := jv_decisions job @ [decision]\<rparr>)
                         (en_jobs en)\<rparr>,
                  Inr decision)))
      else
        (let current = dict_get (en_jobs en) (ev_job_id e);
             actual = (case current of None \<Rightarrow> 0 | Some job \<Rightarrow> jv_version job)
         in (if expected_version \<noteq> None \<and> the expected_version \<noteq> actual
             then (en, Inl (VersionConflictError (ev_job_id e) (the expected_version) actual))
             else
               (let en = en\<lparr>en_event_ids := insert (ev_event_id e) (en_event_ids en),
                            en_events := en_events en @ [e]\<rparr>
                in (case reduce_visibility current e of
                      Inl err \<Rightarrow> (en, Inl err)
                    | Inr (job, decision) \<Rightarrow>
                        (en\<lparr>en_jobs := dict_put (ev_job_id e) job (en_jobs en)\<rparr>,
                         Inr decision))))))"

text \<open>
  The optimistic writer. Between two attempts the lock is free: \<open>interfere n\<close> is whatever other
  threads do to the engine after the version was read and before attempt \<open>n\<close> takes the lock (the
  identity for a single thread). \<open>number\<close> runs through \<open>range(retries + 1)\<close>.
\<close>

function retry_loop ::
  "(int \<Rightarrow> engine \<Rightarrow> engine) \<Rightarrow> engine \<Rightarrow> event \<Rightarrow> int \<Rightarrow> int \<Rightarrow> int \<Rightarrow>
   engine \<times> projection_decision result" where
  "retry_loop interfere en e expected_version number retries =
     (if number > retries then (en, Inl (AssertionError ''unreachable''))
      else
        (case engine_apply (interfere number en) e (Some expected_version) of
           (en, Inr decision) \<Rightarrow> (en, Inr decision)
         | (en, Inl (VersionConflictError job expected actual)) \<Rightarrow>
             (if number = retries then (en, Inl (VersionConflictError job expected actual))
              else
                (case dict_get (en_jobs en) (ev_job_id e) of
                   None \<Rightarrow> (en, Inl (KeyError (ev_job_id e)))
                 | Some job \<Rightarrow> retry_loop interfere en e (jv_version job) (number + 1) retries))
         | (en, Inl err) \<Rightarrow> (en, Inl err)))"
  by pat_completeness auto
termination
  by (relation "measure (\<lambda>(i, en, e, v, number, retries). nat (retries + 1 - number))") auto

declare retry_loop.simps [simp del]

definition apply_with_retry ::
  "(int \<Rightarrow> engine \<Rightarrow> engine) \<Rightarrow> engine \<Rightarrow> event \<Rightarrow> int \<Rightarrow> int \<Rightarrow>
   engine \<times> projection_decision result" where
  "apply_with_retry interfere en e expected_version retries =
     retry_loop interfere en e expected_version 0 retries"

section \<open>Reads that depend on the clock\<close>

definition is_overdue :: "visibility_config \<Rightarrow> job_visibility \<Rightarrow> time \<Rightarrow> bool" where
  "is_overdue config job now =
     (case jv_scheduled_at job of
        None \<Rightarrow> False
      | Some scheduled_at \<Rightarrow>
          jv_started_at job = None \<and>
          jv_recorded_status job \<in> {SCHEDULED, AWAITING_EXECUTION} \<and>
          now > scheduled_at + seconds (cf_grace_period_seconds config))"

definition overdue_duration :: "visibility_config \<Rightarrow> job_visibility \<Rightarrow> time \<Rightarrow> int" where
  "overdue_duration config job now =
     (if \<not> is_overdue config job now then 0
      else (case jv_scheduled_at job of
              None \<Rightarrow> 0
            | Some scheduled_at \<Rightarrow>
                max 0 (int_total_seconds
                  (now - (scheduled_at + seconds (cf_grace_period_seconds config))))))"

definition derived_status :: "visibility_config \<Rightarrow> job_visibility \<Rightarrow> time \<Rightarrow> status" where
  "derived_status config job now =
     (if is_terminal (jv_recorded_status job) \<or>
         jv_recorded_status job \<in> {RUNNING, RETRY_PENDING, RETRY_SCHEDULED}
      then jv_recorded_status job
      else
        (case jv_scheduled_at job of
           None \<Rightarrow> jv_recorded_status job
         | Some scheduled_at \<Rightarrow>
             (if jv_recorded_status job \<in> {SCHEDULED, AWAITING_EXECUTION}
              then (if is_overdue config job now then OVERDUE
                    else if now \<ge> scheduled_at then AWAITING_EXECUTION
                    else jv_recorded_status job)
              else jv_recorded_status job)))"

definition delay_of ::
  "visibility_config \<Rightarrow> job_visibility \<Rightarrow> time \<Rightarrow> status \<Rightarrow> delay_classification option" where
  "delay_of config job now status =
     (case jv_scheduled_at job of
        None \<Rightarrow> None
      | Some scheduled_at \<Rightarrow>
          (if jv_started_at job \<noteq> None then None
           else if now < scheduled_at then Some NOT_YET_ELIGIBLE
           else if status = OVERDUE then Some EXECUTION_OVERDUE
           else if jv_scheduler_retrieved_at job \<noteq> None then Some RETRIEVED_AWAITING_WORKER
           else if now < scheduled_at + seconds (cf_poll_interval_seconds config)
           then Some AWAITING_POLL_WINDOW
           else Some POSSIBLE_BATCH_BACKLOG))"

definition elapsed_since :: "job_visibility \<Rightarrow> time \<Rightarrow> time \<Rightarrow> int" where
  "elapsed_since job now from =
     max 0 (int_total_seconds
       ((case jv_started_at job of None \<Rightarrow> now | Some started_at \<Rightarrow> started_at) - from))"

definition response :: "visibility_config \<Rightarrow> job_visibility \<Rightarrow> time \<Rightarrow> json" where
  "response config job now =
     (let status = derived_status config job now;
          delay_classification = delay_of config job now status;
          start_delay = map_option (elapsed_since job now) (jv_scheduled_at job);
          post_retrieval = map_option (elapsed_since job now) (jv_scheduler_retrieved_at job);
          possibly_stale =
            (case jv_data_as_of job of
               None \<Rightarrow> False
             | Some as_of \<Rightarrow>
                 now - as_of > seconds (cf_eventual_consistency_target_seconds config));
          processing_delay =
            (case (jv_data_as_of job, jv_last_event_time job) of
               (Some as_of, Some last_event) \<Rightarrow>
                 Some (max 0 (int_total_seconds (as_of - last_event)))
             | _ \<Rightarrow> None)
      in JObj
        [(''jobId'', JStr (jv_job_id job)),
         (''correlationId'', JStr (jv_correlation_id job)),
         (''jobType'', JStr (jv_job_type job)),
         (''status'', JStr (status_value status)),
         (''recordedStatus'', JStr (status_value (jv_recorded_status job))),
         (''createdAt'', jtime (jv_created_at job)),
         (''submissionRequestedAt'', jtime (jv_submission_requested_at job)),
         (''schedulerAcknowledgedAt'', jtime (jv_scheduler_acknowledged_at job)),
         (''scheduledAt'', jtime (jv_scheduled_at job)),
         (''schedulerRetrievedAt'', jtime (jv_scheduler_retrieved_at job)),
         (''startedAt'', jtime (jv_started_at job)),
         (''completedAt'', jtime (jv_completed_at job)),
         (''schedulerReference'', jopt JStr (jv_scheduler_reference job)),
         (''retry'', JObj
           [(''completedAttempts'', JInt (completed_attempts job)),
            (''nextAttemptNumber'', jopt JInt (next_attempt_number job)),
            (''maxAttempts'', JInt (jv_max_attempts job)),
            (''eligible'', JBool (jv_retry_eligible job)),
            (''requested'', JBool (jv_retry_requested job)),
            (''schedulerAcknowledged'', JBool (jv_retry_acknowledged job)),
            (''lastFailureAt'', jtime (jv_last_failure_at job)),
            (''lastErrorCode'', jopt JStr (jv_last_error_code job)),
            (''nextRetryAt'', jtime (jv_next_retry_at job))]),
         (''delay'', JObj
           [(''classification'',
               jopt (\<lambda>c. JStr (delay_classification_value c)) delay_classification),
            (''startDelaySeconds'', jopt JInt start_delay),
            (''postRetrievalDelaySeconds'', jopt JInt post_retrieval),
            (''overdueDurationSeconds'', JInt (overdue_duration config job now))]),
         (''incompleteLifecycle'', JBool (jv_incomplete_lifecycle job)),
         (''cancellationViolation'', JBool (jv_cancellation_violation job)),
         (''retriesExhaustedViolation'', JBool (jv_retries_exhausted_violation job)),
         (''freshness'', JObj
           [(''dataAsOf'', jtime (jv_data_as_of job)),
            (''processingDelaySeconds'', jopt JInt processing_delay),
            (''possiblyStale'', JBool possibly_stale)]),
         (''dataAsOf'', jtime (jv_data_as_of job)),
         (''version'', JInt (jv_version job)),
         (''reconciliationFindings'',
            JList (map finding_to_dict (dict_values (jv_findings job))))])"

definition get_response :: "engine \<Rightarrow> string \<Rightarrow> time \<Rightarrow> json result" where
  "get_response en job_id now =
     (case dict_get (en_jobs en) job_id of
        None \<Rightarrow> Inl (JobNotFoundError job_id)
      | Some job \<Rightarrow> Inr (response (en_config en) job now))"

definition get_attempts :: "engine \<Rightarrow> string \<Rightarrow> json list result" where
  "get_attempts en job_id =
     (case dict_get (en_jobs en) job_id of
        None \<Rightarrow> Inl (JobNotFoundError job_id)
      | Some job \<Rightarrow>
          Inr (map (\<lambda>key. attempt_to_dict (the (dict_get (jv_attempts job) key)))
                 (sort (dict_keys (jv_attempts job)))))"

definition snapshot :: "engine \<Rightarrow> string \<Rightarrow> job_visibility result" where
  "snapshot en job_id =
     (case dict_get (en_jobs en) job_id of
        None \<Rightarrow> Inl (JobNotFoundError job_id)
      | Some job \<Rightarrow> Inr job)"

text \<open>\<open>self._jobs[item["jobId"]].scheduled_at\<close> of a response.\<close>

definition item_scheduled_at :: "engine \<Rightarrow> json \<Rightarrow> time option" where
  "item_scheduled_at en item =
     (case jfield item ''jobId'' of
        Some (JStr i) \<Rightarrow>
          (case dict_get (en_jobs en) i of None \<Rightarrow> None | Some job \<Rightarrow> jv_scheduled_at job)
      | _ \<Rightarrow> None)"

text \<open>The comprehension raises what its first failing \<open>get\<close> raises.\<close>

fun collect_results :: "('a \<Rightarrow> 'b result) \<Rightarrow> 'a list \<Rightarrow> 'b list result" where
  "collect_results f [] = Inr []"
| "collect_results f (x # xs) =
     bind_result (f x) (\<lambda>y. bind_result (collect_results f xs) (\<lambda>ys. Inr (y # ys)))"

definition search ::
  "engine \<Rightarrow> time \<Rightarrow> status option \<Rightarrow> string option \<Rightarrow> time option \<Rightarrow> time option \<Rightarrow>
   json list result" where
  "search en now status correlation_id scheduled_from scheduled_to =
     bind_result (collect_results (\<lambda>job_id. get_response en job_id now) (job_ids en)) (\<lambda>responses.
       let responses =
             (case status of
                None \<Rightarrow> responses
              | Some s \<Rightarrow>
                  filter (\<lambda>item. jfield item ''status'' = Some (JStr (status_value s))) responses);
           responses =
             (if truthy_str correlation_id
              then filter (\<lambda>item. jfield item ''correlationId'' = Some (JStr (the correlation_id)))
                     responses
              else responses);
           responses =
             (case scheduled_from of
                None \<Rightarrow> responses
              | Some from \<Rightarrow>
                  filter (\<lambda>item. case item_scheduled_at en item of
                                    None \<Rightarrow> False | Some at \<Rightarrow> at \<ge> from) responses);
           responses =
             (case scheduled_to of
                None \<Rightarrow> responses
              | Some until \<Rightarrow>
                  filter (\<lambda>item. case item_scheduled_at en item of
                                    None \<Rightarrow> False | Some at \<Rightarrow> at \<le> until) responses)
       in Inr responses)"

section \<open>Reconciliation\<close>

definition older_than :: "time option \<Rightarrow> time \<Rightarrow> int \<Rightarrow> bool" where
  "older_than at now limit_seconds =
     (case at of None \<Rightarrow> False | Some t \<Rightarrow> now - t > seconds limit_seconds)"

definition sequence_gap :: "job_visibility \<Rightarrow> bool" where
  "sequence_gap job =
     (let attempts = sort (dict_keys (jv_attempts job))
      in attempts \<noteq> [] \<and> attempts \<noteq> [1..Max (set attempts)])"

definition observe_if ::
  "bool \<Rightarrow> string \<Rightarrow> string \<Rightarrow> time \<Rightarrow> job_visibility \<times> finding list \<Rightarrow>
   job_visibility \<times> finding list" where
  "observe_if condition code message now state =
     (let (job, observed) = state
      in if condition
         then (let (job, f) = raise_finding job code now message in (job, observed @ [f]))
         else (job, observed))"

definition reconcile_job ::
  "visibility_config \<Rightarrow> time \<Rightarrow> job_visibility \<Rightarrow> job_visibility \<times> finding list" where
  "reconcile_job config now job =
     (let state = (job, []);
          state = observe_if
            (jv_recorded_status (fst state) = PENDING_SUBMISSION \<and>
             older_than (jv_submission_requested_at (fst state)) now
               (cf_submission_acknowledgement_timeout_seconds config))
            ''SCHEDULER_ACK_TIMEOUT''
            ''No scheduler acknowledgement was observed before the timeout.'' now state;
          state = observe_if
            (jv_recorded_status (fst state) = RUNNING \<and>
             older_than (jv_started_at (fst state)) now (cf_running_timeout_seconds config))
            ''RUNNING_TIMEOUT''
            ''Execution has remained running beyond the configured timeout.'' now state;
          state = observe_if
            (jv_retry_requested (fst state) \<and> \<not> jv_retry_acknowledged (fst state) \<and>
             older_than (jv_retry_requested_at (fst state)) now
               (cf_retry_acknowledgement_timeout_seconds config))
            ''RETRY_ACK_TIMEOUT''
            ''No retry acknowledgement was observed before the timeout.'' now state;
          state = observe_if
            (is_overdue config (fst state) now)
            ''EXECUTION_START_OVERDUE''
            ''No execution start was observed before the business grace period expired.''
            now state;
          state = observe_if
            (sequence_gap (fst state))
            ''ATTEMPT_SEQUENCE_GAP''
            ''Observed attempt numbers contain a gap; missing attempts were not inferred.''
            now state
      in state)"

definition reconcile :: "engine \<Rightarrow> time \<Rightarrow> engine \<times> finding list" where
  "reconcile en now =
     (let passes = map (\<lambda>(i, job). (i, reconcile_job (en_config en) now job)) (en_jobs en)
      in (en\<lparr>en_jobs := map (\<lambda>(i, job, observed). (i, job)) passes\<rparr>,
          concat (map (\<lambda>(i, job, observed). observed) passes)))"

end
