(* ===== verification/Engine_Journal.thy ===== *)
theory Engine_Journal
  imports Engine
begin

text \<open>
  The engine as a machine over deliveries and reconciliations. Its stored aggregates are always
  the replay of its own journal (up to the findings and the decision log, which never steer the
  reducer), event ids are unique, and an optimistic writer that is left alone once succeeds.
\<close>

section \<open>Findings and decisions do not steer the reducer\<close>

text \<open>The aggregate without its findings and its decision log.\<close>

definition core :: "job_visibility \<Rightarrow> job_visibility" where
  "core job = job\<lparr>jv_findings := [], jv_decisions := []\<rparr>"

lemma core_fields [simp]:
  "jv_job_id (core job) = jv_job_id job"
  "jv_recorded_status (core job) = jv_recorded_status job"
  "jv_version (core job) = jv_version job"
  "jv_attempts (core job) = jv_attempts job"
  by (simp_all add: core_def)

lemma attempt_at_core [simp]:
  "attempt_at (core job) e = attempt_at job e"
  "gap_before (core job) e = gap_before job e"
  "is_semantic_duplicate (core job) e = is_semantic_duplicate job e"
  "accepted (core job) e = accepted job e"
  by (simp_all add: attempt_at_def gap_before_def is_semantic_duplicate_def accepted_def)

lemma attempt_after_core [simp]: "attempt_after (core job) e = attempt_after job e"
  by (cases "ev_event_type e") (simp_all add: attempt_after_def Let_def)

lemma handler_reports_core:
  "snd (handler_of (ev_event_type e) (absorb_event (core job) e) e) =
   snd (handler_of (ev_event_type e) (absorb_event job e) e)"
  by (cases "ev_event_type e") (simp_all add: handler_defs Let_def)

lemma decision_core: "decision_of (core job) e = decision_of job e"
  using handler_reports_core [of e job]
  by (simp add: decision_of_def reduce_step_def project_def Let_def split_beta prod_eq_iff)

lemma core_absorb: "absorb_event (core job) e = core (absorb_event job e)"
  by (simp add: absorb_event_def core_def)

lemma core_fields' [simp]:
  "jv_correlation_id (core job) = jv_correlation_id job"
  "jv_job_type (core job) = jv_job_type job"
  "jv_created_at (core job) = jv_created_at job"
  "jv_submission_requested_at (core job) = jv_submission_requested_at job"
  "jv_scheduler_acknowledged_at (core job) = jv_scheduler_acknowledged_at job"
  "jv_scheduled_at (core job) = jv_scheduled_at job"
  "jv_scheduler_retrieved_at (core job) = jv_scheduler_retrieved_at job"
  "jv_started_at (core job) = jv_started_at job"
  "jv_completed_at (core job) = jv_completed_at job"
  "jv_scheduler_reference (core job) = jv_scheduler_reference job"
  "jv_max_attempts (core job) = jv_max_attempts job"
  "jv_next_retry_at (core job) = jv_next_retry_at job"
  "jv_last_failure_at (core job) = jv_last_failure_at job"
  "jv_last_error_code (core job) = jv_last_error_code job"
  "jv_retry_requested (core job) = jv_retry_requested job"
  "jv_retry_acknowledged (core job) = jv_retry_acknowledged job"
  "jv_retry_eligible (core job) = jv_retry_eligible job"
  "jv_retry_requested_at (core job) = jv_retry_requested_at job"
  "jv_cancellation_violation (core job) = jv_cancellation_violation job"
  "jv_retries_exhausted_violation (core job) = jv_retries_exhausted_violation job"
  "jv_incomplete_lifecycle (core job) = jv_incomplete_lifecycle job"
  "jv_last_event_time (core job) = jv_last_event_time job"
  "jv_data_as_of (core job) = jv_data_as_of job"
  "jv_findings (core job) = []"
  "jv_decisions (core job) = []"
  by (simp_all add: core_def)

lemma core_table: "core (table_step job e) = core (table_step (core job) e)"
  by (rule job_visibility.equality, simp_all add: table_step_def Let_def, auto)

lemma core_core [simp]: "core (core job) = core job"
  by (simp add: core_def)

lemma core_bookkeeping:
  "core (j\<lparr>jv_version := v, jv_decisions := ds, jv_last_event_time := l, jv_data_as_of := a\<rparr>) =
   (core j)\<lparr>jv_version := v, jv_last_event_time := l, jv_data_as_of := a\<rparr>"
  by (simp add: core_def)

lemma core_handled:
  "core (handled (core job) e) = core (handled job e)"
  using core_table [of "absorb_event job e" e] by (simp add: handled_table core_absorb)

lemma core_advance: "core (advance (core job) e) = core (advance job e)"
  by (simp only: reduce_step_conv fst_conv core_bookkeeping decision_core core_handled
      core_fields core_fields')

lemma core_replay:
  "core job = core job' \<Longrightarrow> core (replay job es) = core (replay job' es)"
proof (induction es arbitrary: job job')
  case (Cons e es)
  have "core (advance job e) = core (advance job' e)"
    using Cons.prems by (metis core_advance)
  then show ?case using Cons.IH [of "advance job e" "advance job' e"] by simp
qed simp

section \<open>The journal invariant\<close>

text \<open>The inputs of an engine: deliveries with an optional expected version, and reconciliations.\<close>

datatype engine_input = Deliver event "int option" | Reconcile time

primrec engine_step :: "engine \<Rightarrow> engine_input \<Rightarrow> engine" where
  "engine_step en (Deliver e v) = fst (engine_apply en e v)"
| "engine_step en (Reconcile now) = fst (reconcile en now)"

definition run_engine :: "engine \<Rightarrow> engine_input list \<Rightarrow> engine" where
  "run_engine en inputs = foldl engine_step en inputs"

definition events_of :: "engine \<Rightarrow> string \<Rightarrow> event list" where
  "events_of en i = filter (\<lambda>e. ev_job_id e = i) (en_events en)"

definition journalled :: "engine \<Rightarrow> bool" where
  "journalled en \<longleftrightarrow>
     distinct (map ev_event_id (en_events en)) \<and>
     en_event_ids en = set (map ev_event_id (en_events en)) \<and>
     wf_dict (en_jobs en) \<and>
     set (dict_keys (en_jobs en)) = set (map ev_job_id (en_events en)) \<and>
     (\<forall>i job. dict_get (en_jobs en) i = Some job \<longrightarrow>
        jv_job_id job = i \<and> core job = core (replay (new_job i) (events_of en i)))"

lemma journalled_new: "journalled (new_engine c)"
  by (simp add: journalled_def new_engine_def)

text \<open>The three outcomes of \<open>apply\<close>: a duplicate, a conflict, a reduction.\<close>

definition current_version :: "engine \<Rightarrow> string \<Rightarrow> int" where
  "current_version en i =
     (case dict_get (en_jobs en) i of None \<Rightarrow> 0 | Some job \<Rightarrow> jv_version job)"

definition current_job :: "engine \<Rightarrow> string \<Rightarrow> job_visibility" where
  "current_job en i = (case dict_get (en_jobs en) i of None \<Rightarrow> new_job i | Some job \<Rightarrow> job)"

definition conflicts :: "engine \<Rightarrow> event \<Rightarrow> int option \<Rightarrow> bool" where
  "conflicts en e expected \<longleftrightarrow>
     expected \<noteq> None \<and> expected \<noteq> Some (current_version en (ev_job_id e))"

lemma engine_apply_seen:
  assumes "ev_event_id e \<in> en_event_ids en"
  shows "snd (engine_apply en e v) =
      Inr \<lparr>de_event_id = ev_event_id e, de_decision = ''EXACT_DUPLICATE'',
           de_reason = Some ''eventId seen''\<rparr>"
    and "fst (engine_apply en e v) =
      (case dict_get (en_jobs en) (ev_job_id e) of
         None \<Rightarrow> en
       | Some job \<Rightarrow>
           en\<lparr>en_jobs := dict_put (ev_job_id e)
              (job\<lparr>jv_decisions := jv_decisions job @
                 [\<lparr>de_event_id = ev_event_id e, de_decision = ''EXACT_DUPLICATE'',
                   de_reason = Some ''eventId seen''\<rparr>]\<rparr>) (en_jobs en)\<rparr>)"
  using assms by (simp_all add: engine_apply_def Let_def split: option.splits)

lemma engine_apply_conflict:
  "ev_event_id e \<notin> en_event_ids en \<Longrightarrow> conflicts en e v \<Longrightarrow>
   engine_apply en e v =
     (en, Inl (VersionConflictError (ev_job_id e) (the v) (current_version en (ev_job_id e))))"
  by (auto simp: engine_apply_def conflicts_def current_version_def Let_def)

lemma engine_apply_fresh:
  assumes "ev_event_id e \<notin> en_event_ids en" and "\<not> conflicts en e v"
    and "jv_job_id (current_job en (ev_job_id e)) = ev_job_id e"
  shows "engine_apply en e v =
    (en\<lparr>en_event_ids := insert (ev_event_id e) (en_event_ids en),
        en_events := en_events en @ [e],
        en_jobs := dict_put (ev_job_id e) (advance (current_job en (ev_job_id e)) e) (en_jobs en)\<rparr>,
     Inr (decision_of (current_job en (ev_job_id e)) e))"
  using assms
  by (auto simp: engine_apply_def conflicts_def current_version_def current_job_def
      reduce_visibility_def decision_of_def Let_def split_beta split: option.splits)

lemma core_log: "core (job\<lparr>jv_decisions := ds\<rparr>) = core job"
  by (simp add: core_def)

lemma core_raise: "core (fst (raise_finding job c t m)) = core job"
  by (simp add: raise_finding_conv core_def)

lemma core_observe_if: "core (fst (observe_if b c m t s)) = core (fst s)"
  by (simp add: observe_if_def split_beta Let_def core_raise)

lemma core_reconcile_job: "core (fst (reconcile_job config now job)) = core job"
  by (simp add: reconcile_job_def Let_def core_observe_if)

lemma map_of_map_values: "map_of (map (\<lambda>x. (fst x, f (snd x))) d) i = map_option f (map_of d i)"
  by (induction d) auto

lemma reconcile_jobs:
  "dict_get (en_jobs (fst (reconcile en now))) i =
     map_option (\<lambda>job. fst (reconcile_job (en_config en) now job)) (dict_get (en_jobs en) i)"
  "dict_keys (en_jobs (fst (reconcile en now))) = dict_keys (en_jobs en)"
  "en_events (fst (reconcile en now)) = en_events en"
  "en_event_ids (fst (reconcile en now)) = en_event_ids en"
  "en_config (fst (reconcile en now)) = en_config en"
  by (simp_all add: reconcile_def Let_def split_beta comp_def
      map_of_map_values [where f = "\<lambda>job. fst (reconcile_job (en_config en) now job)"])

lemma job_id_core: "core job = core job' \<Longrightarrow> jv_job_id job = jv_job_id job'"
  using core_fields(1) by metis

lemma journalled_reconcile:
  assumes "journalled en"
  shows "journalled (fst (reconcile en now))"
proof -
  have "jv_job_id (fst (reconcile_job (en_config en) now job)) = jv_job_id job" for job
    using job_id_core core_reconcile_job by blast
  then show ?thesis
    using assms
    by (auto simp del: set_map simp: journalled_def reconcile_jobs wf_dict_def events_of_def
        core_reconcile_job)
qed

lemma journalled_apply:
  assumes j: "journalled en"
  shows "journalled (fst (engine_apply en e v))"
proof (cases "ev_event_id e \<in> en_event_ids en")
  case True
  show ?thesis
  proof (cases "dict_get (en_jobs en) (ev_job_id e)")
    case None
    with True j show ?thesis by (simp add: engine_apply_seen)
  next
    case (Some job)
    then have "ev_job_id e \<in> set (dict_keys (en_jobs en))"
      using pd.keys_get by fast
    with True Some j show ?thesis
      by (auto simp del: set_map simp: engine_apply_seen journalled_def events_of_def dict_rules
          wf_dict_put core_log insert_absorb)
  qed
next
  case False
  show ?thesis
  proof (cases "conflicts en e v")
    case True
    with False j show ?thesis by (simp add: engine_apply_conflict)
  next
    case fresh: False
    let ?i = "ev_job_id e"
    have cur: "jv_job_id (current_job en ?i) = ?i"
      "core (current_job en ?i) = core (replay (new_job ?i) (events_of en ?i))"
    proof -
      have "events_of en ?i = []" if "dict_get (en_jobs en) ?i = None"
      proof -
        from that j have "?i \<notin> set (map ev_job_id (en_events en))"
          using pd.get_keys [of "en_jobs en" ?i] by (simp del: set_map add: journalled_def)
        then show ?thesis by (auto simp: events_of_def filter_empty_conv image_iff)
      qed
      then show "core (current_job en ?i) = core (replay (new_job ?i) (events_of en ?i))"
        using j by (auto simp: current_job_def journalled_def split: option.splits)
      show "jv_job_id (current_job en ?i) = ?i"
        using j by (auto simp: current_job_def journalled_def new_job_def split: option.splits)
    qed
    have "core (advance (current_job en ?i) e) =
        core (replay (new_job ?i) (events_of en ?i @ [e]))"
      using core_replay [OF cur(2), of "[e]"] by simp
    moreover have "events_of (en\<lparr>en_event_ids := a, en_events := en_events en @ [e], en_jobs := b\<rparr>) i =
        events_of en i @ (if i = ?i then [e] else [])" for a b i
      by (simp add: events_of_def)
    ultimately show ?thesis
      using False fresh j cur(1)
      by (auto simp del: set_map simp: engine_apply_fresh journalled_def dict_rules wf_dict_put
          reduce_bookkeeping)
  qed
qed

interpretation journal_runs: invariant_machine engine_step "\<lambda>input. True" journalled
proof
  show "journalled (engine_step en input)" if "journalled en" for en input
    using that journalled_apply journalled_reconcile by (cases input) simp_all
qed

lemma journalled_run: "journalled en \<Longrightarrow> journalled (run_engine en inputs)"
  unfolding run_engine_def by (rule journal_runs.run_inv) (simp_all add: list_all_iff)

section \<open>Optimistic writers\<close>

lemma journalled_job_id:
  "journalled en \<Longrightarrow> jv_job_id (current_job en i) = i"
  by (auto simp: journalled_def current_job_def new_job_def split: option.splits)

lemma apply_succeeds:
  "journalled en \<Longrightarrow> \<not> conflicts en e v \<Longrightarrow> \<exists>d. snd (engine_apply en e v) = Inr d"
  by (cases "ev_event_id e \<in> en_event_ids en")
    (simp_all add: engine_apply_seen engine_apply_fresh journalled_job_id)

lemma apply_outcome:
  assumes "journalled en"
  obtains (conflict) "engine_apply en e v =
      (en, Inl (VersionConflictError (ev_job_id e) (the v) (current_version en (ev_job_id e))))"
      "conflicts en e v" "ev_event_id e \<notin> en_event_ids en"
    | (decision) en' d where "engine_apply en e v = (en', Inr d)"
proof (cases "ev_event_id e \<notin> en_event_ids en \<and> conflicts en e v")
  case True
  then show ?thesis using conflict engine_apply_conflict by metis
next
  case False
  then have "\<exists>d. snd (engine_apply en e v) = Inr d"
    using assms apply_succeeds engine_apply_seen(1) by metis
  then show ?thesis using decision by (metis prod.collapse)
qed

text \<open>What other writers may do: anything that keeps the journal and forgets no job.\<close>

definition fair :: "(int \<Rightarrow> engine \<Rightarrow> engine) \<Rightarrow> bool" where
  "fair interfere \<longleftrightarrow>
     (\<forall>n en. journalled en \<longrightarrow> journalled (interfere n en) \<and>
        (\<forall>i. dict_get (en_jobs en) i \<noteq> None \<longrightarrow> dict_get (en_jobs (interfere n en)) i \<noteq> None))"

lemma retry_loop_undisturbed:
  assumes fair: "fair interfere"
    and quiet: "\<And>en. current_version (interfere k en) (ev_job_id e) = current_version en (ev_job_id e)"
  shows "journalled en \<Longrightarrow> dict_get (en_jobs en) (ev_job_id e) \<noteq> None \<Longrightarrow> number \<le> k \<Longrightarrow>
    k \<le> retries \<Longrightarrow> (number = k \<longrightarrow> v = current_version en (ev_job_id e)) \<Longrightarrow>
    \<exists>d. snd (retry_loop interfere en e v number retries) = Inr d"
proof (induction "nat (k - number)" arbitrary: en v number)
  case 0
  then have k: "number = k" "v = current_version en (ev_job_id e)" by auto
  have "journalled (interfere k en)" using fair 0(2) by (simp add: fair_def)
  moreover have "\<not> conflicts (interfere k en) e (Some v)"
    using k quiet by (simp add: conflicts_def)
  ultimately obtain en' d where "engine_apply (interfere k en) e (Some v) = (en', Inr d)"
    using apply_succeeds by (metis prod.collapse)
  then show ?case
    using 0 k by (subst retry_loop.simps) simp
next
  case (Suc m)
  let ?en = "interfere number en"
  have en: "journalled ?en" "dict_get (en_jobs ?en) (ev_job_id e) \<noteq> None"
    using fair Suc.prems by (simp_all add: fair_def)
  then obtain job where job: "dict_get (en_jobs ?en) (ev_job_id e) = Some job" by blast
  from en(1) show ?case
  proof (cases rule: apply_outcome [of ?en e "Some v"])
    case conflict
    have "\<exists>d. snd (retry_loop interfere ?en e (jv_version job) (number + 1) retries) = Inr d"
      using Suc en by (intro Suc.hyps(1)) (auto simp: current_version_def job)
    then show ?thesis
      using Suc.hyps(2) Suc.prems conflict(1) job by (subst retry_loop.simps) simp
  next
    case (decision en' d)
    then show ?thesis
      using Suc.hyps(2) Suc.prems by (subst retry_loop.simps) simp
  qed
qed

text \<open>A single writer that finds no job cannot reload a version.\<close>

lemma retry_unknown_job:
  assumes "journalled en" and "dict_get (en_jobs en) (ev_job_id e) = None" and "v \<noteq> 0"
    and "ev_event_id e \<notin> en_event_ids en" and "0 < retries"
  shows "apply_with_retry (\<lambda>n en. en) en e v retries = (en, Inl (KeyError (ev_job_id e)))"
proof -
  have "conflicts en e (Some v)"
    using assms by (simp add: conflicts_def current_version_def)
  then show ?thesis
    using assms unfolding apply_with_retry_def
    by (subst retry_loop.simps) (simp add: engine_apply_conflict)
qed

section \<open>Well-formed jobs in the engine\<close>

primrec valid_input :: "engine_input \<Rightarrow> bool" where
  "valid_input (Deliver e v) = valid_event e"
| "valid_input (Reconcile now) = True"

definition sound :: "engine \<Rightarrow> bool" where
  "sound en \<longleftrightarrow> journalled en \<and> dict_all (\<lambda>i. wf_job) (en_jobs en)"

lemma wf_job_raise: "wf_job job \<Longrightarrow> wf_job (fst (raise_finding job c t m))"
  using wf_findings_raised [of "jv_findings job" c t m]
  by (simp add: wf_job_def wf_findings_def raise_finding_conv)

lemma wf_job_observe_if: "wf_job (fst s) \<Longrightarrow> wf_job (fst (observe_if b c m t s))"
  by (simp add: observe_if_def split_beta Let_def wf_job_raise)

lemma wf_job_reconcile: "wf_job job \<Longrightarrow> wf_job (fst (reconcile_job config now job))"
  by (simp add: reconcile_job_def Let_def wf_job_observe_if)

lemma wf_job_log_duplicate:
  "wf_job job \<Longrightarrow> wf_job (job\<lparr>jv_decisions := jv_decisions job @
     [\<lparr>de_event_id = i, de_decision = ''EXACT_DUPLICATE'', de_reason = r\<rparr>]\<rparr>)"
  by (simp add: wf_job_def)

lemma sound_current: "sound en \<Longrightarrow> wf_job (current_job en i)"
  by (auto simp: sound_def current_job_def dest: dict_all_get split: option.splits)

lemma sound_apply:
  assumes s: "sound en" and e: "valid_event e"
  shows "sound (fst (engine_apply en e v))"
proof -
  have j: "journalled en" and all: "dict_all (\<lambda>i. wf_job) (en_jobs en)"
    using s by (simp_all add: sound_def)
  have "dict_all (\<lambda>i. wf_job) (en_jobs (fst (engine_apply en e v)))"
  proof (cases "ev_event_id e \<in> en_event_ids en")
    case True
    then show ?thesis
      using all dict_all_get [OF all]
      by (auto simp: engine_apply_seen intro!: dict_all_put wf_job_log_duplicate split: option.splits)
  next
    case False
    then show ?thesis
      using all sound_current [OF s] e journalled_job_id [OF j]
      by (cases "conflicts en e v")
        (auto simp: engine_apply_conflict engine_apply_fresh intro!: dict_all_put wf_job_reduce)
  qed
  then show ?thesis
    using journalled_apply [OF j] by (simp add: sound_def)
qed

lemma sound_reconcile: "sound en \<Longrightarrow> sound (fst (reconcile en now))"
  using journalled_reconcile [of en now]
  by (auto simp: sound_def dict_all_def reconcile_def Let_def split_beta intro!: wf_job_reconcile)

interpretation sound_runs: invariant_machine engine_step valid_input sound
proof
  show "sound (engine_step en input)" if "sound en" "valid_input input" for en input
    using that sound_apply sound_reconcile by (cases input) simp_all
qed

lemma sound_run: "sound en \<Longrightarrow> list_all valid_input inputs \<Longrightarrow> sound (run_engine en inputs)"
  unfolding run_engine_def by (rule sound_runs.run_inv)

section \<open>Properties\<close>

text \<open>
  C10. The stored projections are the replay of the journal: after any sequence of deliveries (with
  or without expected versions, repeated, conflicting) and reconciliations, event ids are unique in
  the journal, exactly the jobs with a journalled event have an aggregate, and each aggregate is,
  up to findings and the decision log, the fold of the reducer over its own events.
\<close>

theorem projections_replay_the_journal:
  "let en = run_engine (new_engine c) inputs in
     distinct (map ev_event_id (en_events en)) \<and>
     set (dict_keys (en_jobs en)) = set (map ev_job_id (en_events en)) \<and>
     (\<forall>i. dict_get (en_jobs en) i = None \<or>
       core (the (dict_get (en_jobs en) i)) = core (replay (new_job i) (events_of en i)))"
proof -
  let ?en = "run_engine (new_engine c) inputs"
  have j: "journalled ?en" by (intro journalled_run journalled_new)
  have "dict_get (en_jobs ?en) i = None \<or>
      core (the (dict_get (en_jobs ?en) i)) = core (replay (new_job i) (events_of ?en i))" for i
    using j by (cases "dict_get (en_jobs ?en) i") (simp_all add: journalled_def)
  with j show ?thesis by (simp del: set_map add: journalled_def Let_def)
qed

text \<open>
  Optimistic versions: for an event that was not seen before, \<open>apply\<close> raises exactly when an
  expected version is given and differs from the stored one (0 for an unknown job), and then the
  engine is unchanged; otherwise the event is journalled and the new aggregate is the reduction of
  the stored one.
\<close>

theorem apply_checks_the_version:
  assumes "ev_event_id e \<notin> en_event_ids (run_engine (new_engine c) inputs)"
  shows "let en = run_engine (new_engine c) inputs; i = ev_job_id e;
             actual = current_version en i
    in if expected \<noteq> None \<and> expected \<noteq> Some actual
       then engine_apply en e expected =
         (en, Inl (VersionConflictError i (the expected) actual))
       else en_events (fst (engine_apply en e expected)) = en_events en @ [e] \<and>
         dict_get (en_jobs (fst (engine_apply en e expected))) i =
           Some (fst (reduce_step (current_job en i) e)) \<and>
         snd (engine_apply en e expected) = Inr (snd (reduce_step (current_job en i) e))"
  using assms journalled_job_id [OF journalled_run [OF journalled_new, of c inputs]]
  by (auto simp: Let_def engine_apply_conflict engine_apply_fresh conflicts_def dict_rules
      reduce_bookkeeping)

theorem apply_checks_the_version_witness:
  "let e = new_event ''evt-1'' JOB_CREATED 0 0 ''job-1'' in
   engine_apply (new_engine None) e (Some 4) =
     (new_engine None, Inl (VersionConflictError ''job-1'' 4 0))"
  using apply_checks_the_version [of "new_event ''evt-1'' JOB_CREATED 0 0 ''job-1''" None "[]" "Some 4"]
  by (simp add: run_engine_def new_engine_def new_event_def current_version_def Let_def)

text \<open>
  An optimistic writer that loses races succeeds as soon as it is left alone: if other writers
  keep the journal and forget no job, and before some attempt within the retry budget they leave
  the version of the writer's job alone, \<open>apply_with_retry\<close> returns a decision, for every version
  the writer starts from.
\<close>

theorem undisturbed_writer_succeeds:
  assumes "fair interfere" and "0 < k" and "k \<le> retries"
    and "\<And>en. current_version (interfere k en) (ev_job_id e) = current_version en (ev_job_id e)"
    and "journalled en" and "dict_get (en_jobs en) (ev_job_id e) \<noteq> None"
  shows "\<exists>d. snd (apply_with_retry interfere en e v retries) = Inr d"
  using assms unfolding apply_with_retry_def
  by (intro retry_loop_undisturbed [where k = k]) simp_all

theorem undisturbed_writer_succeeds_witness:
  "\<exists>d. snd (apply_with_retry (\<lambda>n en. en)
     (fst (engine_apply (new_engine None) (new_event ''evt-1'' JOB_CREATED 0 0 ''job-1'') None))
     (new_event ''evt-2'' JOB_EXECUTION_STARTED 1 1 ''job-1'') 7 3) = Inr d"
proof (rule undisturbed_writer_succeeds [where k = 1])
  show "fair (\<lambda>n en. en)" by (simp add: fair_def)
  show "journalled (fst (engine_apply (new_engine None)
      (new_event ''evt-1'' JOB_CREATED 0 0 ''job-1'') None))"
    by (intro journalled_apply journalled_new)
  show "dict_get (en_jobs (fst (engine_apply (new_engine None)
      (new_event ''evt-1'' JOB_CREATED 0 0 ''job-1'') None)))
      (ev_job_id (new_event ''evt-2'' JOB_EXECUTION_STARTED 1 1 ''job-1'')) \<noteq> None"
    by (subst engine_apply_fresh)
      (simp_all add: new_engine_def conflicts_def current_job_def new_event_def new_job_def)
qed simp_all

end
