(* ===== verification/Engine_Reads.thy ===== *)
theory Engine_Reads
  imports Engine_Journal
begin

text \<open>
  What the engine tells its readers: evidence behind every stored status, the derived status and
  the delay classification as functions of the clock, searches, and what a reconciliation pass
  finds.
\<close>

section \<open>Status evidence in the engine\<close>

lemma has_attempt_core: "has_attempt (core job) s = has_attempt job s"
  by (simp add: has_attempt_def)

lemma evidence_core: "evidence s (core job) = evidence s job"
  by (cases s) (simp_all add: has_attempt_core)

lemma coherent_core: "coherent (core job) = coherent job"
  by (simp add: coherent_def evidence_core has_attempt_core)

lemma journalled_coherent:
  assumes "journalled en" and "dict_get (en_jobs en) i = Some job"
  shows "coherent job"
proof -
  from assms have "core job = core (replay (new_job i) (events_of en i))"
    by (simp add: journalled_def)
  then have "coherent (core job)"
    using coherent_replay [OF coherent_new] coherent_core by metis
  then show ?thesis by (simp add: coherent_core)
qed

section \<open>The derived status\<close>

text \<open>The status a reader sees, as a function of the instant: a decision table of its own.\<close>

lemma derived_overdue_iff:
  "jv_recorded_status job \<noteq> OVERDUE \<Longrightarrow>
   derived_status config job now = OVERDUE \<longleftrightarrow> is_overdue config job now"
  by (auto simp: derived_status_def is_overdue_def is_terminal_iff split: option.splits)

lemma derived_recorded:
  "jv_recorded_status job \<notin> {SCHEDULED, AWAITING_EXECUTION} \<Longrightarrow>
   derived_status config job now = jv_recorded_status job"
  by (auto simp: derived_status_def split: option.splits)

lemma is_overdue_later: "is_overdue config job now \<Longrightarrow> now \<le> later \<Longrightarrow> is_overdue config job later"
  by (auto simp: is_overdue_def split: option.splits)

lemma is_overdue_iff:
  "is_overdue config job now \<longleftrightarrow>
     jv_recorded_status job \<in> {SCHEDULED, AWAITING_EXECUTION} \<and> jv_started_at job = None \<and>
     (\<exists>at. jv_scheduled_at job = Some at \<and> at + seconds (cf_grace_period_seconds config) < now)"
  by (auto simp: is_overdue_def split: option.splits)

text \<open>A waiting job only moves forward as time passes: scheduled, eligible, overdue.\<close>

fun waiting_rank :: "status \<Rightarrow> nat" where
  "waiting_rank SCHEDULED = 0"
| "waiting_rank AWAITING_EXECUTION = 1"
| "waiting_rank OVERDUE = 2"
| "waiting_rank s = 0"

lemma derived_monotone:
  assumes "jv_recorded_status job \<in> {SCHEDULED, AWAITING_EXECUTION}" and "now \<le> later"
    and "0 \<le> cf_grace_period_seconds config"
  shows "waiting_rank (derived_status config job now) \<le> waiting_rank (derived_status config job later)"
  using assms by (auto simp: derived_status_def is_overdue_def split: option.splits)

lemma overdue_duration_iff:
  "overdue_duration config job now =
     (case jv_scheduled_at job of
        Some at \<Rightarrow>
          if is_overdue config job now
          then (now - (at + seconds (cf_grace_period_seconds config))) div 1000000 else 0
      | None \<Rightarrow> 0)"
  by (auto simp: overdue_duration_def max_int_total_seconds is_overdue_def split: option.splits)

lemma overdue_duration_nonneg: "0 \<le> overdue_duration config job now"
  by (simp add: overdue_duration_def split: option.splits)

text \<open>The delay classification partitions the waiting time of a job that has not started.\<close>

lemma delay_of_cases:
  assumes "jv_scheduled_at job = Some at" and "jv_started_at job = None"
  shows "delay_of config job now (derived_status config job now) =
    Some (if now < at then NOT_YET_ELIGIBLE
          else if derived_status config job now = OVERDUE then EXECUTION_OVERDUE
          else if jv_scheduler_retrieved_at job \<noteq> None then RETRIEVED_AWAITING_WORKER
          else if now < at + seconds (cf_poll_interval_seconds config) then AWAITING_POLL_WINDOW
          else POSSIBLE_BATCH_BACKLOG)"
  using assms by (simp add: delay_of_def)

lemma delay_of_None_iff:
  "delay_of config job now s = None \<longleftrightarrow> jv_scheduled_at job = None \<or> jv_started_at job \<noteq> None"
  by (auto simp: delay_of_def split: option.splits)

section \<open>Reads\<close>

lemma get_response_unknown:
  "(\<exists>err. get_response en i now = Inl err) \<longleftrightarrow> i \<notin> set (dict_keys (en_jobs en))"
  using pd.get_keys [of "en_jobs en" i] by (auto simp: get_response_def split: option.splits)

lemma response_fields:
  "jfield (response config job now) ''jobId'' = Some (JStr (jv_job_id job))"
  "jfield (response config job now) ''correlationId'' = Some (JStr (jv_correlation_id job))"
  "jfield (response config job now) ''status'' =
     Some (JStr (status_value (derived_status config job now)))"
  "jfield (response config job now) ''version'' = Some (JInt (jv_version job))"
  by (simp_all add: response_def Let_def)

lemma collect_results_Inr:
  "(\<And>x. x \<in> set xs \<Longrightarrow> f x = Inr (g x)) \<Longrightarrow> collect_results f xs = Inr (map g xs)"
  by (induction xs) simp_all

text \<open>What \<open>search\<close> selects, on the aggregates themselves.\<close>

definition matches ::
  "engine \<Rightarrow> time \<Rightarrow> status option \<Rightarrow> string option \<Rightarrow> time option \<Rightarrow> time option \<Rightarrow> string \<Rightarrow> bool"
where
  "matches en now status correlation_id scheduled_from scheduled_to i =
     (let job = current_job en i
      in (case status of None \<Rightarrow> True | Some s \<Rightarrow> derived_status (en_config en) job now = s) \<and>
         (truthy_str correlation_id \<longrightarrow> jv_correlation_id job = the correlation_id) \<and>
         (case scheduled_from of None \<Rightarrow> True
          | Some from \<Rightarrow> (\<exists>at. jv_scheduled_at job = Some at \<and> from \<le> at)) \<and>
         (case scheduled_to of None \<Rightarrow> True
          | Some until \<Rightarrow> (\<exists>at. jv_scheduled_at job = Some at \<and> at \<le> until)))"

lemma search_refines:
  assumes j: "journalled en"
  shows "search en now status correlation_id scheduled_from scheduled_to =
    Inr (map (\<lambda>i. response (en_config en) (current_job en i) now)
      (filter (matches en now status correlation_id scheduled_from scheduled_to) (job_ids en)))"
proof -
  let ?r = "\<lambda>i. response (en_config en) (current_job en i) now"
  have known: "get_response en i now = Inr (?r i)" if "i \<in> set (job_ids en)" for i
    using that pd.keys_get [of i "en_jobs en"]
    by (auto simp: job_ids_def get_response_def current_job_def split: option.splits)
  have sched: "item_scheduled_at en (?r i) = jv_scheduled_at (current_job en i)" for i
    using journalled_job_id [OF j, of i]
    by (auto simp: item_scheduled_at_def response_fields current_job_def new_job_def
        split: option.splits)
  have "collect_results (\<lambda>i. get_response en i now) (job_ids en) = Inr (map ?r (job_ids en))"
    by (rule collect_results_Inr) (rule known)
  then show ?thesis
    by (auto simp: search_def Let_def filter_map comp_def response_fields sched status_value_inj
        matches_def filter_filter intro!: arg_cong [where f = "map ?r"] filter_cong
        split: option.splits)
qed

section \<open>Properties\<close>

text \<open>
  The status a reader gets differs from the recorded one only for a scheduled or retrieved job
  with a scheduled time: it is overdue exactly when the job has not started and the grace period
  after the scheduled time has passed, awaiting execution from the scheduled time on, and the
  overdue duration is the number of whole seconds since the end of the grace period.
\<close>

theorem derived_status_specification:
  "derived_status config job now =
     (case jv_scheduled_at job of
        Some at \<Rightarrow>
          if jv_recorded_status job \<in> {SCHEDULED, AWAITING_EXECUTION} then
            (if jv_started_at job = None \<and> at + seconds (cf_grace_period_seconds config) < now
             then OVERDUE
             else if at \<le> now then AWAITING_EXECUTION else jv_recorded_status job)
          else jv_recorded_status job
      | None \<Rightarrow> jv_recorded_status job) \<and>
   overdue_duration config job now =
     (case jv_scheduled_at job of
        Some at \<Rightarrow>
          if is_overdue config job now
          then (now - (at + seconds (cf_grace_period_seconds config))) div 1000000 else 0
      | None \<Rightarrow> 0)"
  by (auto simp: derived_status_def is_overdue_def overdue_duration_iff is_terminal_iff
      split: option.splits)

text \<open>
  As the clock advances without new events, a waiting job only moves forward through
  scheduled, awaiting execution and overdue, provided the grace period is not negative.
\<close>

theorem waiting_status_advances:
  assumes "jv_recorded_status job \<in> {SCHEDULED, AWAITING_EXECUTION}" and "now \<le> later"
    and "0 \<le> cf_grace_period_seconds config"
  shows "waiting_rank (derived_status config job now) \<le> waiting_rank (derived_status config job later)"
  using assms by (rule derived_monotone)

theorem waiting_status_advances_witness:
  "waiting_rank (derived_status default_config
     ((new_job ''job-1'')\<lparr>jv_recorded_status := SCHEDULED, jv_scheduled_at := Some 0\<rparr>) (-1)) \<le>
   waiting_rank (derived_status default_config
     ((new_job ''job-1'')\<lparr>jv_recorded_status := SCHEDULED, jv_scheduled_at := Some 0\<rparr>)
     (seconds 601))"
  by (rule waiting_status_advances) (simp_all add: default_config_def)

text \<open>
  A search over an engine in any reachable state succeeds and returns, in the order of the
  sorted job ids, the responses of exactly the jobs that match every given filter; an empty
  correlation id filters nothing and jobs without a scheduled time never match a time filter.
\<close>

theorem search_returns_the_matches:
  "let en = run_engine (new_engine c) inputs in
   search en now status correlation_id scheduled_from scheduled_to =
     Inr (map (\<lambda>i. response (en_config en) (current_job en i) now)
       (filter (matches en now status correlation_id scheduled_from scheduled_to) (job_ids en)))"
  unfolding Let_def by (rule search_refines) (intro journalled_run journalled_new)

end
