(* ===== verification/Engine_Reconcile.thy ===== *)
theory Engine_Reconcile
  imports Engine_Reads
begin

text \<open>
  The reconciliation pass of \<open>VisibilityEngine.reconcile\<close>: the five checks as a list of alarms, one
  pass raises exactly these findings and touches nothing else, and repeating it changes nothing.
\<close>

section \<open>Reconciliation\<close>

text \<open>The alarms of an aggregate at an instant: code and message, in the order of the checks.\<close>

definition alarms :: "visibility_config \<Rightarrow> time \<Rightarrow> job_visibility \<Rightarrow> (string \<times> string) list" where
  "alarms config now job =
     (let alarm = (\<lambda>b code message. if b then [(code, message)] else [])
      in alarm
           (jv_recorded_status job = PENDING_SUBMISSION \<and>
            older_than (jv_submission_requested_at job) now
              (cf_submission_acknowledgement_timeout_seconds config))
           ''SCHEDULER_ACK_TIMEOUT''
           ''No scheduler acknowledgement was observed before the timeout.'' @
         alarm
           (jv_recorded_status job = RUNNING \<and>
            older_than (jv_started_at job) now (cf_running_timeout_seconds config))
           ''RUNNING_TIMEOUT'' ''Execution has remained running beyond the configured timeout.'' @
         alarm
           (jv_retry_requested job \<and> \<not> jv_retry_acknowledged job \<and>
            older_than (jv_retry_requested_at job) now
              (cf_retry_acknowledgement_timeout_seconds config))
           ''RETRY_ACK_TIMEOUT'' ''No retry acknowledgement was observed before the timeout.'' @
         alarm (is_overdue config job now)
           ''EXECUTION_START_OVERDUE''
           ''No execution start was observed before the business grace period expired.'' @
         alarm (sequence_gap job)
           ''ATTEMPT_SEQUENCE_GAP''
           ''Observed attempt numbers contain a gap; missing attempts were not inferred.'')"

lemma is_overdue_findings [simp]:
  "is_overdue config (job\<lparr>jv_findings := fs\<rparr>) now = is_overdue config job now"
  by (simp add: is_overdue_def split: option.split)

lemma sequence_gap_findings [simp]: "sequence_gap (job\<lparr>jv_findings := fs\<rparr>) = sequence_gap job"
  by (simp add: sequence_gap_def)

lemma alarms_findings [simp]: "alarms config now (job\<lparr>jv_findings := fs\<rparr>) = alarms config now job"
  by (simp add: alarms_def)

lemma alarms_distinct: "distinct (map fst (alarms config now job))"
proof -
  have "distinct (map fst
      ((if a then [(''SCHEDULER_ACK_TIMEOUT'', k)] else []) @
       (if b then [(''RUNNING_TIMEOUT'', l)] else []) @
       (if c then [(''RETRY_ACK_TIMEOUT'', m)] else []) @
       (if d then [(''EXECUTION_START_OVERDUE'', n)] else []) @
       (if e then [(''ATTEMPT_SEQUENCE_GAP'', p)] else [])))" for a b c d e and k l m n p :: string
    by (cases a; cases b; cases c; cases d; cases e; simp)
  then show ?thesis unfolding alarms_def Let_def by this
qed

definition raise_all ::
  "time \<Rightarrow> (string \<times> string) list \<Rightarrow> (string, finding) dict \<Rightarrow> (string, finding) dict" where
  "raise_all now cs fs = foldl (\<lambda>fs (c, m). dict_put c (raised fs c now m) fs) fs cs"

lemma raise_all_simps [simp]:
  "raise_all now [] fs = fs"
  "raise_all now ((c, m) # cs) fs = raise_all now cs (dict_put c (raised fs c now m) fs)"
  "raise_all now (cs @ ds) fs = raise_all now ds (raise_all now cs fs)"
  by (simp_all add: raise_all_def)

lemma raised_put_other: "c \<noteq> c' \<Longrightarrow> raised (dict_put c' f fs) c t m = raised fs c t m"
  by (simp add: raised_def dict_rules)

lemma raised_past_alarm:
  "c \<noteq> c' \<Longrightarrow> raised (raise_all now (if b then [(c', m')] else []) fs) c t m = raised fs c t m"
  by (simp add: raised_put_other)

lemma raise_all_get:
  "distinct (map fst cs) \<Longrightarrow>
   dict_get (raise_all now cs fs) c =
     (case map_of cs c of None \<Rightarrow> dict_get fs c | Some m \<Rightarrow> Some (raised fs c now m))"
proof (induction cs arbitrary: fs)
  case (Cons x cs)
  obtain c' m where x: "x = (c', m)" by (cases x)
  have "map_of cs c' = None" using Cons.prems x by (simp add: map_of_eq_None_iff)
  then show ?case
    using Cons by (auto simp: x dict_rules raised_put_other split: option.splits)
qed simp

lemma raised_raised: "dict_get fs' c = Some (raised fs c t m) \<Longrightarrow> raised fs' c t m = raised fs c t m"
  by (auto simp: raised_def split: option.splits)

lemma raise_all_stable:
  "(\<And>c m. (c, m) \<in> set cs \<Longrightarrow> dict_get fs c = Some (raised fs c now m)) \<Longrightarrow>
   raise_all now cs fs = fs"
proof (induction cs)
  case (Cons x cs)
  then show ?case by (cases x) (simp add: update_triv)
qed simp

text \<open>One pass over an aggregate raises exactly its alarms and touches nothing else.\<close>

lemma reconcile_job_alarms:
  "reconcile_job config now job =
     (job\<lparr>jv_findings := raise_all now (alarms config now job) (jv_findings job)\<rparr>,
      map (\<lambda>(c, m). raised (jv_findings job) c now m) (alarms config now job))"
proof -
  have step: "observe_if b c m now (job\<lparr>jv_findings := fs\<rparr>, obs) =
      (job\<lparr>jv_findings := raise_all now (if b then [(c, m)] else []) fs\<rparr>,
       obs @ (if b then [raised fs c now m] else []))" for b c m fs obs
    by (simp add: observe_if_def raise_finding_conv)
  have start: "(job, []) = (job\<lparr>jv_findings := jv_findings job\<rparr>, [] :: finding list)" by simp
  show ?thesis
    unfolding reconcile_job_def Let_def start step alarms_def
    by (simp add: step raised_past_alarm if_distrib [where f = "map _"]
        split del: if_split cong: if_cong)
qed

lemma reconcile_job_idempotent:
  "reconcile_job config now (fst (reconcile_job config now job)) = reconcile_job config now job"
proof -
  let ?cs = "alarms config now job" and ?fs = "jv_findings job"
  have get: "dict_get (raise_all now ?cs ?fs) c = Some (raised ?fs c now m)"
    if "(c, m) \<in> set ?cs" for c m
    using that alarms_distinct by (simp add: raise_all_get map_of_is_SomeI)
  then have same: "raised (raise_all now ?cs ?fs) c now m = raised ?fs c now m"
    if "(c, m) \<in> set ?cs" for c m
    using that raised_raised by metis
  have "raise_all now ?cs (raise_all now ?cs ?fs) = raise_all now ?cs ?fs"
    by (rule raise_all_stable) (simp add: get same)
  moreover have "map (\<lambda>(c, m). raised (raise_all now ?cs ?fs) c now m) ?cs =
      map (\<lambda>(c, m). raised ?fs c now m) ?cs"
    by (auto simp: same)
  ultimately show ?thesis by (simp add: reconcile_job_alarms)
qed

lemma reconcile_idempotent:
  "reconcile (fst (reconcile en now)) now = reconcile en now"
  by (simp add: reconcile_def Let_def split_beta comp_def reconcile_job_idempotent)

lemma raised_active [simp]:
  "fi_active (raised fs c t m)" "fi_resolved_at (raised fs c t m) = None"
  by (simp_all add: raised_def split: option.splits)

lemma raised_code: "dict_all wf_finding fs \<Longrightarrow> fi_code (raised fs c t m) = c"
  using wf_finding_raised [of fs c t m] by (simp add: wf_finding_def)

lemma reconcile_job_active:
  "(c, m) \<in> set (alarms config now job) \<Longrightarrow>
   \<exists>f. dict_get (jv_findings (fst (reconcile_job config now job))) c = Some f \<and> fi_active f"
  using alarms_distinct [of config now job]
  by (auto simp: reconcile_job_alarms raise_all_get map_of_is_SomeI)

text \<open>A gap is a missing predecessor of an observed attempt.\<close>

lemma sorted_distinct_eq_range:
  assumes "sorted ns" "distinct ns" "ns \<noteq> []" and "\<forall>n \<in> set ns. 1 \<le> (n::int)"
  shows "ns = [1..Max (set ns)] \<longleftrightarrow> (\<forall>n \<in> set ns. \<forall>m. 1 \<le> m \<and> m < n \<longrightarrow> m \<in> set ns)"
proof
  assume eq: "ns = [1..Max (set ns)]"
  show "\<forall>n \<in> set ns. \<forall>m. 1 \<le> m \<and> m < n \<longrightarrow> m \<in> set ns"
  proof (intro ballI allI impI)
    fix n m assume "n \<in> set ns" "1 \<le> m \<and> m < n"
    moreover from \<open>n \<in> set ns\<close> have "n \<le> Max (set ns)" by simp
    ultimately have "1 \<le> m" and "m \<le> Max (set ns)" by linarith+
    then have "m \<in> set [1..Max (set ns)]" by simp
    then show "m \<in> set ns" using eq by simp
  qed
next
  assume closed: "\<forall>n \<in> set ns. \<forall>m. 1 \<le> m \<and> m < n \<longrightarrow> m \<in> set ns"
  have top: "Max (set ns) \<in> set ns" using assms(3) by simp
  have "x \<in> set ns" if "1 \<le> x" "x \<le> Max (set ns)" for x
  proof (cases "x = Max (set ns)")
    case False
    then have "x < Max (set ns)" using that(2) by (rule le_neq_trans [rotated])
    then show ?thesis using closed top that(1) by blast
  qed (simp add: top)
  then have "x \<in> set ns \<longleftrightarrow> 1 \<le> x \<and> x \<le> Max (set ns)" for x
    using assms(4) by (meson Max_ge finite_set)
  then have "set ns = set [1..Max (set ns)]"
    unfolding set_upto set_eq_iff atLeastAtMost_iff by blast
  then show "ns = [1..Max (set ns)]"
    using assms(1,2) by (intro sorted_distinct_set_unique) simp_all
qed

lemma sequence_gap_iff:
  assumes "wf_job job"
  shows "sequence_gap job \<longleftrightarrow>
    (\<exists>n \<in> set (dict_keys (jv_attempts job)). \<exists>m. 1 \<le> m \<and> m < n \<and>
       m \<notin> set (dict_keys (jv_attempts job)))"
proof -
  let ?ns = "sort (dict_keys (jv_attempts job))"
  have pos: "\<forall>n \<in> set ?ns. 1 \<le> n"
    using assms by (auto simp: wf_job_def dict_all_def wf_attempt_def)
  have "distinct ?ns" using assms by (simp add: wf_job_def wf_dict_def)
  then have "?ns \<noteq> [] \<Longrightarrow> ?ns = [1..Max (set ?ns)] \<longleftrightarrow>
      (\<forall>n \<in> set ?ns. \<forall>m. 1 \<le> m \<and> m < n \<longrightarrow> m \<in> set ?ns)"
    using pos by (intro sorted_distinct_eq_range) simp_all
  moreover have "set ?ns = set (dict_keys (jv_attempts job))" by simp
  ultimately show ?thesis
    unfolding sequence_gap_def Let_def by (metis empty_iff empty_set)
qed

section \<open>Properties\<close>

text \<open>
  Reconciling twice at the same instant is reconciling once: the second pass reports the same
  findings and leaves the engine unchanged.
\<close>

theorem reconcile_is_idempotent:
  "reconcile (fst (reconcile en now)) now = reconcile en now"
  by (rule reconcile_idempotent)

text \<open>
  One pass over a well-formed aggregate raises exactly its alarms: the findings it reports are
  the ones of the alarms, each is active afterwards, every other finding and every other field is
  untouched, and the gap alarm is raised exactly when an observed attempt has an unobserved
  predecessor.
\<close>

theorem reconcile_raises_the_alarms:
  assumes "wf_job job"
  shows "map fi_code (snd (reconcile_job config now job)) = map fst (alarms config now job) \<and>
    (\<forall>code. case map_of (alarms config now job) code of
        Some m \<Rightarrow> (\<exists>f. dict_get (jv_findings (fst (reconcile_job config now job))) code = Some f \<and>
                     fi_active f \<and> fi_resolved_at f = None)
      | None \<Rightarrow> dict_get (jv_findings (fst (reconcile_job config now job))) code =
                dict_get (jv_findings job) code) \<and>
    core (fst (reconcile_job config now job)) = core job \<and>
    (''ATTEMPT_SEQUENCE_GAP'' \<in> set (map fst (alarms config now job)) \<longleftrightarrow>
      (\<exists>n \<in> set (dict_keys (jv_attempts job)). \<exists>m. 1 \<le> m \<and> m < n \<and>
         m \<notin> set (dict_keys (jv_attempts job))))"
proof -
  have "''ATTEMPT_SEQUENCE_GAP'' \<in> set (map fst (alarms config now job)) \<longleftrightarrow> sequence_gap job"
    by (auto simp: alarms_def image_iff split: if_splits)
  moreover have "dict_all wf_finding (jv_findings job)" using assms by (simp add: wf_job_def)
  then have "map fi_code (snd (reconcile_job config now job)) = map fst (alarms config now job)"
    by (auto simp: reconcile_job_alarms raised_code)
  moreover have "case map_of (alarms config now job) code of
        Some m \<Rightarrow> (\<exists>f. dict_get (jv_findings (fst (reconcile_job config now job))) code = Some f \<and>
                     fi_active f \<and> fi_resolved_at f = None)
      | None \<Rightarrow> dict_get (jv_findings (fst (reconcile_job config now job))) code =
                dict_get (jv_findings job) code" for code
    by (simp add: reconcile_job_alarms raise_all_get alarms_distinct split: option.split)
  ultimately show ?thesis
    using sequence_gap_iff [OF assms] core_reconcile_job by blast
qed

theorem reconcile_raises_the_alarms_witness:
  "wf_job (replay (new_job ''job-1'')
      [(new_event ''evt-1'' JOB_EXECUTION_STARTED 0 0 ''job-1'')\<lparr>ev_attempt_number := 2\<rparr>]) \<and>
   map fi_code (snd (reconcile_job default_config (seconds 1801) (replay (new_job ''job-1'')
      [(new_event ''evt-1'' JOB_EXECUTION_STARTED 0 0 ''job-1'')\<lparr>ev_attempt_number := 2\<rparr>]))) =
     [''RUNNING_TIMEOUT'', ''ATTEMPT_SEQUENCE_GAP'']"
proof -
  let ?job = "replay (new_job ''job-1'')
      [(new_event ''evt-1'' JOB_EXECUTION_STARTED 0 0 ''job-1'')\<lparr>ev_attempt_number := 2\<rparr>]"
  have wf: "wf_job ?job"
    by (rule wf_replay) (simp_all add: valid_event_def new_event_def)
  have "map fst (alarms default_config (seconds 1801) ?job) =
      [''RUNNING_TIMEOUT'', ''ATTEMPT_SEQUENCE_GAP'']"
    by code_simp
  with wf reconcile_raises_the_alarms [OF wf, of default_config "seconds 1801"] show ?thesis
    by simp
qed

end
