(* ===== verification/Reducer_Timeline.thy ===== *)
theory Reducer_Timeline
  imports Reducer_Lifecycle
begin

text \<open>
  The part of an aggregate that does not depend on the order in which its events arrive: the
  time stamps of the lifecycle, the freshness marks and the attempts that were observed with
  their retrieval and start times. It is an instance of the \<open>commuting_observation\<close> interface:
  every event contributes to it by a commuting operation.
\<close>

section \<open>The order-independent part of the aggregate\<close>

record timeline =
  tl_created :: "time option"
  tl_submission_requested :: "time option"
  tl_acknowledged :: "time option"
  tl_retrieved :: "time option"
  tl_started :: "time option"
  tl_last_event :: "time option"
  tl_data_as_of :: "time option"
  tl_attempts :: "int set"
  tl_attempt_retrieved :: "int \<Rightarrow> time option"
  tl_attempt_started :: "int \<Rightarrow> time option"

definition attempt_time :: "(attempt \<Rightarrow> time option) \<Rightarrow> job_visibility \<Rightarrow> int \<Rightarrow> time option" where
  "attempt_time f job n = (case dict_get (jv_attempts job) n of None \<Rightarrow> None | Some a \<Rightarrow> f a)"

definition timeline_of :: "job_visibility \<Rightarrow> timeline" where
  "timeline_of job =
     \<lparr>tl_created = jv_created_at job,
      tl_submission_requested = jv_submission_requested_at job,
      tl_acknowledged = jv_scheduler_acknowledged_at job,
      tl_retrieved = jv_scheduler_retrieved_at job,
      tl_started = jv_started_at job,
      tl_last_event = jv_last_event_time job,
      tl_data_as_of = jv_data_as_of job,
      tl_attempts = set (dict_keys (jv_attempts job)),
      tl_attempt_retrieved = attempt_time at_retrieved_at job,
      tl_attempt_started = attempt_time at_started_at job\<rparr>"

text \<open>What one event adds to it.\<close>

definition observe :: "event \<Rightarrow> timeline \<Rightarrow> timeline" where
  "observe e l =
     (let t = ev_event_type e; now = Some (ev_event_time e); n = attempt_key e;
          first = (\<lambda>c old new. if c then earliest old new else old)
      in \<lparr>tl_created = first (t = JOB_CREATED) (tl_created l) now,
          tl_submission_requested =
            first (t = JOB_SCHEDULER_SUBMISSION_REQUESTED) (tl_submission_requested l) now,
          tl_acknowledged =
            first (t = JOB_SCHEDULER_SUBMISSION_ACKNOWLEDGED) (tl_acknowledged l) now,
          tl_retrieved =
            first (t = JOB_SCHEDULER_ITEM_RETRIEVED) (tl_retrieved l) (retrieval_time e),
          tl_started = first (t = JOB_EXECUTION_STARTED) (tl_started l) now,
          tl_last_event = latest (tl_last_event l) now,
          tl_data_as_of = latest (tl_data_as_of l) (Some (ev_ingestion_time e)),
          tl_attempts =
            (if t \<in> set attempt_events then insert n (tl_attempts l) else tl_attempts l),
          tl_attempt_retrieved = (\<lambda>m.
            first (t = JOB_SCHEDULER_ITEM_RETRIEVED \<and> m = n) (tl_attempt_retrieved l m)
              (retrieval_time e)),
          tl_attempt_started = (\<lambda>m.
            first (t = JOB_EXECUTION_STARTED \<and> m = n) (tl_attempt_started l m) now)\<rparr>)"

lemma earliest_commute: "earliest (earliest a b) c = earliest (earliest a c) b"
  by (cases a; cases b; cases c) (simp_all add: min.commute min.left_commute)

lemma latest_commute: "latest (latest a b) c = latest (latest a c) b"
  by (cases a; cases b; cases c) (simp_all add: max.commute max.left_commute)

lemma attempt_time_after:
  "at_retrieved_at (attempt_after job e) =
     (if ev_event_type e = JOB_SCHEDULER_ITEM_RETRIEVED
      then earliest (at_retrieved_at (attempt_at job e)) (retrieval_time e)
      else at_retrieved_at (attempt_at job e))"
  "at_started_at (attempt_after job e) =
     (if ev_event_type e = JOB_EXECUTION_STARTED
      then earliest (at_started_at (attempt_at job e)) (Some (ev_event_time e))
      else at_started_at (attempt_at job e))"
  by (cases "ev_event_type e"; simp add: attempt_after_def Let_def)+

lemma attempt_time_at:
  "at_retrieved_at (attempt_at job e) = attempt_time at_retrieved_at job (attempt_key e)"
  "at_started_at (attempt_at job e) = attempt_time at_started_at job (attempt_key e)"
  by (simp_all add: attempt_time_def attempt_at_def new_attempt_def split: option.splits)

lemma attempt_time_reduce:
  "attempt_time at_retrieved_at (advance job e) m =
     (if ev_event_type e = JOB_SCHEDULER_ITEM_RETRIEVED \<and> m = attempt_key e
      then earliest (attempt_time at_retrieved_at job m) (retrieval_time e)
      else attempt_time at_retrieved_at job m)"
  "attempt_time at_started_at (advance job e) m =
     (if ev_event_type e = JOB_EXECUTION_STARTED \<and> m = attempt_key e
      then earliest (attempt_time at_started_at job m) (Some (ev_event_time e))
      else attempt_time at_started_at job m)"
  by (auto simp: attempt_time_def [of _ "advance job e"] reduce_attempts dict_simps
      attempt_time_after attempt_time_at attempt_events_def)
    (simp_all add: attempt_time_def)

lemma timeline_step: "timeline_of (advance job e) = observe e (timeline_of job)"
  by (rule timeline.equality)
    (simp_all del: set_map add: timeline_of_def observe_def Let_def reduce_times fun_eq_iff
      attempt_time_reduce reduce_attempts pd.set_keys_put)

lemma observe_commute: "observe e (observe f l) = observe f (observe e l)"
  by (rule timeline.equality)
    (simp_all add: observe_def Let_def earliest_commute latest_commute fun_eq_iff insert_commute)

interpretation timeline: commuting_observation advance timeline_of observe
  by unfold_locales (rule timeline_step, rule observe_commute)

lemma timeline_replay:
  "mset es = mset fs \<Longrightarrow> timeline_of (replay job es) = timeline_of (replay job fs)"
  unfolding replay_def by (rule timeline.obs_order_irrelevant)

end
