(* ===== verification/Engine_Delivery.thy ===== *)
theory Engine_Delivery
  imports Engine_Reconcile Reducer_Timeline
begin

text \<open>
  At-least-once delivery to the engine: repeated deliveries of an event leave the journal with its
  first occurrence, so the projections are a function of the first occurrences, and their
  time line a function of the mere set of delivered events.
\<close>

section \<open>At-least-once delivery\<close>

text \<open>The first event with each id, in the order of arrival.\<close>

fun first_by_id :: "string set \<Rightarrow> event list \<Rightarrow> event list" where
  "first_by_id seen [] = []"
| "first_by_id seen (e # es) =
     (if ev_event_id e \<in> seen then first_by_id seen es
      else e # first_by_id (insert (ev_event_id e) seen) es)"

definition deliver_all :: "engine \<Rightarrow> event list \<Rightarrow> engine" where
  "deliver_all en es = run_engine en (map (\<lambda>e. Deliver e None) es)"

lemma deliver_all_simps [simp]:
  "deliver_all en [] = en"
  "deliver_all en (e # es) = deliver_all (fst (engine_apply en e None)) es"
  by (simp_all add: deliver_all_def run_engine_def)

lemma engine_apply_journal:
  assumes "journalled en"
  shows "en_events (fst (engine_apply en e None)) =
      (if ev_event_id e \<in> en_event_ids en then en_events en else en_events en @ [e])"
    and "en_event_ids (fst (engine_apply en e None)) = insert (ev_event_id e) (en_event_ids en)"
  using assms
  by (cases "ev_event_id e \<in> en_event_ids en";
      simp add: engine_apply_seen engine_apply_fresh conflicts_def journalled_job_id insert_absorb
        split: option.split)+

lemma deliver_all_events:
  "journalled en \<Longrightarrow> en_events (deliver_all en es) = en_events en @ first_by_id (en_event_ids en) es"
proof (induction es arbitrary: en)
  case (Cons e es)
  then show ?case
    using journalled_apply [OF Cons.prems, of e None]
    by (cases "ev_event_id e \<in> en_event_ids en")
      (simp_all add: engine_apply_journal insert_absorb)
qed simp

lemma journalled_deliver: "journalled en \<Longrightarrow> journalled (deliver_all en es)"
  unfolding deliver_all_def by (rule journalled_run)

lemma journalled_current_core:
  assumes "journalled en"
  shows "core (current_job en i) = core (replay (new_job i) (events_of en i))"
proof (cases "dict_get (en_jobs en) i")
  case None
  with assms have "i \<notin> set (map ev_job_id (en_events en))"
    using pd.get_keys [of "en_jobs en" i] by (simp del: set_map add: journalled_def)
  then have "events_of en i = []" by (auto simp: events_of_def filter_empty_conv image_iff)
  with None show ?thesis by (simp add: current_job_def)
next
  case (Some job)
  with assms show ?thesis by (simp add: current_job_def journalled_def)
qed

lemma deliver_all_core:
  "core (current_job (deliver_all (new_engine c) es) i) =
   core (replay (new_job i) (filter (\<lambda>e. ev_job_id e = i) (first_by_id {} es)))"
  using journalled_current_core [OF journalled_deliver [OF journalled_new]]
    deliver_all_events [OF journalled_new]
  by (simp add: events_of_def new_engine_def)

lemma timeline_core: "timeline_of (core job) = timeline_of job"
  by (simp add: timeline_of_def attempt_time_def fun_eq_iff)

lemma first_by_id_set:
  assumes "inj_on ev_event_id (set es)"
  shows "set (first_by_id seen es) = {e \<in> set es. ev_event_id e \<notin> seen}"
  using assms
proof (induction es arbitrary: seen)
  case (Cons e es)
  then have "ev_event_id x \<noteq> ev_event_id e" if "x \<in> set es" "x \<noteq> e" for x
    using that by (auto simp: inj_on_def)
  then show ?case using Cons by (auto simp: inj_on_def)
qed simp

lemma first_by_id_distinct: "distinct (first_by_id seen es) \<and> (\<forall>e \<in> set (first_by_id seen es). ev_event_id e \<notin> seen)"
proof (induction es arbitrary: seen)
  case (Cons e es)
  from Cons [of "insert (ev_event_id e) seen"] Cons [of seen] show ?case by auto
qed simp

lemma deliver_any_order:
  assumes "set es = set fs" and "inj_on ev_event_id (set es)"
  shows "timeline_of (current_job (deliver_all (new_engine c) es) i) =
         timeline_of (current_job (deliver_all (new_engine c) fs) i)"
proof -
  let ?f = "\<lambda>es. filter (\<lambda>e. ev_job_id e = i) (first_by_id {} es)"
  have "mset (?f es) = mset (?f fs)"
    using assms first_by_id_distinct [of "{}"]
    by (intro iffD1 [OF set_eq_iff_mset_eq_distinct]) (simp_all add: first_by_id_set)
  then have "timeline_of (replay (new_job i) (?f es)) = timeline_of (replay (new_job i) (?f fs))"
    by (rule timeline_replay)
  then show ?thesis
    using deliver_all_core timeline_core by metis
qed

section \<open>Properties\<close>

text \<open>
  Repeated deliveries have no effect: after any list of deliveries every aggregate is, up to
  findings and the decision log, the fold of the reducer over the first occurrence of each event
  of the job.
\<close>

theorem repeated_deliveries_have_no_effect:
  "core (current_job (deliver_all (new_engine c) es) i) =
   core (replay (new_job i) (filter (\<lambda>e. ev_job_id e = i) (first_by_id {} es)))"
  by (rule deliver_all_core)



end
