(* ===== verification/Wire_Format.thy ===== *)
theory Wire_Format
  imports Visibility_Model
begin

text \<open>
  The canonical text of an EDR, \<open>src/job_visibility/outbox/serialization.py\<close>: the fields of the
  event, \<open>json.dumps\<close> with sorted keys and compact separators, and the payload hash. SHA-256 is an
  argument of the definitions.
\<close>

section \<open>JSON text\<close>

text \<open>Decimal integers as \<open>int.__repr__\<close> prints them.\<close>

definition int_digits :: "int \<Rightarrow> string" where
  "int_digits i = (if i < 0 then CHR ''-'' # nat_digits (nat (- i)) else nat_digits (nat i))"

definition hex_digit :: "nat \<Rightarrow> char" where
  "hex_digit d = (if d < 10 then char_of (48 + d) else char_of (87 + d))"

text \<open>The escapes of \<open>json.dumps(..., ensure_ascii=False)\<close>.\<close>

definition json_escape :: "char \<Rightarrow> string" where
  "json_escape c =
     (let n = of_char c :: nat
      in if c = CHR 0x22 then [CHR 0x5C, CHR 0x22]
         else if c = CHR 0x5C then [CHR 0x5C, CHR 0x5C]
         else if n = 8 then [CHR 0x5C, CHR ''b'']
         else if n = 9 then [CHR 0x5C, CHR ''t'']
         else if n = 10 then [CHR 0x5C, CHR ''n'']
         else if n = 12 then [CHR 0x5C, CHR ''f'']
         else if n = 13 then [CHR 0x5C, CHR ''r'']
         else if n < 32
         then [CHR 0x5C, CHR ''u'', CHR ''0'', CHR ''0'', hex_digit (n div 16), hex_digit (n mod 16)]
         else [c])"

definition json_string :: "string \<Rightarrow> string" where
  "json_string s = [CHR 0x22] @ concat (map json_escape s) @ [CHR 0x22]"

fun joined :: "string \<Rightarrow> string list \<Rightarrow> string" where
  "joined sep [] = []"
| "joined sep [x] = x"
| "joined sep (x # y # ys) = x @ sep @ joined sep (y # ys)"

text \<open>\<open>json.dumps(value, sort_keys=True, separators=(",", ":"), ensure_ascii=False)\<close>.\<close>

primrec json_dumps :: "json \<Rightarrow> string" where
  "json_dumps JNull = ''null''"
| "json_dumps (JBool b) = (if b then ''true'' else ''false'')"
| "json_dumps (JInt i) = int_digits i"
| "json_dumps (JStr s) = json_string s"
| "json_dumps (JList xs) = ''['' @ joined '','' (map json_dumps xs) @ '']''"
| "json_dumps (JObj kvs) =
     ''{'' @ joined '','' (map (\<lambda>(k, s). json_string k @ '':'' @ s)
        (sort_key fst (map (map_prod id json_dumps) kvs))) @ ''}''"

section \<open>The canonical EDR\<close>

definition edr_value :: "event \<Rightarrow> (string \<times> json) list" where
  "edr_value e =
     [(''schemaVersion'', JInt 1),
      (''eventId'', JStr (ev_event_id e)),
      (''eventType'', JStr (event_type_value (ev_event_type e))),
      (''eventTime'', jtime (Some (ev_event_time e))),
      (''ingestionTime'', jtime (Some (ev_ingestion_time e))),
      (''jobId'', JStr (ev_job_id e)),
      (''correlationId'',
         (if ev_correlation_id e = [] then JNull else JStr (ev_correlation_id e))),
      (''jobType'', (if ev_job_type e = [] then JNull else JStr (ev_job_type e))),
      (''attemptNumber'', JInt (ev_attempt_number e)),
      (''maxAttempts'', JInt (ev_max_attempts e)),
      (''scheduledAt'', jtime (ev_scheduled_at e)),
      (''nextRetryAt'', jtime (ev_next_retry_at e)),
      (''retryable'', jopt JBool (ev_retryable e)),
      (''resultCode'', jopt JStr (ev_result_code e)),
      (''errorCode'', jopt JStr (ev_error_code e))]"

text \<open>\<open>sha256\<close> stands for \<open>hashlib.sha256(...).hexdigest()\<close>.\<close>

definition canonical_edr :: "(string \<Rightarrow> string) \<Rightarrow> event \<Rightarrow> string \<times> string" where
  "canonical_edr sha256 e =
     (let value = edr_value e;
          domain_payload = json_dumps (JObj value);
          digest = sha256 domain_payload;
          value = value @ [(''canonicalPayload'', JStr domain_payload),
                           (''payloadHash'', JStr digest)];
          wire_payload = json_dumps (JObj value)
      in (wire_payload, digest))"

end
