(* ===== verification/Scheduler_Tables.thy ===== *)
theory Scheduler_Tables
  imports Wire_Format
begin

text \<open>
  The values and tables of the durable scheduler: \<open>src/job_visibility/scheduler/models.py\<close> and the
  rows of \<open>src/migrations/scheduler/versions/0001_scheduler_base.py\<close> with their constraints. A table
  is a dictionary over its primary key; a statement that violates a constraint raises, and a
  transaction that raises leaves nothing behind.
\<close>

section \<open>Jobs as the service hands them around\<close>

record submission =
  su_job_id :: string
  su_correlation_id :: string
  su_job_type :: string
  su_scheduled_at :: time
  su_payload :: "json option"
  su_payload_reference :: "string option"
  su_max_attempts :: int

text \<open>
  \<open>JobSubmission.__post_init__\<close>. The last check, a time zone aware \<open>scheduled_at\<close>, holds by the
  type of time stamps here.
\<close>

definition submission_post_init :: "submission \<Rightarrow> submission result" where
  "submission_post_init s =
     (if su_job_id s = [] \<or> su_correlation_id s = [] \<or> su_job_type s = []
      then Inl (ValueError ''job_id, correlation_id, and job_type are required'')
      else if su_max_attempts s < 1 then Inl (ValueError ''max_attempts must be positive'')
      else if (su_payload s = None) = (su_payload_reference s = None)
      then Inl (ValueError ''exactly one of payload and payload_reference is required'')
      else Inr s)"

definition valid_submission :: "submission \<Rightarrow> bool" where
  "valid_submission s \<longleftrightarrow> submission_post_init s = Inr s"

record claimed_job =
  cl_job_id :: string
  cl_correlation_id :: string
  cl_job_type :: string
  cl_payload :: "json option"
  cl_payload_reference :: "string option"
  cl_scheduled_at :: time
  cl_attempt_number :: int
  cl_max_attempts :: int
  cl_claimed_by :: string
  cl_claim_token :: string
  cl_claim_expires_at :: time

section \<open>The tables\<close>

text \<open>
  A row of \<open>scheduler_jobs\<close>, of \<open>scheduler_attempts\<close> and of \<open>scheduler_outbox\<close>. The status column
  is plain text in the schema. UUIDs are their text.
\<close>

record job_row =
  jr_job_id :: string
  jr_correlation_id :: string
  jr_job_type :: string
  jr_payload :: "json option"
  jr_payload_reference :: "string option"
  jr_scheduled_at :: time
  jr_available_at :: time
  jr_status :: string
  jr_attempt_number :: int
  jr_max_attempts :: int
  jr_claimed_by :: "string option"
  jr_claim_token :: "string option"
  jr_claimed_at :: "time option"
  jr_claim_expires_at :: "time option"
  jr_created_at :: time
  jr_updated_at :: time
  jr_version :: int

text \<open>The CHECK constraints of the table.\<close>

definition job_row_check :: "job_row \<Rightarrow> bool" where
  "job_row_check r \<longleftrightarrow>
     0 \<le> jr_attempt_number r \<and> 0 < jr_max_attempts r \<and> 0 \<le> jr_version r \<and>
     (jr_payload r = None) \<noteq> (jr_payload_reference r = None) \<and>
     (jr_claim_token r = None) = (jr_claimed_by r = None) \<and>
     jr_scheduled_at r \<le> jr_available_at r \<and>
     (jr_claim_token r = None) = (jr_claim_expires_at r = None)"

record attempt_row =
  ar_claim_token :: string
  ar_claimed_by :: string
  ar_claimed_at :: time
  ar_started_at :: "time option"
  ar_completed_at :: "time option"
  ar_outcome :: "string option"
  ar_retryable :: "bool option"
  ar_error_code :: "string option"
  ar_result_summary :: "json option"
  ar_next_retry_at :: "time option"

record outbox_row =
  ob_event_id :: string
  ob_topic :: string
  ob_message_key :: string
  ob_canonical_payload :: string
  ob_payload_hash :: string
  ob_created_at :: time
  ob_published_at :: "time option"
  ob_publish_attempts :: int
  ob_last_error :: "string option"
  ob_next_attempt_at :: time
  ob_lease_owner :: "string option"
  ob_lease_token :: "string option"
  ob_lease_expires_at :: "time option"
  ob_kafka_partition :: "int option"
  ob_kafka_offset :: "int option"

text \<open>
  The scheduler database. The primary key of the attempts is the pair of job and number;
  \<open>db_uuids\<close> counts the UUIDs drawn so far.
\<close>

record scheduler_db =
  db_jobs :: "(string, job_row) dict"
  db_attempts :: "(string \<times> int, attempt_row) dict"
  db_outbox :: "(string, outbox_row) dict"
  db_uuids :: nat

definition empty_db :: scheduler_db where
  "empty_db = \<lparr>db_jobs = [], db_attempts = [], db_outbox = [], db_uuids = 0\<rparr>"

text \<open>
  Writing a row checks the table's constraints; a violation raises the driver's integrity error,
  which rolls the transaction back.
\<close>

definition write_job :: "job_row \<Rightarrow> scheduler_db \<Rightarrow> scheduler_db result" where
  "write_job r db =
     (if job_row_check r then Inr (db\<lparr>db_jobs := dict_put (jr_job_id r) r (db_jobs db)\<rparr>)
      else Inl (DriverError ''CheckViolation''))"

definition insert_attempt ::
  "string \<times> int \<Rightarrow> attempt_row \<Rightarrow> scheduler_db \<Rightarrow> scheduler_db result" where
  "insert_attempt key r db =
     (if dict_get (db_attempts db) key \<noteq> None then Inl (DriverError ''UniqueViolation'')
      else if snd key \<le> 0 then Inl (DriverError ''CheckViolation'')
      else Inr (db\<lparr>db_attempts := dict_put key r (db_attempts db)\<rparr>))"

definition update_attempt ::
  "string \<times> int \<Rightarrow> (attempt_row \<Rightarrow> attempt_row) \<Rightarrow> scheduler_db \<Rightarrow> scheduler_db" where
  "update_attempt key f db =
     (case dict_get (db_attempts db) key of
        None \<Rightarrow> db
      | Some r \<Rightarrow> db\<lparr>db_attempts := dict_put key (f r) (db_attempts db)\<rparr>)"

definition insert_outbox :: "outbox_row \<Rightarrow> scheduler_db \<Rightarrow> scheduler_db result" where
  "insert_outbox r db =
     (if dict_get (db_outbox db) (ob_event_id r) \<noteq> None
      then Inl (DriverError ''UniqueViolation'')
      else Inr (db\<lparr>db_outbox := dict_put (ob_event_id r) r (db_outbox db)\<rparr>))"

text \<open>
  A transaction either returns the database it leaves behind or raises, and then nothing of it
  remains.
\<close>

definition transaction ::
  "(scheduler_db \<Rightarrow> (scheduler_db \<times> 'a) result) \<Rightarrow> scheduler_db \<Rightarrow> scheduler_db \<times> 'a result" where
  "transaction body db =
     (case body db of Inl err \<Rightarrow> (db, Inl err) | Inr (db', a) \<Rightarrow> (db', Inr a))"

end
