(* ===== verification/Scheduler_Service.thy ===== *)
theory Scheduler_Service
  imports Scheduler_Tables
begin

text \<open>
  The durable scheduler of \<open>src/job_visibility/scheduler/service.py\<close>: submission, claiming of due
  jobs, fenced start, heartbeat, success and failure, and the recovery of expired claims, each one
  transaction over the tables. What the code reads from the outside is an argument: the clock (one
  reading per statement), the rows other transactions hold locked (\<open>SKIP LOCKED\<close>), UUIDs and
  SHA-256. An UPDATE returns its rows in the order of the query that selected them.
\<close>

record service =
  sv_topic :: string
  sv_claim_lease_seconds :: int
  sv_retry_delay :: "int \<Rightarrow> int"
  sv_sha256 :: "string \<Rightarrow> string"
  sv_uuid :: "nat \<Rightarrow> string"

text \<open>\<open>timedelta(seconds=min(300, 2**attempt))\<close>; attempts are never negative.\<close>

definition default_retry_delay :: "int \<Rightarrow> int" where
  "default_retry_delay attempt = seconds (min 300 (2 ^ nat attempt))"

definition gen_uuid :: "service \<Rightarrow> scheduler_db \<Rightarrow> string \<times> scheduler_db" where
  "gen_uuid svc db = (sv_uuid svc (db_uuids db), db\<lparr>db_uuids := Suc (db_uuids db)\<rparr>)"

section \<open>Outbox events\<close>

definition add_event ::
  "service \<Rightarrow> time \<Rightarrow> event \<Rightarrow> scheduler_db \<Rightarrow> scheduler_db result" where
  "add_event svc now e db =
     (let (event_id, db) = gen_uuid svc db
      in bind_result
           (event_post_init (e\<lparr>ev_event_id := event_id, ev_ingestion_time := ev_event_time e\<rparr>))
           (\<lambda>e. let (payload, digest) = canonical_edr (sv_sha256 svc) e
                in insert_outbox
                     \<lparr>ob_event_id = ev_event_id e, ob_topic = sv_topic svc,
                      ob_message_key = ev_job_id e, ob_canonical_payload = payload,
                      ob_payload_hash = digest, ob_created_at = now, ob_published_at = None,
                      ob_publish_attempts = 0, ob_last_error = None, ob_next_attempt_at = now,
                      ob_lease_owner = None, ob_lease_token = None, ob_lease_expires_at = None,
                      ob_kafka_partition = None, ob_kafka_offset = None\<rparr> db))"

definition submission_event :: "submission \<Rightarrow> time \<Rightarrow> event_type \<Rightarrow> event" where
  "submission_event value timestamp t =
     (new_event '''' t timestamp timestamp (su_job_id value))\<lparr>
        ev_correlation_id := su_correlation_id value,
        ev_job_type := su_job_type value,
        ev_scheduled_at := Some (su_scheduled_at value),
        ev_attempt_number := 0,
        ev_max_attempts := su_max_attempts value\<rparr>"

definition job_event :: "claimed_job \<Rightarrow> event_type \<Rightarrow> time \<Rightarrow> event" where
  "job_event job t event_time =
     (new_event '''' t event_time event_time (cl_job_id job))\<lparr>
        ev_correlation_id := cl_correlation_id job,
        ev_job_type := cl_job_type job,
        ev_scheduled_at := Some (cl_scheduled_at job),
        ev_attempt_number := cl_attempt_number job,
        ev_max_attempts := cl_max_attempts job\<rparr>"

fun add_events ::
  "service \<Rightarrow> time \<Rightarrow> event list \<Rightarrow> scheduler_db \<Rightarrow> scheduler_db result" where
  "add_events svc now [] db = Inr db"
| "add_events svc now (e # es) db =
     bind_result (add_event svc now e db) (\<lambda>db. add_events svc now es db)"

section \<open>Submission\<close>

datatype submission_decision = SD_CREATED | SD_IDENTICAL | SD_CONFLICT

text \<open>
  Python's \<open>==\<close> on decoded JSON: objects compare as dictionaries, regardless of the order of their
  keys, and \<open>True\<close> and \<open>False\<close> equal 1 and 0.
\<close>

fun json_eq :: "json \<Rightarrow> json \<Rightarrow> bool" where
  "json_eq JNull JNull = True"
| "json_eq (JBool b) (JBool c) = (b = c)"
| "json_eq (JBool b) (JInt i) = (i = of_bool b)"
| "json_eq (JInt i) (JBool b) = (i = of_bool b)"
| "json_eq (JInt i) (JInt j) = (i = j)"
| "json_eq (JStr s) (JStr t) = (s = t)"
| "json_eq (JList xs) (JList ys) = list_all2 json_eq xs ys"
| "json_eq (JObj kvs) (JObj kvs') =
     (length kvs = length kvs' \<and>
      list_all (\<lambda>(k, v). case map_of kvs' k of None \<Rightarrow> False | Some v' \<Rightarrow> json_eq v v') kvs)"
| "json_eq _ _ = False"

definition payload_eq :: "json option \<Rightarrow> json option \<Rightarrow> bool" where
  "payload_eq a b =
     (case (a, b) of (None, None) \<Rightarrow> True | (Some x, Some y) \<Rightarrow> json_eq x y | _ \<Rightarrow> False)"

definition new_job_row :: "submission \<Rightarrow> time \<Rightarrow> job_row" where
  "new_job_row value now =
     \<lparr>jr_job_id = su_job_id value, jr_correlation_id = su_correlation_id value,
      jr_job_type = su_job_type value, jr_payload = su_payload value,
      jr_payload_reference = su_payload_reference value,
      jr_scheduled_at = su_scheduled_at value, jr_available_at = su_scheduled_at value,
      jr_status = ''PENDING'', jr_attempt_number = 0, jr_max_attempts = su_max_attempts value,
      jr_claimed_by = None, jr_claim_token = None, jr_claimed_at = None,
      jr_claim_expires_at = None, jr_created_at = now, jr_updated_at = now, jr_version = 0\<rparr>"

definition identical_submission :: "job_row \<Rightarrow> submission \<Rightarrow> bool" where
  "identical_submission existing value \<longleftrightarrow>
     jr_correlation_id existing = su_correlation_id value \<and>
     jr_job_type existing = su_job_type value \<and>
     payload_eq (jr_payload existing) (su_payload value) \<and>
     jr_payload_reference existing = su_payload_reference value \<and>
     jr_scheduled_at existing = su_scheduled_at value \<and>
     jr_max_attempts existing = su_max_attempts value"

text \<open>
  What the fault injector does at a checkpoint during one call: nothing (\<open>None\<close>) or raise.
\<close>

type_synonym faults = "string \<Rightarrow> exn option"

definition inject :: "faults \<Rightarrow> string \<Rightarrow> 'a result \<Rightarrow> 'a result" where
  "inject faults checkpoint continue =
     (case faults checkpoint of Some err \<Rightarrow> Inl err | None \<Rightarrow> continue)"

definition submit_checked ::
  "service \<Rightarrow> faults \<Rightarrow> time \<Rightarrow> submission \<Rightarrow> scheduler_db \<Rightarrow>
   scheduler_db \<times> submission_decision result" where
  "submit_checked svc faults now value db =
     (let (db, decision) = transaction (\<lambda>db.
            case dict_get (db_jobs db) (su_job_id value) of
              Some existing \<Rightarrow>
                Inr (db, if identical_submission existing value then SD_IDENTICAL else SD_CONFLICT)
            | None \<Rightarrow>
                bind_result (write_job (new_job_row value now) db) (\<lambda>db.
                bind_result (add_events svc now
                    [submission_event value now JOB_CREATED,
                     submission_event value now JOB_SCHEDULER_SUBMISSION_REQUESTED] db) (\<lambda>db.
                inject faults ''scheduler.before_commit'' (Inr (db, SD_CREATED))))) db
      in (case decision of
            Inr SD_CREATED \<Rightarrow> (db, inject faults ''scheduler.after_commit'' (Inr SD_CREATED))
          | _ \<Rightarrow> (db, decision)))"

definition submit ::
  "service \<Rightarrow> faults \<Rightarrow> time \<Rightarrow> submission \<Rightarrow> scheduler_db \<Rightarrow> scheduler_db \<times> bool result" where
  "submit svc faults now value db =
     (let (db, decision) = submit_checked svc faults now value db
      in (db, bind_result decision (\<lambda>d. Inr (d = SD_CREATED))))"

section \<open>Claiming\<close>

text \<open>
  The \<open>due\<close> query: eligible rows not locked by another transaction, oldest first. The clock is read
  once per statement and \<open>locked\<close> are the job ids other transactions hold.
\<close>

definition due :: "time \<Rightarrow> string set \<Rightarrow> int \<Rightarrow> scheduler_db \<Rightarrow> job_row list" where
  "due now locked limit db =
     take (nat limit)
       (sort_key (\<lambda>r. (jr_available_at r, jr_job_id r))
         (filter (\<lambda>r. (jr_status r = ''PENDING'' \<or> jr_status r = ''RETRY_WAIT'') \<and>
                      jr_available_at r \<le> now \<and> jr_job_id r \<notin> locked)
           (dict_values (db_jobs db))))"

definition claim_row :: "service \<Rightarrow> string \<Rightarrow> string \<Rightarrow> time \<Rightarrow> job_row \<Rightarrow> job_row" where
  "claim_row svc owner token now r =
     r\<lparr>jr_status := ''CLAIMED'', jr_attempt_number := jr_attempt_number r + 1,
       jr_claimed_by := Some owner, jr_claim_token := Some token, jr_claimed_at := Some now,
       jr_claim_expires_at := Some (now + seconds (sv_claim_lease_seconds svc)),
       jr_updated_at := now, jr_version := jr_version r + 1\<rparr>"

definition claimed_of :: "job_row \<Rightarrow> claimed_job" where
  "claimed_of r =
     \<lparr>cl_job_id = jr_job_id r, cl_correlation_id = jr_correlation_id r,
      cl_job_type = jr_job_type r, cl_payload = jr_payload r,
      cl_payload_reference = jr_payload_reference r, cl_scheduled_at = jr_scheduled_at r,
      cl_attempt_number = jr_attempt_number r, cl_max_attempts = jr_max_attempts r,
      cl_claimed_by = (case jr_claimed_by r of None \<Rightarrow> '''' | Some owner \<Rightarrow> owner),
      cl_claim_token = (case jr_claim_token r of None \<Rightarrow> '''' | Some token \<Rightarrow> token),
      cl_claim_expires_at = (case jr_claim_expires_at r of None \<Rightarrow> 0 | Some t \<Rightarrow> t)\<rparr>"

text \<open>The UPDATE of all due rows, with one fresh token per row.\<close>

fun claim_rows ::
  "service \<Rightarrow> string \<Rightarrow> time \<Rightarrow> job_row list \<Rightarrow> scheduler_db \<Rightarrow>
   (scheduler_db \<times> job_row list) result" where
  "claim_rows svc owner now [] db = Inr (db, [])"
| "claim_rows svc owner now (r # rs) db =
     (let (token, db) = gen_uuid svc db; r = claim_row svc owner token now r
      in bind_result (write_job r db) (\<lambda>db.
         bind_result (claim_rows svc owner now rs db) (\<lambda>(db, claimed). Inr (db, r # claimed))))"

fun record_claims ::
  "service \<Rightarrow> string \<Rightarrow> time \<Rightarrow> claimed_job list \<Rightarrow> scheduler_db \<Rightarrow> scheduler_db result" where
  "record_claims svc owner now [] db = Inr db"
| "record_claims svc owner now (job # jobs) db =
     bind_result (insert_attempt (cl_job_id job, cl_attempt_number job)
         \<lparr>ar_claim_token = cl_claim_token job, ar_claimed_by = owner, ar_claimed_at = now,
          ar_started_at = None, ar_completed_at = None, ar_outcome = None, ar_retryable = None,
          ar_error_code = None, ar_result_summary = None, ar_next_retry_at = None\<rparr> db) (\<lambda>db.
     bind_result (add_event svc now
         (job_event job JOB_SCHEDULER_ITEM_RETRIEVED
            (cl_claim_expires_at job - seconds (sv_claim_lease_seconds svc))) db) (\<lambda>db.
     record_claims svc owner now jobs db))"

text \<open>\<open>now\<close> is the clock of the UPDATE, \<open>now'\<close> of the INSERTs after it.\<close>

definition claim_due ::
  "service \<Rightarrow> time \<Rightarrow> time \<Rightarrow> string set \<Rightarrow> string \<Rightarrow> int \<Rightarrow> scheduler_db \<Rightarrow>
   scheduler_db \<times> claimed_job list result" where
  "claim_due svc now now' locked owner limit db =
     (if limit < 1 then (db, Inr [])
      else transaction (\<lambda>db.
        bind_result (claim_rows svc owner now (due now locked limit db) db) (\<lambda>(db, rows).
        let claimed = map claimed_of rows
        in bind_result (record_claims svc owner now' claimed db) (\<lambda>db. Inr (db, claimed)))) db)"

section \<open>Fenced updates\<close>

definition holds_claim :: "time \<Rightarrow> claimed_job \<Rightarrow> job_row \<Rightarrow> bool" where
  "holds_claim now job r \<longleftrightarrow>
     jr_attempt_number r = cl_attempt_number job \<and>
     jr_claimed_by r = Some (cl_claimed_by job) \<and>
     jr_claim_token r = Some (cl_claim_token job) \<and>
     (case jr_claim_expires_at r of None \<Rightarrow> False | Some t \<Rightarrow> now \<le> t)"

definition fenced_update ::
  "time \<Rightarrow> claimed_job \<Rightarrow> (job_row \<Rightarrow> job_row) \<Rightarrow> scheduler_db \<Rightarrow>
   (scheduler_db \<times> job_row) result" where
  "fenced_update now job assign db =
     (case dict_get (db_jobs db) (cl_job_id job) of
        None \<Rightarrow> Inl (StaleClaimError (cl_job_id job))
      | Some r \<Rightarrow>
          (if holds_claim now job r
           then bind_result (write_job (assign r) db) (\<lambda>db. Inr (db, assign r))
           else Inl (StaleClaimError (cl_job_id job))))"

definition start :: "service \<Rightarrow> time \<Rightarrow> claimed_job \<Rightarrow> scheduler_db \<Rightarrow> scheduler_db \<times> unit result" where
  "start svc now job = transaction (\<lambda>db.
     bind_result (fenced_update now job
         (\<lambda>r. r\<lparr>jr_status := ''RUNNING'', jr_updated_at := now, jr_version := jr_version r + 1\<rparr>) db)
       (\<lambda>(db, r).
     let started_at = jr_updated_at r;
         db = update_attempt (cl_job_id job, cl_attempt_number job)
                (\<lambda>a. a\<lparr>ar_started_at := Some started_at\<rparr>) db
     in bind_result (add_event svc now (job_event job JOB_EXECUTION_STARTED started_at) db)
          (\<lambda>db. Inr (db, ()))))"

definition heartbeat ::
  "service \<Rightarrow> time \<Rightarrow> claimed_job \<Rightarrow> scheduler_db \<Rightarrow> scheduler_db \<times> time result" where
  "heartbeat svc now job = transaction (\<lambda>db.
     bind_result (fenced_update now job
         (\<lambda>r. r\<lparr>jr_claim_expires_at := Some (now + seconds (sv_claim_lease_seconds svc)),
                jr_updated_at := now\<rparr>) db)
       (\<lambda>(db, r). Inr (db, case jr_claim_expires_at r of None \<Rightarrow> 0 | Some t \<Rightarrow> t)))"

text \<open>The assignments that give the claim back.\<close>

definition release_claim :: "time \<Rightarrow> job_row \<Rightarrow> job_row" where
  "release_claim now r =
     r\<lparr>jr_claimed_by := None, jr_claim_token := None, jr_claimed_at := None,
       jr_claim_expires_at := None, jr_updated_at := now, jr_version := jr_version r + 1\<rparr>"

definition succeed ::
  "service \<Rightarrow> time \<Rightarrow> claimed_job \<Rightarrow> json \<Rightarrow> scheduler_db \<Rightarrow> scheduler_db \<times> unit result" where
  "succeed svc now job summary = transaction (\<lambda>db.
     bind_result (fenced_update now job
         (\<lambda>r. (release_claim now r)\<lparr>jr_status := ''SUCCEEDED''\<rparr>) db)
       (\<lambda>(db, r).
     let completed = jr_updated_at r;
         db = update_attempt (cl_job_id job, cl_attempt_number job)
                (\<lambda>a. a\<lparr>ar_completed_at := Some completed, ar_outcome := Some ''SUCCEEDED'',
                       ar_result_summary := Some summary\<rparr>) db
     in bind_result (add_event svc now
            ((job_event job JOB_EXECUTION_SUCCEEDED completed)\<lparr>
               ev_result_code := Some ''SUCCESS''\<rparr>) db)
          (\<lambda>db. Inr (db, ()))))"

text \<open>\<open>now\<close> is what \<open>SELECT clock_timestamp()\<close> returns, \<open>now'\<close> the clock of the UPDATE.\<close>

definition will_retry :: "claimed_job \<Rightarrow> bool \<Rightarrow> bool" where
  "will_retry job retryable \<longleftrightarrow> retryable \<and> cl_attempt_number job < cl_max_attempts job"

definition failure_status :: "claimed_job \<Rightarrow> bool \<Rightarrow> string" where
  "failure_status job retryable =
     (if will_retry job retryable then ''RETRY_WAIT''
      else if retryable then ''RETRIES_EXHAUSTED'' else ''FAILED'')"

definition failure_events ::
  "claimed_job \<Rightarrow> bool \<Rightarrow> string \<Rightarrow> time \<Rightarrow> time \<Rightarrow> event list" where
  "failure_events job retryable code completed available =
     [(job_event job JOB_EXECUTION_FAILED completed)\<lparr>
        ev_retryable := Some retryable, ev_error_code := Some code\<rparr>] @
     (if will_retry job retryable
      then [(job_event job JOB_RETRY_REQUESTED completed)\<lparr>ev_retryable := Some True\<rparr>,
            (job_event job JOB_RETRY_ACKNOWLEDGED completed)\<lparr>
               ev_retryable := Some True, ev_next_retry_at := Some available\<rparr>]
      else if retryable
      then [(job_event job JOB_RETRIES_EXHAUSTED completed)\<lparr>ev_retryable := Some False\<rparr>]
      else [])"

definition fail ::
  "service \<Rightarrow> time \<Rightarrow> time \<Rightarrow> claimed_job \<Rightarrow> string \<Rightarrow> bool \<Rightarrow> scheduler_db \<Rightarrow>
   scheduler_db \<times> unit result" where
  "fail svc now now' job code retryable = transaction (\<lambda>db.
     let retry = will_retry job retryable;
         available = (if retry then now + sv_retry_delay svc (cl_attempt_number job) else now)
     in bind_result (fenced_update now' job
            (\<lambda>r. (release_claim now' r)\<lparr>jr_status := failure_status job retryable,
                                         jr_available_at := available\<rparr>) db)
          (\<lambda>(db, r).
        let completed = jr_updated_at r;
            db = update_attempt (cl_job_id job, cl_attempt_number job)
                   (\<lambda>a. a\<lparr>ar_completed_at := Some completed, ar_outcome := Some ''FAILED'',
                          ar_retryable := Some retryable, ar_error_code := Some code,
                          ar_next_retry_at := (if retry then Some available else None)\<rparr>) db
        in bind_result (add_events svc now'
               (failure_events job retryable code completed available) db)
             (\<lambda>db. Inr (db, ()))))"

section \<open>Recovery of expired claims\<close>

definition expired :: "time \<Rightarrow> string set \<Rightarrow> int \<Rightarrow> scheduler_db \<Rightarrow> job_row list" where
  "expired now locked limit db =
     take (nat limit)
       (sort_key (\<lambda>r. case jr_claim_expires_at r of None \<Rightarrow> 0 | Some t \<Rightarrow> t)
         (filter (\<lambda>r. (jr_status r = ''CLAIMED'' \<or> jr_status r = ''RUNNING'') \<and>
                      (case jr_claim_expires_at r of None \<Rightarrow> False | Some t \<Rightarrow> t < now) \<and>
                      jr_job_id r \<notin> locked)
           (dict_values (db_jobs db))))"

definition recover_row :: "time \<Rightarrow> job_row \<Rightarrow> job_row" where
  "recover_row now r =
     (release_claim now r)\<lparr>
        jr_status := (if jr_attempt_number r < jr_max_attempts r then ''RETRY_WAIT''
                      else ''RETRIES_EXHAUSTED''),
        jr_available_at := now\<rparr>"

fun write_rows :: "job_row list \<Rightarrow> scheduler_db \<Rightarrow> scheduler_db result" where
  "write_rows [] db = Inr db"
| "write_rows (r # rs) db = bind_result (write_job r db) (\<lambda>db. write_rows rs db)"

definition recover_expired_claims ::
  "time \<Rightarrow> string set \<Rightarrow> int \<Rightarrow> scheduler_db \<Rightarrow> scheduler_db \<times> int result" where
  "recover_expired_claims now locked limit = transaction (\<lambda>db.
     let rows = expired now locked limit db
     in bind_result (write_rows (map (recover_row now) rows) db)
          (\<lambda>db. Inr (db, int (length rows))))"

end
