(* ===== verification/Scheduler_Invariant.thy ===== *)
theory Scheduler_Invariant
  imports Scheduler_Service
begin

text \<open>
  The invariant of the scheduler tables and its preservation by every transaction: the row states,
  attempt rows exactly \<open>1..attempt_number\<close>, claim tokens that belong to one row, outbox ids from the
  drawn UUIDs. \<open>claim_due_effect\<close> describes what a committed claim leaves behind.
\<close>

section \<open>Effects of the statements\<close>

lemma write_job_Inr:
  "write_job r db = Inr db' \<longleftrightarrow>
   job_row_check r \<and> db' = db\<lparr>db_jobs := dict_put (jr_job_id r) r (db_jobs db)\<rparr>"
  by (auto simp: write_job_def)

lemma insert_attempt_Inr:
  "insert_attempt key a db = Inr db' \<longleftrightarrow>
   dict_get (db_attempts db) key = None \<and> 0 < snd key \<and>
   db' = db\<lparr>db_attempts := dict_put key a (db_attempts db)\<rparr>"
  by (auto simp: insert_attempt_def)

definition outbox_row_of :: "service \<Rightarrow> time \<Rightarrow> event \<Rightarrow> outbox_row" where
  "outbox_row_of svc now e =
     \<lparr>ob_event_id = ev_event_id e, ob_topic = sv_topic svc, ob_message_key = ev_job_id e,
      ob_canonical_payload = fst (canonical_edr (sv_sha256 svc) e),
      ob_payload_hash = snd (canonical_edr (sv_sha256 svc) e),
      ob_created_at = now, ob_published_at = None, ob_publish_attempts = 0,
      ob_last_error = None, ob_next_attempt_at = now, ob_lease_owner = None,
      ob_lease_token = None, ob_lease_expires_at = None, ob_kafka_partition = None,
      ob_kafka_offset = None\<rparr>"

text \<open>The event as it is stored: with a drawn id, and ingested at its own event time.\<close>

definition stamped :: "service \<Rightarrow> nat \<Rightarrow> event \<Rightarrow> event" where
  "stamped svc k e = e\<lparr>ev_event_id := sv_uuid svc k, ev_ingestion_time := ev_event_time e\<rparr>"

lemma add_event_Inr:
  "add_event svc now e db = Inr db' \<longleftrightarrow>
   valid_event e \<and> dict_get (db_outbox db) (sv_uuid svc (db_uuids db)) = None \<and>
   db' = db\<lparr>db_uuids := Suc (db_uuids db),
            db_outbox := dict_put (sv_uuid svc (db_uuids db))
              (outbox_row_of svc now (stamped svc (db_uuids db) e)) (db_outbox db)\<rparr>"
  by (auto simp: add_event_def gen_uuid_def bind_result_Inr_iff event_post_init_Inr_iff
      insert_outbox_def outbox_row_of_def stamped_def split_beta valid_event_def Let_def)

lemma transaction_Inr:
  "snd (transaction body db) = Inr a \<longleftrightarrow> (\<exists>db'. body db = Inr (db', a) \<and> transaction body db = (db', Inr a))"
  by (auto simp: transaction_def split: sum.splits)

lemma transaction_cases:
  obtains (rollback) err where "body db = Inl err" "transaction body db = (db, Inl err)"
    | (commit) db' a where "body db = Inr (db', a)" "transaction body db = (db', Inr a)"
  by (cases "body db") (auto simp: transaction_def)

section \<open>The invariant\<close>

definition scheduler_statuses :: "string list" where
  "scheduler_statuses =
     [''PENDING'', ''CLAIMED'', ''RUNNING'', ''RETRY_WAIT'', ''SUCCEEDED'', ''FAILED'',
      ''RETRIES_EXHAUSTED'']"

definition is_claimed :: "job_row \<Rightarrow> bool" where
  "is_claimed r \<longleftrightarrow> jr_status r = ''CLAIMED'' \<or> jr_status r = ''RUNNING''"

definition is_waiting :: "job_row \<Rightarrow> bool" where
  "is_waiting r \<longleftrightarrow> jr_status r = ''PENDING'' \<or> jr_status r = ''RETRY_WAIT''"

definition row_ok :: "job_row \<Rightarrow> bool" where
  "row_ok r \<longleftrightarrow>
     job_row_check r \<and> jr_status r \<in> set scheduler_statuses \<and>
     (jr_claim_token r \<noteq> None \<longleftrightarrow> is_claimed r) \<and>
     jr_attempt_number r \<le> jr_max_attempts r \<and>
     (jr_status r = ''PENDING'' \<longleftrightarrow> jr_attempt_number r = 0) \<and>
     (is_waiting r \<longrightarrow> jr_attempt_number r < jr_max_attempts r)"

definition jobs_inv :: "scheduler_db \<Rightarrow> bool" where
  "jobs_inv db \<longleftrightarrow> wf_dict (db_jobs db) \<and>
     (\<forall>i r. dict_get (db_jobs db) i = Some r \<longrightarrow> jr_job_id r = i \<and> row_ok r)"

text \<open>
  Attempt rows are exactly \<open>1..attempt_number\<close>. Inside the claiming transaction the rows of the
  jobs in \<open>P\<close> are claimed already and their attempt is not recorded yet.
\<close>

definition attempts_inv :: "string set \<Rightarrow> scheduler_db \<Rightarrow> bool" where
  "attempts_inv P db \<longleftrightarrow> wf_dict (db_attempts db) \<and>
     (\<forall>i n. dict_get (db_attempts db) (i, n) \<noteq> None \<longleftrightarrow>
        (\<exists>r. dict_get (db_jobs db) i = Some r \<and> 1 \<le> n \<and>
           n \<le> jr_attempt_number r - of_bool (i \<in> P)))"

definition drawn :: "service \<Rightarrow> scheduler_db \<Rightarrow> string set" where
  "drawn svc db = sv_uuid svc ` {..<db_uuids db}"

definition tokens_inv :: "service \<Rightarrow> scheduler_db \<Rightarrow> bool" where
  "tokens_inv svc db \<longleftrightarrow>
     (\<forall>i r t. dict_get (db_jobs db) i = Some r \<longrightarrow> jr_claim_token r = Some t \<longrightarrow> t \<in> drawn svc db) \<and>
     (\<forall>i j r s t. dict_get (db_jobs db) i = Some r \<longrightarrow> dict_get (db_jobs db) j = Some s \<longrightarrow>
        jr_claim_token r = Some t \<longrightarrow> jr_claim_token s = Some t \<longrightarrow> i = j)"

definition outbox_inv :: "service \<Rightarrow> scheduler_db \<Rightarrow> bool" where
  "outbox_inv svc db \<longleftrightarrow> wf_dict (db_outbox db) \<and> set (dict_keys (db_outbox db)) \<subseteq> drawn svc db"

definition db_inv :: "service \<Rightarrow> string set \<Rightarrow> scheduler_db \<Rightarrow> bool" where
  "db_inv svc P db \<longleftrightarrow>
     jobs_inv db \<and> attempts_inv P db \<and> tokens_inv svc db \<and> outbox_inv svc db"

lemma db_inv_empty: "db_inv svc {} empty_db"
  by (simp add: db_inv_def jobs_inv_def attempts_inv_def tokens_inv_def outbox_inv_def empty_db_def)

lemma drawn_Suc:
  "drawn svc (db\<lparr>db_uuids := Suc (db_uuids db)\<rparr>) = insert (sv_uuid svc (db_uuids db)) (drawn svc db)"
  by (simp add: drawn_def lessThan_Suc)

lemma fresh_uuid: "inj (sv_uuid svc) \<Longrightarrow> sv_uuid svc (db_uuids db) \<notin> drawn svc db"
  by (auto simp: drawn_def dest: injD)

lemma add_event_inv:
  assumes "db_inv svc P db" and "add_event svc now e db = Inr db'"
  shows "db_inv svc P db'"
proof -
  let ?u = "sv_uuid svc (db_uuids db)"
  from assms(2) obtain row where db': "db' = db\<lparr>db_uuids := Suc (db_uuids db),
      db_outbox := dict_put ?u row (db_outbox db)\<rparr>"
    by (auto simp: add_event_Inr)
  have "drawn svc db' = insert ?u (drawn svc db)"
    unfolding db' by (simp add: drawn_def lessThan_Suc)
  moreover have "db_jobs db' = db_jobs db" "db_attempts db' = db_attempts db"
    "db_outbox db' = dict_put ?u row (db_outbox db)"
    by (simp_all add: db')
  ultimately show ?thesis
    using assms(1) unfolding db_inv_def
    by (auto simp del: set_map simp: jobs_inv_def attempts_inv_def tokens_inv_def outbox_inv_def
        wf_dict_put pd.set_keys_put)
qed

lemma add_events_inv:
  "db_inv svc P db \<Longrightarrow> add_events svc now es db = Inr db' \<Longrightarrow> db_inv svc P db'"
  by (induction es arbitrary: db) (auto simp: bind_result_Inr_iff intro: add_event_inv)

lemma update_attempt_frame [simp]:
  "db_jobs (update_attempt key f db) = db_jobs db"
  "db_outbox (update_attempt key f db) = db_outbox db"
  "db_uuids (update_attempt key f db) = db_uuids db"
  by (simp_all add: update_attempt_def split: option.split)

lemma update_attempt_get:
  "dict_get (db_attempts (update_attempt key f db)) k =
     (if k = key then map_option f (dict_get (db_attempts db) k) else dict_get (db_attempts db) k)"
  by (simp add: update_attempt_def dict_rules split: option.split)

lemma update_attempt_None:
  "dict_get (db_attempts (update_attempt key f db)) k = None \<longleftrightarrow> dict_get (db_attempts db) k = None"
  by (auto simp: update_attempt_get)

lemma update_attempt_inv: "db_inv svc P db \<Longrightarrow> db_inv svc P (update_attempt key f db)"
proof -
  assume inv: "db_inv svc P db"
  have "wf_dict (db_attempts (update_attempt key f db))"
    using inv by (simp add: update_attempt_def db_inv_def attempts_inv_def wf_dict_put
        split: option.split)
  then show ?thesis
    using inv
    by (simp add: db_inv_def jobs_inv_def attempts_inv_def tokens_inv_def outbox_inv_def
        update_attempt_None drawn_def del: not_None_eq)
qed

text \<open>
  Replacing a row (or inserting the first one) keeps the invariant when the new row is well formed,
  its attempts match the recorded ones and its token belongs to nobody else.
\<close>

lemma write_job_inv:
  assumes inv: "db_inv svc P db" and w: "write_job r db = Inr db'" and ok: "row_ok r"
    and attempts: "\<And>n. 1 \<le> n \<Longrightarrow>
      n \<le> jr_attempt_number r - of_bool (jr_job_id r \<in> P') \<longleftrightarrow>
      (\<exists>old. dict_get (db_jobs db) (jr_job_id r) = Some old \<and>
         n \<le> jr_attempt_number old - of_bool (jr_job_id r \<in> P))"
    and others: "\<And>i. i \<noteq> jr_job_id r \<Longrightarrow> i \<in> P' \<longleftrightarrow> i \<in> P"
    and token: "\<And>t. jr_claim_token r = Some t \<Longrightarrow> t \<in> drawn svc db \<and>
      (\<forall>j s. dict_get (db_jobs db) j = Some s \<and> jr_claim_token s = Some t \<longrightarrow> j = jr_job_id r)"
  shows "db_inv svc P' db'"
proof -
  let ?i = "jr_job_id r"
  have db': "db' = db\<lparr>db_jobs := dict_put ?i r (db_jobs db)\<rparr>" using w by (simp add: write_job_Inr)
  have get: "dict_get (db_jobs db') j = (if j = ?i then Some r else dict_get (db_jobs db) j)" for j
    by (simp add: db' dict_rules)
  have frame: "db_attempts db' = db_attempts db" "db_outbox db' = db_outbox db"
    "drawn svc db' = drawn svc db"
    by (simp_all add: db' drawn_def)
  have "jobs_inv db'"
    using inv ok unfolding jobs_inv_def get by (simp add: db' db_inv_def jobs_inv_def wf_dict_put)
  moreover have "attempts_inv P' db'"
    unfolding attempts_inv_def frame
  proof (intro conjI allI)
    show "wf_dict (db_attempts db)" using inv by (simp add: db_inv_def attempts_inv_def)
    fix j n
    have old: "dict_get (db_attempts db) (j, n) \<noteq> None \<longleftrightarrow>
        (\<exists>s. dict_get (db_jobs db) j = Some s \<and> 1 \<le> n \<and>
           n \<le> jr_attempt_number s - of_bool (j \<in> P))"
      using inv unfolding db_inv_def attempts_inv_def by blast
    show "dict_get (db_attempts db) (j, n) \<noteq> None \<longleftrightarrow>
        (\<exists>s. dict_get (db_jobs db') j = Some s \<and> 1 \<le> n \<and>
           n \<le> jr_attempt_number s - of_bool (j \<in> P'))"
    proof (cases "j = ?i")
      case True
      then show ?thesis using old attempts [of n] unfolding get by auto
    next
      case False
      then show ?thesis using old others [of j] unfolding get by simp
    qed
  qed
  moreover have "tokens_inv svc db'"
    unfolding tokens_inv_def frame
  proof (intro conjI allI impI)
    have old: "t \<in> drawn svc db" if "dict_get (db_jobs db) j = Some s" "jr_claim_token s = Some t" for j s t
      using that inv unfolding db_inv_def tokens_inv_def by blast
    show "t \<in> drawn svc db" if "dict_get (db_jobs db') j = Some s" "jr_claim_token s = Some t" for j s t
      using that old token by (cases "j = ?i") (auto simp: get)
    fix j k s s' t
    assume "dict_get (db_jobs db') j = Some s" "dict_get (db_jobs db') k = Some s'"
      "jr_claim_token s = Some t" "jr_claim_token s' = Some t"
    moreover have "j' = k'" if "dict_get (db_jobs db) j' = Some q" "dict_get (db_jobs db) k' = Some q'"
      "jr_claim_token q = Some t" "jr_claim_token q' = Some t" for j' k' q q'
      using that inv unfolding db_inv_def tokens_inv_def by blast
    ultimately show "j = k"
      using token by (cases "j = ?i"; cases "k = ?i") (auto simp: get)
  qed
  ultimately show ?thesis
    using inv by (simp add: db_inv_def outbox_inv_def frame)
qed

lemma fenced_update_Inr:
  "fenced_update now job assign db = Inr (db', r') \<longleftrightarrow>
   (\<exists>r. dict_get (db_jobs db) (cl_job_id job) = Some r \<and> holds_claim now job r \<and>
      r' = assign r \<and> write_job r' db = Inr db')"
  by (auto simp: fenced_update_def bind_result_Inr_iff split: option.splits if_splits)

lemma fenced_update_inv:
  assumes inv: "db_inv svc {} db" and f: "fenced_update now job assign db = Inr (db', r')"
    and assign: "\<And>r. dict_get (db_jobs db) (cl_job_id job) = Some r \<Longrightarrow> row_ok r \<Longrightarrow> is_claimed r \<Longrightarrow>
      holds_claim now job r \<Longrightarrow> job_row_check (assign r) \<Longrightarrow>
      row_ok (assign r) \<and> jr_job_id (assign r) = jr_job_id r \<and>
      jr_attempt_number (assign r) = jr_attempt_number r \<and>
      (jr_claim_token (assign r) = None \<or> jr_claim_token (assign r) = jr_claim_token r)"
  shows "db_inv svc {} db'"
proof -
  obtain r where r: "dict_get (db_jobs db) (cl_job_id job) = Some r" "holds_claim now job r"
    "r' = assign r" "write_job r' db = Inr db'"
    using f by (auto simp: fenced_update_Inr)
  have id: "jr_job_id r = cl_job_id job" and ok: "row_ok r"
    using inv r(1) by (simp_all add: db_inv_def jobs_inv_def)
  have "is_claimed r" using ok r(2) by (auto simp: row_ok_def holds_claim_def)
  then have a: "row_ok r'" "jr_job_id r' = cl_job_id job"
    "jr_attempt_number r' = jr_attempt_number r"
    "jr_claim_token r' = None \<or> jr_claim_token r' = jr_claim_token r"
    using assign [OF r(1) ok] r id by (auto simp: write_job_Inr)
  show ?thesis
  proof (rule write_job_inv [OF inv r(4) a(1)])
    show "t \<in> drawn svc db \<and>
        (\<forall>j s. dict_get (db_jobs db) j = Some s \<and> jr_claim_token s = Some t \<longrightarrow> j = jr_job_id r')"
      if "jr_claim_token r' = Some t" for t
    proof -
      from that a(4) have "jr_claim_token r = Some t" by auto
      then show ?thesis
        using inv r(1) a(2) unfolding db_inv_def tokens_inv_def by metis
    qed
  qed (simp_all add: a r(1))
qed

section \<open>Claims\<close>

definition row_ids :: "job_row list \<Rightarrow> string set" where
  "row_ids rs = jr_job_id ` set rs"

lemma row_ids_simps [simp]:
  "row_ids [] = {}" "row_ids (r # rs) = insert (jr_job_id r) (row_ids rs)"
  by (simp_all add: row_ids_def)

lemma is_waiting_attempts: "row_ok r \<Longrightarrow> is_waiting r \<Longrightarrow> jr_attempt_number r < jr_max_attempts r"
  by (simp add: row_ok_def)

lemma row_ok_claim:
  assumes "row_ok r" and "is_waiting r" and "job_row_check (claim_row svc owner t now r)"
  shows "row_ok (claim_row svc owner t now r)"
  using assms is_waiting_attempts [OF assms(1,2)]
  by (auto simp: row_ok_def claim_row_def is_claimed_def is_waiting_def scheduler_statuses_def
      job_row_check_def)

lemma claim_rows_Cons:
  "claim_rows svc owner now (r # rs) db = Inr (db', cs) \<longleftrightarrow>
   (\<exists>db1 cs'. write_job (claim_row svc owner (sv_uuid svc (db_uuids db)) now r)
        (db\<lparr>db_uuids := Suc (db_uuids db)\<rparr>) = Inr db1 \<and>
      claim_rows svc owner now rs db1 = Inr (db', cs') \<and>
      cs = claim_row svc owner (sv_uuid svc (db_uuids db)) now r # cs')"
  by (auto simp: gen_uuid_def bind_result_Inr_iff Let_def split: prod.splits)

lemma db_inv_draw: "db_inv svc P db \<Longrightarrow> db_inv svc P (db\<lparr>db_uuids := Suc (db_uuids db)\<rparr>)"
  unfolding db_inv_def tokens_inv_def outbox_inv_def drawn_Suc
  by (auto simp del: set_map simp: jobs_inv_def attempts_inv_def)

lemma claim_row_fields [simp]:
  "jr_job_id (claim_row svc owner t now r) = jr_job_id r"
  "jr_attempt_number (claim_row svc owner t now r) = jr_attempt_number r + 1"
  "jr_claim_token (claim_row svc owner t now r) = Some t"
  "jr_max_attempts (claim_row svc owner t now r) = jr_max_attempts r"
  by (simp_all add: claim_row_def)

lemma claim_rows_inv:
  assumes inj: "inj (sv_uuid svc)"
  shows "db_inv svc P db \<Longrightarrow> claim_rows svc owner now rs db = Inr (db', cs) \<Longrightarrow>
    distinct (map jr_job_id rs) \<Longrightarrow>
    (\<And>r. r \<in> set rs \<Longrightarrow> dict_get (db_jobs db) (jr_job_id r) = Some r \<and> is_waiting r \<and> jr_job_id r \<notin> P) \<Longrightarrow>
    db_inv svc (P \<union> row_ids rs) db' \<and>
    map jr_job_id cs = map jr_job_id rs \<and>
    (\<forall>c \<in> set cs. dict_get (db_jobs db') (jr_job_id c) = Some c) \<and>
    list_all2 (\<lambda>r c. \<exists>t. t \<notin> drawn svc db \<and> c = claim_row svc owner t now r) rs cs \<and>
    distinct (map jr_claim_token cs) \<and>
    (\<forall>i. i \<notin> row_ids rs \<longrightarrow> dict_get (db_jobs db') i = dict_get (db_jobs db) i) \<and>
    db_attempts db' = db_attempts db \<and> db_outbox db' = db_outbox db \<and>
    db_uuids db \<le> db_uuids db'"
proof (induction rs arbitrary: P db cs)
  case Nil
  then show ?case by simp
next
  case (Cons r rs)
  let ?u = "sv_uuid svc (db_uuids db)"
  let ?c = "claim_row svc owner ?u now r"
  let ?db0 = "db\<lparr>db_uuids := Suc (db_uuids db)\<rparr>"
  from Cons.prems(2) obtain db1 cs' where w: "write_job ?c ?db0 = Inr db1"
    and rest: "claim_rows svc owner now rs db1 = Inr (db', cs')" and cs: "cs = ?c # cs'"
    unfolding claim_rows_Cons by blast
  have r: "dict_get (db_jobs db) (jr_job_id r) = Some r" "is_waiting r" "jr_job_id r \<notin> P"
    using Cons.prems(4) by simp_all
  have ok: "row_ok r" using Cons.prems(1) r(1) by (simp add: db_inv_def jobs_inv_def)
  have db1: "db1 = ?db0\<lparr>db_jobs := dict_put (jr_job_id r) ?c (db_jobs db)\<rparr>"
    using w by (simp add: write_job_Inr)
  have inv1: "db_inv svc (insert (jr_job_id r) P) db1"
  proof (rule write_job_inv [OF db_inv_draw [OF Cons.prems(1)] w])
    show "row_ok ?c" using ok r(2) w by (intro row_ok_claim) (simp_all add: write_job_Inr)
    show "t \<in> drawn svc ?db0 \<and> (\<forall>j s. dict_get (db_jobs ?db0) j = Some s \<and>
        jr_claim_token s = Some t \<longrightarrow> j = jr_job_id ?c)" if "jr_claim_token ?c = Some t" for t
    proof -
      have t: "t = ?u" using that by simp
      have "jr_claim_token s \<noteq> Some ?u" if "dict_get (db_jobs db) j = Some s" for j s
        using that Cons.prems(1) fresh_uuid [OF inj, of db]
        unfolding db_inv_def tokens_inv_def by blast
      then show ?thesis using t by (auto simp: drawn_Suc)
    qed
  qed (auto simp: r)
  have fresh: "dict_get (db_jobs db1) (jr_job_id s) = Some s \<and> is_waiting s \<and>
      jr_job_id s \<notin> insert (jr_job_id r) P" if "s \<in> set rs" for s
  proof -
    have "jr_job_id s \<noteq> jr_job_id r" using that Cons.prems(3) by (auto simp: image_iff)
    then show ?thesis using Cons.prems(4) [of s] that by (simp add: db1 dict_rules)
  qed
  note ih = Cons.IH [OF inv1 rest _ fresh]
  have drawn1: "drawn svc db1 = insert ?u (drawn svc db)"
    by (simp add: db1 drawn_def lessThan_Suc)
  have sub: "list_all2 (\<lambda>r c. \<exists>t. t \<notin> drawn svc db \<and> c = claim_row svc owner t now r) rs cs'"
    using ih Cons.prems(3) by (auto simp: drawn1 elim!: list_all2_mono)
  have "Some ?u \<notin> set (map jr_claim_token cs')"
  proof
    assume "Some ?u \<in> set (map jr_claim_token cs')"
    then obtain c where "c \<in> set cs'" "jr_claim_token c = Some ?u" by auto
    then obtain k where "k < length cs'" "cs' ! k = c" by (auto simp: in_set_conv_nth)
    moreover have "list_all2 (\<lambda>r c. \<exists>t. t \<notin> drawn svc db1 \<and> c = claim_row svc owner t now r) rs cs'"
      using ih Cons.prems(3) by simp
    ultimately show False
      using \<open>jr_claim_token c = Some ?u\<close> by (auto simp: list_all2_conv_all_nth drawn1)
  qed
  moreover have "?u \<notin> drawn svc db" using inj by (rule fresh_uuid)
  moreover have "dict_get (db_jobs db') (jr_job_id r) = Some ?c"
    using ih Cons.prems(3) by (auto simp: db1 dict_rules row_ids_def)
  ultimately show ?case
    using ih Cons.prems(3) sub unfolding cs
    by (auto simp: db1 dict_rules)
qed

lemma insert_attempt_inv:
  assumes inv: "db_inv svc P db" and i: "i \<in> P" and r: "dict_get (db_jobs db) i = Some r"
    and a: "insert_attempt (i, jr_attempt_number r) a db = Inr db'"
  shows "db_inv svc (P - {i}) db'"
proof -
  have db': "db' = db\<lparr>db_attempts := dict_put (i, jr_attempt_number r) a (db_attempts db)\<rparr>"
    and pos: "1 \<le> jr_attempt_number r"
    using a by (simp_all add: insert_attempt_Inr)
  have frame: "db_jobs db' = db_jobs db" "db_outbox db' = db_outbox db" "drawn svc db' = drawn svc db"
    by (simp_all add: db' drawn_def)
  have "attempts_inv (P - {i}) db'"
    unfolding attempts_inv_def frame
  proof (intro conjI allI)
    show "wf_dict (db_attempts db')"
      using inv by (simp add: db' db_inv_def attempts_inv_def wf_dict_put)
    fix j n
    have "dict_get (db_attempts db) (j, n) \<noteq> None \<longleftrightarrow>
        (\<exists>s. dict_get (db_jobs db) j = Some s \<and> 1 \<le> n \<and>
           n \<le> jr_attempt_number s - of_bool (j \<in> P))"
      using inv unfolding db_inv_def attempts_inv_def by blast
    then show "dict_get (db_attempts db') (j, n) \<noteq> None \<longleftrightarrow>
        (\<exists>s. dict_get (db_jobs db) j = Some s \<and> 1 \<le> n \<and>
           n \<le> jr_attempt_number s - of_bool (j \<in> P - {i}))"
      using i r pos by (cases "j = i") (auto simp: db' dict_rules)
  qed
  then show ?thesis
    using inv by (simp add: db_inv_def jobs_inv_def tokens_inv_def outbox_inv_def frame)
qed

definition claim_key :: "claimed_job \<Rightarrow> string \<times> int" where
  "claim_key c = (cl_job_id c, cl_attempt_number c)"

lemma record_claims_inv:
  "db_inv svc P db \<Longrightarrow> record_claims svc owner now jobs db = Inr db' \<Longrightarrow>
   distinct (map cl_job_id jobs) \<Longrightarrow>
   (\<And>c. c \<in> set jobs \<Longrightarrow> cl_job_id c \<in> P \<and> (\<exists>r. dict_get (db_jobs db) (cl_job_id c) = Some r \<and>
      jr_attempt_number r = cl_attempt_number c)) \<Longrightarrow>
   db_inv svc (P - cl_job_id ` set jobs) db' \<and> db_jobs db' = db_jobs db \<and>
   db_uuids db \<le> db_uuids db' \<and>
   (\<forall>k. dict_get (db_attempts db') k =
      (if k \<in> claim_key ` set jobs then dict_get (db_attempts db') k else dict_get (db_attempts db) k)) \<and>
   (\<forall>c \<in> set jobs. dict_get (db_attempts db) (claim_key c) = None \<and>
      (\<exists>a. dict_get (db_attempts db') (claim_key c) = Some a \<and> ar_outcome a = None \<and>
        ar_claim_token a = cl_claim_token c))"
proof (induction jobs arbitrary: P db)
  case Nil
  then show ?case by simp
next
  case (Cons c jobs)
  let ?i = "cl_job_id c"
  from Cons.prems(2) obtain a e db1 db2 where a: "insert_attempt (?i, cl_attempt_number c) a db = Inr db1"
    and e: "add_event svc now e db1 = Inr db2" and rest: "record_claims svc owner now jobs db2 = Inr db'"
    and open_row: "ar_outcome a = None" "ar_claim_token a = cl_claim_token c"
    by (auto simp: bind_result_Inr_iff)
  obtain r where r: "?i \<in> P" "dict_get (db_jobs db) ?i = Some r" "jr_attempt_number r = cl_attempt_number c"
    using Cons.prems(4) [of c] by auto
  have inv1: "db_inv svc (P - {?i}) db1"
    using insert_attempt_inv [OF Cons.prems(1) r(1,2)] a r(3) by simp
  have inv2: "db_inv svc (P - {?i}) db2" by (rule add_event_inv [OF inv1 e])
  have frame: "db_jobs db2 = db_jobs db" "db_uuids db \<le> db_uuids db2"
    using a e by (auto simp: insert_attempt_Inr add_event_Inr)
  have "cl_job_id d \<in> P - {?i} \<and> (\<exists>r. dict_get (db_jobs db2) (cl_job_id d) = Some r \<and>
      jr_attempt_number r = cl_attempt_number d)" if "d \<in> set jobs" for d
  proof -
    have "cl_job_id d \<noteq> ?i" using that Cons.prems(3) by (auto simp: image_iff)
    then show ?thesis using Cons.prems(4) [of d] that by (simp add: frame)
  qed
  note ih = Cons.IH [OF inv2 rest _ this]
  have get2: "dict_get (db_attempts db2) k = (if k = claim_key c then Some a else dict_get (db_attempts db) k)"
    for k using a e by (auto simp: insert_attempt_Inr add_event_Inr dict_rules claim_key_def)
  have none: "dict_get (db_attempts db) (claim_key c) = None"
    using a by (simp add: insert_attempt_Inr claim_key_def)
  have other: "claim_key c \<notin> claim_key ` set jobs"
    using Cons.prems(3) by (auto simp: claim_key_def)
  have att: "dict_get (db_attempts db') k = dict_get (db_attempts db2) k"
    if "k \<notin> claim_key ` set jobs" for k
    using ih Cons.prems(3) that by (metis distinct.simps(2) list.simps(9))
  have "claim_key d \<noteq> claim_key c" if "d \<in> set jobs" for d
    using that other by (metis imageI)
  then have rest_rows: "dict_get (db_attempts db) (claim_key d) = None \<and>
      (\<exists>a. dict_get (db_attempts db') (claim_key d) = Some a \<and> ar_outcome a = None \<and>
        ar_claim_token a = cl_claim_token d)" if "d \<in> set jobs" for d
    using that ih Cons.prems(3) get2 [of "claim_key d"] by auto
  have eq: "P - {?i} - cl_job_id ` set jobs = P - cl_job_id ` set (c # jobs)" by auto
  have "db_inv svc (P - {?i} - cl_job_id ` set jobs) db' \<and> db_jobs db' = db_jobs db \<and>
      db_uuids db \<le> db_uuids db'"
    using ih Cons.prems(3) frame by simp
  then show ?case
    unfolding eq using att rest_rows none open_row other get2 by auto
qed

section \<open>Due and expired rows\<close>

lemma jobs_values:
  assumes "jobs_inv db"
  shows "distinct (map jr_job_id (dict_values (db_jobs db)))"
    and "r \<in> set (dict_values (db_jobs db)) \<Longrightarrow> dict_get (db_jobs db) (jr_job_id r) = Some r"
proof -
  have ids: "map jr_job_id (dict_values (db_jobs db)) = dict_keys (db_jobs db)"
  proof -
    have "jr_job_id (snd x) = fst x" if "x \<in> set (db_jobs db)" for x
      using assms that by (cases x) (simp add: jobs_inv_def wf_dict_def map_of_is_SomeI)
    then show ?thesis by simp
  qed
  show "distinct (map jr_job_id (dict_values (db_jobs db)))"
    unfolding ids using assms by (simp add: jobs_inv_def wf_dict_def)
  show "dict_get (db_jobs db) (jr_job_id r) = Some r" if "r \<in> set (dict_values (db_jobs db))"
    using that assms pd.vals_get [of "db_jobs db" r] by (auto simp del: set_map simp: jobs_inv_def)
qed

lemma distinct_map_take: "distinct (map f xs) \<Longrightarrow> distinct (map f (take n xs))"
  by (simp add: take_map [symmetric])

lemma due_rows:
  assumes "jobs_inv db"
  shows "distinct (map jr_job_id (due now locked limit db))"
    and "r \<in> set (due now locked limit db) \<Longrightarrow>
      dict_get (db_jobs db) (jr_job_id r) = Some r \<and> is_waiting r \<and> jr_available_at r \<le> now \<and>
      jr_job_id r \<notin> locked"
proof -
  show "distinct (map jr_job_id (due now locked limit db))"
    unfolding due_def using jobs_values(1) [OF assms]
    by (intro distinct_map_take distinct_map_sort) (simp add: distinct_map_filter)
  show "dict_get (db_jobs db) (jr_job_id r) = Some r \<and> is_waiting r \<and> jr_available_at r \<le> now \<and>
      jr_job_id r \<notin> locked" if "r \<in> set (due now locked limit db)"
  proof -
    from that have "r \<in> set (dict_values (db_jobs db))" and "is_waiting r" "jr_available_at r \<le> now"
      "jr_job_id r \<notin> locked"
      by (auto simp: due_def is_waiting_def dest!: in_set_takeD)
    then show ?thesis using jobs_values(2) [OF assms] by blast
  qed
qed

lemma expired_rows:
  assumes "jobs_inv db"
  shows "distinct (map jr_job_id (expired now locked limit db))"
    and "r \<in> set (expired now locked limit db) \<Longrightarrow>
      dict_get (db_jobs db) (jr_job_id r) = Some r \<and> is_claimed r \<and>
      (\<exists>t. jr_claim_expires_at r = Some t \<and> t < now)"
proof -
  show "distinct (map jr_job_id (expired now locked limit db))"
    unfolding expired_def using jobs_values(1) [OF assms]
    by (intro distinct_map_take distinct_map_sort) (simp add: distinct_map_filter)
  show "dict_get (db_jobs db) (jr_job_id r) = Some r \<and> is_claimed r \<and>
      (\<exists>t. jr_claim_expires_at r = Some t \<and> t < now)" if "r \<in> set (expired now locked limit db)"
  proof -
    from that have "r \<in> set (dict_values (db_jobs db))" and "is_claimed r"
      "\<exists>t. jr_claim_expires_at r = Some t \<and> t < now"
      by (auto simp: expired_def is_claimed_def dest!: in_set_takeD split: option.splits)
    then show ?thesis using jobs_values(2) [OF assms] by blast
  qed
qed

section \<open>The operations keep the invariant\<close>

lemma row_ok_new:
  "valid_submission v \<Longrightarrow> row_ok (new_job_row v now)"
  by (auto simp: valid_submission_def submission_post_init_def row_ok_def new_job_row_def
      job_row_check_def scheduler_statuses_def is_claimed_def is_waiting_def split: if_splits)

lemma transaction_inv:
  "Q db \<Longrightarrow> (\<And>db' a. body db = Inr (db', a) \<Longrightarrow> Q db') \<Longrightarrow> Q (fst (transaction body db))"
  by (auto simp: transaction_def split: sum.split)

text \<open>A submission changes nothing or inserts the row and its two events.\<close>

lemma submit_effect:
  "fst (submit_checked svc faults now v db) = db \<or>
   dict_get (db_jobs db) (su_job_id v) = None \<and>
   (\<exists>db1. write_job (new_job_row v now) db = Inr db1 \<and>
      add_events svc now [submission_event v now JOB_CREATED,
        submission_event v now JOB_SCHEDULER_SUBMISSION_REQUESTED] db1 =
      Inr (fst (submit_checked svc faults now v db)))"
proof (cases "dict_get (db_jobs db) (su_job_id v)")
  case (Some r)
  then show ?thesis by (simp add: submit_checked_def transaction_def split: submission_decision.split)
next
  case None
  let ?es = "[submission_event v now JOB_CREATED,
    submission_event v now JOB_SCHEDULER_SUBMISSION_REQUESTED]"
  show ?thesis
  proof (cases "write_job (new_job_row v now) db")
    case (Inl err)
    with None show ?thesis by (simp add: submit_checked_def transaction_def)
  next
    case w: (Inr db1)
    show ?thesis
    proof (cases "add_events svc now ?es db1")
      case (Inl err)
      with None w show ?thesis
        by (simp add: submit_checked_def transaction_def del: add_events.simps)
    next
      case (Inr db2)
      with None w show ?thesis
        by (simp add: submit_checked_def transaction_def inject_def del: add_events.simps
            split: option.split)
    qed
  qed
qed

lemma submit_inv:
  assumes inv: "db_inv svc {} db" and v: "valid_submission v"
  shows "db_inv svc {} (fst (submit_checked svc faults now v db))"
proof -
  have "db_inv svc {} db'" if none: "dict_get (db_jobs db) (su_job_id v) = None"
    and w: "write_job (new_job_row v now) db = Inr db1" and e: "add_events svc now es db1 = Inr db'"
    for db1 es db'
  proof -
    have id: "jr_job_id (new_job_row v now) = su_job_id v" "jr_attempt_number (new_job_row v now) = 0"
      "jr_claim_token (new_job_row v now) = None"
      by (simp_all add: new_job_row_def)
    have "db_inv svc {} db1"
      by (rule write_job_inv [OF inv w row_ok_new [OF v]]) (simp_all add: id none)
    then show ?thesis using e by (rule add_events_inv)
  qed
  then show ?thesis using inv submit_effect [of svc faults now v db] by metis
qed

lemma start_inv:
  assumes inv: "db_inv svc {} db"
  shows "db_inv svc {} (fst (start svc now job db))"
proof -
  let ?f = "\<lambda>r. r\<lparr>jr_status := ''RUNNING'', jr_updated_at := now, jr_version := jr_version r + 1\<rparr>"
  have "db_inv svc {} db1" if "fenced_update now job ?f db = Inr (db1, r)" for db1 r
    using inv that
    by (rule fenced_update_inv)
      (auto simp: row_ok_def is_claimed_def is_waiting_def scheduler_statuses_def)
  then show ?thesis
    unfolding start_def
    by (intro transaction_inv [where Q = "db_inv svc {}", OF inv])
      (auto simp: bind_result_Inr_iff Let_def intro: add_event_inv [OF update_attempt_inv])
qed

lemma heartbeat_inv:
  assumes inv: "db_inv svc {} db"
  shows "db_inv svc {} (fst (heartbeat svc now job db))"
proof -
  let ?f = "\<lambda>r. r\<lparr>jr_claim_expires_at := Some (now + seconds (sv_claim_lease_seconds svc)),
                 jr_updated_at := now\<rparr>"
  have "db_inv svc {} db1" if "fenced_update now job ?f db = Inr (db1, r)" for db1 r
    using inv that by (rule fenced_update_inv) (auto simp: row_ok_def is_claimed_def is_waiting_def)
  then show ?thesis
    unfolding heartbeat_def
    by (intro transaction_inv [where Q = "db_inv svc {}", OF inv])
      (auto simp: bind_result_Inr_iff Let_def)
qed

lemma row_ok_release:
  assumes ok: "row_ok r" "is_claimed r"
    and check: "job_row_check ((release_claim now r)\<lparr>jr_status := s, jr_available_at := a\<rparr>)"
    and s: "s \<in> {''SUCCEEDED'', ''FAILED'', ''RETRIES_EXHAUSTED'', ''RETRY_WAIT''}"
    and retry: "s = ''RETRY_WAIT'' \<Longrightarrow> jr_attempt_number r < jr_max_attempts r"
  shows "row_ok ((release_claim now r)\<lparr>jr_status := s, jr_available_at := a\<rparr>)"
proof -
  have att: "jr_attempt_number r \<noteq> 0" "jr_attempt_number r \<le> jr_max_attempts r"
    using ok by (auto simp: row_ok_def is_claimed_def)
  show ?thesis
    using s check retry att
    by (elim insertE emptyE) (simp_all add: row_ok_def is_claimed_def is_waiting_def
        scheduler_statuses_def release_claim_def)
qed

lemma release_available [simp]:
  "(release_claim now r)\<lparr>jr_status := s, jr_available_at := jr_available_at r\<rparr> =
   (release_claim now r)\<lparr>jr_status := s\<rparr>"
  by (simp add: release_claim_def)

lemma release_claim_fields [simp]:
  "jr_job_id (release_claim now r) = jr_job_id r"
  "jr_attempt_number (release_claim now r) = jr_attempt_number r"
  "jr_claim_token (release_claim now r) = None"
  by (simp_all add: release_claim_def)

lemma succeed_inv:
  assumes inv: "db_inv svc {} db"
  shows "db_inv svc {} (fst (succeed svc now job summary db))"
proof -
  let ?f = "\<lambda>r. (release_claim now r)\<lparr>jr_status := ''SUCCEEDED''\<rparr>"
  have "db_inv svc {} db1" if "fenced_update now job ?f db = Inr (db1, r)" for db1 r
    using inv that
  proof (rule fenced_update_inv)
    show "row_ok (?f r) \<and> jr_job_id (?f r) = jr_job_id r \<and>
        jr_attempt_number (?f r) = jr_attempt_number r \<and>
        (jr_claim_token (?f r) = None \<or> jr_claim_token (?f r) = jr_claim_token r)"
      if "row_ok r" "is_claimed r" "job_row_check (?f r)" for r
      using that row_ok_release [where r = r and now = now and s = "''SUCCEEDED''" and a = "jr_available_at r"]
      by simp
  qed
  then show ?thesis
    unfolding succeed_def
    by (intro transaction_inv [where Q = "db_inv svc {}", OF inv])
      (auto simp: bind_result_Inr_iff Let_def intro: add_event_inv [OF update_attempt_inv])
qed

text \<open>A failing worker knows the attempt limit of the job it claimed.\<close>

definition knows_limit :: "scheduler_db \<Rightarrow> claimed_job \<Rightarrow> bool" where
  "knows_limit db job \<longleftrightarrow>
     (\<forall>r. dict_get (db_jobs db) (cl_job_id job) = Some r \<longrightarrow>
        cl_max_attempts job = jr_max_attempts r)"

lemma failure_status_set:
  "failure_status job b \<in> {''SUCCEEDED'', ''FAILED'', ''RETRIES_EXHAUSTED'', ''RETRY_WAIT''}"
  by (simp add: failure_status_def)

lemma fail_inv:
  assumes inv: "db_inv svc {} db" and limit: "knows_limit db job"
  shows "db_inv svc {} (fst (fail svc now now' job code retryable db))"
proof -
  let ?f = "\<lambda>available r. (release_claim now' r)\<lparr>jr_status := failure_status job retryable,
                                           jr_available_at := available\<rparr>"
  have "db_inv svc {} db1" if "fenced_update now' job (?f available) db = Inr (db1, r)"
    for db1 r available
    using inv that
  proof (rule fenced_update_inv)
    fix r assume r: "dict_get (db_jobs db) (cl_job_id job) = Some r" "row_ok r" "is_claimed r"
      "holds_claim now' job r" "job_row_check (?f available r)"
    have "row_ok (?f available r)"
      using r limit failure_status_set
      by (intro row_ok_release)
        (auto simp: failure_status_def will_retry_def knows_limit_def holds_claim_def split: if_splits)
    then show "row_ok (?f available r) \<and> jr_job_id (?f available r) = jr_job_id r \<and>
        jr_attempt_number (?f available r) = jr_attempt_number r \<and>
        (jr_claim_token (?f available r) = None \<or>
         jr_claim_token (?f available r) = jr_claim_token r)"
      by simp
  qed
  then show ?thesis
    unfolding fail_def
    by (intro transaction_inv [where Q = "db_inv svc {}", OF inv])
      (auto simp: bind_result_Inr_iff Let_def intro: add_events_inv [OF update_attempt_inv])
qed

lemma claimed_of_fields [simp]:
  "cl_job_id (claimed_of r) = jr_job_id r"
  "cl_attempt_number (claimed_of r) = jr_attempt_number r"
  "cl_max_attempts (claimed_of r) = jr_max_attempts r"
  by (simp_all add: claimed_of_def)

text \<open>What a committed claim leaves behind.\<close>

lemma claim_due_effect:
  assumes inj: "inj (sv_uuid svc)" and inv: "db_inv svc {} db"
    and c: "claim_due svc now now' locked owner limit db = (db', Inr claimed)"
  obtains rows where "claimed = map claimed_of rows" "db_inv svc {} db'"
      "map jr_job_id rows = map jr_job_id (due now locked limit db)"
      "list_all2 (\<lambda>r c. \<exists>t. t \<notin> drawn svc db \<and> c = claim_row svc owner t now r)
         (due now locked limit db) rows"
      "distinct (map jr_claim_token rows)"
      "\<And>r. r \<in> set rows \<Longrightarrow> dict_get (db_jobs db') (jr_job_id r) = Some r"
      "\<And>i. i \<notin> row_ids rows \<Longrightarrow> dict_get (db_jobs db') i = dict_get (db_jobs db) i"
      "db_uuids db \<le> db_uuids db'"
      "\<And>k. k \<notin> claim_key ` set claimed \<Longrightarrow> dict_get (db_attempts db') k = dict_get (db_attempts db) k"
      "\<And>c. c \<in> set claimed \<Longrightarrow> dict_get (db_attempts db) (claim_key c) = None \<and>
        (\<exists>a. dict_get (db_attempts db') (claim_key c) = Some a \<and> ar_outcome a = None \<and>
          ar_claim_token a = cl_claim_token c)"
proof (cases "limit < 1")
  case True
  then show ?thesis
    using c inv by (intro that [of "[]"]) (simp_all add: claim_due_def due_def)
next
  case False
  let ?rs = "due now locked limit db"
  from c False obtain db1 rows where rows: "claim_rows svc owner now ?rs db = Inr (db1, rows)"
    and rec: "record_claims svc owner now' (map claimed_of rows) db1 = Inr db'"
    and claimed: "claimed = map claimed_of rows"
    by (auto simp: claim_due_def transaction_def bind_result_Inr_iff Let_def split: sum.splits)
  have j: "jobs_inv db" using inv by (simp add: db_inv_def)
  have pre: "dict_get (db_jobs db) (jr_job_id r) = Some r \<and> is_waiting r \<and> jr_job_id r \<notin> {}"
    if "r \<in> set ?rs" for r
    using due_rows(2) [OF j that] by simp
  note eff = claim_rows_inv [OF inj inv rows due_rows(1) [OF j] pre, simplified]
  have ids: "row_ids rows = row_ids ?rs"
    using eff unfolding row_ids_def by (metis list.set_map)
  have idl: "map cl_job_id (map claimed_of rows) = map jr_job_id rows" by simp
  have main: "db_inv svc (row_ids ?rs - cl_job_id ` set (map claimed_of rows)) db' \<and>
      db_jobs db' = db_jobs db1 \<and> db_uuids db1 \<le> db_uuids db' \<and>
      (\<forall>k. dict_get (db_attempts db') k =
        (if k \<in> claim_key ` set (map claimed_of rows) then dict_get (db_attempts db') k
         else dict_get (db_attempts db1) k)) \<and>
      (\<forall>c \<in> set (map claimed_of rows). dict_get (db_attempts db1) (claim_key c) = None \<and>
        (\<exists>a. dict_get (db_attempts db') (claim_key c) = Some a \<and> ar_outcome a = None \<and>
          ar_claim_token a = cl_claim_token c))"
  proof (rule record_claims_inv [OF _ rec])
    show "db_inv svc (row_ids ?rs) db1" using eff by simp
    show "distinct (map cl_job_id (map claimed_of rows))"
      unfolding idl using eff due_rows(1) [OF j] by simp
    show "cl_job_id c \<in> row_ids ?rs \<and> (\<exists>r. dict_get (db_jobs db1) (cl_job_id c) = Some r \<and>
        jr_attempt_number r = cl_attempt_number c)" if "c \<in> set (map claimed_of rows)" for c
      using that eff unfolding ids [symmetric] by (auto simp: row_ids_def)
  qed
  have "cl_job_id ` set (map claimed_of rows) = row_ids rows"
    by (simp add: row_ids_def image_image)
  then have none: "row_ids ?rs - cl_job_id ` set (map claimed_of rows) = {}"
    by (simp add: ids)
  have committed: "db_inv svc {} db'" "db_jobs db' = db_jobs db1" "db_uuids db1 \<le> db_uuids db'"
    using main unfolding none by blast+
  have att: "dict_get (db_attempts db') k = dict_get (db_attempts db) k"
    if "k \<notin> claim_key ` set claimed" for k
    using main eff that claimed by metis
  have rows_open: "dict_get (db_attempts db) (claim_key c) = None \<and>
      (\<exists>a. dict_get (db_attempts db') (claim_key c) = Some a \<and> ar_outcome a = None \<and>
        ar_claim_token a = cl_claim_token c)" if "c \<in> set claimed" for c
    using main eff that claimed by metis
  show ?thesis
    using eff committed att rows_open by (intro that [OF claimed]) (auto simp: ids)
qed

lemma claim_due_inv:
  assumes "inj (sv_uuid svc)" and "db_inv svc {} db"
  shows "db_inv svc {} (fst (claim_due svc now now' locked owner limit db))"
proof (cases "claim_due svc now now' locked owner limit db")
  case (Pair db' res)
  show ?thesis
  proof (cases res)
    case (Inl err)
    with Pair assms(2) show ?thesis
      by (auto simp: claim_due_def transaction_def split: if_splits sum.splits)
  next
    case (Inr claimed)
    with Pair assms(2) show ?thesis
      using claim_due_effect [OF assms, of now now' locked owner limit db' claimed] by auto
  qed
qed

text \<open>Recovery writes one row after the other.\<close>

lemma row_ok_recover:
  assumes "row_ok r" and "is_claimed r" and "job_row_check (recover_row now r)"
  shows "row_ok (recover_row now r)"
  using assms unfolding recover_row_def by (intro row_ok_release) (auto split: if_splits)

lemma write_recovered_inv:
  "db_inv svc {} db \<Longrightarrow> write_rows (map (recover_row now) rs) db = Inr db' \<Longrightarrow>
   distinct (map jr_job_id rs) \<Longrightarrow>
   (\<And>r. r \<in> set rs \<Longrightarrow> dict_get (db_jobs db) (jr_job_id r) = Some r \<and> is_claimed r) \<Longrightarrow>
   db_inv svc {} db' \<and> db_uuids db' = db_uuids db \<and>
   (\<forall>i. dict_get (db_jobs db') i =
      (if i \<in> row_ids rs then map_option (recover_row now) (dict_get (db_jobs db) i)
       else dict_get (db_jobs db) i)) \<and>
   db_attempts db' = db_attempts db \<and> db_outbox db' = db_outbox db"
proof (induction rs arbitrary: db)
  case Nil
  then show ?case by simp
next
  case (Cons r rs)
  let ?r = "recover_row now r"
  from Cons.prems(2) obtain db1 where w: "write_job ?r db = Inr db1"
    and rest: "write_rows (map (recover_row now) rs) db1 = Inr db'"
    by (auto simp: bind_result_Inr_iff)
  have r: "dict_get (db_jobs db) (jr_job_id r) = Some r" "is_claimed r"
    using Cons.prems(4) by simp_all
  have ok: "row_ok r" using Cons.prems(1) r(1) by (simp add: db_inv_def jobs_inv_def)
  have f: "jr_job_id ?r = jr_job_id r" "jr_attempt_number ?r = jr_attempt_number r"
    "jr_claim_token ?r = None"
    by (simp_all add: recover_row_def)
  have db1: "db1 = db\<lparr>db_jobs := dict_put (jr_job_id r) ?r (db_jobs db)\<rparr>"
    using w by (simp add: write_job_Inr f)
  have inv1: "db_inv svc {} db1"
  proof (rule write_job_inv [OF Cons.prems(1) w])
    show "row_ok ?r" using ok r(2) w by (intro row_ok_recover) (simp_all add: write_job_Inr)
  qed (simp_all add: f r(1))
  have ne: "jr_job_id s \<noteq> jr_job_id r" if "s \<in> set rs" for s
    using that Cons.prems(3) by (auto simp: image_iff)
  have "dict_get (db_jobs db1) (jr_job_id s) = Some s \<and> is_claimed s" if "s \<in> set rs" for s
    using ne [OF that] Cons.prems(4) [of s] that by (simp add: db1 dict_rules)
  from Cons.IH [OF inv1 rest _ this] Cons.prems(3) ne r(1) show ?case
    by (auto simp: db1 dict_rules row_ids_def)
qed

lemma recover_inv:
  assumes inv: "db_inv svc {} db"
  shows "db_inv svc {} (fst (recover_expired_claims now locked limit db))"
proof -
  have j: "jobs_inv db" using inv by (simp add: db_inv_def)
  have "db_inv svc {} db'"
    if "write_rows (map (recover_row now) (expired now locked limit db)) db = Inr db'" for db'
    using write_recovered_inv [OF inv that expired_rows(1) [OF j]] expired_rows(2) [OF j] by blast
  then show ?thesis
    unfolding recover_expired_claims_def
    by (intro transaction_inv [where Q = "db_inv svc {}", OF inv])
      (auto simp: bind_result_Inr_iff Let_def)
qed

end
