(* ===== verification/Scheduler_Progress.thy ===== *)
theory Scheduler_Progress
  imports Scheduler_Invariant
begin

text \<open>
  Transactions that cannot fail on consistent tables: no constraint or uniqueness violation can
  abort a claim, and UUIDs that are drawn once keep the outbox inserts apart. The last section says
  which rows the due query selects.
\<close>

section \<open>Statements that cannot fail\<close>

lemma outbox_fresh:
  assumes "inj (sv_uuid svc)" and "db_inv svc P db"
  shows "dict_get (db_outbox db) (sv_uuid svc (db_uuids db)) = None"
proof -
  have "sv_uuid svc (db_uuids db) \<notin> set (dict_keys (db_outbox db))"
    using assms(2) fresh_uuid [OF assms(1), of db] by (auto simp del: set_map simp: db_inv_def outbox_inv_def)
  then show ?thesis using pd.get_keys by fast
qed

lemma add_event_total:
  "inj (sv_uuid svc) \<Longrightarrow> db_inv svc P db \<Longrightarrow> valid_event e \<Longrightarrow> \<exists>db'. add_event svc now e db = Inr db'"
  by (simp add: add_event_Inr outbox_fresh)

lemma add_events_total:
  "inj (sv_uuid svc) \<Longrightarrow> db_inv svc P db \<Longrightarrow> list_all valid_event es \<Longrightarrow>
   \<exists>db'. add_events svc now es db = Inr db'"
proof (induction es arbitrary: db)
  case (Cons e es)
  then obtain db1 where "add_event svc now e db = Inr db1" using add_event_total by fastforce
  moreover from this have "\<exists>db'. add_events svc now es db1 = Inr db'"
    using Cons add_event_inv by fastforce
  ultimately show ?case by simp
qed simp

lemma valid_job_event:
  "valid_event (job_event c t at) \<longleftrightarrow> 0 \<le> cl_attempt_number c \<and> 1 \<le> cl_max_attempts c"
  by (simp add: valid_event_def job_event_def)

lemma valid_submission_event: "valid_submission v \<Longrightarrow> valid_event (submission_event v now t)"
  by (auto simp: valid_event_def submission_event_def valid_submission_def submission_post_init_def
      split: if_splits)

lemma claim_row_check: "row_ok r \<Longrightarrow> job_row_check (claim_row svc owner t now r)"
  by (auto simp: row_ok_def job_row_check_def claim_row_def)

lemma claim_rows_total:
  "list_all row_ok rs \<Longrightarrow> \<exists>db' cs. claim_rows svc owner now rs db = Inr (db', cs)"
proof (induction rs arbitrary: db)
  case (Cons r rs)
  let ?u = "sv_uuid svc (db_uuids db)"
  obtain db1 where "write_job (claim_row svc owner ?u now r) (db\<lparr>db_uuids := Suc (db_uuids db)\<rparr>) = Inr db1"
    using Cons.prems claim_row_check [of r svc owner ?u now] by (simp add: write_job_def)
  moreover obtain db' cs where "claim_rows svc owner now rs db1 = Inr (db', cs)"
    using Cons by fastforce
  ultimately show ?case using claim_rows_Cons by blast
qed simp

lemma record_claims_total:
  assumes inj: "inj (sv_uuid svc)"
  shows "db_inv svc P db \<Longrightarrow> distinct (map cl_job_id jobs) \<Longrightarrow>
    (\<And>c. c \<in> set jobs \<Longrightarrow> cl_job_id c \<in> P \<and> 1 \<le> cl_attempt_number c \<and> 1 \<le> cl_max_attempts c \<and>
       (\<exists>r. dict_get (db_jobs db) (cl_job_id c) = Some r \<and> jr_attempt_number r = cl_attempt_number c)) \<Longrightarrow>
    \<exists>db'. record_claims svc owner now jobs db = Inr db'"
proof (induction jobs arbitrary: P db)
  case (Cons c jobs)
  let ?i = "cl_job_id c"
  define a where "a = \<lparr>ar_claim_token = cl_claim_token c, ar_claimed_by = owner, ar_claimed_at = now,
          ar_started_at = None, ar_completed_at = None, ar_outcome = None, ar_retryable = None,
          ar_error_code = None, ar_result_summary = None, ar_next_retry_at = None\<rparr>"
  define e where "e = job_event c JOB_SCHEDULER_ITEM_RETRIEVED
            (cl_claim_expires_at c - seconds (sv_claim_lease_seconds svc))"
  obtain r where r: "?i \<in> P" "dict_get (db_jobs db) ?i = Some r"
    "jr_attempt_number r = cl_attempt_number c" and c: "1 \<le> cl_attempt_number c" "1 \<le> cl_max_attempts c"
    using Cons.prems(3) [of c] by auto
  have "dict_get (db_attempts db) (?i, cl_attempt_number c) = None"
  proof (rule ccontr)
    assume "dict_get (db_attempts db) (?i, cl_attempt_number c) \<noteq> None"
    then have "\<exists>r. dict_get (db_jobs db) ?i = Some r \<and> 1 \<le> cl_attempt_number c \<and>
        cl_attempt_number c \<le> jr_attempt_number r - of_bool (?i \<in> P)"
      using Cons.prems(1) unfolding db_inv_def attempts_inv_def by blast
    then show False using r by auto
  qed
  then obtain db1 where a: "insert_attempt (?i, cl_attempt_number c) a db = Inr db1"
    using c by (simp add: insert_attempt_Inr)
  have inv1: "db_inv svc (P - {?i}) db1"
    using insert_attempt_inv [OF Cons.prems(1) r(1,2)] a r(3) by simp
  obtain db2 where e: "add_event svc now e db1 = Inr db2"
    using add_event_total [OF inj inv1, of e now] c by (auto simp: e_def valid_job_event)
  have inv2: "db_inv svc (P - {?i}) db2" by (rule add_event_inv [OF inv1 e])
  have frame: "db_jobs db2 = db_jobs db"
    using a e by (auto simp: insert_attempt_Inr add_event_Inr)
  have "cl_job_id d \<in> P - {?i} \<and> 1 \<le> cl_attempt_number d \<and> 1 \<le> cl_max_attempts d \<and>
      (\<exists>r. dict_get (db_jobs db2) (cl_job_id d) = Some r \<and>
      jr_attempt_number r = cl_attempt_number d)" if "d \<in> set jobs" for d
  proof -
    have "cl_job_id d \<noteq> ?i" using that Cons.prems(2) by (auto simp: image_iff)
    then show ?thesis using Cons.prems(3) [of d] that by (simp add: frame)
  qed
  from Cons.IH [OF inv2 _ this] Cons.prems(2)
  obtain db' where "record_claims svc owner now jobs db2 = Inr db'" by auto
  then show ?case by (simp add: a [unfolded a_def] e [unfolded e_def])
qed simp

lemma claim_due_total:
  assumes inj: "inj (sv_uuid svc)" and inv: "db_inv svc {} db"
  shows "\<exists>db' claimed. claim_due svc now now' locked owner limit db = (db', Inr claimed)"
proof (cases "limit < 1")
  case True
  then show ?thesis by (simp add: claim_due_def)
next
  case False
  let ?rs = "due now locked limit db"
  have j: "jobs_inv db" using inv by (simp add: db_inv_def)
  have "list_all row_ok ?rs"
    using due_rows(2) [OF j] j by (fastforce simp: list_all_iff jobs_inv_def)
  then obtain db1 rows where rows: "claim_rows svc owner now ?rs db = Inr (db1, rows)"
    using claim_rows_total by blast
  have pre: "dict_get (db_jobs db) (jr_job_id r) = Some r \<and> is_waiting r \<and> jr_job_id r \<notin> {}"
    if "r \<in> set ?rs" for r
    using due_rows(2) [OF j that] by simp
  note eff = claim_rows_inv [OF inj inv rows due_rows(1) [OF j] pre, simplified]
  have ids: "row_ids rows = row_ids ?rs"
    using eff unfolding row_ids_def by (metis list.set_map)
  have inv1: "db_inv svc (row_ids rows) db1" using eff ids by simp
  have "\<exists>db'. record_claims svc owner now' (map claimed_of rows) db1 = Inr db'"
  proof (rule record_claims_total [OF inj inv1])
    have "map cl_job_id (map claimed_of rows) = map jr_job_id rows" by simp
    then show "distinct (map cl_job_id (map claimed_of rows))"
      using eff due_rows(1) [OF j] by simp
    fix c assume "c \<in> set (map claimed_of rows)"
    then obtain r where r: "r \<in> set rows" "c = claimed_of r" by auto
    then have get: "dict_get (db_jobs db1) (jr_job_id r) = Some r" using eff by blast
    then have "row_ok r" using inv1 by (simp add: db_inv_def jobs_inv_def)
    moreover obtain t where "jr_claim_token r = Some t"
    proof -
      have "\<exists>t. jr_claim_token r = Some t"
        using eff r(1) by (auto simp: list_all2_conv_all_nth in_set_conv_nth)
      then show ?thesis using that by blast
    qed
    ultimately have "1 \<le> jr_attempt_number r" "1 \<le> jr_max_attempts r"
      by (auto simp: row_ok_def job_row_check_def is_claimed_def)
    then show "cl_job_id c \<in> row_ids rows \<and> 1 \<le> cl_attempt_number c \<and> 1 \<le> cl_max_attempts c \<and>
        (\<exists>r. dict_get (db_jobs db1) (cl_job_id c) = Some r \<and> jr_attempt_number r = cl_attempt_number c)"
      using r get by (auto simp: row_ids_def)
  qed
  then show ?thesis
    using False rows by (auto simp: claim_due_def transaction_def)
qed

section \<open>What lands in the outbox\<close>

fun stamp_from :: "service \<Rightarrow> nat \<Rightarrow> event list \<Rightarrow> event list" where
  "stamp_from svc k [] = []"
| "stamp_from svc k (e # es) = stamped svc k e # stamp_from svc (Suc k) es"

lemma length_stamp_from [simp]: "length (stamp_from svc k es) = length es"
  by (induction es arbitrary: k) simp_all

lemma stamp_from_append:
  "stamp_from svc k (es @ fs) = stamp_from svc k es @ stamp_from svc (k + length es) fs"
  by (induction es arbitrary: k) simp_all

definition outbox_entry :: "service \<Rightarrow> time \<Rightarrow> event \<Rightarrow> string \<times> outbox_row" where
  "outbox_entry svc now e = (ev_event_id e, outbox_row_of svc now e)"

lemma add_events_outbox:
  "add_events svc now es db = Inr db' \<Longrightarrow>
   db' = db\<lparr>db_uuids := db_uuids db + length es,
            db_outbox := db_outbox db @
              map (outbox_entry svc now) (stamp_from svc (db_uuids db) es)\<rparr>"
proof (induction es arbitrary: db)
  case (Cons e es)
  then obtain db1 where e: "add_event svc now e db = Inr db1" and es: "add_events svc now es db1 = Inr db'"
    by (auto simp: bind_result_Inr_iff)
  let ?u = "sv_uuid svc (db_uuids db)"
  have "?u \<notin> set (dict_keys (db_outbox db))"
    using e pd.get_keys [of "db_outbox db" ?u] by (simp add: add_event_Inr del: set_map)
  then have "db1 = db\<lparr>db_uuids := Suc (db_uuids db),
      db_outbox := db_outbox db @ [outbox_entry svc now (stamped svc (db_uuids db) e)]\<rparr>"
    using e by (simp add: add_event_Inr dict_put_new outbox_entry_def stamped_def)
  then show ?case using Cons.IH [OF es] by simp
qed simp

section \<open>What the due query selects\<close>

definition eligible :: "time \<Rightarrow> string set \<Rightarrow> scheduler_db \<Rightarrow> job_row list" where
  "eligible now locked db =
     filter (\<lambda>r. is_waiting r \<and> jr_available_at r \<le> now \<and> jr_job_id r \<notin> locked)
       (dict_values (db_jobs db))"

abbreviation due_order :: "job_row \<Rightarrow> time \<times> string" where
  "due_order r \<equiv> (jr_available_at r, jr_job_id r)"

lemma due_eligible:
  "due now locked limit db = take (nat limit) (sort_key due_order (eligible now locked db))"
  by (simp add: due_def eligible_def is_waiting_def conj_assoc)

lemma sort_take_order:
  assumes "a \<in> set (take n (sort_key f xs))" and "b \<in> set (drop n (sort_key f xs))"
  shows "f a \<le> f b"
proof -
  have "sorted (map f (take n (sort_key f xs) @ drop n (sort_key f xs)))" by simp
  then show ?thesis using assms by (simp only: map_append sorted_append) (auto)
qed

lemma due_first:
  assumes "r \<in> set (due now locked limit db)" and "q \<in> set (eligible now locked db)"
    and "q \<notin> set (due now locked limit db)"
  shows "due_order r \<le> due_order q"
proof -
  let ?s = "sort_key due_order (eligible now locked db)"
  have "q \<in> set (take (nat limit) ?s @ drop (nat limit) ?s)" using assms(2) by simp
  then have "q \<in> set (drop (nat limit) ?s)"
    using assms(3) unfolding due_eligible set_append by blast
  then show ?thesis
    by (rule sort_take_order [OF assms(1) [unfolded due_eligible]])
qed

lemma length_due: "length (due now locked limit db) = min (nat limit) (length (eligible now locked db))"
  by (simp add: due_eligible min.commute)

end
