(* ===== verification/Scheduler_System.thy ===== *)
theory Scheduler_System
  imports Scheduler_Progress "HOL-Library.Sublist"
begin

text \<open>
  The durable scheduler as a system: any number of workers, submitters and recovery loops act on the
  tables through the operations of \<open>Scheduler_Service\<close>, in any order. What the lemmas show: the
  tables stay consistent, claims are exclusive and bounded, results are final, and claiming is fair.
\<close>

section \<open>The system of database and workers\<close>

text \<open>
  Workers only act through the claims \<open>claim_due\<close> returned to them; the system remembers all claims
  ever handed out. An operation of a worker names the claim by its position; a name that was never
  handed out does nothing.
\<close>

record scheduler_system =
  ss_db :: scheduler_db
  ss_issued :: "claimed_job list"

datatype sched_op =
    OpSubmit faults time submission
  | OpClaim time time "string set" string int
  | OpStart time nat
  | OpHeartbeat time nat
  | OpSucceed time nat json
  | OpFail time time nat string bool
  | OpRecover time "string set" int

definition on_issued ::
  "scheduler_system \<Rightarrow> nat \<Rightarrow> (claimed_job \<Rightarrow> scheduler_db \<Rightarrow> scheduler_db) \<Rightarrow> scheduler_system" where
  "on_issued s k f =
     (if k < length (ss_issued s) then s\<lparr>ss_db := f (ss_issued s ! k) (ss_db s)\<rparr> else s)"

primrec sched_step :: "service \<Rightarrow> scheduler_system \<Rightarrow> sched_op \<Rightarrow> scheduler_system" where
  "sched_step svc s (OpSubmit faults now v) =
     (case submission_post_init v of
        Inl err \<Rightarrow> s
      | Inr v \<Rightarrow> s\<lparr>ss_db := fst (submit_checked svc faults now v (ss_db s))\<rparr>)"
| "sched_step svc s (OpClaim now now' locked owner limit) =
     (case claim_due svc now now' locked owner limit (ss_db s) of
        (db, Inl err) \<Rightarrow> s\<lparr>ss_db := db\<rparr>
      | (db, Inr claimed) \<Rightarrow> s\<lparr>ss_db := db, ss_issued := ss_issued s @ claimed\<rparr>)"
| "sched_step svc s (OpStart now k) = on_issued s k (\<lambda>job db. fst (start svc now job db))"
| "sched_step svc s (OpHeartbeat now k) = on_issued s k (\<lambda>job db. fst (heartbeat svc now job db))"
| "sched_step svc s (OpSucceed now k summary) =
     on_issued s k (\<lambda>job db. fst (succeed svc now job summary db))"
| "sched_step svc s (OpFail now now' k code retryable) =
     on_issued s k (\<lambda>job db. fst (fail svc now now' job code retryable db))"
| "sched_step svc s (OpRecover now locked limit) =
     s\<lparr>ss_db := fst (recover_expired_claims now locked limit (ss_db s))\<rparr>"

definition initial_system :: scheduler_system where
  "initial_system = \<lparr>ss_db = empty_db, ss_issued = []\<rparr>"

definition run_scheduler :: "service \<Rightarrow> sched_op list \<Rightarrow> scheduler_system" where
  "run_scheduler svc ops = foldl (sched_step svc) initial_system ops"

section \<open>How one transaction changes the tables\<close>

text \<open>
  A row keeps its submission and its attempts never decrease; a terminal row never changes. A
  recorded outcome of an attempt is never overwritten.
\<close>

definition same_submission :: "job_row \<Rightarrow> job_row \<Rightarrow> bool" where
  "same_submission r r' \<longleftrightarrow>
     jr_job_id r' = jr_job_id r \<and> jr_correlation_id r' = jr_correlation_id r \<and>
     jr_job_type r' = jr_job_type r \<and> jr_payload r' = jr_payload r \<and>
     jr_payload_reference r' = jr_payload_reference r \<and>
     jr_scheduled_at r' = jr_scheduled_at r \<and> jr_max_attempts r' = jr_max_attempts r"

definition row_le :: "job_row \<Rightarrow> job_row \<Rightarrow> bool" where
  "row_le r r' \<longleftrightarrow>
     same_submission r r' \<and> jr_attempt_number r \<le> jr_attempt_number r' \<and>
     (\<not> is_waiting r \<and> \<not> is_claimed r \<longrightarrow> r' = r)"

definition attempt_le :: "attempt_row \<Rightarrow> attempt_row \<Rightarrow> bool" where
  "attempt_le a a' \<longleftrightarrow>
     ar_claim_token a' = ar_claim_token a \<and> (ar_outcome a \<noteq> None \<longrightarrow> a' = a)"

definition db_le :: "scheduler_db \<Rightarrow> scheduler_db \<Rightarrow> bool" where
  "db_le db db' \<longleftrightarrow>
     (\<forall>i r. dict_get (db_jobs db) i = Some r \<longrightarrow>
        (\<exists>r'. dict_get (db_jobs db') i = Some r' \<and> row_le r r')) \<and>
     (\<forall>k a. dict_get (db_attempts db) k = Some a \<longrightarrow>
        (\<exists>a'. dict_get (db_attempts db') k = Some a' \<and> attempt_le a a')) \<and>
     db_uuids db \<le> db_uuids db'"

text \<open>The attempt of a running claim has no outcome yet.\<close>

definition open_attempts :: "scheduler_db \<Rightarrow> bool" where
  "open_attempts db \<longleftrightarrow>
     (\<forall>i r a. dict_get (db_jobs db) i = Some r \<longrightarrow> is_claimed r \<longrightarrow>
        dict_get (db_attempts db) (i, jr_attempt_number r) = Some a \<longrightarrow> ar_outcome a = None)"

lemma row_le_refl [simp]: "row_le r r"
  by (simp add: row_le_def same_submission_def)

lemma row_le_trans: "row_le r s \<Longrightarrow> row_le s t \<Longrightarrow> row_le r t"
  by (auto simp: row_le_def same_submission_def)

lemma attempt_le_refl [simp]: "attempt_le a a"
  by (simp add: attempt_le_def)

lemma attempt_le_trans: "attempt_le a b \<Longrightarrow> attempt_le b c \<Longrightarrow> attempt_le a c"
  by (auto simp: attempt_le_def)

lemma db_le_refl [simp]: "db_le db db"
  by (auto simp: db_le_def)

lemma db_le_trans: "db_le a b \<Longrightarrow> db_le b c \<Longrightarrow> db_le a c"
  unfolding db_le_def by (meson row_le_trans attempt_le_trans order_trans)

text \<open>
  The common shape of all transactions: every row either stays or moves up, and every attempt that
  changes belongs to a claimed row.
\<close>

lemma add_events_frame:
  "add_events svc now es db = Inr db' \<Longrightarrow>
   db_jobs db' = db_jobs db \<and> db_attempts db' = db_attempts db \<and> db_uuids db \<le> db_uuids db'"
  by (induction es arbitrary: db) (fastforce simp: bind_result_Inr_iff add_event_Inr)+

lemma add_events_single: "add_event svc now e db = Inr db' \<longleftrightarrow> add_events svc now [e] db = Inr db'"
  by (auto simp: bind_result_Inr_iff)

lemma fenced_commit:
  assumes inv: "db_inv svc {} db" and op: "open_attempts db"
    and r: "dict_get (db_jobs db) (cl_job_id job) = Some r" "holds_claim now job r"
    and jobs: "\<And>j. dict_get (db_jobs db') j =
      (if j = cl_job_id job then Some r' else dict_get (db_jobs db) j)"
    and atts: "\<And>k. dict_get (db_attempts db') k =
      (if k = claim_key job then map_option g (dict_get (db_attempts db) k)
       else dict_get (db_attempts db) k)"
    and uuids: "db_uuids db \<le> db_uuids db'"
    and sub: "same_submission r r'" "jr_attempt_number r' = jr_attempt_number r"
    and token: "\<And>a. ar_claim_token (g a) = ar_claim_token a"
    and outcome: "\<not> is_claimed r' \<or> (\<forall>a. ar_outcome (g a) = ar_outcome a)"
  shows "db_le db db' \<and> open_attempts db'"
proof
  have "row_ok r" using inv r(1) by (simp add: db_inv_def jobs_inv_def)
  then have claimed: "is_claimed r" using r(2) by (auto simp: row_ok_def holds_claim_def)
  have key: "claim_key job = (cl_job_id job, jr_attempt_number r)"
    using r(2) by (simp add: claim_key_def holds_claim_def)
  have none: "ar_outcome a = None" if "dict_get (db_attempts db) (claim_key job) = Some a" for a
    using op r(1) claimed that unfolding key open_attempts_def by blast
  have rle: "row_le r r'" using sub claimed by (simp add: row_le_def)
  show "db_le db db'"
    unfolding db_le_def
  proof (intro conjI allI impI)
    show "\<exists>r'. dict_get (db_jobs db') i = Some r' \<and> row_le s r'"
      if "dict_get (db_jobs db) i = Some s" for i s
      using that r(1) rle by (auto simp: jobs)
    show "\<exists>a'. dict_get (db_attempts db') k = Some a' \<and> attempt_le a a'"
      if "dict_get (db_attempts db) k = Some a" for k a
      using that none token by (auto simp: atts attempt_le_def)
  qed (rule uuids)
  show "open_attempts db'"
    unfolding open_attempts_def
  proof (intro allI impI)
    fix i s a
    assume s: "dict_get (db_jobs db') i = Some s" "is_claimed s"
      and a: "dict_get (db_attempts db') (i, jr_attempt_number s) = Some a"
    show "ar_outcome a = None"
    proof (cases "i = cl_job_id job")
      case True
      then have "s = r'" using s(1) by (simp add: jobs)
      then obtain b where b: "dict_get (db_attempts db) (claim_key job) = Some b" "a = g b"
        using a True sub(2) by (auto simp: atts key)
      then show ?thesis using none [OF b(1)] outcome s(2) \<open>s = r'\<close> by auto
    next
      case False
      then have "dict_get (db_jobs db) i = Some s" using s(1) by (simp add: jobs)
      moreover have "dict_get (db_attempts db) (i, jr_attempt_number s) = Some a"
        using a False by (simp add: atts key)
      ultimately show ?thesis using op s(2) unfolding open_attempts_def by blast
    qed
  qed
qed

lemma transaction_commit:
  "(\<And>db' a. body db = Inr (db', a) \<Longrightarrow> Q db') \<Longrightarrow> Q db \<Longrightarrow> Q (fst (transaction body db))"
  by (auto simp: transaction_def split: sum.split)

lemma start_le:
  assumes inv: "db_inv svc {} db" and op: "open_attempts db"
  shows "db_le db (fst (start svc now job db)) \<and> open_attempts (fst (start svc now job db))"
  unfolding start_def
proof (rule transaction_commit)
  let ?f = "\<lambda>r. r\<lparr>jr_status := ''RUNNING'', jr_updated_at := now, jr_version := jr_version r + 1\<rparr>"
  fix db' a
  assume "bind_result (fenced_update now job ?f db) (\<lambda>(db, r).
     let started_at = jr_updated_at r;
         db = update_attempt (cl_job_id job, cl_attempt_number job)
                (\<lambda>a. a\<lparr>ar_started_at := Some started_at\<rparr>) db
     in bind_result (add_event svc now (job_event job JOB_EXECUTION_STARTED started_at) db)
          (\<lambda>db. Inr (db, ()))) = Inr (db', a)"
  then obtain db1 r e where r: "dict_get (db_jobs db) (cl_job_id job) = Some r" "holds_claim now job r"
    and w: "write_job (?f r) db = Inr db1"
    and e: "add_event svc now e (update_attempt (claim_key job) (\<lambda>a. a\<lparr>ar_started_at := Some now\<rparr>) db1) = Inr db'"
    by (auto simp: bind_result_Inr_iff fenced_update_Inr Let_def claim_key_def)
  have id: "jr_job_id r = cl_job_id job" using inv r(1) by (simp add: db_inv_def jobs_inv_def)
  show "db_le db db' \<and> open_attempts db'"
    by (rule fenced_commit [OF inv op r, where r' = "?f r" and g = "\<lambda>a. a\<lparr>ar_started_at := Some now\<rparr>"])
      (use w e id in \<open>auto simp: write_job_Inr add_event_Inr dict_rules update_attempt_get same_submission_def\<close>)
qed (simp add: op)

lemma heartbeat_le:
  assumes inv: "db_inv svc {} db" and op: "open_attempts db"
  shows "db_le db (fst (heartbeat svc now job db)) \<and> open_attempts (fst (heartbeat svc now job db))"
  unfolding heartbeat_def
proof (rule transaction_commit)
  let ?f = "\<lambda>r. r\<lparr>jr_claim_expires_at := Some (now + seconds (sv_claim_lease_seconds svc)),
                jr_updated_at := now\<rparr>"
  fix db' a
  assume "bind_result (fenced_update now job ?f db)
     (\<lambda>(db, r). Inr (db, case jr_claim_expires_at r of None \<Rightarrow> 0 | Some t \<Rightarrow> t)) = Inr (db', a)"
  then obtain r where r: "dict_get (db_jobs db) (cl_job_id job) = Some r" "holds_claim now job r"
    and w: "write_job (?f r) db = Inr db'"
    by (auto simp: bind_result_Inr_iff fenced_update_Inr)
  have id: "jr_job_id r = cl_job_id job" using inv r(1) by (simp add: db_inv_def jobs_inv_def)
  show "db_le db db' \<and> open_attempts db'"
    by (rule fenced_commit [OF inv op r, where r' = "?f r" and g = "\<lambda>a. a"])
      (use w id in \<open>auto simp: write_job_Inr dict_rules same_submission_def option.map_ident\<close>)
qed (simp add: op)

lemma release_not_claimed [simp]:
  "is_claimed ((release_claim now r)\<lparr>jr_status := ''SUCCEEDED''\<rparr>) = False"
  "is_claimed ((release_claim now r)\<lparr>jr_status := failure_status job b, jr_available_at := a\<rparr>) = False"
  by (simp_all add: is_claimed_def failure_status_def)

lemma release_same [simp]:
  "same_submission r ((release_claim now r)\<lparr>jr_status := s\<rparr>)"
  "same_submission r ((release_claim now r)\<lparr>jr_status := s, jr_available_at := a\<rparr>)"
  by (simp_all add: same_submission_def release_claim_def)

lemma succeed_le:
  assumes inv: "db_inv svc {} db" and op: "open_attempts db"
  shows "db_le db (fst (succeed svc now job summary db)) \<and>
    open_attempts (fst (succeed svc now job summary db))"
  unfolding succeed_def
proof (rule transaction_commit)
  let ?f = "\<lambda>r. (release_claim now r)\<lparr>jr_status := ''SUCCEEDED''\<rparr>"
  let ?g = "\<lambda>completed a. a\<lparr>ar_completed_at := Some completed, ar_outcome := Some ''SUCCEEDED'',
                       ar_result_summary := Some summary\<rparr>"
  fix db' a
  assume "bind_result (fenced_update now job ?f db) (\<lambda>(db, r).
     let completed = jr_updated_at r;
         db = update_attempt (cl_job_id job, cl_attempt_number job) (?g completed) db
     in bind_result (add_event svc now
            ((job_event job JOB_EXECUTION_SUCCEEDED completed)\<lparr>
               ev_result_code := Some ''SUCCESS''\<rparr>) db)
          (\<lambda>db. Inr (db, ()))) = Inr (db', a)"
  then obtain db1 r e t where r: "dict_get (db_jobs db) (cl_job_id job) = Some r" "holds_claim now job r"
    and w: "write_job (?f r) db = Inr db1"
    and e: "add_event svc now e (update_attempt (claim_key job) (?g t) db1) = Inr db'"
    by (auto simp: bind_result_Inr_iff fenced_update_Inr Let_def claim_key_def)
  have id: "jr_job_id r = cl_job_id job" using inv r(1) by (simp add: db_inv_def jobs_inv_def)
  show "db_le db db' \<and> open_attempts db'"
    by (rule fenced_commit [OF inv op r, where r' = "?f r" and g = "?g t"])
      (use w e id in \<open>auto simp: write_job_Inr add_event_Inr dict_rules update_attempt_get\<close>)
qed (simp add: op)

lemma fail_le:
  assumes inv: "db_inv svc {} db" and op: "open_attempts db"
  shows "db_le db (fst (fail svc now now' job code retryable db)) \<and>
    open_attempts (fst (fail svc now now' job code retryable db))"
  unfolding fail_def
proof (rule transaction_commit)
  let ?f = "\<lambda>available r. (release_claim now' r)\<lparr>jr_status := failure_status job retryable,
                                           jr_available_at := available\<rparr>"
  let ?g = "\<lambda>completed available a. a\<lparr>ar_completed_at := Some completed, ar_outcome := Some ''FAILED'',
                          ar_retryable := Some retryable, ar_error_code := Some code,
                          ar_next_retry_at := (if will_retry job retryable then Some available else None)\<rparr>"
  fix db' a
  assume "(let retry = will_retry job retryable;
         available = (if retry then now + sv_retry_delay svc (cl_attempt_number job) else now)
     in bind_result (fenced_update now' job (?f available) db)
          (\<lambda>(db, r).
        let completed = jr_updated_at r;
            db = update_attempt (cl_job_id job, cl_attempt_number job)
                   (\<lambda>a. a\<lparr>ar_completed_at := Some completed, ar_outcome := Some ''FAILED'',
                          ar_retryable := Some retryable, ar_error_code := Some code,
                          ar_next_retry_at := (if retry then Some available else None)\<rparr>) db
        in bind_result (add_events svc now'
               (failure_events job retryable code completed available) db)
             (\<lambda>db. Inr (db, ())))) = Inr (db', a)"
  then obtain db1 r t available where r: "dict_get (db_jobs db) (cl_job_id job) = Some r" "holds_claim now' job r"
    and w: "write_job (?f available r) db = Inr db1"
    and e: "add_events svc now' (failure_events job retryable code t available)
      (update_attempt (claim_key job) (?g t available) db1) = Inr db'"
    by (auto simp: bind_result_Inr_iff fenced_update_Inr Let_def claim_key_def)
  have id: "jr_job_id r = cl_job_id job" using inv r(1) by (simp add: db_inv_def jobs_inv_def)
  show "db_le db db' \<and> open_attempts db'"
    by (rule fenced_commit [OF inv op r, where r' = "?f available r" and g = "?g t available"])
      (use w add_events_frame [OF e] id in \<open>auto simp: write_job_Inr dict_rules update_attempt_get\<close>)
qed (simp add: op)

lemma submit_le:
  assumes op: "open_attempts db"
  shows "db_le db (fst (submit_checked svc faults now v db)) \<and>
    open_attempts (fst (submit_checked svc faults now v db))"
proof -
  have "db_le db db' \<and> open_attempts db'" if none: "dict_get (db_jobs db) (su_job_id v) = None"
    and w: "write_job (new_job_row v now) db = Inr db1" and e: "add_events svc now es db1 = Inr db'"
    for db1 es db'
  proof -
    have jobs: "dict_get (db_jobs db') i =
        (if i = su_job_id v then Some (new_job_row v now) else dict_get (db_jobs db) i)" for i
      using w add_events_frame [OF e] by (simp add: write_job_Inr dict_rules new_job_row_def)
    have rest: "db_attempts db' = db_attempts db" "db_uuids db \<le> db_uuids db'"
      using w add_events_frame [OF e] by (simp_all add: write_job_Inr)
    have "\<not> is_claimed (new_job_row v now)" by (simp add: is_claimed_def new_job_row_def)
    then show ?thesis
      using op none by (auto simp: db_le_def open_attempts_def jobs rest)
  qed
  then show ?thesis using op submit_effect [of svc faults now v db] by (metis db_le_refl)
qed

lemma row_le_recover: "row_ok r \<Longrightarrow> is_claimed r \<Longrightarrow> row_le r (recover_row now r)"
  by (simp add: row_le_def recover_row_def same_submission_def release_claim_def)

lemma recover_not_claimed [simp]: "\<not> is_claimed (recover_row now r)"
  by (simp add: is_claimed_def recover_row_def)

lemma recover_effect:
  assumes inv: "db_inv svc {} db"
  obtains "fst (recover_expired_claims now locked limit db) = db"
    | db' where "fst (recover_expired_claims now locked limit db) = db'"
      "db_uuids db' = db_uuids db" "db_attempts db' = db_attempts db" "db_outbox db' = db_outbox db"
      "\<And>i. dict_get (db_jobs db') i =
         (if i \<in> row_ids (expired now locked limit db)
          then map_option (recover_row now) (dict_get (db_jobs db) i) else dict_get (db_jobs db) i)"
proof (cases "write_rows (map (recover_row now) (expired now locked limit db)) db")
  case (Inl err)
  then show ?thesis
    using that(1) by (simp add: recover_expired_claims_def transaction_def Let_def)
next
  case (Inr db')
  have j: "jobs_inv db" using inv by (simp add: db_inv_def)
  have "fst (recover_expired_claims now locked limit db) = db'"
    using Inr by (simp add: recover_expired_claims_def transaction_def Let_def)
  then show ?thesis
    using that(2) write_recovered_inv [OF inv Inr expired_rows(1) [OF j]] expired_rows(2) [OF j] by blast
qed

lemma expired_claimed:
  assumes "db_inv svc {} db" and "i \<in> row_ids (expired now locked limit db)"
  shows "\<exists>r. dict_get (db_jobs db) i = Some r \<and> is_claimed r \<and> row_ok r"
proof -
  have j: "jobs_inv db" using assms(1) by (simp add: db_inv_def)
  obtain r where r: "r \<in> set (expired now locked limit db)" "i = jr_job_id r"
    using assms(2) by (auto simp: row_ids_def)
  have "dict_get (db_jobs db) i = Some r" "is_claimed r"
    using expired_rows(2) [OF j r(1)] r(2) by simp_all
  then show ?thesis using j by (auto simp: jobs_inv_def)
qed

lemma recover_le:
  assumes inv: "db_inv svc {} db" and op: "open_attempts db"
  shows "db_le db (fst (recover_expired_claims now locked limit db)) \<and>
    open_attempts (fst (recover_expired_claims now locked limit db))"
  using recover_effect [OF inv, of now locked limit]
proof cases
  case 1
  then show ?thesis using op by simp
next
  case (2 db')
  have "row_le r (recover_row now r)" if "i \<in> row_ids (expired now locked limit db)"
    "dict_get (db_jobs db) i = Some r" for i r
    using expired_claimed [OF inv that(1)] that(2) by (auto intro: row_le_recover)
  then have "db_le db db'"
    using 2 by (auto simp: db_le_def)
  moreover have "open_attempts db'"
    using op 2(3) unfolding open_attempts_def 2(5) by (auto split: if_splits)
  ultimately show ?thesis using 2 by simp
qed

lemma claim_key_of: "claim_key (claimed_of r) = (jr_job_id r, jr_attempt_number r)"
  by (simp add: claim_key_def)

lemma claim_due_le:
  assumes inj: "inj (sv_uuid svc)" and inv: "db_inv svc {} db" and op: "open_attempts db"
    and c: "claim_due svc now now' locked owner limit db = (db', Inr claimed)"
  shows "db_le db db' \<and> open_attempts db'"
  using claim_due_effect [OF inj inv c]
proof cases
  case (1 rows)
  have j: "jobs_inv db" using inv by (simp add: db_inv_def)
  have row: "\<exists>r0 t. dict_get (db_jobs db) (jr_job_id r) = Some r0 \<and> is_waiting r0 \<and>
      r = claim_row svc owner t now r0" if r: "r \<in> set rows" for r
  proof -
    obtain k where k: "k < length rows" "rows ! k = r" using r by (auto simp: in_set_conv_nth)
    let ?r0 = "due now locked limit db ! k"
    obtain t where t: "r = claim_row svc owner t now ?r0"
      using 1(4) k by (auto simp: list_all2_conv_all_nth)
    have "?r0 \<in> set (due now locked limit db)"
      using 1(4) k by (auto simp: list_all2_conv_all_nth)
    then have "dict_get (db_jobs db) (jr_job_id ?r0) = Some ?r0" "is_waiting ?r0"
      using due_rows(2) [OF j] by blast+
    then show ?thesis using t by auto
  qed
  have other: "dict_get (db_jobs db') i = dict_get (db_jobs db) i" if "i \<notin> row_ids rows" for i
    using 1(7) that by blast
  have le: "\<exists>r'. dict_get (db_jobs db') i = Some r' \<and> row_le r r'"
    if "dict_get (db_jobs db) i = Some r" for i r
  proof (cases "i \<in> row_ids rows")
    case True
    then obtain r' where r': "r' \<in> set rows" "i = jr_job_id r'" by (auto simp: row_ids_def)
    obtain r0 t where "dict_get (db_jobs db) i = Some r0" "is_waiting r0"
      "r' = claim_row svc owner t now r0"
      using row [OF r'(1)] r'(2) by blast
    then have "is_waiting r" "r' = claim_row svc owner t now r" using that by auto
    then have "row_le r r'" by (simp add: row_le_def same_submission_def claim_row_def)
    then show ?thesis using 1(6) [OF r'(1)] r'(2) by blast
  next
    case False
    then show ?thesis using that other by simp
  qed
  have att: "dict_get (db_attempts db') k = Some a" if "dict_get (db_attempts db) k = Some a" for k a
  proof (cases "k \<in> claim_key ` set claimed")
    case True
    then show ?thesis using 1(10) that by auto
  next
    case False
    then show ?thesis using 1(9) that by simp
  qed
  have "db_le db db'"
    unfolding db_le_def using le att 1(8) attempt_le_refl by blast
  moreover have "open_attempts db'"
    unfolding open_attempts_def
  proof (intro allI impI)
    fix i r a
    assume r: "dict_get (db_jobs db') i = Some r" "is_claimed r"
      and a: "dict_get (db_attempts db') (i, jr_attempt_number r) = Some a"
    show "ar_outcome a = None"
    proof (cases "i \<in> row_ids rows")
      case True
      then obtain r' where r': "r' \<in> set rows" "i = jr_job_id r'" by (auto simp: row_ids_def)
      then have "r' = r" using 1(6) r(1) by auto
      then have "claimed_of r \<in> set claimed" "claim_key (claimed_of r) = (i, jr_attempt_number r)"
        using r' 1(1) by (auto simp: claim_key_of)
      then show ?thesis using 1(10) a by (metis option.inject)
    next
      case False
      then have "(i, n) \<notin> claim_key ` set claimed" for n
        using 1(1) by (auto simp: claim_key_of row_ids_def)
      then have "dict_get (db_attempts db) (i, jr_attempt_number r) = Some a"
        using a 1(9) by simp
      then show ?thesis using op r other [OF False] unfolding open_attempts_def by auto
    qed
  qed
  ultimately show ?thesis by simp
qed

section \<open>The invariant of the system\<close>

definition claim_of_row :: "claimed_job \<Rightarrow> job_row \<Rightarrow> bool" where
  "claim_of_row c r \<longleftrightarrow>
     cl_job_id c = jr_job_id r \<and> cl_correlation_id c = jr_correlation_id r \<and>
     cl_job_type c = jr_job_type r \<and> cl_payload c = jr_payload r \<and>
     cl_payload_reference c = jr_payload_reference r \<and> cl_scheduled_at c = jr_scheduled_at r \<and>
     cl_max_attempts c = jr_max_attempts r \<and> 1 \<le> cl_attempt_number c \<and>
     cl_attempt_number c \<le> jr_attempt_number r"

definition issued_ok :: "service \<Rightarrow> scheduler_db \<Rightarrow> claimed_job \<Rightarrow> bool" where
  "issued_ok svc db c \<longleftrightarrow>
     cl_claim_token c \<in> drawn svc db \<and>
     dict_get (db_attempts db) (claim_key c) \<noteq> None \<and>
     (\<exists>r. dict_get (db_jobs db) (cl_job_id c) = Some r \<and> claim_of_row c r)"

definition sys_inv :: "service \<Rightarrow> scheduler_system \<Rightarrow> bool" where
  "sys_inv svc s \<longleftrightarrow>
     db_inv svc {} (ss_db s) \<and> open_attempts (ss_db s) \<and>
     distinct (map cl_claim_token (ss_issued s)) \<and> distinct (map claim_key (ss_issued s)) \<and>
     (\<forall>c \<in> set (ss_issued s). issued_ok svc (ss_db s) c)"

lemma sys_inv_initial: "sys_inv svc initial_system"
  by (simp add: sys_inv_def initial_system_def db_inv_empty open_attempts_def)
    (simp add: empty_db_def)

lemma drawn_mono: "db_uuids db \<le> db_uuids db' \<Longrightarrow> drawn svc db \<subseteq> drawn svc db'"
  by (auto simp: drawn_def)

lemma claim_of_row_le: "claim_of_row c r \<Longrightarrow> row_le r r' \<Longrightarrow> claim_of_row c r'"
  by (simp add: claim_of_row_def row_le_def same_submission_def)

lemma issued_ok_mono:
  assumes le: "db_le db db'" and ok: "issued_ok svc db c"
  shows "issued_ok svc db' c"
proof -
  obtain r a where r: "dict_get (db_jobs db) (cl_job_id c) = Some r" "claim_of_row c r"
    and a: "dict_get (db_attempts db) (claim_key c) = Some a" and t: "cl_claim_token c \<in> drawn svc db"
    using ok by (auto simp: issued_ok_def)
  obtain r' a' where "dict_get (db_jobs db') (cl_job_id c) = Some r'" "row_le r r'"
    "dict_get (db_attempts db') (claim_key c) = Some a'" "db_uuids db \<le> db_uuids db'"
    using le r(1) a unfolding db_le_def by blast
  then show ?thesis
    using r(2) t claim_of_row_le drawn_mono [of db db' svc] by (auto simp: issued_ok_def)
qed

lemma issued_knows_limit: "issued_ok svc db c \<Longrightarrow> knows_limit db c"
  by (auto simp: issued_ok_def knows_limit_def claim_of_row_def)

definition sys_le :: "scheduler_system \<Rightarrow> scheduler_system \<Rightarrow> bool" where
  "sys_le s s' \<longleftrightarrow> db_le (ss_db s) (ss_db s') \<and> prefix (ss_issued s) (ss_issued s')"

text \<open>One step whose database moves up and whose claims stay.\<close>

lemma sys_step_db:
  assumes "sys_inv svc s" and "db_inv svc {} db'" and "db_le (ss_db s) db' \<and> open_attempts db'"
  shows "sys_inv svc (s\<lparr>ss_db := db'\<rparr>) \<and> sys_le s (s\<lparr>ss_db := db'\<rparr>)"
  using assms issued_ok_mono by (auto simp: sys_inv_def sys_le_def)

lemma sys_step_issued:
  assumes s: "sys_inv svc s"
    and inv: "\<And>job. job \<in> set (ss_issued s) \<Longrightarrow> db_inv svc {} (f job (ss_db s))"
    and le: "\<And>job. db_le (ss_db s) (f job (ss_db s)) \<and> open_attempts (f job (ss_db s))"
  shows "sys_inv svc (on_issued s k f) \<and> sys_le s (on_issued s k f)"
  using s sys_step_db [OF s inv le] by (auto simp: on_issued_def sys_le_def)

lemma claimed_tokens:
  "list_all2 (\<lambda>r c. \<exists>t. t \<notin> D \<and> c = claim_row svc owner t now r) rs rows \<Longrightarrow>
   c \<in> set rows \<Longrightarrow> \<exists>t. t \<notin> D \<and> jr_claim_token c = Some t"
  by (induction rule: list_all2_induct) auto

lemma claim_sys_inv:
  assumes inj: "inj (sv_uuid svc)" and s: "sys_inv svc s"
    and c: "claim_due svc now now' locked owner limit (ss_db s) = (db', Inr claimed)"
  shows "sys_inv svc (s\<lparr>ss_db := db', ss_issued := ss_issued s @ claimed\<rparr>) \<and>
    sys_le s (s\<lparr>ss_db := db', ss_issued := ss_issued s @ claimed\<rparr>)"
proof -
  have inv: "db_inv svc {} (ss_db s)" and op: "open_attempts (ss_db s)"
    using s by (simp_all add: sys_inv_def)
  note le = claim_due_le [OF inj inv op c]
  show ?thesis
    using claim_due_effect [OF inj inv c]
  proof cases
    case (1 rows)
    have tok: "cl_claim_token (claimed_of r) \<notin> drawn svc (ss_db s) \<and>
        jr_claim_token r = Some (cl_claim_token (claimed_of r))" if "r \<in> set rows" for r
      using claimed_tokens [OF 1(4) that] by (auto simp: claimed_of_def)
    have toks: "map Some (map cl_claim_token claimed) = map jr_claim_token rows"
      using tok by (simp add: 1(1))
    then have "distinct (map cl_claim_token claimed)"
      using 1(5) by (metis distinct_map)
    moreover have "set (map cl_claim_token (ss_issued s)) \<inter> set (map cl_claim_token claimed) = {}"
      using s tok by (auto simp: sys_inv_def issued_ok_def 1(1))
    moreover have "distinct (map claim_key claimed)"
    proof -
      have "map fst (map claim_key claimed) = map jr_job_id rows"
        by (simp add: 1(1) claim_key_of)
      moreover have "distinct (map jr_job_id rows)"
        unfolding 1(3) using inv by (intro due_rows(1)) (simp add: db_inv_def)
      ultimately show ?thesis by (metis distinct_map)
    qed
    moreover have "claim_key c \<noteq> claim_key d" if "c \<in> set (ss_issued s)" "d \<in> set claimed" for c d
      using that s 1(10) by (auto simp: sys_inv_def issued_ok_def)
    moreover have "issued_ok svc db' c" if c_in: "c \<in> set claimed" for c
    proof -
      obtain r where r: "r \<in> set rows" "c = claimed_of r" using c_in 1(1) by auto
      have get: "dict_get (db_jobs db') (jr_job_id r) = Some r" by (rule 1(6) [OF r(1)])
      then have "row_ok r" "jr_claim_token r \<noteq> None"
        using 1(2) tok [OF r(1)] by (simp_all add: db_inv_def jobs_inv_def)
      then have "1 \<le> jr_attempt_number r"
        by (auto simp: row_ok_def job_row_check_def is_claimed_def)
      moreover have "cl_claim_token c \<in> drawn svc db'"
        using 1(2) get tok [OF r(1)] r(2) unfolding db_inv_def tokens_inv_def by blast
      moreover have "dict_get (db_attempts db') (claim_key c) \<noteq> None"
        using 1(10) [OF c_in] by auto
      ultimately show ?thesis
        using get r(2) by (auto simp: issued_ok_def claim_of_row_def claimed_of_def)
    qed
    moreover have "issued_ok svc db' c" if "c \<in> set (ss_issued s)" for c
      using that s le issued_ok_mono by (auto simp: sys_inv_def)
    ultimately show ?thesis
      using s le 1(2) by (fastforce simp: sys_inv_def sys_le_def)
  qed
qed

lemma sched_step_inv:
  assumes inj: "inj (sv_uuid svc)" and s: "sys_inv svc s"
  shows "sys_inv svc (sched_step svc s op) \<and> sys_le s (sched_step svc s op)"
proof -
  have inv: "db_inv svc {} (ss_db s)" and opn: "open_attempts (ss_db s)"
    and issued: "\<And>c. c \<in> set (ss_issued s) \<Longrightarrow> knows_limit (ss_db s) c"
    using s issued_knows_limit by (auto simp: sys_inv_def)
  show ?thesis
  proof (cases op)
    case (OpSubmit faults now v)
    show ?thesis
    proof (cases "submission_post_init v")
      case (Inl err)
      then show ?thesis using s OpSubmit by (simp add: sys_le_def)
    next
      case (Inr v')
      then have "v' = v" by (auto simp: submission_post_init_def split: if_splits)
      then have "valid_submission v'" using Inr by (simp add: valid_submission_def)
      then show ?thesis
        using sys_step_db [OF s submit_inv [OF inv] submit_le [OF opn]] Inr OpSubmit
        by simp
    qed
  next
    case (OpClaim now now' locked owner limit)
    show ?thesis
    proof (cases "claim_due svc now now' locked owner limit (ss_db s)")
      case (Pair db' res)
      show ?thesis
      proof (cases res)
        case (Inl err)
        then have "db' = ss_db s"
          using Pair by (auto simp: claim_due_def transaction_def split: if_splits sum.splits)
        then show ?thesis using s Pair Inl OpClaim by (simp add: sys_le_def)
      next
        case (Inr claimed)
        then show ?thesis using claim_sys_inv [OF inj s] Pair OpClaim by simp
      qed
    qed
  next
    case (OpFail now now' k code retryable)
    then show ?thesis
      using sys_step_issued [OF s, of "\<lambda>job db. fst (fail svc now now' job code retryable db)" k]
        fail_inv [OF inv issued] fail_le [OF inv opn] by simp
  next
    case (OpStart now k)
    then show ?thesis
      using sys_step_issued [OF s, of "\<lambda>job db. fst (start svc now job db)" k]
        start_inv [OF inv] start_le [OF inv opn] by simp
  next
    case (OpHeartbeat now k)
    then show ?thesis
      using sys_step_issued [OF s, of "\<lambda>job db. fst (heartbeat svc now job db)" k]
        heartbeat_inv [OF inv] heartbeat_le [OF inv opn] by simp
  next
    case (OpSucceed now k summary)
    then show ?thesis
      using sys_step_issued [OF s, of "\<lambda>job db. fst (succeed svc now job summary db)" k]
        succeed_inv [OF inv] succeed_le [OF inv opn] by simp
  next
    case (OpRecover now locked limit)
    then show ?thesis
      using sys_step_db [OF s recover_inv [OF inv] recover_le [OF inv opn]] by simp
  qed
qed

lemma sys_le_refl: "sys_le s s"
  by (simp add: sys_le_def)

lemma sys_le_trans: "sys_le s t \<Longrightarrow> sys_le t u \<Longrightarrow> sys_le s u"
  unfolding sys_le_def using db_le_trans prefix_order.order_trans by blast

interpretation sched_runs: monotone_machine "sched_step svc" "\<lambda>op. True"
    "\<lambda>s. inj (sv_uuid svc) \<and> sys_inv svc s" sys_le for svc
  by unfold_locales (auto simp: sys_le_refl sched_step_inv intro: sys_le_trans)

lemma run_scheduler_inv:
  assumes "inj (sv_uuid svc)"
  shows "sys_inv svc (run_scheduler svc ops)"
  using sched_runs.run_inv [of svc initial_system ops] assms sys_inv_initial
  by (simp add: run_scheduler_def list_all_iff)

lemma run_scheduler_le:
  assumes "inj (sv_uuid svc)"
  shows "sys_le (run_scheduler svc ops) (run_scheduler svc (ops @ later))"
  using sched_runs.run_le [of svc "run_scheduler svc ops" later] assms run_scheduler_inv [OF assms]
  by (simp add: run_scheduler_def list_all_iff)

section \<open>Properties\<close>

text \<open>A concrete service, for the examples: the retry delay is the default, UUIDs are numerals.\<close>

definition example_service :: service where
  "example_service =
     \<lparr>sv_topic = ''job-lifecycle-edr.v1'', sv_claim_lease_seconds = 60,
      sv_retry_delay = default_retry_delay, sv_sha256 = (\<lambda>s. []),
      sv_uuid = (\<lambda>n. replicate n (CHR ''u''))\<rparr>"

definition example_submission :: submission where
  "example_submission =
     \<lparr>su_job_id = ''job-1'', su_correlation_id = ''corr-1'', su_job_type = ''PRINT'',
      su_scheduled_at = 0, su_payload = Some (JObj []), su_payload_reference = None,
      su_max_attempts = 2\<rparr>"

lemma example_uuids: "inj (sv_uuid example_service)"
  by (rule injI) (metis example_service_def length_replicate service.select_convs(5))

lemma submit_commits:
  assumes inj: "inj (sv_uuid svc)" and inv: "db_inv svc {} db" and v: "valid_submission v"
    and none: "dict_get (db_jobs db) (su_job_id v) = None"
  shows "\<exists>db'. submit_checked svc (\<lambda>c. None) now v db = (db', Inr SD_CREATED) \<and>
    db_jobs db' = dict_put (su_job_id v) (new_job_row v now) (db_jobs db)"
proof -
  have ok: "row_ok (new_job_row v now)" by (rule row_ok_new [OF v])
  then obtain db1 where w: "write_job (new_job_row v now) db = Inr db1"
    by (simp add: write_job_def row_ok_def)
  have "db_inv svc {} db1"
    by (rule write_job_inv [OF inv w ok]) (simp_all add: new_job_row_def none)
  then obtain db2 where e: "add_events svc now [submission_event v now JOB_CREATED,
      submission_event v now JOB_SCHEDULER_SUBMISSION_REQUESTED] db1 = Inr db2"
    using add_events_total [OF inj, of "{}" db1 "[submission_event v now JOB_CREATED,
      submission_event v now JOB_SCHEDULER_SUBMISSION_REQUESTED]" now] valid_submission_event [OF v]
    by auto
  have "db_jobs db2 = dict_put (su_job_id v) (new_job_row v now) (db_jobs db)"
    using w add_events_frame [OF e] by (simp add: write_job_Inr new_job_row_def)
  then show ?thesis
    using none w e by (simp add: submit_checked_def transaction_def inject_def del: add_events.simps)
qed

text \<open>The example job, with any limit of attempts, after its submission and a first claim.\<close>

abbreviation submit_and_claim :: "int \<Rightarrow> sched_op list" where
  "submit_and_claim m \<equiv>
     [OpSubmit (\<lambda>c. None) 0 (example_submission\<lparr>su_max_attempts := m\<rparr>), OpClaim 5 6 {} ''w1'' 10]"

lemma first_claim:
  assumes "1 \<le> m"
  shows "\<exists>c r. ss_issued (run_scheduler example_service (submit_and_claim m)) = [c] \<and> cl_job_id c = ''job-1'' \<and>
     dict_get (db_jobs (ss_db (run_scheduler example_service (submit_and_claim m)))) ''job-1'' = Some r \<and>
     claim_of_row c r \<and> jr_scheduled_at r = 0 \<and> (\<forall>t \<le> 60000005. holds_claim t c r) \<and>
     cl_attempt_number c = 1 \<and> cl_max_attempts c = m"
proof -
  let ?v = "example_submission\<lparr>su_max_attempts := m\<rparr>"
  let ?row = "new_job_row ?v 0"
  have v: "submission_post_init ?v = Inr ?v"
    using assms by (simp add: submission_post_init_def example_submission_def)
  then have valid: "valid_submission ?v" by (simp add: valid_submission_def)
  then obtain db1 where sub: "submit_checked example_service (\<lambda>c. None) 0 ?v empty_db =
      (db1, Inr SD_CREATED)" and jobs1: "db_jobs db1 = [(''job-1'', ?row)]"
    using submit_commits [OF example_uuids db_inv_empty, of ?v 0]
    by (auto simp: empty_db_def example_submission_def)
  have inv1: "db_inv example_service {} db1"
    using submit_inv [OF db_inv_empty valid, of example_service "\<lambda>c. None" 0] sub by simp
  have due1: "due 5 {} 10 db1 = [?row]"
    using assms by (simp add: due_def jobs1 new_job_row_def example_submission_def)
  obtain db2 claimed where claim: "claim_due example_service 5 6 {} ''w1'' 10 db1 = (db2, Inr claimed)"
    using claim_due_total [OF example_uuids inv1] by blast
  have run: "run_scheduler example_service (submit_and_claim m) = \<lparr>ss_db = db2, ss_issued = claimed\<rparr>"
    using v sub claim by (simp add: run_scheduler_def initial_system_def)
  show ?thesis
    using claim_due_effect [OF example_uuids inv1 claim]
  proof cases
    case (1 rows)
    then obtain t where rows: "rows = [claim_row example_service ''w1'' t 5 ?row]"
      by (auto simp: due1 list_all2_Cons1)
    then have "dict_get (db_jobs db2) ''job-1'' = Some (claim_row example_service ''w1'' t 5 ?row)"
      using 1(6) by (simp add: new_job_row_def example_submission_def)
    then show ?thesis
      unfolding run using 1(1) rows
      by (auto simp: claim_of_row_def claimed_of_def claim_row_def new_job_row_def
          example_submission_def example_service_def holds_claim_def)
  qed
qed

abbreviation example_ops :: "sched_op list" where
  "example_ops \<equiv> [OpSubmit (\<lambda>c. None) 0 example_submission, OpClaim 5 6 {} ''w1'' 10]"

lemma example_claim:
  "\<exists>c r. ss_issued (run_scheduler example_service example_ops) = [c] \<and> cl_job_id c = ''job-1'' \<and>
     dict_get (db_jobs (ss_db (run_scheduler example_service example_ops))) ''job-1'' = Some r \<and>
     claim_of_row c r \<and> jr_scheduled_at r = 0 \<and> (\<forall>t \<le> 60000005. holds_claim t c r) \<and>
     cl_attempt_number c = 1 \<and> cl_max_attempts c = 2"
proof -
  have "example_submission\<lparr>su_max_attempts := 2\<rparr> = example_submission" by (simp add: example_submission_def)
  then show ?thesis using first_claim [of 2] by simp
qed

text \<open>
  C12. However submissions, claims, starts, heartbeats, successes, failures and recoveries of any
  number of workers interleave, the tables stay consistent: every row satisfies its constraints and
  the state rules (a claim token exactly while claimed or running, no more attempts than allowed, a
  waiting row always has an attempt left), the attempt rows of a job are exactly its claims, a token
  belongs to one row, and the attempt of a running claim has no outcome.
\<close>

theorem scheduler_tables_stay_consistent:
  assumes "inj (sv_uuid svc)"
  shows "db_inv svc {} (ss_db (run_scheduler svc ops)) \<and> open_attempts (ss_db (run_scheduler svc ops))"
  using run_scheduler_inv [OF assms, of ops] by (simp add: sys_inv_def)

theorem scheduler_tables_stay_consistent_witness:
  "db_inv example_service {} (ss_db (run_scheduler example_service
     [OpSubmit (\<lambda>c. None) 0 example_submission, OpClaim 5 6 {} ''w1'' 10, OpStart 7 0,
      OpFail 8 9 0 ''E'' True]))"
  using scheduler_tables_stay_consistent [OF example_uuids] by blast

text \<open>
  C13. At most one claim works on a job: of all claims ever handed out, two that both pass the fence
  of a job's row, at whatever times, are the same claim. A worker whose lease was taken over can
  therefore neither start nor complete the job.
\<close>

theorem one_claim_passes_the_fence:
  assumes "inj (sv_uuid svc)"
    and "c \<in> set (ss_issued (run_scheduler svc ops))" and "d \<in> set (ss_issued (run_scheduler svc ops))"
    and "holds_claim now c r" and "holds_claim now' d r"
  shows "c = d"
proof -
  have "cl_claim_token c = cl_claim_token d" using assms(4,5) by (simp add: holds_claim_def)
  then show ?thesis
    using run_scheduler_inv [OF assms(1), of ops] assms(2,3)
    by (auto simp: sys_inv_def distinct_map dest: inj_onD)
qed

theorem one_claim_passes_the_fence_witness:
  "\<exists>c r. c \<in> set (ss_issued (run_scheduler example_service example_ops)) \<and> holds_claim 7 c r \<and>
     {d \<in> set (ss_issued (run_scheduler example_service example_ops)). holds_claim 9 d r} \<subseteq> {c}"
proof -
  obtain c r where "ss_issued (run_scheduler example_service example_ops) = [c]"
    "\<forall>t \<le> 60000005. holds_claim t c r"
    using example_claim by blast
  then have "c \<in> set (ss_issued (run_scheduler example_service example_ops))" "holds_claim 7 c r"
    by simp_all
  then show ?thesis
    using one_claim_passes_the_fence [OF example_uuids, of _ example_ops] by blast
qed

text \<open>
  C14. Results are final: whatever happens later, a finished job row (succeeded, failed or exhausted)
  never changes again, a recorded attempt outcome is never overwritten, no row disappears, the
  submitted data stays and attempt numbers never decrease.
\<close>

theorem results_are_final:
  assumes "inj (sv_uuid svc)"
  shows "db_le (ss_db (run_scheduler svc ops)) (ss_db (run_scheduler svc (ops @ later)))"
  using run_scheduler_le [OF assms, of ops later] by (simp add: sys_le_def)

theorem results_are_final_witness:
  "db_le (ss_db (run_scheduler example_service
      [OpSubmit (\<lambda>c. None) 0 example_submission, OpClaim 5 6 {} ''w1'' 10]))
    (ss_db (run_scheduler example_service
      [OpSubmit (\<lambda>c. None) 0 example_submission, OpClaim 5 6 {} ''w1'' 10, OpStart 7 0,
       OpSucceed 8 0 (JObj [])]))"
  using results_are_final [OF example_uuids,
      of "[OpSubmit (\<lambda>c. None) 0 example_submission, OpClaim 5 6 {} ''w1'' 10]"
         "[OpStart 7 0, OpSucceed 8 0 (JObj [])]"]
  by simp

text \<open>
  C15. A job is handed out at most as often as its attempt limit allows, over all workers, retries
  and recoveries, and every hand-out has its own attempt number.
\<close>

theorem claims_are_bounded:
  assumes "inj (sv_uuid svc)"
    and "dict_get (db_jobs (ss_db (run_scheduler svc ops))) i = Some r"
  shows "int (length (filter (\<lambda>c. cl_job_id c = i) (ss_issued (run_scheduler svc ops)))) \<le> jr_max_attempts r \<and>
    distinct (map cl_attempt_number (filter (\<lambda>c. cl_job_id c = i) (ss_issued (run_scheduler svc ops))))"
proof -
  let ?s = "run_scheduler svc ops"
  let ?cs = "filter (\<lambda>c. cl_job_id c = i) (ss_issued ?s)"
  have s: "sys_inv svc ?s" by (rule run_scheduler_inv [OF assms(1)])
  have "inj_on claim_key (set (ss_issued ?s))" and d: "distinct (ss_issued ?s)"
    using s by (simp_all add: sys_inv_def distinct_map)
  then have "inj_on cl_attempt_number (set ?cs)"
    by (auto simp: inj_on_def claim_key_def)
  then have dist: "distinct (map cl_attempt_number ?cs)"
    using d by (simp add: distinct_map)
  have "row_ok r" using s assms(2) by (simp add: sys_inv_def db_inv_def jobs_inv_def)
  then have max: "jr_attempt_number r \<le> jr_max_attempts r" "0 \<le> jr_max_attempts r"
    by (simp_all add: row_ok_def job_row_check_def)
  have "n \<in> {1..jr_max_attempts r}" if n: "n \<in> set (map cl_attempt_number ?cs)" for n
  proof -
    obtain c where c: "c \<in> set (ss_issued ?s)" "cl_job_id c = i" "n = cl_attempt_number c"
      using n by auto
    then have "issued_ok svc (ss_db ?s) c" using s by (simp add: sys_inv_def)
    then show ?thesis using c assms(2) max by (auto simp: issued_ok_def claim_of_row_def)
  qed
  then have "card (set (map cl_attempt_number ?cs)) \<le> card {1..jr_max_attempts r}"
    by (intro card_mono) auto
  then have "length ?cs \<le> nat (jr_max_attempts r)"
    using distinct_card [OF dist] by simp
  then show ?thesis using dist max(2) by linarith
qed

theorem claims_are_bounded_witness:
  "\<exists>r. dict_get (db_jobs (ss_db (run_scheduler example_service example_ops))) ''job-1'' = Some r \<and>
     int (length (filter (\<lambda>c. cl_job_id c = ''job-1'')
       (ss_issued (run_scheduler example_service example_ops)))) \<le> jr_max_attempts r"
proof -
  obtain r where "dict_get (db_jobs (ss_db (run_scheduler example_service example_ops))) ''job-1'' = Some r"
    using example_claim by blast
  then show ?thesis using claims_are_bounded [OF example_uuids] by blast
qed



end
