(* ===== verification/Scheduler_Completion.thy ===== *)
theory Scheduler_Completion
  imports Scheduler_System
begin

text \<open>
  How an attempt ends: success and failure write the job row, the attempt row and the outbox in one
  fenced transaction, and a stale claim changes nothing.
\<close>

section \<open>Completion\<close>

lemma release_check:
  "row_ok r \<Longrightarrow> jr_scheduled_at r \<le> a \<Longrightarrow>
   job_row_check ((release_claim now r)\<lparr>jr_status := s, jr_available_at := a\<rparr>)"
  by (simp add: row_ok_def job_row_check_def release_claim_def)

lemma release_check_same:
  "row_ok r \<Longrightarrow> job_row_check ((release_claim now r)\<lparr>jr_status := s\<rparr>)"
  by (simp add: row_ok_def job_row_check_def release_claim_def)

text \<open>What the completing transaction writes: the row, the attempt and the events.\<close>

definition completed_db ::
  "service \<Rightarrow> time \<Rightarrow> claimed_job \<Rightarrow> job_row \<Rightarrow> (attempt_row \<Rightarrow> attempt_row) \<Rightarrow> event list \<Rightarrow>
   scheduler_db \<Rightarrow> scheduler_db" where
  "completed_db svc now job r f es db =
     (update_attempt (claim_key job) f
        (db\<lparr>db_jobs := dict_put (cl_job_id job) r (db_jobs db)\<rparr>))\<lparr>
        db_uuids := db_uuids db + length es,
        db_outbox := db_outbox db @ map (outbox_entry svc now) (stamp_from svc (db_uuids db) es)\<rparr>"

text \<open>
  A fenced completion in general: either the claim is stale and nothing changes, or all three
  tables change together.
\<close>

lemma fenced_completion:
  assumes inj: "inj (sv_uuid svc)" and inv: "db_inv svc {} db"
    and events: "\<And>r. dict_get (db_jobs db) (cl_job_id job) = Some r \<Longrightarrow> holds_claim now job r \<Longrightarrow>
      list_all valid_event (es (assign r))"
    and ok: "\<And>r. dict_get (db_jobs db) (cl_job_id job) = Some r \<Longrightarrow> row_ok r \<Longrightarrow> holds_claim now job r \<Longrightarrow>
      job_row_check (assign r) \<and> jr_job_id (assign r) = jr_job_id r \<and>
      row_ok (assign r) \<and> jr_attempt_number (assign r) = jr_attempt_number r \<and>
      (jr_claim_token (assign r) = None \<or> jr_claim_token (assign r) = jr_claim_token r)"
  shows "transaction (\<lambda>db.
      bind_result (fenced_update now job assign db) (\<lambda>(db, r).
      bind_result (add_events svc now (es r) (update_attempt (claim_key job) (f r) db))
        (\<lambda>db. Inr (db, ())))) db =
    (case dict_get (db_jobs db) (cl_job_id job) of
       Some r \<Rightarrow>
         if holds_claim now job r
         then (completed_db svc now job (assign r) (f (assign r)) (es (assign r)) db, Inr ())
         else (db, Inl (StaleClaimError (cl_job_id job)))
     | None \<Rightarrow> (db, Inl (StaleClaimError (cl_job_id job))))"
proof (cases "dict_get (db_jobs db) (cl_job_id job)")
  case None
  then show ?thesis by (simp add: transaction_def fenced_update_def)
next
  case (Some r)
  show ?thesis
  proof (cases "holds_claim now job r")
    case False
    then show ?thesis using Some by (simp add: transaction_def fenced_update_def)
  next
    case True
    have "row_ok r" and id: "jr_job_id r = cl_job_id job"
      using inv Some by (simp_all add: db_inv_def jobs_inv_def)
    note r' = ok [OF Some this(1) True]
    let ?db1 = "db\<lparr>db_jobs := dict_put (cl_job_id job) (assign r) (db_jobs db)\<rparr>"
    have w: "write_job (assign r) db = Inr ?db1" using r' id by (simp add: write_job_Inr)
    then have fu: "fenced_update now job assign db = Inr (?db1, assign r)"
      using Some True by (simp add: fenced_update_def)
    have "db_inv svc {} ?db1"
      by (rule fenced_update_inv [OF inv fu]) (use ok in blast)
    then have "db_inv svc {} (update_attempt (claim_key job) (f (assign r)) ?db1)"
      by (rule update_attempt_inv)
    then obtain db2 where e: "add_events svc now (es (assign r))
        (update_attempt (claim_key job) (f (assign r)) ?db1) = Inr db2"
      using add_events_total [OF inj] events [OF Some True] by blast
    then have "db2 = completed_db svc now job (assign r) (f (assign r)) (es (assign r)) db"
      using add_events_outbox [OF e] by (simp add: completed_db_def)
    then show ?thesis using Some True fu e by (simp add: transaction_def)
  qed
qed

lemma issued_row:
  assumes "inj (sv_uuid svc)" and "c \<in> set (ss_issued (run_scheduler svc ops))"
  obtains r where "dict_get (db_jobs (ss_db (run_scheduler svc ops))) (cl_job_id c) = Some r"
    "claim_of_row c r" "row_ok r" "db_inv svc {} (ss_db (run_scheduler svc ops))"
proof -
  have s: "sys_inv svc (run_scheduler svc ops)" by (rule run_scheduler_inv [OF assms(1)])
  then obtain r where r: "dict_get (db_jobs (ss_db (run_scheduler svc ops))) (cl_job_id c) = Some r"
    "claim_of_row c r"
    using assms(2) by (auto simp: sys_inv_def issued_ok_def)
  moreover have "row_ok r" "db_inv svc {} (ss_db (run_scheduler svc ops))"
    using s r(1) by (simp_all add: sys_inv_def db_inv_def jobs_inv_def)
  ultimately show thesis using that by blast
qed

lemma claim_of_row_bounds:
  "claim_of_row c r \<Longrightarrow> row_ok r \<Longrightarrow> 1 \<le> cl_attempt_number c \<and> 1 \<le> cl_max_attempts c"
  by (auto simp: claim_of_row_def row_ok_def job_row_check_def)

lemma held_is_claimed: "row_ok r \<Longrightarrow> holds_claim now c r \<Longrightarrow> is_claimed r"
  by (auto simp: row_ok_def holds_claim_def)

definition success_row :: "time \<Rightarrow> job_row \<Rightarrow> job_row" where
  "success_row now r = (release_claim now r)\<lparr>jr_status := ''SUCCEEDED''\<rparr>"

lemma success_row_ok: "row_ok r \<Longrightarrow> is_claimed r \<Longrightarrow> row_ok (success_row now r)"
  using row_ok_release [where s = "''SUCCEEDED''" and r = r and a = "jr_available_at r"] release_check_same [of r]
  by (simp add: success_row_def)

definition success_attempt :: "time \<Rightarrow> json \<Rightarrow> attempt_row \<Rightarrow> attempt_row" where
  "success_attempt now summary a =
     a\<lparr>ar_completed_at := Some now, ar_outcome := Some ''SUCCEEDED'',
       ar_result_summary := Some summary\<rparr>"

definition success_event :: "claimed_job \<Rightarrow> time \<Rightarrow> event" where
  "success_event c now =
     (job_event c JOB_EXECUTION_SUCCEEDED now)\<lparr>ev_result_code := Some ''SUCCESS''\<rparr>"

lemma succeed_alt:
  "succeed svc now c summary = transaction (\<lambda>db.
      bind_result (fenced_update now c (success_row now) db) (\<lambda>(db, r).
      bind_result (add_events svc now [success_event c (jr_updated_at r)]
        (update_attempt (claim_key c) (success_attempt (jr_updated_at r) summary) db))
        (\<lambda>db. Inr (db, ()))))"
proof -
  have bind: "bind_result (add_events svc now [e] db) k = bind_result (add_event svc now e db) k" for e db
    and k :: "scheduler_db \<Rightarrow> (scheduler_db \<times> unit) result"
    by (cases "add_event svc now e db") simp_all
  show ?thesis
    unfolding succeed_def success_row_def success_attempt_def success_event_def Let_def claim_key_def bind ..
qed

lemma failure_events_valid:
  "1 \<le> cl_attempt_number c \<Longrightarrow> 1 \<le> cl_max_attempts c \<Longrightarrow>
   list_all valid_event (failure_events c b code t a)"
  by (simp add: failure_events_def valid_event_def job_event_def)

definition failure_row :: "time \<Rightarrow> claimed_job \<Rightarrow> bool \<Rightarrow> time \<Rightarrow> job_row \<Rightarrow> job_row" where
  "failure_row now c retryable available r =
     (release_claim now r)\<lparr>jr_status := failure_status c retryable, jr_available_at := available\<rparr>"

definition failure_attempt ::
  "time \<Rightarrow> claimed_job \<Rightarrow> string \<Rightarrow> bool \<Rightarrow> time \<Rightarrow> attempt_row \<Rightarrow> attempt_row" where
  "failure_attempt now c code retryable available a =
     a\<lparr>ar_completed_at := Some now, ar_outcome := Some ''FAILED'',
       ar_retryable := Some retryable, ar_error_code := Some code,
       ar_next_retry_at := (if will_retry c retryable then Some available else None)\<rparr>"

definition retry_at :: "service \<Rightarrow> time \<Rightarrow> claimed_job \<Rightarrow> bool \<Rightarrow> time" where
  "retry_at svc now c retryable =
     (if will_retry c retryable then now + sv_retry_delay svc (cl_attempt_number c) else now)"

lemma fail_alt:
  "fail svc now now' c code retryable = transaction (\<lambda>db.
      bind_result (fenced_update now' c (failure_row now' c retryable (retry_at svc now c retryable)) db)
        (\<lambda>(db, r).
      bind_result (add_events svc now'
          (failure_events c retryable code (jr_updated_at r) (retry_at svc now c retryable))
          (update_attempt (claim_key c)
             (failure_attempt (jr_updated_at r) c code retryable (retry_at svc now c retryable)) db))
        (\<lambda>db. Inr (db, ()))))"
  unfolding fail_def failure_row_def failure_attempt_def retry_at_def Let_def claim_key_def ..

lemma success_is_fenced_aux:
  assumes "inj (sv_uuid svc)" and "c \<in> set (ss_issued (run_scheduler svc ops))"
  shows "let db = ss_db (run_scheduler svc ops) in
    \<exists>r. dict_get (db_jobs db) (cl_job_id c) = Some r \<and>
      succeed svc now c summary db =
        (if holds_claim now c r
         then (completed_db svc now c (success_row now r) (success_attempt now summary)
                 [success_event c now] db, Inr ())
         else (db, Inl (StaleClaimError (cl_job_id c))))"
proof -
  let ?db = "ss_db (run_scheduler svc ops)"
  obtain r where r: "dict_get (db_jobs ?db) (cl_job_id c) = Some r" "claim_of_row c r" "row_ok r"
    and inv: "db_inv svc {} ?db"
    by (rule issued_row [OF assms])
  note bounds = claim_of_row_bounds [OF r(2,3)]
  have events: "list_all valid_event [success_event c t]" for t
    using bounds by (simp add: success_event_def valid_event_def job_event_def)
  have row: "job_row_check (success_row now q) \<and> jr_job_id (success_row now q) = jr_job_id q \<and>
      row_ok (success_row now q) \<and> jr_attempt_number (success_row now q) = jr_attempt_number q \<and>
      (jr_claim_token (success_row now q) = None \<or> jr_claim_token (success_row now q) = jr_claim_token q)"
    if "row_ok q" "holds_claim now c q" for q
    using success_row_ok [OF that(1) held_is_claimed [OF that]] release_check_same [OF that(1)]
    by (simp add: success_row_def)
  have at: "jr_updated_at (success_row now r) = now" by (simp add: success_row_def release_claim_def)
  have "succeed svc now c summary ?db =
      (if holds_claim now c r
       then (completed_db svc now c (success_row now r) (success_attempt now summary)
               [success_event c now] ?db, Inr ())
       else (?db, Inl (StaleClaimError (cl_job_id c))))"
    unfolding succeed_alt
    by (subst fenced_completion [OF assms(1) inv events row]) (simp_all add: r(1) at)
  then show ?thesis using r(1) by (auto simp: Let_def)
qed

text \<open>
  C17. Success is fenced and atomic: a worker that still holds its claim records the result on the
  job row, on the attempt row and as exactly one new EDR in the outbox, all in one transaction; a
  worker whose claim is gone changes nothing and gets \<open>StaleClaimError\<close>.
\<close>

theorem success_is_fenced:
  assumes "inj (sv_uuid svc)" and "c \<in> set (ss_issued (run_scheduler svc ops))"
  shows "let db = ss_db (run_scheduler svc ops) in
    \<exists>r. dict_get (db_jobs db) (cl_job_id c) = Some r \<and>
      succeed svc now c summary db =
        (if holds_claim now c r
         then (completed_db svc now c (success_row now r) (success_attempt now summary)
                 [success_event c now] db, Inr ())
         else (db, Inl (StaleClaimError (cl_job_id c))))"
  by (rule success_is_fenced_aux [OF assms])

theorem success_is_fenced_witness:
  "\<exists>c r. c \<in> set (ss_issued (run_scheduler example_service example_ops)) \<and>
     succeed example_service 7 c (JObj []) (ss_db (run_scheduler example_service example_ops)) =
       (completed_db example_service 7 c (success_row 7 r) (success_attempt 7 (JObj []))
          [success_event c 7] (ss_db (run_scheduler example_service example_ops)), Inr ())"
proof -
  obtain c r where c: "ss_issued (run_scheduler example_service example_ops) = [c]"
    "cl_job_id c = ''job-1''" and
    r: "dict_get (db_jobs (ss_db (run_scheduler example_service example_ops))) ''job-1'' = Some r"
    "\<forall>t \<le> 60000005. holds_claim t c r"
    using example_claim by blast
  have "c \<in> set (ss_issued (run_scheduler example_service example_ops))" using c by simp
  moreover from success_is_fenced [OF example_uuids this, of 7 "JObj []"] c(2) r
  have "succeed example_service 7 c (JObj []) (ss_db (run_scheduler example_service example_ops)) =
       (completed_db example_service 7 c (success_row 7 r) (success_attempt 7 (JObj []))
          [success_event c 7] (ss_db (run_scheduler example_service example_ops)), Inr ())"
    by (simp add: Let_def)
  ultimately show ?thesis by blast
qed

lemma failure_policy_aux:
  assumes "inj (sv_uuid svc)" and "c \<in> set (ss_issued (run_scheduler svc ops))"
    and "cl_scheduled_at c \<le> retry_at svc now c retryable"
  shows "let db = ss_db (run_scheduler svc ops); available = retry_at svc now c retryable in
    \<exists>r. dict_get (db_jobs db) (cl_job_id c) = Some r \<and>
      fail svc now now' c code retryable db =
        (if holds_claim now' c r
         then (completed_db svc now' c (failure_row now' c retryable available r)
                 (failure_attempt now' c code retryable available)
                 (failure_events c retryable code now' available) db, Inr ())
         else (db, Inl (StaleClaimError (cl_job_id c))))"
proof -
  let ?db = "ss_db (run_scheduler svc ops)"
  let ?a = "retry_at svc now c retryable"
  obtain r where r: "dict_get (db_jobs ?db) (cl_job_id c) = Some r" "claim_of_row c r" "row_ok r"
    and inv: "db_inv svc {} ?db"
    by (rule issued_row [OF assms(1,2)])
  note bounds = claim_of_row_bounds [OF r(2,3)]
  have events: "list_all valid_event (failure_events c retryable code t ?a)" for t
    using bounds by (simp add: failure_events_valid)
  have row: "job_row_check (failure_row now' c retryable ?a q) \<and>
      jr_job_id (failure_row now' c retryable ?a q) = jr_job_id q \<and>
      row_ok (failure_row now' c retryable ?a q) \<and>
      jr_attempt_number (failure_row now' c retryable ?a q) = jr_attempt_number q \<and>
      (jr_claim_token (failure_row now' c retryable ?a q) = None \<or>
       jr_claim_token (failure_row now' c retryable ?a q) = jr_claim_token q)"
    if q: "dict_get (db_jobs ?db) (cl_job_id c) = Some q" "row_ok q" "holds_claim now' c q" for q
  proof -
    have "q = r" using q(1) r(1) by simp
    then have lim: "jr_scheduled_at q \<le> ?a" "jr_max_attempts q = cl_max_attempts c"
      using r(2) assms(3) by (simp_all add: claim_of_row_def)
    have "jr_attempt_number q = cl_attempt_number c" using q(3) by (simp add: holds_claim_def)
    then have "failure_status c retryable = ''RETRY_WAIT'' \<Longrightarrow> jr_attempt_number q < jr_max_attempts q"
      using lim(2) by (auto simp: failure_status_def will_retry_def split: if_splits)
    then show ?thesis
      using release_check [OF q(2) lim(1)] row_ok_release [OF q(2) held_is_claimed [OF q(2,3)]]
        failure_status_set [of c retryable]
      by (simp add: failure_row_def)
  qed
  have at: "jr_updated_at (failure_row now' c retryable ?a r) = now'"
    by (simp add: failure_row_def release_claim_def)
  have "fail svc now now' c code retryable ?db =
      (if holds_claim now' c r
       then (completed_db svc now' c (failure_row now' c retryable ?a r)
               (failure_attempt now' c code retryable ?a)
               (failure_events c retryable code now' ?a) ?db, Inr ())
       else (?db, Inl (StaleClaimError (cl_job_id c))))"
    unfolding fail_alt
    by (subst fenced_completion [OF assms(1) inv events row]) (simp_all add: r(1) at)
  then show ?thesis using r(1) by (auto simp: Let_def)
qed

text \<open>
  C18. Failure follows the retry policy: a worker that holds its claim and fails before the attempt
  limit with a retryable error puts the job back to RETRY_WAIT, available after the retry delay of
  its attempt, with the failure, the retry request and its acknowledgement as new EDRs; at the limit
  the job is RETRIES_EXHAUSTED, and on a permanent error FAILED. The attempt records the error code.
  This needs the clock not to run before the job's schedule.
\<close>

theorem failure_follows_the_retry_policy:
  assumes "inj (sv_uuid svc)" and "c \<in> set (ss_issued (run_scheduler svc ops))"
    and "cl_scheduled_at c \<le> retry_at svc now c retryable"
  shows "let db = ss_db (run_scheduler svc ops); available = retry_at svc now c retryable in
    \<exists>r. dict_get (db_jobs db) (cl_job_id c) = Some r \<and>
      fail svc now now' c code retryable db =
        (if holds_claim now' c r
         then (completed_db svc now' c (failure_row now' c retryable available r)
                 (failure_attempt now' c code retryable available)
                 (failure_events c retryable code now' available) db, Inr ())
         else (db, Inl (StaleClaimError (cl_job_id c))))"
  by (rule failure_policy_aux [OF assms])

theorem failure_follows_the_retry_policy_witness:
  "\<exists>c r. c \<in> set (ss_issued (run_scheduler example_service example_ops)) \<and>
     fail example_service 7 8 c ''E'' True (ss_db (run_scheduler example_service example_ops)) =
       (completed_db example_service 8 c (failure_row 8 c True 2000007 r)
          (failure_attempt 8 c ''E'' True 2000007) (failure_events c True ''E'' 8 2000007)
          (ss_db (run_scheduler example_service example_ops)), Inr ())"
proof -
  obtain c r where c: "ss_issued (run_scheduler example_service example_ops) = [c]"
    "cl_job_id c = ''job-1''" and
    r: "dict_get (db_jobs (ss_db (run_scheduler example_service example_ops))) ''job-1'' = Some r"
    "claim_of_row c r" "jr_scheduled_at r = 0" "\<forall>t \<le> 60000005. holds_claim t c r"
    "cl_attempt_number c = 1" "cl_max_attempts c = 2"
    using example_claim by blast
  have at: "retry_at example_service 7 c True = 2000007"
    using r by (simp add: retry_at_def will_retry_def example_service_def default_retry_delay_def)
  have in_set: "c \<in> set (ss_issued (run_scheduler example_service example_ops))" using c by simp
  have "cl_scheduled_at c \<le> retry_at example_service 7 c True"
    using r(2,3) at by (simp add: claim_of_row_def)
  from failure_follows_the_retry_policy [OF example_uuids in_set this, where now' = 8 and code = "''E''"] c(2) r(1,4)
  show ?thesis using in_set by (auto simp: Let_def at)
qed

text \<open>
  A stale claim is refused everywhere: a worker whose claim no longer holds its row (expired,
  recovered or completed) gets \<open>StaleClaimError\<close> from start, heartbeat, succeed and fail alike, and
  the database is untouched.
\<close>

theorem stale_claims_are_refused:
  assumes "\<And>r. dict_get (db_jobs db) (cl_job_id c) = Some r \<Longrightarrow> \<not> holds_claim now c r"
  shows "start svc now c db = (db, Inl (StaleClaimError (cl_job_id c))) \<and>
    heartbeat svc now c db = (db, Inl (StaleClaimError (cl_job_id c))) \<and>
    succeed svc now c summary db = (db, Inl (StaleClaimError (cl_job_id c))) \<and>
    fail svc earlier now c code retryable db = (db, Inl (StaleClaimError (cl_job_id c)))"
proof -
  have "fenced_update now c f db = Inl (StaleClaimError (cl_job_id c))" for f
    using assms by (auto simp: fenced_update_def split: option.split)
  then show ?thesis
    by (simp add: start_def heartbeat_def succeed_def fail_def transaction_def Let_def)
qed

theorem stale_claims_are_refused_witness:
  "let row = (new_job_row example_submission 0)\<lparr>jr_status := ''CLAIMED'', jr_attempt_number := 1,
         jr_claimed_by := Some ''w1'', jr_claim_token := Some ''u'', jr_claimed_at := Some 5,
         jr_claim_expires_at := Some 60\<rparr>;
       db = empty_db\<lparr>db_jobs := [(''job-1'', row)]\<rparr>
   in succeed example_service 61 (claimed_of row) (JObj []) db =
        (db, Inl (StaleClaimError ''job-1''))"
proof -
  let ?row = "(new_job_row example_submission 0)\<lparr>jr_status := ''CLAIMED'', jr_attempt_number := 1,
         jr_claimed_by := Some ''w1'', jr_claim_token := Some ''u'', jr_claimed_at := Some 5,
         jr_claim_expires_at := Some 60\<rparr>"
  let ?db = "empty_db\<lparr>db_jobs := [(''job-1'', ?row)]\<rparr>"
  have id: "cl_job_id (claimed_of ?row) = ''job-1''"
    by (simp add: new_job_row_def example_submission_def)
  have stale: "dict_get (db_jobs ?db) (cl_job_id (claimed_of ?row)) = Some r \<Longrightarrow>
      \<not> holds_claim 61 (claimed_of ?row) r" for r
    using id by (auto simp: holds_claim_def)
  show ?thesis
    using stale_claims_are_refused [where db = ?db and c = "claimed_of ?row" and now = 61
        and svc = example_service and summary = "JObj []"] stale id
    by (simp only: Let_def) metis
qed

end
