(* ===== verification/Scheduler_Handlers.thy ===== *)
theory Scheduler_Handlers
  imports Scheduler_Completion
begin

text \<open>
  The job handlers of \<open>src/job_visibility/scheduler/handlers.py\<close>: Fibonacci by fast doubling and its
  handler, the print handler with the logging call it makes, and the registry. SHA-256 and whether
  the logger is enabled for INFO are arguments.
\<close>

section \<open>Fibonacci by fast doubling\<close>

text \<open>The inner function \<open>pair\<close>: the numbers \<open>F(value)\<close> and \<open>F(value + 1)\<close>.\<close>

fun fib_pair :: "nat \<Rightarrow> int \<times> int" where
  "fib_pair value =
     (if value = 0 then (0, 1)
      else (let (first, second) = fib_pair (value div 2);
                low = first * (2 * second - first);
                high = first * first + second * second
            in if value mod 2 \<noteq> 0 then (high, low + high) else (low, high)))"

declare fib_pair.simps [simp del]

definition fibonacci :: "int \<Rightarrow> int result" where
  "fibonacci number =
     (if number < 0 then Inl (ValueError ''number cannot be negative'')
      else Inr (fst (fib_pair (nat number))))"

text \<open>The textbook recurrence.\<close>

fun fib :: "nat \<Rightarrow> int" where
  "fib 0 = 0"
| "fib (Suc 0) = 1"
| "fib (Suc (Suc n)) = fib n + fib (Suc n)"

lemma fib_add: "fib (Suc (m + n)) = fib (Suc m) * fib (Suc n) + fib m * fib n"
  by (induction m rule: fib.induct) (simp_all add: algebra_simps)

lemma fib_double: "fib (2 * n) = fib n * (2 * fib (Suc n) - fib n)"
proof (cases n)
  case (Suc k)
  have "fib (2 * n) = fib (Suc (k + n))" using Suc by (simp add: mult_2)
  also have "\<dots> = fib (Suc k) * fib (Suc n) + fib k * fib n" by (rule fib_add)
  also have "fib k = fib (Suc n) - fib n" using Suc by simp
  finally show ?thesis using Suc by (simp add: algebra_simps)
qed simp

lemma fib_double_Suc: "fib (Suc (2 * n)) = fib n * fib n + fib (Suc n) * fib (Suc n)"
  using fib_add [of n n] by (simp add: mult_2)

lemma fib_pair_fib: "fib_pair n = (fib n, fib (Suc n))"
proof (induction n rule: less_induct)
  case (less n)
  show ?case
  proof (cases "n = 0")
    case True
    then show ?thesis by (simp add: fib_pair.simps)
  next
    case False
    then have half: "fib_pair (n div 2) = (fib (n div 2), fib (Suc (n div 2)))"
      by (intro less) simp
    have even: "fib (n div 2 * 2) = fib (n div 2) * (2 * fib (Suc (n div 2)) - fib (n div 2))"
      and odd: "fib (Suc (n div 2 * 2)) = fib (n div 2) * fib (n div 2) + fib (Suc (n div 2)) * fib (Suc (n div 2))"
      using fib_double [of "n div 2"] fib_double_Suc [of "n div 2"] by (simp_all add: mult.commute)
    show ?thesis
    proof (cases "n mod 2 = 0")
      case True
      then have "n = n div 2 * 2" by presburger
      then show ?thesis
        using False True half even odd by (subst fib_pair.simps) (simp add: Let_def)
    next
      case odd_n: False
      then have "n = Suc (n div 2 * 2)" by presburger
      moreover from this have "fib (Suc n) = fib (n div 2 * 2) + fib (Suc (n div 2 * 2))"
        by (metis fib.simps(3))
      ultimately show ?thesis
        using False odd_n half even odd by (subst fib_pair.simps) (simp add: Let_def)
    qed
  qed
qed

lemma fib_bounds: "0 \<le> fib n \<and> 1 \<le> fib (Suc n)"
  by (induction n) auto

lemma fib_grows: "int n \<le> fib n + 1"
proof (induction n rule: fib.induct)
  case (3 n)
  show ?case
  proof (cases n)
    case (Suc k)
    then show ?thesis using 3 fib_bounds [of k] by simp
  qed simp
qed simp_all

lemma fib_le_Suc: "fib n \<le> fib (Suc n)"
  using fib_bounds by (cases n) auto

lemma fib_mono: "m \<le> n \<Longrightarrow> fib m \<le> fib n"
  by (rule lift_Suc_mono_le [of fib, OF fib_le_Suc])

section \<open>Python's text of a JSON value\<close>

text \<open>\<open>str(value)\<close> and \<open>repr(value)\<close> of the values JSON decodes to.\<close>

definition repr_char :: "char \<Rightarrow> char \<Rightarrow> string" where
  "repr_char quote c =
     (let n = of_char c :: nat
      in if c = quote \<or> c = CHR 0x5C then [CHR 0x5C, c]
         else if n = 9 then [CHR 0x5C, CHR ''t'']
         else if n = 10 then [CHR 0x5C, CHR ''n'']
         else if n = 13 then [CHR 0x5C, CHR ''r'']
         else if n < 32 \<or> 127 \<le> n \<and> n \<le> 160 \<or> n = 173
         then [CHR 0x5C, CHR ''x'', hex_digit (n div 16), hex_digit (n mod 16)]
         else [c])"

definition repr_string :: "string \<Rightarrow> string" where
  "repr_string s =
     (let quote = (if CHR 0x27 \<in> set s \<and> CHR 0x22 \<notin> set s then CHR 0x22 else CHR 0x27)
      in [quote] @ concat (map (repr_char quote) s) @ [quote])"

primrec py_repr :: "json \<Rightarrow> string" where
  "py_repr JNull = ''None''"
| "py_repr (JBool b) = (if b then ''True'' else ''False'')"
| "py_repr (JInt i) = int_digits i"
| "py_repr (JStr s) = repr_string s"
| "py_repr (JList xs) = ''['' @ joined '', '' (map py_repr xs) @ '']''"
| "py_repr (JObj kvs) =
     ''{'' @ joined '', '' (map (\<lambda>(k, s). repr_string k @ '': '' @ s)
        (map (map_prod id py_repr) kvs)) @ ''}''"

definition py_str :: "json \<Rightarrow> string" where
  "py_str v = (case v of JStr s \<Rightarrow> s | _ \<Rightarrow> py_repr v)"

text \<open>Truth of a decoded JSON value, and the object of \<open>job.payload or {}\<close>.\<close>

primrec json_truthy :: "json \<Rightarrow> bool" where
  "json_truthy JNull = False"
| "json_truthy (JBool b) = b"
| "json_truthy (JInt i) = (i \<noteq> 0)"
| "json_truthy (JStr s) = (s \<noteq> [])"
| "json_truthy (JList xs) = (xs \<noteq> [])"
| "json_truthy (JObj kvs) = (kvs \<noteq> [])"

definition payload_dict :: "json option \<Rightarrow> (string \<times> json) list result" where
  "payload_dict payload =
     (case payload of
        None \<Rightarrow> Inr []
      | Some v \<Rightarrow>
          if \<not> json_truthy v then Inr []
          else (case v of JObj kvs \<Rightarrow> Inr kvs | _ \<Rightarrow> Inl (AttributeError ''get'')))"

definition get_default :: "(string \<times> json) list \<Rightarrow> string \<Rightarrow> json \<Rightarrow> json" where
  "get_default kvs key dflt = (case map_of kvs key of None \<Rightarrow> dflt | Some v \<Rightarrow> v)"

section \<open>The built-in handlers\<close>

type_synonym job_handler = "claimed_job \<Rightarrow> json result"

text \<open>
  \<open>Logger.info(..., extra=...)\<close>: a logger that is enabled for the level builds a \<open>LogRecord\<close> and
  refuses an extra key called \<open>message\<close> or \<open>asctime\<close>; a disabled one does nothing.
\<close>

definition logger_info :: "bool \<Rightarrow> string list \<Rightarrow> unit result" where
  "logger_info enabled extra_keys =
     (if enabled
      then (case List.find (\<lambda>k. k = ''message'' \<or> k = ''asctime'') extra_keys of
              Some k \<Rightarrow> Inl (KeyError k)
            | None \<Rightarrow> Inr ())
      else Inr ())"

definition print_handler :: "bool \<Rightarrow> job_handler" where
  "print_handler info_enabled job =
     bind_result (payload_dict (cl_payload job)) (\<lambda>payload.
     let message = py_str (get_default payload ''message'' (JStr ''''))
     in bind_result (logger_info info_enabled [''job_id'', ''message'']) (\<lambda>_.
        Inr (JObj [(''messageLength'', JInt (int (length message)))])))"

text \<open>
  The loop of \<open>fibonacci_handler\<close>: the values up to the limit, from \<open>index\<close> on. It stops because
  \<open>F(index)\<close> outgrows any limit.
\<close>

function fibonacci_values :: "int \<Rightarrow> nat \<Rightarrow> int list" where
  "fibonacci_values limit index =
     (let value = fst (fib_pair index)
      in if value > limit then [] else value # fibonacci_values limit (Suc index))"
  by pat_completeness auto
termination
proof (relation "measure (\<lambda>(limit, index). nat (limit + 2 - int index))")
  fix limit :: int and index :: nat and v :: int
  assume "v = fst (fib_pair index)" and "\<not> v > limit"
  then have "fib index \<le> limit" by (simp add: fib_pair_fib)
  then show "((limit, Suc index), (limit, index)) \<in> measure (\<lambda>(limit, index). nat (limit + 2 - int index))"
    using fib_grows [of index] by simp
qed simp

declare fibonacci_values.simps [simp del]

definition valid_limit :: "json \<Rightarrow> int option" where
  "valid_limit v = (case v of JInt n \<Rightarrow> if 0 \<le> n \<and> n \<le> 10000 then Some n else None | _ \<Rightarrow> None)"

definition fibonacci_handler :: "(string \<Rightarrow> string) \<Rightarrow> job_handler" where
  "fibonacci_handler sha256 job =
     bind_result (payload_dict (cl_payload job)) (\<lambda>payload.
     case valid_limit (get_default payload ''limit'' (JInt 10000)) of
       None \<Rightarrow> Inl (HandlerError ''INVALID_FIBONACCI_LIMIT''
                     ''limit must be an integer from 0 to 10000'' False)
     | Some limit \<Rightarrow>
         (let values = fibonacci_values limit 0;
              encoded = json_dumps (JList (map JInt values))
          in Inr (JObj [(''count'', JInt (int (length values))),
                        (''lastValue'', if values = [] then JNull else JInt (last values)),
                        (''resultHash'', JStr (sha256 encoded))])))"

text \<open>The registry.\<close>

type_synonym registry = "(string, job_handler) dict"

definition handler_registry :: "bool \<Rightarrow> (string \<Rightarrow> string) \<Rightarrow> registry \<Rightarrow> registry" where
  "handler_registry info_enabled sha256 handlers =
     foldl (\<lambda>d (k, v). dict_put k v d)
       [(''PRINT'', print_handler info_enabled), (''FIBONACCI'', fibonacci_handler sha256)] handlers"

definition register_handler :: "string \<Rightarrow> job_handler \<Rightarrow> registry \<Rightarrow> registry" where
  "register_handler job_type handler handlers = dict_put job_type handler handlers"

definition registry_execute :: "registry \<Rightarrow> job_handler" where
  "registry_execute handlers job =
     (case dict_get handlers (cl_job_type job) of
        None \<Rightarrow> Inl (HandlerError ''UNKNOWN_JOB_TYPE'' ''no handler is registered'' False)
      | Some handler \<Rightarrow> handler job)"

section \<open>What the handlers compute\<close>

lemma fibonacci_values_spec:
  "\<exists>n \<ge> index. fibonacci_values limit index = map fib [index..<n] \<and> limit < fib n \<and>
     (\<forall>i. index \<le> i \<longrightarrow> i < n \<longrightarrow> fib i \<le> limit)"
proof (induction limit index rule: fibonacci_values.induct)
  case (1 limit index)
  show ?case
  proof (cases "fib index > limit")
    case True
    then show ?thesis
      by (intro exI [of _ index]) (simp add: fibonacci_values.simps [of limit index] fib_pair_fib)
  next
    case False
    then obtain n where n: "n \<ge> Suc index" "fibonacci_values limit (Suc index) = map fib [Suc index..<n]"
      "limit < fib n" "\<forall>i. Suc index \<le> i \<longrightarrow> i < n \<longrightarrow> fib i \<le> limit"
      using 1 [of "fib index"] by (auto simp: fib_pair_fib)
    then have "fibonacci_values limit index = map fib [index..<n]"
      using False by (simp add: fibonacci_values.simps [of limit index] fib_pair_fib Let_def upt_rec [of index])
    moreover have "\<forall>i. index \<le> i \<longrightarrow> i < n \<longrightarrow> fib i \<le> limit"
      using n(4) False by (metis not_less_eq_eq le_antisym not_le)
    ultimately show ?thesis using n(1,3) by (intro exI [of _ n]) simp
  qed
qed

lemma fibonacci_values_set:
  "\<exists>n. fibonacci_values limit 0 = map fib [0..<n] \<and> (\<forall>i. fib i \<le> limit \<longleftrightarrow> i < n)"
proof -
  obtain n where n: "fibonacci_values limit 0 = map fib [0..<n]" "limit < fib n"
    "\<forall>i < n. fib i \<le> limit"
    using fibonacci_values_spec [of 0 limit] by auto
  have "fib i \<le> limit \<longleftrightarrow> i < n" for i
    using n(2,3) fib_mono [of n i] by (cases "i < n") auto
  then show ?thesis using n(1) by blast
qed

text \<open>
  C19. Fast doubling computes the Fibonacci numbers, for every argument; a negative one is refused.
\<close>

theorem fast_doubling_is_fibonacci:
  "fibonacci number =
     (if number < 0 then Inl (ValueError ''number cannot be negative'') else Inr (fib (nat number)))"
  by (simp add: fibonacci_def fib_pair_fib)

text \<open>
  C20. The FIBONACCI handler always ends, and its summary is exact: for a limit from 0 to 10000
  (10000 when the payload names none) it lists precisely the Fibonacci numbers up to the limit, so
  the count is the number of indices below the limit and the last value is the largest such number;
  any other limit is refused as a permanent failure.
\<close>

theorem fibonacci_handler_is_exact:
  assumes "cl_payload job = Some (JObj payload)"
  shows "\<exists>n. (\<forall>limit. valid_limit (get_default payload ''limit'' (JInt 10000)) = Some limit \<longrightarrow>
        0 < n \<and> (\<forall>i. fib i \<le> limit \<longleftrightarrow> i < n)) \<and>
     fibonacci_handler sha256 job =
       (case valid_limit (get_default payload ''limit'' (JInt 10000)) of
          None \<Rightarrow> Inl (HandlerError ''INVALID_FIBONACCI_LIMIT''
                        ''limit must be an integer from 0 to 10000'' False)
        | Some limit \<Rightarrow> Inr (JObj
            [(''count'', JInt (int n)), (''lastValue'', JInt (fib (n - 1))),
             (''resultHash'', JStr (sha256 (json_dumps (JList (map JInt (map fib [0..<n]))))))]))"
proof -
  have dict: "payload_dict (cl_payload job) = Inr payload"
    using assms by (simp add: payload_dict_def)
  show ?thesis
  proof (cases "valid_limit (get_default payload ''limit'' (JInt 10000))")
    case None
    then show ?thesis using dict by (simp add: fibonacci_handler_def)
  next
    case (Some limit)
    obtain n where n: "fibonacci_values limit 0 = map fib [0..<n]" "\<forall>i. fib i \<le> limit \<longleftrightarrow> i < n"
      using fibonacci_values_set by blast
    have "0 \<le> limit" using Some by (auto simp: valid_limit_def split: json.splits if_splits)
    then have "0 < n" using n(2) by (metis fib.simps(1))
    then have "last (map fib [0..<n]) = fib (n - 1)" by (simp add: last_map)
    then show ?thesis
      using dict Some n \<open>0 < n\<close> by (intro exI [of _ n]) (simp add: fibonacci_handler_def Let_def comp_def)
  qed
qed

lemma fib_20: "fib 20 = 6765" "fib 21 = 10946"
  by (simp_all add: eval_nat_numeral)

theorem fibonacci_handler_is_exact_witness:
  "let job = (claimed_of (new_job_row example_submission 0))\<lparr>cl_payload := Some (JObj [])\<rparr>
   in \<exists>h. fibonacci_handler (\<lambda>s. []) job =
        Inr (JObj [(''count'', JInt 21), (''lastValue'', JInt 6765), (''resultHash'', h)])"
proof -
  let ?job = "(claimed_of (new_job_row example_submission 0))\<lparr>cl_payload := Some (JObj [])\<rparr>"
  have lim: "valid_limit (get_default [] ''limit'' (JInt 10000)) = Some 10000"
    by (simp add: get_default_def valid_limit_def)
  obtain n where n: "\<forall>i. fib i \<le> 10000 \<longleftrightarrow> i < n"
    "fibonacci_handler (\<lambda>s. []) ?job = Inr (JObj
            [(''count'', JInt (int n)), (''lastValue'', JInt (fib (n - 1))), (''resultHash'', JStr [])])"
    using fibonacci_handler_is_exact [of ?job "[]" "\<lambda>s. []"] unfolding lim by auto
  have "20 < n" "\<not> 21 < n"
    using n(1) [rule_format, of 20] n(1) [rule_format, of 21] by (simp_all add: fib_20)
  then have "n = 21" by simp
  then show ?thesis using n(2) fib_20 by simp
qed

text \<open>
  What a PRINT job returns depends on the logging level: with INFO logging off it returns the
  length of its message; with INFO logging on it always raises, because the extra field
  \<open>message\<close> is reserved by Python's log records.
\<close>

theorem print_handler_outcome:
  assumes "cl_payload job = Some (JObj payload)"
  shows "print_handler info_enabled job =
     (if info_enabled then Inl (KeyError ''message'')
      else Inr (JObj [(''messageLength'',
        JInt (int (length (py_str (get_default payload ''message'' (JStr ''''))))))]))"
  using assms by (simp add: print_handler_def payload_dict_def logger_info_def Let_def)

theorem print_handler_outcome_witness:
  "let job = (claimed_of (new_job_row example_submission 0))\<lparr>
       cl_payload := Some (JObj [(''message'', JStr ''x'')])\<rparr>
   in print_handler True job = Inl (KeyError ''message'') \<and>
      print_handler False job = Inr (JObj [(''messageLength'', JInt 1)])"
  by (simp add: print_handler_outcome [of _ "[(''message'', JStr ''x'')]"] get_default_def py_str_def)

end
