(* ===== verification/Scheduler_Worker.thy ===== *)
theory Scheduler_Worker
  imports Scheduler_Handlers
begin

text \<open>
  The execution of a claimed job (\<open>SchedulerService.execute\<close>) and the polling loop around it,
  \<open>src/job_visibility/scheduler/worker.py\<close>. The lemmas show that a worker is only ever a scheduler
  run, and that an execution whose lease lasts completes.
\<close>

section \<open>Executing one claimed job\<close>

text \<open>
  What happens around one execution: the clock readings of its transactions, the faults injected
  into it, whether \<open>stop\<close> was called before it, and what other processes do to the database while
  the handler runs.
\<close>

record run_env =
  re_stopping :: bool
  re_faults :: faults
  re_started :: time
  re_failing :: time
  re_finished :: time
  re_meanwhile :: "scheduler_db \<Rightarrow> scheduler_db"

text \<open>
  \<open>SchedulerService.execute\<close>: the summary, \<open>None\<close> after a handler failure that was recorded, or the
  exception of a transaction or a fault.
\<close>

definition handler_failure :: "exn \<Rightarrow> string \<times> bool" where
  "handler_failure err =
     (case err of
        HandlerError code message retryable \<Rightarrow> (code, retryable)
      | _ \<Rightarrow> (''UNEXPECTED_HANDLER_ERROR'', True))"

definition execute ::
  "service \<Rightarrow> registry \<Rightarrow> run_env \<Rightarrow> claimed_job \<Rightarrow> scheduler_db \<Rightarrow>
   scheduler_db \<times> json option result" where
  "execute svc handlers env job db =
     (case start svc (re_started env) job db of
        (db, Inl err) \<Rightarrow> (db, Inl err)
      | (db, Inr _) \<Rightarrow>
          (let db = re_meanwhile env db
           in case registry_execute handlers job of
                Inl err \<Rightarrow>
                  (let (code, retryable) = handler_failure err
                   in case fail svc (re_failing env) (re_finished env) job code retryable db of
                        (db, Inl err) \<Rightarrow> (db, Inl err)
                      | (db, Inr _) \<Rightarrow> (db, Inr None))
              | Inr summary \<Rightarrow>
                  (case re_faults env ''worker.before_complete'' of
                     Some err \<Rightarrow> (db, Inl err)
                   | None \<Rightarrow>
                       (case succeed svc (re_finished env) job summary db of
                          (db, Inl err) \<Rightarrow> (db, Inl err)
                        | (db, Inr _) \<Rightarrow> (db, Inr (Some summary))))))"

section \<open>The worker\<close>

record worker =
  wk_owner :: string
  wk_batch_size :: int
  wk_recovery_batch_size :: int
  wk_poll_interval :: int

text \<open>\<open>SchedulerWorker.__init__\<close>; the interval is in microseconds.\<close>

definition worker_init :: "worker \<Rightarrow> worker result" where
  "worker_init w =
     (if wk_owner w = [] then Inl (ValueError ''scheduler worker owner is required'')
      else if wk_batch_size w < 1 \<or> wk_recovery_batch_size w < 1 \<or> wk_poll_interval w \<le> 0
      then Inl (ValueError ''scheduler worker bounds must be positive'')
      else Inr w)"

text \<open>The loop over the claimed jobs; \<open>position\<close> counts them.\<close>

fun execute_all ::
  "service \<Rightarrow> registry \<Rightarrow> (nat \<Rightarrow> run_env) \<Rightarrow> nat \<Rightarrow> claimed_job list \<Rightarrow> scheduler_db \<Rightarrow>
   scheduler_db \<times> unit result" where
  "execute_all svc handlers env position [] db = (db, Inr ())"
| "execute_all svc handlers env position (job # jobs) db =
     (case re_faults (env position) ''worker.after_claim'' of
        Some err \<Rightarrow> (db, Inl err)
      | None \<Rightarrow>
          (if re_stopping (env position) then (db, Inr ())
           else (case execute svc handlers (env position) job db of
                   (db, Inl err) \<Rightarrow> (db, Inl err)
                 | (db, Inr _) \<Rightarrow> execute_all svc handlers env (Suc position) jobs db)))"

text \<open>One round: clock readings and locks of the recovery and of the claim, and of the executions.\<close>

record round_env =
  ro_stopping :: bool
  ro_recover_now :: time
  ro_recover_locked :: "string set"
  ro_claim_now :: time
  ro_claim_now' :: time
  ro_claim_locked :: "string set"
  ro_runs :: "nat \<Rightarrow> run_env"

definition worker_run_once ::
  "service \<Rightarrow> registry \<Rightarrow> worker \<Rightarrow> round_env \<Rightarrow> scheduler_db \<Rightarrow> scheduler_db \<times> int result" where
  "worker_run_once svc handlers w env db =
     (case recover_expired_claims (ro_recover_now env) (ro_recover_locked env)
             (wk_recovery_batch_size w) db of
        (db, Inl err) \<Rightarrow> (db, Inl err)
      | (db, Inr _) \<Rightarrow>
          (case claim_due svc (ro_claim_now env) (ro_claim_now' env) (ro_claim_locked env)
                  (wk_owner w) (wk_batch_size w) db of
             (db, Inl err) \<Rightarrow> (db, Inl err)
           | (db, Inr claimed) \<Rightarrow>
               (case execute_all svc handlers (ro_runs env) 0 claimed db of
                  (db, Inl err) \<Rightarrow> (db, Inl err)
                | (db, Inr _) \<Rightarrow> (db, Inr (int (length claimed))))))"

text \<open>
  \<open>run_forever\<close>, as far as the rounds of the list reach: the database, the number of waits, and the
  exception that ended it, if one did.
\<close>

fun run_forever ::
  "service \<Rightarrow> registry \<Rightarrow> worker \<Rightarrow> round_env list \<Rightarrow> nat \<Rightarrow> scheduler_db \<Rightarrow>
   scheduler_db \<times> nat \<times> exn option" where
  "run_forever svc handlers w [] waits db = (db, waits, None)"
| "run_forever svc handlers w (env # envs) waits db =
     (if ro_stopping env then (db, waits, None)
      else (case worker_run_once svc handlers w env db of
              (db, Inl err) \<Rightarrow> (db, waits, Some err)
            | (db, Inr n) \<Rightarrow>
                run_forever svc handlers w envs (if n = 0 then Suc waits else waits) db))"

section \<open>The worker acts only through the scheduler\<close>

text \<open>What happens meanwhile is work of other scheduler processes.\<close>

definition scheduler_work :: "service \<Rightarrow> (scheduler_db \<Rightarrow> scheduler_db) \<Rightarrow> bool" where
  "scheduler_work svc f \<longleftrightarrow>
     (\<forall>s. \<exists>ops. ss_db (foldl (sched_step svc) s ops) = f (ss_db s))"

lemma issued_prefix: "prefix (ss_issued s) (ss_issued (sched_step svc s op))"
  by (cases op) (auto simp: on_issued_def split: sum.splits prod.splits)

lemma issued_prefix_run: "prefix (ss_issued s) (ss_issued (foldl (sched_step svc) s ops))"
proof (induction ops arbitrary: s)
  case (Cons op ops)
  then show ?case using issued_prefix prefix_order.order_trans by fastforce
qed simp

text \<open>The claim at a position keeps its position.\<close>

definition names :: "scheduler_system \<Rightarrow> nat \<Rightarrow> claimed_job \<Rightarrow> bool" where
  "names s k job \<longleftrightarrow> k < length (ss_issued s) \<and> ss_issued s ! k = job"

lemma names_kept: "names s k job \<Longrightarrow> names (foldl (sched_step svc) s ops) k job"
  using issued_prefix_run [of s svc ops] by (auto simp: names_def prefix_def nth_append)

definition reaches :: "service \<Rightarrow> scheduler_system \<Rightarrow> scheduler_db \<Rightarrow> bool" where
  "reaches svc s db \<longleftrightarrow> (\<exists>ops. ss_db (foldl (sched_step svc) s ops) = db)"

lemma reaches_refl: "reaches svc s (ss_db s)"
  unfolding reaches_def by (rule exI [of _ "[]"]) simp

text \<open>Chaining: reach some database, then go on from any system that has it.\<close>

lemma reaches_trans:
  assumes "reaches svc s db" and "\<And>ops. ss_db (foldl (sched_step svc) s ops) = db \<Longrightarrow>
    reaches svc (foldl (sched_step svc) s ops) db'"
  shows "reaches svc s db'"
proof -
  obtain ops where ops: "ss_db (foldl (sched_step svc) s ops) = db"
    using assms(1) by (auto simp: reaches_def)
  obtain ops' where "ss_db (foldl (sched_step svc) (foldl (sched_step svc) s ops) ops') = db'"
    using assms(2) [OF ops] by (auto simp: reaches_def)
  then show ?thesis unfolding reaches_def by (intro exI [of _ "ops @ ops'"]) simp
qed

lemma reaches_step: "reaches svc s (ss_db (sched_step svc s op))"
  unfolding reaches_def by (rule exI [of _ "[op]"]) simp

lemma reaches_job:
  "names s k job \<Longrightarrow> reaches svc s (fst (start svc now job (ss_db s)))"
  "names s k job \<Longrightarrow> reaches svc s (fst (succeed svc now job summary (ss_db s)))"
  "names s k job \<Longrightarrow> reaches svc s (fst (fail svc now now' job code b (ss_db s)))"
  using reaches_step [of svc s "OpStart now k"] reaches_step [of svc s "OpSucceed now k summary"]
    reaches_step [of svc s "OpFail now now' k code b"]
  by (auto simp: names_def on_issued_def)

lemma reaches_meanwhile: "scheduler_work svc f \<Longrightarrow> reaches svc s (f (ss_db s))"
  by (auto simp: scheduler_work_def reaches_def)

lemma execute_db:
  assumes "snd (start svc (re_started env) job db) = Inr u"
  defines "db2 \<equiv> re_meanwhile env (fst (start svc (re_started env) job db))"
  shows "fst (execute svc handlers env job db) = db2 \<or>
    (\<exists>code b. fst (execute svc handlers env job db) =
       fst (fail svc (re_failing env) (re_finished env) job code b db2)) \<or>
    (\<exists>summary. fst (execute svc handlers env job db) =
       fst (succeed svc (re_finished env) job summary db2))"
proof (cases "start svc (re_started env) job db")
  case (Pair db1 res)
  show ?thesis
  proof (cases "registry_execute handlers job")
    case (Inl err)
    obtain code b where cb: "handler_failure err = (code, b)" by fastforce
    have "fst (execute svc handlers env job db) =
        fst (fail svc (re_failing env) (re_finished env) job code b db2)"
      using assms Pair Inl cb
      by (auto simp: execute_def Let_def split: sum.split prod.split)
    then show ?thesis by blast
  next
    case (Inr summary)
    have "fst (execute svc handlers env job db) = db2 \<or> fst (execute svc handlers env job db) =
        fst (succeed svc (re_finished env) job summary db2)"
      using assms Pair Inr
      by (auto simp: execute_def Let_def split: sum.split prod.split option.split)
    then show ?thesis by blast
  qed
qed

lemma execute_reaches:
  assumes k: "names s k job" and f: "scheduler_work svc (re_meanwhile env)"
  shows "reaches svc s (fst (execute svc handlers env job (ss_db s)))"
proof -
  let ?started = "start svc (re_started env) job (ss_db s)"
  show ?thesis
  proof (cases "snd ?started")
    case (Inl err)
    then show ?thesis
      using reaches_job(1) [OF k, of svc "re_started env"]
      by (cases ?started) (simp add: execute_def)
  next
    case (Inr u)
    show ?thesis
    proof (rule reaches_trans [OF reaches_job(1) [OF k, of svc "re_started env"]])
      fix ops
      let ?s1 = "foldl (sched_step svc) s ops"
      assume s1: "ss_db ?s1 = fst ?started"
      show "reaches svc ?s1 (fst (execute svc handlers env job (ss_db s)))"
      proof (rule reaches_trans [OF reaches_meanwhile [OF f]])
        fix ops'
        let ?s2 = "foldl (sched_step svc) ?s1 ops'"
        assume "ss_db ?s2 = re_meanwhile env (ss_db ?s1)"
        then have s2: "ss_db ?s2 = re_meanwhile env (fst ?started)" using s1 by simp
        have k2: "names ?s2 k job" by (intro names_kept k)
        note to = reaches_refl [of svc ?s2]
          reaches_job(2) [OF k2, of svc "re_finished env"]
          reaches_job(3) [OF k2, of svc "re_failing env" "re_finished env"]
        show "reaches svc ?s2 (fst (execute svc handlers env job (ss_db s)))"
          using execute_db [OF Inr, of handlers] reaches_refl [of svc ?s2] reaches_job(2,3) [OF k2]
          unfolding s2 by metis
      qed
    qed
  qed
qed

lemma execute_all_reaches:
  assumes "\<And>n. scheduler_work svc (re_meanwhile (env n))"
  shows "\<forall>job \<in> set jobs. \<exists>k. names s k job \<Longrightarrow>
    reaches svc s (fst (execute_all svc handlers env position jobs (ss_db s)))"
proof (induction jobs arbitrary: s position)
  case Nil
  then show ?case by (simp add: reaches_refl)
next
  case (Cons job jobs)
  obtain k where k: "names s k job" using Cons.prems by auto
  show ?case
  proof (cases "re_faults (env position) ''worker.after_claim'' = None \<and> \<not> re_stopping (env position)")
    case False
    then have "fst (execute_all svc handlers env position (job # jobs) (ss_db s)) = ss_db s"
      by (auto split: option.split)
    then show ?thesis by (simp add: reaches_refl)
  next
    case True
    let ?one = "execute svc handlers (env position) job (ss_db s)"
    have one: "reaches svc s (fst ?one)" by (rule execute_reaches [OF k assms])
    show ?thesis
    proof (cases "snd ?one")
      case (Inl err)
      then show ?thesis using True one by (cases ?one) simp
    next
      case (Inr r)
      then have eq: "execute_all svc handlers env position (job # jobs) (ss_db s) =
          execute_all svc handlers env (Suc position) jobs (fst ?one)"
        using True by (cases ?one) simp
      show ?thesis
        unfolding eq
      proof (rule reaches_trans [OF one])
        fix ops assume "ss_db (foldl (sched_step svc) s ops) = fst ?one"
        then show "reaches svc (foldl (sched_step svc) s ops)
            (fst (execute_all svc handlers env (Suc position) jobs (fst ?one)))"
          using Cons.IH [of "foldl (sched_step svc) s ops"] Cons.prems names_kept by fastforce
      qed
    qed
  qed
qed

lemma names_issued:
  assumes "job \<in> set claimed"
  shows "\<exists>k. names \<lparr>ss_db = db, ss_issued = xs @ claimed\<rparr> k job"
proof -
  obtain k where "k < length claimed" "claimed ! k = job" using assms by (auto simp: in_set_conv_nth)
  then have "names \<lparr>ss_db = db, ss_issued = xs @ claimed\<rparr> (length xs + k) job"
    by (simp add: names_def)
  then show ?thesis ..
qed

text \<open>
  A claim reaches its database in one step, and afterwards every claimed job is named.
\<close>

lemma run_once_reaches:
  assumes work: "\<And>n. scheduler_work svc (re_meanwhile (ro_runs env n))"
  shows "reaches svc s (fst (worker_run_once svc handlers w env (ss_db s)))"
proof -
  let ?rec = "recover_expired_claims (ro_recover_now env) (ro_recover_locked env)
             (wk_recovery_batch_size w) (ss_db s)"
  let ?op = "OpRecover (ro_recover_now env) (ro_recover_locked env) (wk_recovery_batch_size w)"
  let ?s1 = "sched_step svc s ?op"
  have s1: "ss_db ?s1 = fst ?rec" by simp
  let ?claim = "claim_due svc (ro_claim_now env) (ro_claim_now' env) (ro_claim_locked env)
                  (wk_owner w) (wk_batch_size w) (fst ?rec)"
  let ?op2 = "OpClaim (ro_claim_now env) (ro_claim_now' env) (ro_claim_locked env)
                  (wk_owner w) (wk_batch_size w)"
  let ?s2 = "sched_step svc ?s1 ?op2"
  have to1: "reaches svc s (fst ?rec)" using reaches_step [of svc s ?op] by simp
  have chain: "reaches svc s db" if "reaches svc ?s2 db" for db
  proof -
    from that obtain ops where "ss_db (foldl (sched_step svc) ?s2 ops) = db" by (auto simp: reaches_def)
    then show ?thesis unfolding reaches_def by (intro exI [of _ "[?op, ?op2] @ ops"]) simp
  qed
  show ?thesis
  proof (cases "snd ?rec")
    case (Inl err)
    then show ?thesis using to1 by (cases ?rec) (simp add: worker_run_once_def)
  next
    case rec: (Inr n)
    show ?thesis
    proof (cases "snd ?claim")
      case (Inl err)
      have "ss_db ?s2 = fst ?claim" using Inl by (cases ?claim) simp
      then have "reaches svc s (fst ?claim)" using chain reaches_refl [of svc ?s2] by simp
      then show ?thesis
        using rec Inl by (cases ?rec; cases ?claim) (simp add: worker_run_once_def)
    next
      case (Inr claimed)
      have s2: "?s2 = \<lparr>ss_db = fst ?claim, ss_issued = ss_issued s @ claimed\<rparr>"
        using Inr by (cases ?claim) simp
      have "\<forall>job \<in> set claimed. \<exists>k. names ?s2 k job"
        unfolding s2 using names_issued by blast
      then have "reaches svc ?s2 (fst (execute_all svc handlers (ro_runs env) 0 claimed (ss_db ?s2)))"
        using execute_all_reaches [of svc "ro_runs env", OF work] by blast
      then have "reaches svc s (fst (execute_all svc handlers (ro_runs env) 0 claimed (fst ?claim)))"
        using chain by (simp add: s2 del: sched_step.simps)
      then show ?thesis
        using rec Inr
        by (cases ?rec; cases ?claim) (auto simp: worker_run_once_def split: sum.split prod.split)
    qed
  qed
qed

lemma run_forever_reaches:
  assumes work: "\<And>env n. env \<in> set envs \<Longrightarrow> scheduler_work svc (re_meanwhile (ro_runs env n))"
  shows "reaches svc s (fst (run_forever svc handlers w envs waits (ss_db s)))"
  using work
proof (induction envs arbitrary: s waits)
  case Nil
  then show ?case by (simp add: reaches_refl)
next
  case (Cons env envs)
  let ?once = "worker_run_once svc handlers w env (ss_db s)"
  show ?case
  proof (cases "ro_stopping env")
    case True
    then show ?thesis by (simp add: reaches_refl)
  next
    case False
    have once: "reaches svc s (fst ?once)" by (rule run_once_reaches) (simp add: Cons.prems)
    show ?thesis
    proof (rule reaches_trans [OF once])
      fix ops assume db: "ss_db (foldl (sched_step svc) s ops) = fst ?once"
      show "reaches svc (foldl (sched_step svc) s ops)
          (fst (run_forever svc handlers w (env # envs) waits (ss_db s)))"
        using False db Cons.IH [of "foldl (sched_step svc) s ops"] Cons.prems
          reaches_refl [of svc "foldl (sched_step svc) s ops"]
        by (cases ?once) (auto split: sum.split)
    qed
  qed
qed


definition example_env :: run_env where
  "example_env = \<lparr>re_stopping = False, re_faults = (\<lambda>c. None), re_started = 7, re_failing = 8,
     re_finished = 9, re_meanwhile = (\<lambda>db. db)\<rparr>"

definition example_round :: round_env where
  "example_round = \<lparr>ro_stopping = False, ro_recover_now = 5, ro_recover_locked = {},
     ro_claim_now = 5, ro_claim_now' = 6, ro_claim_locked = {}, ro_runs = (\<lambda>n. example_env)\<rparr>"

definition example_worker :: worker where
  "example_worker = \<lparr>wk_owner = ''w1'', wk_batch_size = 100, wk_recovery_batch_size = 100,
     wk_poll_interval = 500000\<rparr>"

lemma idle_is_scheduler_work: "scheduler_work svc (\<lambda>db. db)"
  unfolding scheduler_work_def by (intro allI exI [of _ "[]"]) simp


lemma start_holds:
  assumes inj: "inj (sv_uuid svc)" and inv: "db_inv svc {} db"
    and r: "dict_get (db_jobs db) (cl_job_id c) = Some r" "holds_claim now c r"
    and c: "1 \<le> cl_attempt_number c" "1 \<le> cl_max_attempts c"
  shows "\<exists>db' r'. start svc now c db = (db', Inr ()) \<and> dict_get (db_jobs db') (cl_job_id c) = Some r' \<and>
    (\<forall>t. holds_claim t c r' \<longleftrightarrow> holds_claim t c r)"
proof -
  let ?r = "r\<lparr>jr_status := ''RUNNING'', jr_updated_at := now, jr_version := jr_version r + 1\<rparr>"
  have ok: "row_ok r" and id: "jr_job_id r = cl_job_id c"
    using inv r(1) by (simp_all add: db_inv_def jobs_inv_def)
  let ?db1 = "db\<lparr>db_jobs := dict_put (cl_job_id c) ?r (db_jobs db)\<rparr>"
  have "job_row_check ?r" using ok by (auto simp: row_ok_def job_row_check_def)
  then have fu: "fenced_update now c (\<lambda>r. r\<lparr>jr_status := ''RUNNING'', jr_updated_at := now,
      jr_version := jr_version r + 1\<rparr>) db = Inr (?db1, ?r)"
    using r id by (simp add: fenced_update_def write_job_def)
  have "dict_get (db_outbox db) (sv_uuid svc (db_uuids db)) = None" by (rule outbox_fresh [OF inj inv])
  then obtain db2 where e: "add_event svc now (job_event c JOB_EXECUTION_STARTED now)
      (update_attempt (cl_job_id c, cl_attempt_number c) (\<lambda>a. a\<lparr>ar_started_at := Some now\<rparr>) ?db1) = Inr db2"
    using c by (simp add: add_event_Inr valid_job_event)
  then have "dict_get (db_jobs db2) (cl_job_id c) = Some ?r"
    by (simp add: add_event_Inr dict_rules)
  moreover have "holds_claim t c ?r \<longleftrightarrow> holds_claim t c r" for t by (simp add: holds_claim_def)
  ultimately show ?thesis using fu e by (simp add: start_def transaction_def Let_def)
qed

lemma completed_row:
  "dict_get (db_jobs (completed_db svc now c r f es db)) (cl_job_id c) = Some r"
  by (simp add: completed_db_def dict_rules)

lemma success_row_fields [simp]:
  "jr_status (success_row now r) = ''SUCCEEDED''" "jr_claim_token (success_row now r) = None"
  by (simp_all add: success_row_def)

lemma failure_row_fields [simp]:
  "jr_status (failure_row now c b a r) = failure_status c b"
  "jr_claim_token (failure_row now c b a r) = None"
  by (simp_all add: failure_row_def)

text \<open>
  C22. A job whose lease lasts is done: a worker that holds its claim from start to end, with a clock
  not before the schedule and nobody else at work on the database meanwhile, always completes the
  execution: the result is the handler's summary and the job SUCCEEDED, or the handler failed and
  the job is waiting for its retry, exhausted or failed; either way the claim is given back.
\<close>

theorem held_executions_complete:
  assumes inj: "inj (sv_uuid svc)" and issued: "c \<in> set (ss_issued (run_scheduler svc ops))"
    and r: "dict_get (db_jobs (ss_db (run_scheduler svc ops))) (cl_job_id c) = Some r"
    and holds: "holds_claim (re_started env) c r" "holds_claim (re_finished env) c r"
    and alone: "re_meanwhile env = (\<lambda>db. db)" "re_faults env = (\<lambda>checkpoint. None)"
    and clock: "cl_scheduled_at c \<le> re_failing env" "0 \<le> sv_retry_delay svc (cl_attempt_number c)"
  shows "\<exists>db' r'. execute svc handlers env c (ss_db (run_scheduler svc ops)) =
      (db', Inr (case registry_execute handlers c of Inl err \<Rightarrow> None | Inr summary \<Rightarrow> Some summary)) \<and>
    dict_get (db_jobs db') (cl_job_id c) = Some r' \<and> jr_claim_token r' = None \<and>
    jr_status r' = (case registry_execute handlers c of
        Inl err \<Rightarrow> failure_status c (snd (handler_failure err)) | Inr summary \<Rightarrow> ''SUCCEEDED'')"
proof -
  let ?db = "ss_db (run_scheduler svc ops)"
  obtain q where q: "dict_get (db_jobs ?db) (cl_job_id c) = Some q" "claim_of_row c q" "row_ok q"
    and inv: "db_inv svc {} ?db"
    by (rule issued_row [OF inj issued])
  note bounds = claim_of_row_bounds [OF q(2,3)]
  obtain k where k: "k < length (ss_issued (run_scheduler svc ops))" "ss_issued (run_scheduler svc ops) ! k = c"
    using issued by (auto simp: in_set_conv_nth)
  let ?ops = "ops @ [OpStart (re_started env) k]"
  let ?db1 = "ss_db (run_scheduler svc ?ops)"
  obtain db1 r1 where started: "start svc (re_started env) c ?db = (db1, Inr ())"
    and r1: "dict_get (db_jobs db1) (cl_job_id c) = Some r1" "\<And>t. holds_claim t c r1 \<longleftrightarrow> holds_claim t c r"
    using start_holds [OF inj inv r holds(1)] bounds by blast
  have run: "ss_db (run_scheduler svc ?ops) = db1" "ss_issued (run_scheduler svc ?ops) = ss_issued (run_scheduler svc ops)"
    using k started by (simp_all add: run_scheduler_def on_issued_def)
  have issued1: "c \<in> set (ss_issued (run_scheduler svc ?ops))" using issued run(2) by simp
  have held1: "holds_claim (re_finished env) c r1" using r1(2) holds(2) by simp
  show ?thesis
  proof (cases "registry_execute handlers c")
    case (Inr summary)
    have "succeed svc (re_finished env) c summary db1 =
        (completed_db svc (re_finished env) c (success_row (re_finished env) r1)
           (success_attempt (re_finished env) summary) [success_event c (re_finished env)] db1, Inr ())"
      using success_is_fenced_aux [OF inj issued1, of "re_finished env" summary] run(1) r1(1) held1 by simp
    then show ?thesis
      using started alone Inr completed_row by (auto simp: execute_def)
  next
    case (Inl err)
    obtain code b where cb: "handler_failure err = (code, b)" by fastforce
    let ?a = "retry_at svc (re_failing env) c b"
    have "cl_scheduled_at c \<le> ?a" using clock by (simp add: retry_at_def)
    then have "fail svc (re_failing env) (re_finished env) c code b db1 =
        (completed_db svc (re_finished env) c (failure_row (re_finished env) c b ?a r1)
           (failure_attempt (re_finished env) c code b ?a)
           (failure_events c b code (re_finished env) ?a) db1, Inr ())"
      using failure_policy_aux [OF inj issued1, of "re_failing env" b "re_finished env" code] run(1) r1(1) held1
      by (simp add: Let_def)
    then show ?thesis
      using started alone Inl cb completed_row by (auto simp: execute_def)
  qed
qed

theorem held_executions_complete_witness:
  "\<exists>c db' r'. c \<in> set (ss_issued (run_scheduler example_service example_ops)) \<and>
     execute example_service (handler_registry False (\<lambda>s. []) []) example_env c
       (ss_db (run_scheduler example_service example_ops)) =
       (db', Inr (case registry_execute (handler_registry False (\<lambda>s. []) []) c of
          Inl err \<Rightarrow> None | Inr summary \<Rightarrow> Some summary)) \<and>
     dict_get (db_jobs db') ''job-1'' = Some r' \<and> jr_claim_token r' = None"
proof -
  obtain c r where c: "ss_issued (run_scheduler example_service example_ops) = [c]"
    "cl_job_id c = ''job-1''" and
    r: "dict_get (db_jobs (ss_db (run_scheduler example_service example_ops))) ''job-1'' = Some r"
    "claim_of_row c r" "jr_scheduled_at r = 0" "\<forall>t \<le> 60000005. holds_claim t c r"
    using example_claim by blast
  have "c \<in> set (ss_issued (run_scheduler example_service example_ops))" using c by simp
  from held_executions_complete [OF example_uuids this, of r example_env "handler_registry False (\<lambda>s. []) []"]
    this c(2) r
  show ?thesis
    by (fastforce simp: example_env_def example_service_def default_retry_delay_def claim_of_row_def)
qed

end
