(* ===== verification/Outbox_Publisher.thy ===== *)
theory Outbox_Publisher
  imports Scheduler_Worker
begin

text \<open>
  The transactional outbox's publisher, \<open>src/job_visibility/outbox/publisher.py\<close>: the broker client's
  call, leasing of due rows, the fenced completion and the backoff of a failure, and the round that
  joins them. The Kafka client, random draws, clocks and faults are arguments.
\<close>

section \<open>The broker\<close>

text \<open>
  One call of \<open>ConfluentBrokerProducer.publish\<close>. The Kafka client is a third party: what it does in
  the call is an argument, the exceptions of \<open>list_topics\<close>, \<open>produce\<close> and the serializer, the number
  of messages \<open>flush\<close> leaves pending, and the delivery reports the callback received, in order. A
  report has the text of its error, or the partition and offset of the message.
\<close>

type_synonym coordinate = "int \<times> int"

record broker_call =
  bc_serialize :: "string \<Rightarrow> string result"
  bc_list_topics :: "exn option"
  bc_produce :: "exn option"
  bc_remaining :: int
  bc_reports :: "(string option \<times> coordinate) list"

text \<open>The callback sorts its reports into \<open>errors\<close> and \<open>delivered\<close>.\<close>

definition report_errors :: "(string option \<times> coordinate) list \<Rightarrow> string list" where
  "report_errors reports = List.map_filter fst reports"

definition report_delivered :: "(string option \<times> coordinate) list \<Rightarrow> coordinate list" where
  "report_delivered reports = map snd (filter (\<lambda>r. fst r = None) reports)"

definition confluent_publish :: "broker_call \<Rightarrow> string \<Rightarrow> coordinate result" where
  "confluent_publish call value_text =
     bind_result (bc_serialize call value_text) (\<lambda>encoded.
     case bc_list_topics call of
       Some err \<Rightarrow> Inl err
     | None \<Rightarrow>
         (case bc_produce call of
            Some err \<Rightarrow> Inl err
          | None \<Rightarrow>
              (let errors = report_errors (bc_reports call);
                   delivered = report_delivered (bc_reports call)
               in if bc_remaining call \<noteq> 0 then Inl (TimeoutError ''Kafka delivery timed out'')
                  else if errors \<noteq> [] \<or> delivered = []
                  then Inl (RuntimeError (if errors \<noteq> [] then hd errors
                                          else ''Kafka acknowledgement timed out''))
                  else Inr (hd delivered))))"

section \<open>The publisher\<close>

record outbox_record =
  or_event_id :: string
  or_topic :: string
  or_message_key :: string
  or_payload :: string
  or_attempts :: int
  or_lease_token :: string

text \<open>
  The publisher's settings, in microseconds; \<open>pb_float\<close> says whether the retry bounds are floats, as
  the runtime configures them.
\<close>

record publisher =
  pb_owner :: string
  pb_batch_size :: int
  pb_lease_seconds :: int
  pb_retry_initial :: int
  pb_retry_max :: int
  pb_float :: bool

definition lease_due :: "time \<Rightarrow> string set \<Rightarrow> int \<Rightarrow> scheduler_db \<Rightarrow> outbox_row list" where
  "lease_due now locked limit db =
     take (nat limit)
       (sort_key (\<lambda>r. (ob_next_attempt_at r, ob_created_at r))
         (filter (\<lambda>r. ob_published_at r = None \<and> ob_next_attempt_at r \<le> now \<and>
                      (case ob_lease_expires_at r of None \<Rightarrow> True | Some t \<Rightarrow> t < now) \<and>
                      ob_event_id r \<notin> locked)
           (dict_values (db_outbox db))))"

definition lease_row :: "publisher \<Rightarrow> string \<Rightarrow> time \<Rightarrow> outbox_row \<Rightarrow> outbox_row" where
  "lease_row p token now r =
     r\<lparr>ob_lease_owner := Some (pb_owner p), ob_lease_token := Some token,
       ob_lease_expires_at := Some (now + seconds (pb_lease_seconds p))\<rparr>"

definition record_of :: "outbox_row \<Rightarrow> outbox_record" where
  "record_of r =
     \<lparr>or_event_id = ob_event_id r, or_topic = ob_topic r, or_message_key = ob_message_key r,
      or_payload = ob_canonical_payload r, or_attempts = ob_publish_attempts r,
      or_lease_token = (case ob_lease_token r of None \<Rightarrow> '''' | Some t \<Rightarrow> t)\<rparr>"

definition put_outbox :: "outbox_row \<Rightarrow> scheduler_db \<Rightarrow> scheduler_db" where
  "put_outbox r db = db\<lparr>db_outbox := dict_put (ob_event_id r) r (db_outbox db)\<rparr>"

definition lease ::
  "service \<Rightarrow> publisher \<Rightarrow> time \<Rightarrow> string set \<Rightarrow> scheduler_db \<Rightarrow> scheduler_db \<times> outbox_record list" where
  "lease svc p now locked db =
     (let (token, db) = gen_uuid svc db;
          rows = map (lease_row p token now) (lease_due now locked (pb_batch_size p) db)
      in (fold put_outbox rows db, map record_of rows))"

text \<open>An UPDATE of the row that still carries the record's lease token.\<close>

definition leased_update ::
  "outbox_record \<Rightarrow> (outbox_row \<Rightarrow> outbox_row) \<Rightarrow> scheduler_db \<Rightarrow> scheduler_db" where
  "leased_update rec f db =
     (case dict_get (db_outbox db) (or_event_id rec) of
        None \<Rightarrow> db
      | Some r \<Rightarrow> if ob_lease_token r = Some (or_lease_token rec) then put_outbox (f r) db else db)"

definition release_lease :: "outbox_row \<Rightarrow> outbox_row" where
  "release_lease r =
     r\<lparr>ob_lease_owner := None, ob_lease_token := None, ob_lease_expires_at := None\<rparr>"

definition published :: "time \<Rightarrow> outbox_record \<Rightarrow> coordinate \<Rightarrow> scheduler_db \<Rightarrow> scheduler_db" where
  "published now rec coordinate =
     leased_update rec (\<lambda>r. (release_lease r)\<lparr>
        ob_published_at := Some now, ob_kafka_partition := Some (fst coordinate),
        ob_kafka_offset := Some (snd coordinate), ob_last_error := None\<rparr>)"

text \<open>
  \<open>min(self.retry_max, self.retry_initial * 2**record.attempts)\<close>: a float times an integer beyond the
  range of floats raises \<open>OverflowError\<close>.
\<close>

definition backoff_ceiling :: "publisher \<Rightarrow> int \<Rightarrow> int result" where
  "backoff_ceiling p attempts =
     (if pb_float p \<and> 1024 \<le> attempts
      then Inl (OverflowError ''int too large to convert to float'')
      else Inr (min (pb_retry_max p) (pb_retry_initial p * 2 ^ nat attempts)))"

text \<open>\<open>uniform lo hi\<close> stands for \<open>random.uniform\<close>.\<close>

definition failed ::
  "publisher \<Rightarrow> (int \<Rightarrow> int \<Rightarrow> int) \<Rightarrow> time \<Rightarrow> outbox_record \<Rightarrow> string \<Rightarrow> scheduler_db \<Rightarrow>
   scheduler_db \<times> unit result" where
  "failed p uniform now rec err db =
     (case backoff_ceiling p (or_attempts rec) of
        Inl e \<Rightarrow> (db, Inl e)
      | Inr ceiling \<Rightarrow>
          (let delay = uniform (ceiling div 2) ceiling
           in (leased_update rec (\<lambda>r. (release_lease r)\<lparr>
                 ob_publish_attempts := ob_publish_attempts r + 1,
                 ob_last_error := Some (take 200 err),
                 ob_next_attempt_at := now + delay\<rparr>) db, Inr ())))"

text \<open>\<open>type(exc).__name__\<close>\<close>

definition exn_class :: "exn \<Rightarrow> string" where
  "exn_class e =
     (case e of
        ValueError m \<Rightarrow> ''ValueError'' | KeyError k \<Rightarrow> ''KeyError''
      | JobNotFoundError i \<Rightarrow> ''JobNotFoundError''
      | VersionConflictError i a b \<Rightarrow> ''VersionConflictError''
      | AssertionError m \<Rightarrow> ''AssertionError'' | IndexError \<Rightarrow> ''IndexError''
      | StaleClaimError i \<Rightarrow> ''StaleClaimError'' | HandlerError c m r \<Rightarrow> ''HandlerError''
      | SyntheticFault c k \<Rightarrow> ''SyntheticFault'' | PollTimeout d v n \<Rightarrow> ''PollTimeout''
      | DriverError m \<Rightarrow> m | AttributeError m \<Rightarrow> ''AttributeError''
      | TypeError m \<Rightarrow> ''TypeError'' | TimeoutError m \<Rightarrow> ''TimeoutError''
      | RuntimeError m \<Rightarrow> ''RuntimeError'' | OverflowError m \<Rightarrow> ''OverflowError''
      | ZeroDivisionError \<Rightarrow> ''ZeroDivisionError''
      | ConfigurationError m \<Rightarrow> ''ConfigurationError'' | ValidationError ms \<Rightarrow> ''ValidationError'')"

text \<open>The broker's side of the state: what it acknowledged, oldest first.\<close>

type_synonym broker_log = "(outbox_record \<times> coordinate) list"

text \<open>
  What surrounds the publication of one record: injected faults, the broker, the \<open>after_ack\<close> hook,
  clock readings, the random draw, and what other processes do to the tables and to the broker while
  the record is in flight.
\<close>

record send_env =
  se_before_send :: "exn option"
  se_broker :: "outbox_record \<Rightarrow> coordinate result"
  se_after_ack :: "exn option"
  se_after_broker_ack :: "exn option"
  se_published_now :: time
  se_failed_now :: time
  se_uniform :: "int \<Rightarrow> int \<Rightarrow> int"
  se_meanwhile :: "scheduler_db \<times> broker_log \<Rightarrow> scheduler_db \<times> broker_log"

text \<open>
  The \<open>try\<close> body up to \<open>_published\<close>: the acknowledgement, if the broker gave one, and how the body
  went on.
\<close>

definition send :: "send_env \<Rightarrow> outbox_record \<Rightarrow> coordinate option \<times> coordinate result" where
  "send env rec =
     (case se_before_send env of
        Some err \<Rightarrow> (None, Inl err)
      | None \<Rightarrow>
          (case se_broker env rec of
             Inl err \<Rightarrow> (None, Inl err)
           | Inr coordinate \<Rightarrow>
               (Some coordinate,
                (case se_after_ack env of
                   Some err \<Rightarrow> Inl err
                 | None \<Rightarrow>
                     (case se_after_broker_ack env of
                        Some err \<Rightarrow> Inl err
                      | None \<Rightarrow> Inr coordinate)))))"

definition publish_record ::
  "publisher \<Rightarrow> send_env \<Rightarrow> outbox_record \<Rightarrow> scheduler_db \<times> broker_log \<Rightarrow>
   (scheduler_db \<times> broker_log) \<times> unit result" where
  "publish_record p env rec state =
     (let (db, log) = state;
          (ack, outcome) = send env rec;
          log = (case ack of None \<Rightarrow> log | Some coordinate \<Rightarrow> log @ [(rec, coordinate)]);
          (db, log) = se_meanwhile env (db, log)
      in case outcome of
           Inr coordinate \<Rightarrow> ((published (se_published_now env) rec coordinate db, log), Inr ())
         | Inl err \<Rightarrow>
             (case failed p (se_uniform env) (se_failed_now env) rec (exn_class err) db of
                (db, res) \<Rightarrow> ((db, log), res)))"

fun publish_all ::
  "publisher \<Rightarrow> (nat \<Rightarrow> send_env) \<Rightarrow> nat \<Rightarrow> outbox_record list \<Rightarrow> scheduler_db \<times> broker_log \<Rightarrow>
   (scheduler_db \<times> broker_log) \<times> unit result" where
  "publish_all p env position [] state = (state, Inr ())"
| "publish_all p env position (rec # recs) state =
     (case publish_record p (env position) rec state of
        (state, Inl err) \<Rightarrow> (state, Inl err)
      | (state, Inr _) \<Rightarrow> publish_all p env (Suc position) recs state)"

definition publisher_run_once ::
  "service \<Rightarrow> publisher \<Rightarrow> bool \<Rightarrow> time \<Rightarrow> string set \<Rightarrow> (nat \<Rightarrow> send_env) \<Rightarrow>
   scheduler_db \<times> broker_log \<Rightarrow> (scheduler_db \<times> broker_log) \<times> int result" where
  "publisher_run_once svc p stopping now locked env state =
     (if stopping then (state, Inr 0)
      else
        (let (db, log) = state;
             (db, records) = lease svc p now locked db
         in case publish_all p env 0 records (db, log) of
              (state, Inl err) \<Rightarrow> (state, Inl err)
            | (state, Inr _) \<Rightarrow> (state, Inr (int (length records)))))"

end
