(* ===== verification/Outbox_Invariant.thy ===== *)
theory Outbox_Invariant
  imports Outbox_Publisher
begin

text \<open>
  What every publisher round keeps: the consistency of the outbox with what the broker acknowledged,
  and the order in which its rows may change.
\<close>

section \<open>The invariant of the outbox\<close>

text \<open>The message of a row never changes; a record in flight carries the message of its row.\<close>

definition same_message :: "outbox_row \<Rightarrow> outbox_row \<Rightarrow> bool" where
  "same_message r r' \<longleftrightarrow>
     ob_event_id r' = ob_event_id r \<and> ob_topic r' = ob_topic r \<and>
     ob_message_key r' = ob_message_key r \<and> ob_canonical_payload r' = ob_canonical_payload r \<and>
     ob_payload_hash r' = ob_payload_hash r \<and> ob_created_at r' = ob_created_at r"

definition carries :: "outbox_record \<Rightarrow> outbox_row \<Rightarrow> bool" where
  "carries rec r \<longleftrightarrow>
     or_event_id rec = ob_event_id r \<and> or_topic rec = ob_topic r \<and>
     or_message_key rec = ob_message_key r \<and> or_payload rec = ob_canonical_payload r"

definition acknowledged :: "broker_log \<Rightarrow> outbox_row \<Rightarrow> bool" where
  "acknowledged log r \<longleftrightarrow>
     (\<exists>rec coordinate. (rec, coordinate) \<in> set log \<and> carries rec r \<and>
        ob_kafka_partition r = Some (fst coordinate) \<and> ob_kafka_offset r = Some (snd coordinate))"

definition outbox_row_ok :: "broker_log \<Rightarrow> outbox_row \<Rightarrow> bool" where
  "outbox_row_ok log r \<longleftrightarrow>
     0 \<le> ob_publish_attempts r \<and>
     (ob_lease_token r = None \<longleftrightarrow> ob_lease_expires_at r = None) \<and>
     (ob_published_at r \<noteq> None \<longrightarrow> ob_lease_token r = None \<and> acknowledged log r)"

definition pub_inv :: "service \<Rightarrow> scheduler_db \<times> broker_log \<Rightarrow> bool" where
  "pub_inv svc state \<longleftrightarrow>
     (\<forall>i r. dict_get (db_outbox (fst state)) i = Some r \<longrightarrow>
        ob_event_id r = i \<and> outbox_row_ok (snd state) r \<and>
        (\<forall>t. ob_lease_token r = Some t \<longrightarrow> t \<in> drawn svc (fst state))) \<and>
     wf_dict (db_outbox (fst state))"

text \<open>How the outbox moves: no row is lost, a published row is final, the broker never forgets.\<close>

definition ob_row_le :: "outbox_row \<Rightarrow> outbox_row \<Rightarrow> bool" where
  "ob_row_le r r' \<longleftrightarrow>
     same_message r r' \<and> ob_publish_attempts r \<le> ob_publish_attempts r' \<and>
     (ob_published_at r \<noteq> None \<longrightarrow> r' = r)"

definition pub_le :: "scheduler_db \<times> broker_log \<Rightarrow> scheduler_db \<times> broker_log \<Rightarrow> bool" where
  "pub_le s s' \<longleftrightarrow>
     (\<forall>i r. dict_get (db_outbox (fst s)) i = Some r \<longrightarrow>
        (\<exists>r'. dict_get (db_outbox (fst s')) i = Some r' \<and> ob_row_le r r')) \<and>
     prefix (snd s) (snd s') \<and> db_uuids (fst s) \<le> db_uuids (fst s')"

lemma ob_row_le_refl [simp]: "ob_row_le r r"
  by (simp add: ob_row_le_def same_message_def)

lemma ob_row_le_trans: "ob_row_le r s \<Longrightarrow> ob_row_le s t \<Longrightarrow> ob_row_le r t"
  by (auto simp: ob_row_le_def same_message_def)

lemma pub_le_refl [simp]: "pub_le s s"
  by (auto simp: pub_le_def)

lemma pub_le_trans: "pub_le a b \<Longrightarrow> pub_le b c \<Longrightarrow> pub_le a c"
  unfolding pub_le_def by (meson ob_row_le_trans prefix_order.order_trans order_trans)

lemma acknowledged_mono: "acknowledged log r \<Longrightarrow> prefix log log' \<Longrightarrow> acknowledged log' r"
  unfolding acknowledged_def using set_mono_prefix by blast

lemma outbox_row_ok_mono: "outbox_row_ok log r \<Longrightarrow> prefix log log' \<Longrightarrow> outbox_row_ok log' r"
  using acknowledged_mono by (auto simp: outbox_row_ok_def)

text \<open>A record in flight has a row with its message, and keeps it.\<close>

definition in_flight :: "scheduler_db \<times> broker_log \<Rightarrow> outbox_record \<Rightarrow> bool" where
  "in_flight s rec \<longleftrightarrow>
     (\<exists>r. dict_get (db_outbox (fst s)) (or_event_id rec) = Some r \<and> carries rec r)"

lemma in_flight_mono: "in_flight s rec \<Longrightarrow> pub_le s s' \<Longrightarrow> in_flight s' rec"
proof -
  assume "in_flight s rec" and le: "pub_le s s'"
  then obtain r where r: "dict_get (db_outbox (fst s)) (or_event_id rec) = Some r" "carries rec r"
    by (auto simp: in_flight_def)
  then obtain r' where "dict_get (db_outbox (fst s')) (or_event_id rec) = Some r'" "ob_row_le r r'"
    using le unfolding pub_le_def by blast
  then show "in_flight s' rec"
    using r(2) by (auto simp: in_flight_def carries_def ob_row_le_def same_message_def)
qed

text \<open>The broker acknowledges one more record.\<close>

lemma acknowledge_ok:
  "pub_inv svc (db, log) \<Longrightarrow> pub_inv svc (db, log @ acks) \<and> pub_le (db, log) (db, log @ acks)"
  using outbox_row_ok_mono [of log _ "log @ acks"] by (auto simp: pub_inv_def pub_le_def)

section \<open>Fenced updates of the outbox\<close>

lemma put_outbox_get:
  "dict_get (db_outbox (put_outbox r db)) i =
     (if i = ob_event_id r then Some r else dict_get (db_outbox db) i)"
  by (simp add: put_outbox_def dict_rules)

lemma put_outbox_frame [simp]:
  "db_jobs (put_outbox r db) = db_jobs db" "db_attempts (put_outbox r db) = db_attempts db"
  "db_uuids (put_outbox r db) = db_uuids db" "drawn svc (put_outbox r db) = drawn svc db"
  by (simp_all add: put_outbox_def drawn_def)

lemma put_outbox_ok:
  assumes inv: "pub_inv svc (db, log)" and r: "dict_get (db_outbox db) (ob_event_id r) = Some r"
    and le: "ob_row_le r r'" and ok: "outbox_row_ok log r'"
    and token: "\<And>t. ob_lease_token r' = Some t \<Longrightarrow> t \<in> drawn svc db"
  shows "pub_inv svc (put_outbox r' db, log) \<and> pub_le (db, log) (put_outbox r' db, log)"
proof -
  have id: "ob_event_id r' = ob_event_id r" using le by (simp add: ob_row_le_def same_message_def)
  have "wf_dict (db_outbox (put_outbox r' db))"
    using inv by (simp add: pub_inv_def put_outbox_def wf_dict_put)
  moreover have "ob_event_id q = i \<and> outbox_row_ok log q \<and> (\<forall>t. ob_lease_token q = Some t \<longrightarrow> t \<in> drawn svc db)"
    if "dict_get (db_outbox (put_outbox r' db)) i = Some q" for i q
  proof (cases "i = ob_event_id r")
    case True
    then show ?thesis using that id ok token by (simp add: put_outbox_get)
  next
    case False
    then show ?thesis using that id inv by (simp add: put_outbox_get pub_inv_def)
  qed
  moreover have "\<exists>q'. dict_get (db_outbox (put_outbox r' db)) i = Some q' \<and> ob_row_le q q'"
    if "dict_get (db_outbox db) i = Some q" for i q
    using that r id le by (cases "i = ob_event_id r") (simp_all add: put_outbox_get)
  ultimately show ?thesis by (simp add: pub_inv_def pub_le_def)
qed

lemma leased_update_ok:
  assumes inv: "pub_inv svc (db, log)"
    and f: "\<And>r. dict_get (db_outbox db) (or_event_id rec) = Some r \<Longrightarrow>
      ob_lease_token r = Some (or_lease_token rec) \<Longrightarrow> outbox_row_ok log r \<Longrightarrow>
      same_message r (f r) \<and> ob_publish_attempts r \<le> ob_publish_attempts (f r) \<and>
      outbox_row_ok log (f r) \<and> ob_lease_token (f r) = None"
  shows "pub_inv svc (leased_update rec f db, log) \<and>
    pub_le (db, log) (leased_update rec f db, log)"
proof (cases "dict_get (db_outbox db) (or_event_id rec)")
  case None
  then show ?thesis using inv by (simp add: leased_update_def)
next
  case (Some r)
  show ?thesis
  proof (cases "ob_lease_token r = Some (or_lease_token rec)")
    case False
    then show ?thesis using inv Some by (simp add: leased_update_def)
  next
    case True
    have r: "ob_event_id r = or_event_id rec" "outbox_row_ok log r"
      using inv Some by (simp_all add: pub_inv_def)
    note fr = f [OF Some True r(2)]
    have "ob_published_at r = None" using r(2) True by (auto simp: outbox_row_ok_def)
    then have "ob_row_le r (f r)" using fr by (simp add: ob_row_le_def)
    then show ?thesis
      using put_outbox_ok [OF inv, of r "f r"] fr Some r(1) True by (simp add: leased_update_def)
  qed
qed

lemma release_lease_fields [simp]:
  "same_message r ((release_lease r)\<lparr>ob_published_at := p, ob_kafka_partition := a,
     ob_kafka_offset := b, ob_last_error := e\<rparr>)"
  "same_message r ((release_lease r)\<lparr>ob_publish_attempts := n, ob_last_error := e,
     ob_next_attempt_at := t\<rparr>)"
  by (simp_all add: same_message_def release_lease_def)

lemma published_ok:
  assumes inv: "pub_inv svc (db, log)" and rec: "in_flight (db, log) rec"
    and ack: "(rec, coordinate) \<in> set log"
  shows "pub_inv svc (published now rec coordinate db, log) \<and>
    pub_le (db, log) (published now rec coordinate db, log)"
  unfolding published_def
proof (rule leased_update_ok [OF inv])
  fix r assume r: "dict_get (db_outbox db) (or_event_id rec) = Some r"
    and ok: "outbox_row_ok log r"
  have "carries rec r" using rec r by (simp add: in_flight_def)
  then show "same_message r ((release_lease r)\<lparr>
        ob_published_at := Some now, ob_kafka_partition := Some (fst coordinate),
        ob_kafka_offset := Some (snd coordinate), ob_last_error := None\<rparr>) \<and>
      ob_publish_attempts r \<le> ob_publish_attempts ((release_lease r)\<lparr>
        ob_published_at := Some now, ob_kafka_partition := Some (fst coordinate),
        ob_kafka_offset := Some (snd coordinate), ob_last_error := None\<rparr>) \<and>
      outbox_row_ok log ((release_lease r)\<lparr>
        ob_published_at := Some now, ob_kafka_partition := Some (fst coordinate),
        ob_kafka_offset := Some (snd coordinate), ob_last_error := None\<rparr>) \<and>
      ob_lease_token ((release_lease r)\<lparr>
        ob_published_at := Some now, ob_kafka_partition := Some (fst coordinate),
        ob_kafka_offset := Some (snd coordinate), ob_last_error := None\<rparr>) = None"
    using ack ok
    by (auto simp: outbox_row_ok_def acknowledged_def release_lease_def carries_def same_message_def)
qed

lemma failed_ok:
  assumes inv: "pub_inv svc (db, log)"
  shows "pub_inv svc (fst (failed p uniform now rec err db), log) \<and>
    pub_le (db, log) (fst (failed p uniform now rec err db), log)"
proof (cases "backoff_ceiling p (or_attempts rec)")
  case (Inl e)
  then show ?thesis using inv by (simp add: failed_def)
next
  case (Inr ceiling)
  have "pub_inv svc (leased_update rec (\<lambda>r. (release_lease r)\<lparr>
          ob_publish_attempts := ob_publish_attempts r + 1, ob_last_error := e,
          ob_next_attempt_at := t\<rparr>) db, log) \<and>
      pub_le (db, log) (leased_update rec (\<lambda>r. (release_lease r)\<lparr>
          ob_publish_attempts := ob_publish_attempts r + 1, ob_last_error := e,
          ob_next_attempt_at := t\<rparr>) db, log)" for e t
    by (rule leased_update_ok [OF inv]) (auto simp: outbox_row_ok_def release_lease_def same_message_def)
  then show ?thesis using Inr by (simp add: failed_def Let_def)
qed

section \<open>Leasing\<close>

lemma fold_put_outbox_get:
  "distinct (map ob_event_id rs) \<Longrightarrow>
   dict_get (db_outbox (fold put_outbox rs db)) i =
     (case find (\<lambda>r. ob_event_id r = i) rs of Some r \<Rightarrow> Some r | None \<Rightarrow> dict_get (db_outbox db) i)"
proof (induction rs arbitrary: db)
  case (Cons r rs)
  have "find (\<lambda>q. ob_event_id q = i) rs = None" if "ob_event_id r = i"
    using Cons.prems that by (force simp: find_None_iff image_iff)
  then show ?case
    using Cons by (auto simp: put_outbox_get split: option.split)
qed simp

lemma fold_put_outbox_frame [simp]:
  "db_jobs (fold put_outbox rs db) = db_jobs db"
  "db_attempts (fold put_outbox rs db) = db_attempts db"
  "db_uuids (fold put_outbox rs db) = db_uuids db"
  by (induction rs arbitrary: db) simp_all

lemma distinct_map_filter: "distinct (map f xs) \<Longrightarrow> distinct (map f (filter P xs))"
  by (induction xs) auto

lemma find_distinct:
  "distinct (map f xs) \<Longrightarrow> x \<in> set xs \<Longrightarrow> find (\<lambda>y. f y = f x) xs = Some x"
  by (induction xs) auto

lemma outbox_values:
  assumes "pub_inv svc (db, log)"
  shows "r \<in> set (dict_values (db_outbox db)) \<longleftrightarrow> dict_get (db_outbox db) (ob_event_id r) = Some r"
    and "distinct (map ob_event_id (dict_values (db_outbox db)))"
proof -
  have wf: "wf_dict (db_outbox db)"
    and id: "\<And>i r. dict_get (db_outbox db) i = Some r \<Longrightarrow> ob_event_id r = i"
    using assms by (simp_all add: pub_inv_def)
  show "r \<in> set (dict_values (db_outbox db)) \<longleftrightarrow> dict_get (db_outbox db) (ob_event_id r) = Some r"
    using pd.vals_get [OF wf, of r] id by blast
  have keys: "map ob_event_id (dict_values (db_outbox db)) = dict_keys (db_outbox db)"
    unfolding map_map by (rule map_cong) (use wf id in \<open>auto simp: wf_dict_def map_of_eq_Some_iff\<close>)
  show "distinct (map ob_event_id (dict_values (db_outbox db)))"
    unfolding keys using wf by (simp only: wf_dict_def)
qed

lemma lease_due_rows:
  assumes "pub_inv svc (db, log)"
  shows "distinct (map ob_event_id (lease_due now locked limit db))"
    and "r \<in> set (lease_due now locked limit db) \<Longrightarrow>
      dict_get (db_outbox db) (ob_event_id r) = Some r \<and> ob_published_at r = None \<and>
      ob_next_attempt_at r \<le> now \<and> ob_event_id r \<notin> locked"
proof -
  show "distinct (map ob_event_id (lease_due now locked limit db))"
    unfolding lease_due_def
    by (intro distinct_map_take distinct_map_sort distinct_map_filter outbox_values(2) [OF assms])
  show "dict_get (db_outbox db) (ob_event_id r) = Some r \<and> ob_published_at r = None \<and>
      ob_next_attempt_at r \<le> now \<and> ob_event_id r \<notin> locked"
    if "r \<in> set (lease_due now locked limit db)"
  proof -
    have "r \<in> set (sort_key (\<lambda>r. (ob_next_attempt_at r, ob_created_at r))
         (filter (\<lambda>r. ob_published_at r = None \<and> ob_next_attempt_at r \<le> now \<and>
                      (case ob_lease_expires_at r of None \<Rightarrow> True | Some t \<Rightarrow> t < now) \<and>
                      ob_event_id r \<notin> locked)
           (dict_values (db_outbox db))))"
      using that unfolding lease_due_def by (rule in_set_takeD)
    then show ?thesis using outbox_values(1) [OF assms, of r] by auto
  qed
qed

lemma lease_row_fields [simp]:
  "ob_event_id (lease_row p t now r) = ob_event_id r"
  "ob_published_at (lease_row p t now r) = ob_published_at r"
  "ob_publish_attempts (lease_row p t now r) = ob_publish_attempts r"
  "ob_lease_token (lease_row p t now r) = Some t"
  "same_message r (lease_row p t now r)"
  by (simp_all add: lease_row_def same_message_def)

lemma pub_inv_draw:
  "pub_inv svc (db, log) \<Longrightarrow> pub_inv svc (db\<lparr>db_uuids := Suc (db_uuids db)\<rparr>, log)"
  unfolding pub_inv_def using drawn_mono [of db "db\<lparr>db_uuids := Suc (db_uuids db)\<rparr>" svc] by auto

lemma lease_rows_ok:
  "pub_inv svc (db1, log) \<Longrightarrow> token \<in> drawn svc db1 \<Longrightarrow> distinct (map ob_event_id rs) \<Longrightarrow>
   (\<And>r. r \<in> set rs \<Longrightarrow> \<exists>q. r = lease_row p token now q \<and>
      dict_get (db_outbox db1) (ob_event_id q) = Some q \<and> ob_published_at q = None) \<Longrightarrow>
   pub_inv svc (fold put_outbox rs db1, log) \<and> pub_le (db1, log) (fold put_outbox rs db1, log)"
proof (induction rs arbitrary: db1)
  case (Cons r rs)
  obtain q where q: "r = lease_row p token now q" "dict_get (db_outbox db1) (ob_event_id q) = Some q"
    "ob_published_at q = None"
    using Cons.prems(4) [of r] by auto
  have "outbox_row_ok log q" using Cons.prems(1) q(2) by (simp add: pub_inv_def)
  then have "outbox_row_ok log r" using q by (auto simp: outbox_row_ok_def lease_row_def)
  moreover have "ob_row_le q r" using q by (simp add: ob_row_le_def)
  ultimately have one: "pub_inv svc (put_outbox r db1, log) \<and> pub_le (db1, log) (put_outbox r db1, log)"
    using put_outbox_ok [OF Cons.prems(1) q(2), of r] q(1) Cons.prems(2) by simp
  have "\<exists>q. s = lease_row p token now q \<and>
      dict_get (db_outbox (put_outbox r db1)) (ob_event_id q) = Some q \<and> ob_published_at q = None"
    if s: "s \<in> set rs" for s
  proof -
    obtain q' where "s = lease_row p token now q'"
      "dict_get (db_outbox db1) (ob_event_id q') = Some q'" "ob_published_at q' = None"
      using Cons.prems(4) [of s] s by auto
    moreover from this have "ob_event_id q' \<noteq> ob_event_id r"
      using Cons.prems(3) s by (force simp: image_iff)
    ultimately show ?thesis by (auto simp: put_outbox_get)
  qed
  then show ?case
    using Cons.IH [of "put_outbox r db1"] one Cons.prems(2,3) pub_le_trans by auto
qed simp

text \<open>What a lease does: it stamps the due rows with one fresh token and hands out their messages.\<close>

lemma lease_effect:
  fixes svc p now locked db
  defines "token \<equiv> sv_uuid svc (db_uuids db)"
  assumes inv: "pub_inv svc (db, log)" and l: "lease svc p now locked db = (db', records)"
  shows "pub_inv svc (db', log)" and "pub_le (db, log) (db', log)"
    and "db_jobs db' = db_jobs db \<and> db_attempts db' = db_attempts db"
    and "records = map record_of (map (lease_row p token now) (lease_due now locked (pb_batch_size p) db))"
    and "rec \<in> set records \<Longrightarrow> in_flight (db', log) rec"
    and "dict_get (db_outbox db') i =
      (case find (\<lambda>r. ob_event_id r = i) (lease_due now locked (pb_batch_size p) db) of
         Some r \<Rightarrow> Some (lease_row p token now r) | None \<Rightarrow> dict_get (db_outbox db) i)"
proof -
  let ?db1 = "db\<lparr>db_uuids := Suc (db_uuids db)\<rparr>"
  let ?due = "lease_due now locked (pb_batch_size p) db"
  let ?rows = "map (lease_row p token now) ?due"
  have due: "lease_due now locked (pb_batch_size p) ?db1 = ?due" by (simp add: lease_due_def)
  have db': "db' = fold put_outbox ?rows ?db1" and recs: "records = map record_of ?rows"
    using l due by (auto simp: lease_def gen_uuid_def token_def Let_def)
  have dist: "distinct (map ob_event_id ?rows)"
    using lease_due_rows(1) [OF inv] by (simp add: comp_def)
  have find_rows: "find (\<lambda>r. ob_event_id r = i) (map (lease_row p token now) rs) =
      map_option (lease_row p token now) (find (\<lambda>r. ob_event_id r = i) rs)" for rs i
    by (induction rs) simp_all
  show get: "dict_get (db_outbox db') i =
      (case find (\<lambda>r. ob_event_id r = i) ?due of
         Some r \<Rightarrow> Some (lease_row p token now r) | None \<Rightarrow> dict_get (db_outbox db) i)" for i
    unfolding db' fold_put_outbox_get [OF dist] find_rows by (simp split: option.split)
  have tok: "token \<in> drawn svc ?db1" by (auto simp: token_def drawn_def)
  have "\<exists>q. r = lease_row p token now q \<and> dict_get (db_outbox ?db1) (ob_event_id q) = Some q \<and>
      ob_published_at q = None" if "r \<in> set ?rows" for r
    using that lease_due_rows(2) [OF inv] by auto
  note rows = lease_rows_ok [OF pub_inv_draw [OF inv] tok dist this]
  have main: "pub_inv svc (db', log) \<and> pub_le (?db1, log) (db', log)"
    unfolding db' by (rule rows)
  moreover have "pub_le (db, log) (?db1, log)" by (auto simp: pub_le_def)
  ultimately show "pub_inv svc (db', log)" "pub_le (db, log) (db', log)" using pub_le_trans by blast+
  show "db_jobs db' = db_jobs db \<and> db_attempts db' = db_attempts db" by (simp add: db')
  show "records = map record_of ?rows" by (rule recs)
  show "in_flight (db', log) rec" if rec: "rec \<in> set records"
  proof -
    obtain r where r: "r \<in> set ?due" "rec = record_of (lease_row p token now r)"
      using rec unfolding recs by auto
    have "find (\<lambda>q. ob_event_id q = ob_event_id r) ?due = Some r"
      using find_distinct [of ob_event_id ?due r] lease_due_rows(1) [OF inv] r(1) by blast
    then show ?thesis
      using get [of "ob_event_id r"] r(2)
      by (simp add: in_flight_def record_of_def carries_def lease_row_def)
  qed
qed

section \<open>A round of the publisher\<close>

text \<open>Other processes keep the outbox consistent and only move it forward.\<close>

definition outbox_work :: "service \<Rightarrow> (scheduler_db \<times> broker_log \<Rightarrow> scheduler_db \<times> broker_log) \<Rightarrow> bool" where
  "outbox_work svc f \<longleftrightarrow> (\<forall>s. pub_inv svc s \<longrightarrow> pub_inv svc (f s) \<and> pub_le s (f s))"

lemma publish_record_ok:
  assumes inv: "pub_inv svc s" and rec: "in_flight s rec" and work: "outbox_work svc (se_meanwhile env)"
  shows "pub_inv svc (fst (publish_record p env rec s)) \<and> pub_le s (fst (publish_record p env rec s))"
proof -
  obtain db log where s: "s = (db, log)" by (cases s)
  obtain ack outcome where send: "send env rec = (ack, outcome)" by fastforce
  let ?log = "case ack of None \<Rightarrow> log | Some coordinate \<Rightarrow> log @ [(rec, coordinate)]"
  have one: "pub_inv svc (db, ?log) \<and> pub_le s (db, ?log)"
    using acknowledge_ok inv s by (cases ack) auto
  obtain db2 log2 where two: "se_meanwhile env (db, ?log) = (db2, log2)" by fastforce
  have "pub_inv svc (se_meanwhile env (db, ?log)) \<and> pub_le (db, ?log) (se_meanwhile env (db, ?log))"
    using one work unfolding outbox_work_def by blast
  then have inv2: "pub_inv svc (db2, log2)" and le2: "pub_le (db, ?log) (db2, log2)"
    by (simp_all only: two)
  have le: "pub_le s (db2, log2)" using one le2 pub_le_trans by blast
  show ?thesis
  proof (cases outcome)
    case (Inl err)
    have "fst (publish_record p env rec s) =
        (fst (failed p (se_uniform env) (se_failed_now env) rec (exn_class err) db2), log2)"
      using s send two Inl by (simp add: publish_record_def Let_def split: prod.split)
    then show ?thesis
      using failed_ok [OF inv2, of p "se_uniform env" "se_failed_now env" rec "exn_class err"]
        pub_le_trans [OF le] by simp
  next
    case (Inr coordinate)
    then have "ack = Some coordinate"
      using send by (auto simp: send_def split: option.splits sum.splits)
    then have "(rec, coordinate) \<in> set log2"
      using le2 set_mono_prefix by (fastforce simp: pub_le_def)
    moreover have "in_flight (db2, log2) rec" using rec le in_flight_mono by blast
    ultimately have "pub_inv svc (published (se_published_now env) rec coordinate db2, log2) \<and>
        pub_le (db2, log2) (published (se_published_now env) rec coordinate db2, log2)"
      using published_ok [OF inv2] by blast
    moreover have "fst (publish_record p env rec s) =
        (published (se_published_now env) rec coordinate db2, log2)"
      using s send two Inr by (simp add: publish_record_def Let_def)
    ultimately show ?thesis using pub_le_trans [OF le] by simp
  qed
qed

lemma publish_all_ok:
  "pub_inv svc s \<Longrightarrow> (\<And>rec. rec \<in> set recs \<Longrightarrow> in_flight s rec) \<Longrightarrow>
   (\<And>n. outbox_work svc (se_meanwhile (env n))) \<Longrightarrow>
   pub_inv svc (fst (publish_all p env position recs s)) \<and>
   pub_le s (fst (publish_all p env position recs s))"
proof (induction recs arbitrary: s position)
  case (Cons rec recs)
  let ?one = "publish_record p (env position) rec s"
  have one: "pub_inv svc (fst ?one)" "pub_le s (fst ?one)"
    using publish_record_ok [OF Cons.prems(1)] Cons.prems(2,3) by simp_all
  show ?case
  proof (cases "snd ?one")
    case (Inl err)
    then show ?thesis using one by (cases ?one) simp
  next
    case (Inr u)
    have "in_flight (fst ?one) q" if "q \<in> set recs" for q
      using Cons.prems(2) [of q] that one(2) in_flight_mono by simp
    note rest = Cons.IH [OF one(1) this Cons.prems(3), of "Suc position"]
    show ?thesis using Inr rest pub_le_trans [OF one(2)] by (cases ?one) simp
  qed
qed simp

lemma round_ok:
  assumes inv: "pub_inv svc s" and work: "\<And>n. outbox_work svc (se_meanwhile (env n))"
  shows "pub_inv svc (fst (publisher_run_once svc p stopping now locked env s)) \<and>
    pub_le s (fst (publisher_run_once svc p stopping now locked env s))"
proof (cases stopping)
  case True
  then show ?thesis using inv by (simp add: publisher_run_once_def)
next
  case False
  obtain db log where s: "s = (db, log)" by (cases s)
  obtain db1 records where l: "lease svc p now locked db = (db1, records)" by fastforce
  have inv0: "pub_inv svc (db, log)" using inv s by simp
  note eff = lease_effect [OF inv0 l]
  have "fst (publisher_run_once svc p stopping now locked env s) =
      fst (publish_all p env 0 records (db1, log))"
    using False s l by (auto simp: publisher_run_once_def Let_def split: prod.split sum.split)
  moreover have "pub_inv svc (fst (publish_all p env 0 records (db1, log))) \<and>
      pub_le (db1, log) (fst (publish_all p env 0 records (db1, log)))"
    by (rule publish_all_ok [OF eff(1,5) work])
  ultimately show ?thesis using eff(2) s pub_le_trans by auto
qed

end
