(* ===== verification/Outbox_Properties.thy ===== *)
theory Outbox_Properties
  imports Outbox_Invariant
begin

text \<open>
  The publisher beside the scheduler: scheduler transactions only append to the outbox, so publisher
  and scheduler tolerate each other; and what a round guarantees.
\<close>

section \<open>Scheduler transactions only append to the outbox\<close>

definition fresh_row :: "outbox_row \<Rightarrow> bool" where
  "fresh_row r \<longleftrightarrow>
     ob_published_at r = None \<and> ob_publish_attempts r = 0 \<and> ob_lease_token r = None \<and>
     ob_lease_expires_at r = None"

definition appends :: "scheduler_db \<Rightarrow> scheduler_db \<Rightarrow> bool" where
  "appends db db' \<longleftrightarrow>
     db_uuids db \<le> db_uuids db' \<and>
     (wf_dict (db_outbox db) \<longrightarrow> wf_dict (db_outbox db')) \<and>
     (\<exists>rows. db_outbox db' = db_outbox db @ map (\<lambda>r. (ob_event_id r, r)) rows \<and> list_all fresh_row rows)"

lemma appends_same: "db_outbox db' = db_outbox db \<Longrightarrow> db_uuids db \<le> db_uuids db' \<Longrightarrow> appends db db'"
  unfolding appends_def by (intro conjI exI [of _ "[]"]) simp_all

lemma appends_refl [simp]: "appends db db"
  by (simp add: appends_same)

lemma appends_trans: "appends a b \<Longrightarrow> appends b c \<Longrightarrow> appends a c"
proof -
  assume ab: "appends a b" and bc: "appends b c"
  obtain rs where rs: "db_outbox b = db_outbox a @ map (\<lambda>r. (ob_event_id r, r)) rs" "list_all fresh_row rs"
    using ab unfolding appends_def by blast
  obtain qs where qs: "db_outbox c = db_outbox b @ map (\<lambda>r. (ob_event_id r, r)) qs" "list_all fresh_row qs"
    using bc unfolding appends_def by blast
  have "db_outbox c = db_outbox a @ map (\<lambda>r. (ob_event_id r, r)) (rs @ qs)" "list_all fresh_row (rs @ qs)"
    using rs qs by simp_all
  moreover have "db_uuids a \<le> db_uuids c" "wf_dict (db_outbox a) \<longrightarrow> wf_dict (db_outbox c)"
    using ab bc by (simp_all add: appends_def)
  ultimately show "appends a c" unfolding appends_def by blast
qed

lemma add_event_appends: "add_event svc now e db = Inr db' \<Longrightarrow> appends db db'"
proof -
  let ?u = "sv_uuid svc (db_uuids db)"
  let ?row = "outbox_row_of svc now (stamped svc (db_uuids db) e)"
  assume a: "add_event svc now e db = Inr db'"
  then have "?u \<notin> set (dict_keys (db_outbox db))"
    using pd.get_keys [of "db_outbox db" ?u] by (simp add: add_event_Inr del: set_map)
  moreover have "ob_event_id ?row = ?u" "fresh_row ?row"
    by (simp_all add: outbox_row_of_def stamped_def fresh_row_def)
  ultimately have "db_outbox db' = db_outbox db @ map (\<lambda>r. (ob_event_id r, r)) [?row]"
    "list_all fresh_row [?row]" "db_uuids db \<le> db_uuids db'"
    using a by (simp_all add: add_event_Inr dict_put_new)
  moreover have "wf_dict (db_outbox db) \<longrightarrow> wf_dict (db_outbox db')"
    using a by (auto simp: add_event_Inr wf_dict_put)
  ultimately show "appends db db'" unfolding appends_def by blast
qed

lemma add_events_appends: "add_events svc now es db = Inr db' \<Longrightarrow> appends db db'"
proof (induction es arbitrary: db)
  case (Cons e es)
  then obtain db1 where "add_event svc now e db = Inr db1" "add_events svc now es db1 = Inr db'"
    by (auto simp: bind_result_Inr_iff)
  then show ?case using Cons.IH add_event_appends appends_trans by blast
qed simp

lemma write_job_appends: "write_job r db = Inr db' \<Longrightarrow> appends db db'"
  by (intro appends_same) (auto simp: write_job_Inr)

lemma update_attempt_appends: "appends db (update_attempt key f db)"
  by (intro appends_same) simp_all

lemma insert_attempt_appends: "insert_attempt key a db = Inr db' \<Longrightarrow> appends db db'"
  by (intro appends_same) (auto simp: insert_attempt_Inr)

lemma write_rows_appends: "write_rows rs db = Inr db' \<Longrightarrow> appends db db'"
proof (induction rs arbitrary: db)
  case (Cons r rs)
  then obtain db1 where "write_job r db = Inr db1" "write_rows rs db1 = Inr db'"
    by (auto simp: bind_result_Inr_iff)
  then show ?case using Cons.IH write_job_appends appends_trans by blast
qed simp

lemma claim_rows_appends: "claim_rows svc owner now rs db = Inr (db', cs) \<Longrightarrow> appends db db'"
proof (induction rs arbitrary: db cs)
  case (Cons r rs)
  let ?u = "sv_uuid svc (db_uuids db)"
  let ?db0 = "db\<lparr>db_uuids := Suc (db_uuids db)\<rparr>"
  obtain db1 ds where "write_job (claim_row svc owner ?u now r) ?db0 = Inr db1"
    "claim_rows svc owner now rs db1 = Inr (db', ds)"
    using Cons.prems by (auto simp: bind_result_Inr_iff gen_uuid_def Let_def)
  moreover have "appends db ?db0" by (intro appends_same) simp_all
  ultimately show ?case using Cons.IH write_job_appends appends_trans by blast
qed simp

lemma record_claims_appends: "record_claims svc owner now jobs db = Inr db' \<Longrightarrow> appends db db'"
proof (induction jobs arbitrary: db)
  case (Cons job jobs)
  then obtain key a db1 e db2 where "insert_attempt key a db = Inr db1"
    "add_event svc now e db1 = Inr db2" "record_claims svc owner now jobs db2 = Inr db'"
    by (auto simp: bind_result_Inr_iff)
  then have "appends db db1" "appends db1 db2" "appends db2 db'"
    using Cons.IH insert_attempt_appends add_event_appends by blast+
  then show ?case using appends_trans by blast
qed simp

lemma fenced_update_appends: "fenced_update now job f db = Inr (db', r) \<Longrightarrow> appends db db'"
  by (auto simp: fenced_update_Inr intro: write_job_appends)

lemma transaction_appends:
  "(\<And>db' a. body db = Inr (db', a) \<Longrightarrow> appends db db') \<Longrightarrow> appends db (fst (transaction body db))"
  by (rule transaction_commit) simp_all

lemma completion_appends:
  assumes "fenced_update now job f db = Inr (db1, r)"
    and "add_events svc now es (update_attempt key g db1) = Inr db2"
  shows "appends db db2"
  using fenced_update_appends [OF assms(1)] update_attempt_appends add_events_appends [OF assms(2)]
    appends_trans by blast

lemma start_appends: "appends db (fst (start svc now job db))"
  unfolding start_def
  by (rule transaction_appends)
    (auto simp: bind_result_Inr_iff Let_def add_events_single intro: completion_appends simp del: add_events.simps)

lemma heartbeat_appends: "appends db (fst (heartbeat svc now job db))"
  unfolding heartbeat_def
  by (rule transaction_appends) (auto simp: bind_result_Inr_iff intro: fenced_update_appends)

lemma succeed_appends: "appends db (fst (succeed svc now job summary db))"
  unfolding succeed_alt
  by (rule transaction_appends) (auto simp: bind_result_Inr_iff intro: completion_appends simp del: add_events.simps)

lemma fail_appends: "appends db (fst (fail svc now now' job code b db))"
  unfolding fail_alt
  by (rule transaction_appends) (auto simp: bind_result_Inr_iff intro: completion_appends simp del: add_events.simps)

lemma claim_due_appends: "appends db (fst (claim_due svc now now' locked owner limit db))"
proof -
  have "appends db db'" if "claim_rows svc owner now rs db = Inr (db1, cs)"
    "record_claims svc owner now' js db1 = Inr db'" for rs db1 cs js db'
    using claim_rows_appends [OF that(1)] record_claims_appends [OF that(2)] appends_trans by blast
  then show ?thesis
    unfolding claim_due_def by (auto simp: bind_result_Inr_iff Let_def intro!: transaction_appends)
qed

lemma recover_appends: "appends db (fst (recover_expired_claims now locked limit db))"
  unfolding recover_expired_claims_def
  by (rule transaction_appends) (auto simp: bind_result_Inr_iff Let_def intro: write_rows_appends)

lemma submit_appends: "appends db (fst (submit_checked svc faults now v db))"
proof -
  have "fst (submit_checked svc faults now v db) = db \<or> (\<exists>db1 es.
      write_job (new_job_row v now) db = Inr db1 \<and>
      add_events svc now es db1 = Inr (fst (submit_checked svc faults now v db)))"
    using submit_effect [of svc faults now v db] by metis
  then show ?thesis
    using write_job_appends add_events_appends appends_trans by (metis appends_refl)
qed

lemma sched_step_appends: "appends (ss_db s) (ss_db (sched_step svc s op))"
  using submit_appends claim_due_appends start_appends heartbeat_appends succeed_appends
    fail_appends recover_appends
  by (cases op) (auto simp: on_issued_def split: sum.split prod.split, metis fst_conv, metis fst_conv)

lemma appends_ok:
  assumes inv: "pub_inv svc (db, log)" and app: "appends db db'"
  shows "pub_inv svc (db', log) \<and> pub_le (db, log) (db', log)"
proof -
  obtain rows where rows: "db_outbox db' = db_outbox db @ map (\<lambda>r. (ob_event_id r, r)) rows"
    "list_all fresh_row rows"
    using app unfolding appends_def by blast
  have wf: "wf_dict (db_outbox db')" and uuids: "db_uuids db \<le> db_uuids db'"
    using app inv by (auto simp: appends_def pub_inv_def)
  have old: "dict_get (db_outbox db') i = Some r" if "dict_get (db_outbox db) i = Some r" for i r
    using that by (simp add: rows map_add_def)
  have new: "dict_get (db_outbox db) i = Some r \<or> (ob_event_id r = i \<and> fresh_row r)"
    if "dict_get (db_outbox db') i = Some r" for i r
    using that rows by (auto simp: list_all_iff dest!: map_of_SomeD split: option.splits)
  have "ob_event_id r = i \<and> outbox_row_ok log r \<and> (\<forall>t. ob_lease_token r = Some t \<longrightarrow> t \<in> drawn svc db')"
    if "dict_get (db_outbox db') i = Some r" for i r
    using new [OF that]
  proof
    assume "dict_get (db_outbox db) i = Some r"
    then show ?thesis using inv drawn_mono [OF uuids, of svc] by (auto simp: pub_inv_def)
  next
    assume "ob_event_id r = i \<and> fresh_row r"
    then show ?thesis by (simp add: fresh_row_def outbox_row_ok_def)
  qed
  then show ?thesis
    using wf uuids old by (auto simp: pub_inv_def pub_le_def)
qed

text \<open>Every scheduler operation is work the publisher tolerates.\<close>

lemma scheduler_ops_are_outbox_work:
  "outbox_work svc (\<lambda>(db, log). (ss_db (sched_step svc \<lparr>ss_db = db, ss_issued = claims\<rparr> op), log))"
  unfolding outbox_work_def
  using appends_ok sched_step_appends [of "\<lparr>ss_db = _, ss_issued = claims\<rparr>" svc op] by fastforce

lemma idle_is_outbox_work: "outbox_work svc (\<lambda>s. s)"
  by (simp add: outbox_work_def)

lemma run_appends: "appends (ss_db s) (ss_db (foldl (sched_step svc) s ops))"
proof (induction ops arbitrary: s)
  case (Cons op ops)
  then show ?case using sched_step_appends appends_trans by fastforce
qed simp

lemma run_pub_inv: "pub_inv svc (ss_db (run_scheduler svc ops), [])"
proof -
  have "pub_inv svc (empty_db, [])" by (simp add: pub_inv_def empty_db_def)
  then show ?thesis
    using appends_ok run_appends [of initial_system svc ops] by (simp add: run_scheduler_def initial_system_def)
qed

section \<open>Properties of the publisher\<close>

text \<open>
  C23. The outbox never lies and never loses: whatever a publisher round does - faults before or
  after the broker's answer, broker errors, expired leases, other publishers and schedulers at work
  in between - a row that says it is published carries the coordinate of an acknowledgement of
  exactly its message, no row disappears, no message changes, and a published row is final.
\<close>

theorem published_means_acknowledged:
  assumes "pub_inv svc s" and "\<And>n. outbox_work svc (se_meanwhile (env n))"
  shows "pub_inv svc (fst (publisher_run_once svc p stopping now locked env s)) \<and>
    pub_le s (fst (publisher_run_once svc p stopping now locked env s))"
  by (rule round_ok [where env = env, OF assms])

definition example_send :: send_env where
  "example_send =
     \<lparr>se_before_send = None, se_broker = (\<lambda>rec. Inr (0, 7)), se_after_ack = None,
      se_after_broker_ack = None, se_published_now = 20, se_failed_now = 20,
      se_uniform = (\<lambda>lo hi. lo), se_meanwhile = (\<lambda>s. s)\<rparr>"

definition example_publisher :: publisher where
  "example_publisher =
     \<lparr>pb_owner = ''publisher'', pb_batch_size = 100, pb_lease_seconds = 30,
      pb_retry_initial = seconds 1, pb_retry_max = seconds 60, pb_float = True\<rparr>"

theorem published_means_acknowledged_witness:
  "pub_inv example_service (fst (publisher_run_once example_service example_publisher False 10 {}
     (\<lambda>n. example_send\<lparr>se_after_broker_ack := Some (SyntheticFault ''CHAOS'' ''x'')\<rparr>)
     (ss_db (run_scheduler example_service example_ops), [])))"
  by (rule published_means_acknowledged [THEN conjunct1, OF run_pub_inv])
    (simp add: example_send_def idle_is_outbox_work)

text \<open>Nothing goes wrong with a record.\<close>

definition healthy :: "send_env \<Rightarrow> bool" where
  "healthy env \<longleftrightarrow>
     se_before_send env = None \<and> se_after_ack env = None \<and> se_after_broker_ack env = None \<and>
     se_meanwhile env = (\<lambda>s. s) \<and> (\<forall>rec. \<exists>coordinate. se_broker env rec = Inr coordinate)"

lemma publish_record_healthy:
  assumes "healthy env" and r: "dict_get (db_outbox db) (or_event_id rec) = Some r"
    "ob_lease_token r = Some (or_lease_token rec)" "ob_event_id r = or_event_id rec"
  shows "\<exists>db' log' r'. publish_record p env rec (db, log) = ((db', log'), Inr ()) \<and>
    (\<forall>i. dict_get (db_outbox db') i =
       (if i = or_event_id rec then Some r' else dict_get (db_outbox db) i)) \<and>
    ob_published_at r' = Some (se_published_now env) \<and> same_message r r'"
proof -
  obtain c where c: "se_broker env rec = Inr c" using assms(1) unfolding healthy_def by blast
  let ?r = "(release_lease r)\<lparr>ob_published_at := Some (se_published_now env),
      ob_kafka_partition := Some (fst c), ob_kafka_offset := Some (snd c), ob_last_error := None\<rparr>"
  have id: "ob_event_id ?r = or_event_id rec" using r(3) by (simp add: release_lease_def)
  have "publish_record p env rec (db, log) =
      ((put_outbox ?r db, log @ [(rec, c)]), Inr ())"
    using assms(1) c r by (simp add: publish_record_def send_def healthy_def published_def leased_update_def)
  moreover have "dict_get (db_outbox (put_outbox ?r db)) i =
      (if i = or_event_id rec then Some ?r else dict_get (db_outbox db) i)" for i
    by (simp only: put_outbox_get id)
  ultimately show ?thesis
    by (intro exI [of _ "put_outbox ?r db"] exI [of _ "log @ [(rec, c)]"] exI [of _ ?r]) simp
qed

lemma publish_all_healthy:
  "(\<And>n. healthy (env n)) \<Longrightarrow> distinct (map or_event_id recs) \<Longrightarrow>
   (\<And>rec. rec \<in> set recs \<Longrightarrow> \<exists>r. dict_get (db_outbox db) (or_event_id rec) = Some r \<and>
      ob_lease_token r = Some (or_lease_token rec) \<and> ob_event_id r = or_event_id rec) \<Longrightarrow>
   \<exists>db' log'. publish_all p env position recs (db, log) = ((db', log'), Inr ()) \<and>
     (\<forall>i. i \<notin> or_event_id ` set recs \<longrightarrow> dict_get (db_outbox db') i = dict_get (db_outbox db) i) \<and>
     (\<forall>rec \<in> set recs. \<exists>r'. dict_get (db_outbox db') (or_event_id rec) = Some r' \<and> ob_published_at r' \<noteq> None)"
proof (induction recs arbitrary: db log position)
  case (Cons rec recs)
  obtain r where r: "dict_get (db_outbox db) (or_event_id rec) = Some r"
    "ob_lease_token r = Some (or_lease_token rec)" "ob_event_id r = or_event_id rec"
    using Cons.prems(3) [of rec] by auto
  obtain db1 log1 r1 where one: "publish_record p (env position) rec (db, log) = ((db1, log1), Inr ())"
    and get: "\<And>i. dict_get (db_outbox db1) i = (if i = or_event_id rec then Some r1 else dict_get (db_outbox db) i)"
    and pub: "ob_published_at r1 \<noteq> None"
    using publish_record_healthy [OF Cons.prems(1) r] by blast
  have rows: "\<exists>q. dict_get (db_outbox db1) (or_event_id s) = Some q \<and>
      ob_lease_token q = Some (or_lease_token s) \<and> ob_event_id q = or_event_id s"
    if s: "s \<in> set recs" for s
  proof -
    have "or_event_id s \<noteq> or_event_id rec" using Cons.prems(2) s by (auto simp: image_iff)
    then show ?thesis using Cons.prems(3) [of s] s get by simp
  qed
  have dist: "distinct (map or_event_id recs)" using Cons.prems(2) by simp
  obtain db' log' where rest: "publish_all p env (Suc position) recs (db1, log1) = ((db', log'), Inr ())"
    "\<forall>i. i \<notin> or_event_id ` set recs \<longrightarrow> dict_get (db_outbox db') i = dict_get (db_outbox db1) i"
    "\<forall>s \<in> set recs. \<exists>r'. dict_get (db_outbox db') (or_event_id s) = Some r' \<and> ob_published_at r' \<noteq> None"
    using Cons.IH [where db = db1 and log = log1 and position = "Suc position", OF Cons.prems(1) dist rows]
    by blast
  have "or_event_id rec \<notin> or_event_id ` set recs" using Cons.prems(2) by simp
  then have "dict_get (db_outbox db') (or_event_id rec) = Some r1" using rest(2) get by simp
  then show ?case
    using one rest get pub by (intro exI [of _ db'] exI [of _ log']) auto
qed simp

text \<open>
  C24. A healthy round drains its batch: when the broker acknowledges, no fault is injected and
  nobody interferes, a round of the publisher returns the number of due rows (at most the batch
  size), every one of them is published with its message unchanged, and no other row is touched.
\<close>

theorem healthy_round_publishes_the_batch:
  assumes "pub_inv svc (db, log)" and "\<And>n. healthy (env n)"
  shows "let rows = lease_due now locked (pb_batch_size p) db in
    \<exists>db' log'. publisher_run_once svc p False now locked env (db, log) =
        ((db', log'), Inr (int (length rows))) \<and>
      (\<forall>r \<in> set rows. \<exists>r'. dict_get (db_outbox db') (ob_event_id r) = Some r' \<and>
         ob_published_at r' \<noteq> None \<and> same_message r r') \<and>
      (\<forall>i. i \<notin> ob_event_id ` set rows \<longrightarrow> dict_get (db_outbox db') i = dict_get (db_outbox db) i)"
proof -
  let ?rows = "lease_due now locked (pb_batch_size p) db"
  obtain db1 records where l: "lease svc p now locked db = (db1, records)" by fastforce
  note eff = lease_effect [OF assms(1) l]
  let ?token = "sv_uuid svc (db_uuids db)"
  have ids: "map or_event_id records = map ob_event_id ?rows"
    by (simp add: eff(4) record_of_def)
  then have idset: "or_event_id ` set records = ob_event_id ` set ?rows" by (metis list.set_map)
  have dist: "distinct (map or_event_id records)" using ids lease_due_rows(1) [OF assms(1)] by simp
  have row: "dict_get (db_outbox db1) (ob_event_id r) = Some (lease_row p ?token now r)"
    if "r \<in> set ?rows" for r
    using eff(6) [of "ob_event_id r"] find_distinct [OF lease_due_rows(1) [OF assms(1)] that] by simp
  have "\<exists>r. dict_get (db_outbox db1) (or_event_id rec) = Some r \<and>
      ob_lease_token r = Some (or_lease_token rec) \<and> ob_event_id r = or_event_id rec"
    if rec: "rec \<in> set records" for rec
  proof -
    obtain r where "r \<in> set ?rows" "rec = record_of (lease_row p ?token now r)"
      using rec unfolding eff(4) by auto
    then show ?thesis using row by (simp add: record_of_def)
  qed
  from publish_all_healthy [where env = env and position = 0 and p = p and log = log, OF assms(2) dist this]
  obtain db' log' where all: "publish_all p env 0 records (db1, log) = ((db', log'), Inr ())"
    "\<And>i. i \<notin> or_event_id ` set records \<Longrightarrow> dict_get (db_outbox db') i = dict_get (db_outbox db1) i"
    "\<And>rec. rec \<in> set records \<Longrightarrow>
       \<exists>r'. dict_get (db_outbox db') (or_event_id rec) = Some r' \<and> ob_published_at r' \<noteq> None"
    by blast
  have run: "publisher_run_once svc p False now locked env (db, log) = ((db', log'), Inr (int (length ?rows)))"
    using l all(1) eff(4) by (simp add: publisher_run_once_def)
  have work: "outbox_work svc (se_meanwhile (env n))" for n
    using assms(2) by (simp add: healthy_def idle_is_outbox_work)
  have le: "pub_le (db, log) (db', log')"
    using round_ok [where env = env, OF assms(1) work, of p False now locked] run by simp
  have "\<exists>r'. dict_get (db_outbox db') (ob_event_id r) = Some r' \<and> ob_published_at r' \<noteq> None \<and> same_message r r'"
    if r: "r \<in> set ?rows" for r
  proof -
    have "ob_event_id r \<in> or_event_id ` set records" using r idset by blast
    then obtain r' where r': "dict_get (db_outbox db') (ob_event_id r) = Some r'" "ob_published_at r' \<noteq> None"
      using all(3) by (metis imageE)
    moreover have "dict_get (db_outbox db) (ob_event_id r) = Some r"
      using lease_due_rows(2) [OF assms(1) r] by blast
    ultimately show ?thesis using le unfolding pub_le_def ob_row_le_def by fastforce
  qed
  moreover have "dict_get (db_outbox db') i = dict_get (db_outbox db) i" if "i \<notin> ob_event_id ` set ?rows" for i
  proof -
    have "find (\<lambda>r. ob_event_id r = i) ?rows = None" using that by (auto simp: find_None_iff)
    then show ?thesis using all(2) [of i] eff(6) [of i] that idset by simp
  qed
  ultimately show ?thesis using run unfolding Let_def by blast
qed

definition example_outbox_row :: outbox_row where
  "example_outbox_row = outbox_row_of example_service 5
     (new_event ''e1'' JOB_CREATED 0 0 ''job-1'')"

definition example_outbox_db :: scheduler_db where
  "example_outbox_db = empty_db\<lparr>db_outbox := [(''e1'', example_outbox_row)]\<rparr>"

lemma example_outbox_inv: "pub_inv svc (example_outbox_db, [])"
  by (simp add: pub_inv_def example_outbox_db_def example_outbox_row_def outbox_row_of_def
      outbox_row_ok_def new_event_def wf_dict_def)

lemma example_lease_due: "lease_due 10 {} 100 example_outbox_db = [example_outbox_row]"
  by (simp add: lease_due_def example_outbox_db_def example_outbox_row_def outbox_row_of_def)

theorem healthy_round_publishes_the_batch_witness:
  "\<exists>db' log' r'. publisher_run_once example_service example_publisher False 10 {}
      (\<lambda>n. example_send) (example_outbox_db, []) = ((db', log'), Inr 1) \<and>
     dict_get (db_outbox db') ''e1'' = Some r' \<and> ob_published_at r' \<noteq> None"
proof -
  have "healthy example_send" by (simp add: healthy_def example_send_def)
  moreover have "ob_event_id example_outbox_row = ''e1''"
    by (simp add: example_outbox_row_def outbox_row_of_def new_event_def)
  ultimately show ?thesis
    using healthy_round_publishes_the_batch [where env = "\<lambda>n. example_send" and p = example_publisher
        and now = 10 and locked = "{}", OF example_outbox_inv [of example_service]] example_lease_due
    by (auto simp: example_publisher_def Let_def)
qed

text \<open>
  C25. Backoff is bounded, jittered and fenced. After a failed publication the row that still has
  the record's lease is due again between half the ceiling and the ceiling later, where the ceiling
  doubles with every attempt and never exceeds the configured maximum; a row whose lease passed to
  someone else is not touched. With float bounds the doubling itself overflows from the 1024th
  attempt on: \<open>_failed\<close> raises and the row keeps its lease.
\<close>

theorem backoff_is_bounded:
  assumes "\<And>lo hi. lo \<le> hi \<Longrightarrow> lo \<le> uniform lo hi \<and> uniform lo hi \<le> hi"
    and "0 < pb_retry_initial p" and "0 < pb_retry_max p"
    and "dict_get (db_outbox db) (or_event_id rec) = Some r" and "ob_event_id r = or_event_id rec"
  shows "if pb_float p \<and> 1024 \<le> or_attempts rec
     then failed p uniform now rec err db =
       (db, Inl (OverflowError ''int too large to convert to float''))
     else \<exists>delay ceiling. ceiling = min (pb_retry_max p) (pb_retry_initial p * 2 ^ nat (or_attempts rec)) \<and>
       ceiling div 2 \<le> delay \<and> delay \<le> ceiling \<and> ceiling \<le> pb_retry_max p \<and>
       failed p uniform now rec err db =
         (if ob_lease_token r = Some (or_lease_token rec)
          then put_outbox ((release_lease r)\<lparr>ob_publish_attempts := ob_publish_attempts r + 1,
                 ob_last_error := Some (take 200 err), ob_next_attempt_at := now + delay\<rparr>) db
          else db, Inr ())"
proof (cases "pb_float p \<and> 1024 \<le> or_attempts rec")
  case True
  then show ?thesis by (simp add: failed_def backoff_ceiling_def)
next
  case False
  let ?c = "min (pb_retry_max p) (pb_retry_initial p * 2 ^ nat (or_attempts rec))"
  have c: "backoff_ceiling p (or_attempts rec) = Inr ?c" using False by (auto simp: backoff_ceiling_def)
  have "0 < ?c" using assms(2,3) by simp
  then have "?c div 2 \<le> ?c" by linarith
  note delay = assms(1) [OF this]
  have "failed p uniform now rec err db =
      (if ob_lease_token r = Some (or_lease_token rec)
       then put_outbox ((release_lease r)\<lparr>ob_publish_attempts := ob_publish_attempts r + 1,
              ob_last_error := Some (take 200 err),
              ob_next_attempt_at := now + uniform (?c div 2) ?c\<rparr>) db
       else db, Inr ())"
    using assms(4) by (simp add: failed_def c leased_update_def Let_def)
  then show ?thesis
    using False delay by (simp only: if_False) (intro exI [of _ "uniform (?c div 2) ?c"] exI [of _ ?c], simp)
qed

theorem backoff_is_bounded_witness:
  "let rec = record_of example_outbox_row in
   failed example_publisher (\<lambda>lo hi. lo) 10 (rec\<lparr>or_lease_token := ''t''\<rparr>) ''TimeoutError'' example_outbox_db =
       (example_outbox_db, Inr ()) \<and>
     failed example_publisher (\<lambda>lo hi. lo) 10 (rec\<lparr>or_attempts := 1024\<rparr>) ''TimeoutError'' example_outbox_db =
       (example_outbox_db, Inl (OverflowError ''int too large to convert to float''))"
proof -
  have row: "dict_get (db_outbox example_outbox_db) ''e1'' = Some example_outbox_row"
    "ob_event_id example_outbox_row = ''e1''" "ob_lease_token example_outbox_row = None"
    "ob_publish_attempts example_outbox_row = 0"
    by (simp_all add: example_outbox_db_def example_outbox_row_def outbox_row_of_def new_event_def)
  show ?thesis
    using backoff_is_bounded [where uniform = "\<lambda>lo hi. lo" and p = example_publisher
        and db = example_outbox_db and r = example_outbox_row and now = 10 and err = "''TimeoutError''"
        and rec = "(record_of example_outbox_row)\<lparr>or_lease_token := ''t''\<rparr>"]
      backoff_is_bounded [where uniform = "\<lambda>lo hi. lo" and p = example_publisher
        and db = example_outbox_db and r = example_outbox_row and now = 10 and err = "''TimeoutError''"
        and rec = "(record_of example_outbox_row)\<lparr>or_attempts := 1024\<rparr>"]
      row
    by (auto simp: example_publisher_def record_of_def Let_def)
qed

end
