(* ===== verification/Edr_Wire.thy ===== *)
theory Edr_Wire
  imports Outbox_Properties
begin

text \<open>
  Reading EDRs back from the wire: \<open>event_from_wire\<close> and \<open>_time\<close> of
  \<open>src/job_visibility/edr_store/projection_worker.py\<close>, and the round trip with \<open>canonical_edr\<close>.
  \<open>json.loads\<close> and \<open>datetime.fromisoformat\<close> are arguments.
\<close>

section \<open>Reading the wire\<close>

text \<open>\<open>EventType(value)\<close>\<close>

definition parse_event_type :: "json \<Rightarrow> event_type result" where
  "parse_event_type v =
     (case find (\<lambda>t. v = JStr (event_type_value t)) event_types of
        Some t \<Rightarrow> Inr t
      | None \<Rightarrow> Inl (ValueError ''not a valid EventType''))"

text \<open>\<open>data[key]\<close> and \<open>data.get(key)\<close>, which gives \<open>None\<close> for an absent key as for a null.\<close>

definition required_field :: "(string \<times> json) list \<Rightarrow> string \<Rightarrow> json result" where
  "required_field kvs key = (case map_of kvs key of None \<Rightarrow> Inl (KeyError key) | Some v \<Rightarrow> Inr v)"

definition optional_field :: "(string \<times> json) list \<Rightarrow> string \<Rightarrow> json" where
  "optional_field kvs key = get_default kvs key JNull"

text \<open>
  \<open>datetime.fromisoformat(value.replace("Z", "+00:00"))\<close>; \<open>fromiso\<close> stands for \<open>fromisoformat\<close>, and a
  value that is no string has no \<open>replace\<close>.
\<close>

definition parse_time :: "(string \<Rightarrow> time result) \<Rightarrow> json \<Rightarrow> time result" where
  "parse_time fromiso v =
     (case v of
        JStr s \<Rightarrow> fromiso (str_replace ''Z'' ''+00:00'' s)
      | _ \<Rightarrow> Inl (AttributeError ''replace''))"

definition opt_time :: "(string \<Rightarrow> time result) \<Rightarrow> json \<Rightarrow> time option result" where
  "opt_time fromiso v =
     (if json_truthy v then bind_result (parse_time fromiso v) (\<lambda>t. Inr (Some t)) else Inr None)"

text \<open>
  Fields the dataclass stores as they are. The model's events are typed as the dataclass declares
  them; a value of another type is reported as a \<open>TypeError\<close>. For the numbers the code itself raises
  it, in the comparisons of \<open>__post_init__\<close>.
\<close>

definition text_field :: "json \<Rightarrow> string result" where
  "text_field v = (case v of JStr s \<Rightarrow> Inr s | _ \<Rightarrow> Inl (TypeError ''str''))"

definition text_or :: "json \<Rightarrow> string \<Rightarrow> string result" where
  "text_or v dflt = (if json_truthy v then text_field v else Inr dflt)"

definition opt_text :: "json \<Rightarrow> string option result" where
  "opt_text v = (case v of JNull \<Rightarrow> Inr None | _ \<Rightarrow> bind_result (text_field v) (\<lambda>s. Inr (Some s)))"

definition int_field :: "json \<Rightarrow> int result" where
  "int_field v = (case v of JInt n \<Rightarrow> Inr n | JBool b \<Rightarrow> Inr (of_bool b) | _ \<Rightarrow> Inl (TypeError ''int''))"

definition opt_bool :: "json \<Rightarrow> bool option result" where
  "opt_bool v =
     (case v of JNull \<Rightarrow> Inr None | JBool b \<Rightarrow> Inr (Some b) | _ \<Rightarrow> Inl (TypeError ''bool''))"

definition event_from_wire ::
  "(string \<Rightarrow> time result) \<Rightarrow> (string \<times> json) list \<Rightarrow> event result" where
  "event_from_wire fromiso data =
     bind_result (bind_result (required_field data ''eventId'') text_field) (\<lambda>event_id.
     bind_result (bind_result (required_field data ''eventType'') parse_event_type) (\<lambda>event_type.
     bind_result (bind_result (required_field data ''eventTime'') (parse_time fromiso)) (\<lambda>event_time.
     bind_result (bind_result (required_field data ''ingestionTime'') (parse_time fromiso)) (\<lambda>ingestion_time.
     bind_result (bind_result (required_field data ''jobId'') text_field) (\<lambda>job_id.
     bind_result (text_or (optional_field data ''correlationId'') '''') (\<lambda>correlation_id.
     bind_result (text_or (optional_field data ''jobType'') ''GENERIC'') (\<lambda>job_type.
     bind_result (opt_time fromiso (optional_field data ''scheduledAt'')) (\<lambda>scheduled_at.
     bind_result (int_field (get_default data ''attemptNumber'' (JInt 0))) (\<lambda>attempt_number.
     bind_result (int_field (get_default data ''maxAttempts'' (JInt 3))) (\<lambda>max_attempts.
     bind_result (opt_bool (optional_field data ''retryable'')) (\<lambda>retryable.
     bind_result (opt_time fromiso (optional_field data ''nextRetryAt'')) (\<lambda>next_retry_at.
     bind_result (opt_text (optional_field data ''resultCode'')) (\<lambda>result_code.
     bind_result (opt_text (optional_field data ''errorCode'')) (\<lambda>error_code.
     event_post_init
       ((new_event event_id event_type event_time ingestion_time job_id)\<lparr>
          ev_correlation_id := correlation_id, ev_job_type := job_type,
          ev_scheduled_at := scheduled_at, ev_attempt_number := attempt_number,
          ev_max_attempts := max_attempts, ev_retryable := retryable,
          ev_next_retry_at := next_retry_at, ev_result_code := result_code,
          ev_error_code := error_code\<rparr>)))))))))))))))"

text \<open>A string is parsed first; \<open>loads\<close> stands for \<open>json.loads\<close>.\<close>

definition event_from_text ::
  "(string \<Rightarrow> json result) \<Rightarrow> (string \<Rightarrow> time result) \<Rightarrow> json \<Rightarrow> event result" where
  "event_from_text loads fromiso v =
     bind_result (case v of JStr s \<Rightarrow> loads s | _ \<Rightarrow> Inr v) (\<lambda>data.
     case data of
       JObj kvs \<Rightarrow> event_from_wire fromiso kvs
     | _ \<Rightarrow> Inl (TypeError ''eventId''))"

section \<open>The wire format is lossless\<close>

text \<open>Digits and time separators never contain a zone marker, so the code's replacements cancel.\<close>

lemma digit_char_plain: "d < 10 \<Longrightarrow> digit_char d \<noteq> CHR ''+'' \<and> digit_char d \<noteq> CHR ''Z''"
proof -
  assume "d < 10"
  then have "of_char (digit_char d) = 48 + d" by (simp add: digit_char_def)
  moreover have "of_char CHR ''+'' = (43 :: nat)" "of_char CHR ''Z'' = (90 :: nat)" by simp_all
  ultimately show ?thesis using \<open>d < 10\<close> by (intro conjI notI) (auto simp del: of_char_Char dest: arg_cong [where f = of_char])
qed

lemma nat_digits_plain: "CHR ''+'' \<notin> set (nat_digits n) \<and> CHR ''Z'' \<notin> set (nat_digits n)"
proof (induction n rule: nat_digits.induct)
  case (1 n)
  show ?case
  proof (cases "n < 10")
    case True
    then show ?thesis using digit_char_plain [of n] by (auto simp: nat_digits.simps [of n])
  next
    case False
    then show ?thesis
      using 1 digit_char_plain [of "n mod 10"] by (auto simp: nat_digits.simps [of n])
  qed
qed

lemma zero_pad_plain: "CHR ''+'' \<notin> set (zero_pad k n) \<and> CHR ''Z'' \<notin> set (zero_pad k n)"
  using nat_digits_plain [of n] by (auto simp: zero_pad_def)

lemma str_replace_skip:
  "c \<notin> set p \<Longrightarrow> str_replace (c # old) new (p @ s) = p @ str_replace (c # old) new s"
  by (induction p) auto

lemma isoformat_shape:
  "\<exists>p. isoformat_utc t = p @ ''+00:00'' \<and> CHR ''+'' \<notin> set p \<and> CHR ''Z'' \<notin> set p"
proof -
  let ?days = "t div 86400000000" and ?us = "t mod 86400000000"
  obtain y m d where ymd: "ord2ymd (?days + 719163) = (y, m, d)" by (metis prod_cases3)
  let ?p = "zero_pad 4 (nat y) @ ''-'' @ zero_pad 2 (nat m) @ ''-'' @ zero_pad 2 (nat d) @ ''T'' @
         zero_pad 2 (nat (?us div 1000000 div 3600)) @ '':'' @
         zero_pad 2 (nat (?us div 1000000 div 60 mod 60)) @ '':'' @
         zero_pad 2 (nat (?us div 1000000 mod 60)) @
         (if ?us mod 1000000 = 0 then [] else ''.'' @ zero_pad 6 (nat (?us mod 1000000)))"
  have "isoformat_utc t = ?p @ ''+00:00''" by (simp add: isoformat_utc_def ymd Let_def)
  moreover have "CHR ''+'' \<notin> set ?p" "CHR ''Z'' \<notin> set ?p"
    by (simp_all add: zero_pad_plain)
  ultimately show ?thesis by blast
qed

lemma zone_replacements_cancel:
  "str_replace ''Z'' ''+00:00'' (str_replace ''+00:00'' ''Z'' (isoformat_utc t)) = isoformat_utc t"
proof -
  obtain p where p: "isoformat_utc t = p @ ''+00:00''" "CHR ''+'' \<notin> set p" "CHR ''Z'' \<notin> set p"
    using isoformat_shape by blast
  then show ?thesis by (simp add: str_replace_skip)
qed

lemma parse_time_iso:
  "fromiso (isoformat_utc t) = Inr t \<Longrightarrow> parse_time fromiso (jtime (Some t)) = Inr t"
  by (simp add: parse_time_def iso_def zone_replacements_cancel)

lemma opt_time_iso:
  assumes "\<And>u. t = Some u \<Longrightarrow> fromiso (isoformat_utc u) = Inr u"
  shows "opt_time fromiso (jtime t) = Inr t"
proof (cases t)
  case (Some u)
  obtain p where "isoformat_utc u = p @ ''+00:00''" "CHR ''+'' \<notin> set p"
    using isoformat_shape by blast
  then have "str_replace ''+00:00'' ''Z'' (isoformat_utc u) \<noteq> []" by (simp add: str_replace_skip)
  then show ?thesis
    using assms Some parse_time_iso [of fromiso u] by (simp add: opt_time_def iso_def)
qed (simp add: opt_time_def)

lemma parse_event_type_value: "parse_event_type (JStr (event_type_value t)) = Inr t"
  by (cases t) (simp_all add: parse_event_type_def event_types_def)

lemma opt_text_jopt: "opt_text (jopt JStr v) = Inr v"
  by (cases v) (simp_all add: opt_text_def text_field_def)

lemma opt_bool_jopt: "opt_bool (jopt JBool v) = Inr v"
  by (cases v) (simp_all add: opt_bool_def)

text \<open>What of an event the wire carries; the rest falls back to the defaults of the dataclass.\<close>

definition on_the_wire :: "event \<Rightarrow> event" where
  "on_the_wire e =
     (new_event (ev_event_id e) (ev_event_type e) (ev_event_time e) (ev_ingestion_time e) (ev_job_id e))\<lparr>
        ev_correlation_id := ev_correlation_id e,
        ev_job_type := str_or (ev_job_type e) ''GENERIC'',
        ev_scheduled_at := ev_scheduled_at e, ev_attempt_number := ev_attempt_number e,
        ev_max_attempts := ev_max_attempts e, ev_retryable := ev_retryable e,
        ev_next_retry_at := ev_next_retry_at e, ev_result_code := ev_result_code e,
        ev_error_code := ev_error_code e\<rparr>"

definition event_times :: "event \<Rightarrow> time set" where
  "event_times e =
     {ev_event_time e, ev_ingestion_time e} \<union> set_option (ev_scheduled_at e) \<union>
     set_option (ev_next_retry_at e)"

lemma wire_fields:
  "map_of (edr_value e) ''eventId'' = Some (JStr (ev_event_id e))"
  "map_of (edr_value e) ''eventType'' = Some (JStr (event_type_value (ev_event_type e)))"
  "map_of (edr_value e) ''eventTime'' = Some (jtime (Some (ev_event_time e)))"
  "map_of (edr_value e) ''ingestionTime'' = Some (jtime (Some (ev_ingestion_time e)))"
  "map_of (edr_value e) ''jobId'' = Some (JStr (ev_job_id e))"
  "map_of (edr_value e) ''correlationId'' =
     Some (if ev_correlation_id e = [] then JNull else JStr (ev_correlation_id e))"
  "map_of (edr_value e) ''jobType'' = Some (if ev_job_type e = [] then JNull else JStr (ev_job_type e))"
  "map_of (edr_value e) ''attemptNumber'' = Some (JInt (ev_attempt_number e))"
  "map_of (edr_value e) ''maxAttempts'' = Some (JInt (ev_max_attempts e))"
  "map_of (edr_value e) ''scheduledAt'' = Some (jtime (ev_scheduled_at e))"
  "map_of (edr_value e) ''nextRetryAt'' = Some (jtime (ev_next_retry_at e))"
  "map_of (edr_value e) ''retryable'' = Some (jopt JBool (ev_retryable e))"
  "map_of (edr_value e) ''resultCode'' = Some (jopt JStr (ev_result_code e))"
  "map_of (edr_value e) ''errorCode'' = Some (jopt JStr (ev_error_code e))"
  by (simp_all add: edr_value_def)

lemma decode_encode:
  assumes valid: "valid_event e" and fromiso: "\<And>t. t \<in> event_times e \<Longrightarrow> fromiso (isoformat_utc t) = Inr t"
  shows "event_from_wire fromiso (edr_value e) = Inr (on_the_wire e)"
proof -
  have times: "parse_time fromiso (jtime (Some (ev_event_time e))) = Inr (ev_event_time e)"
    "parse_time fromiso (jtime (Some (ev_ingestion_time e))) = Inr (ev_ingestion_time e)"
    "opt_time fromiso (jtime (ev_scheduled_at e)) = Inr (ev_scheduled_at e)"
    "opt_time fromiso (jtime (ev_next_retry_at e)) = Inr (ev_next_retry_at e)"
    by (auto intro!: parse_time_iso opt_time_iso fromiso simp: event_times_def simp del: jopt_simps)
  have texts: "text_or (if s = [] then JNull else JStr s) dflt = Inr (str_or s dflt)" for s dflt
    by (simp add: text_or_def text_field_def str_or_def)
  have "event_post_init (on_the_wire e) = Inr (on_the_wire e)"
    using valid by (simp add: event_post_init_Inr_iff valid_event_def on_the_wire_def)
  moreover have "str_or s '''' = s" for s by (simp add: str_or_def)
  ultimately show ?thesis
    unfolding event_from_wire_def required_field_def optional_field_def get_default_def wire_fields
      option.case bind_result.simps parse_event_type_value times texts opt_text_jopt opt_bool_jopt
    by (simp add: text_field_def int_field_def on_the_wire_def)
qed

lemma event_from_wire_cong:
  "map_of kvs = map_of kvs' \<Longrightarrow> event_from_wire fromiso kvs = event_from_wire fromiso kvs'"
  by (simp add: event_from_wire_def required_field_def optional_field_def get_default_def)

text \<open>
  The wire format is lossless for what it carries: an EDR that is encoded by \<open>canonical_edr\<close> and
  read back, from the wire text or from the canonical payload embedded in it, is the event with its
  id, type, times, job, correlation, job type, attempt, limits, schedule, retry time and outcome, and
  with the defaults of the fields the wire leaves out. It rests on \<open>json.loads\<close> reading these two
  texts back and on \<open>fromisoformat\<close> reading back what \<open>isoformat\<close> printed for the event's times.
\<close>

theorem wire_round_trip:
  assumes "valid_event e"
    and "\<And>t. t \<in> event_times e \<Longrightarrow> fromiso (isoformat_utc t) = Inr t"
    and "loads (json_dumps (JObj (edr_value e))) = Inr (JObj domain)" "map_of domain = map_of (edr_value e)"
    and "loads (fst (canonical_edr sha e)) = Inr (JObj wire)"
      "map_of wire = map_of (edr_value e @
         [(''canonicalPayload'', JStr (json_dumps (JObj (edr_value e)))),
          (''payloadHash'', JStr (snd (canonical_edr sha e)))])"
  shows "event_from_text loads fromiso (JStr (fst (canonical_edr sha e))) = Inr (on_the_wire e) \<and>
    event_from_text loads fromiso (get_default wire ''canonicalPayload'' (JObj wire)) = Inr (on_the_wire e)"
proof -
  let ?extra = "[(''canonicalPayload'', JStr (json_dumps (JObj (edr_value e)))),
          (''payloadHash'', JStr (snd (canonical_edr sha e)))]"
  have keys: "''canonicalPayload'' \<notin> fst ` set (edr_value e)" "''payloadHash'' \<notin> fst ` set (edr_value e)"
    by (simp_all add: edr_value_def)
  have "map_of (edr_value e @ ?extra) k = map_of (edr_value e) k" if "k \<in> fst ` set (edr_value e)" for k
    using that by (auto simp: map_add_def map_of_eq_None_iff keys split: option.split)
  then have "event_from_wire fromiso wire = event_from_wire fromiso (edr_value e)"
    by (simp add: event_from_wire_def required_field_def optional_field_def get_default_def assms(6))
      (simp add: edr_value_def)
  moreover have "event_from_wire fromiso domain = event_from_wire fromiso (edr_value e)"
    by (rule event_from_wire_cong [OF assms(4)])
  moreover have "get_default wire ''canonicalPayload'' (JObj wire) = JStr (json_dumps (JObj (edr_value e)))"
  proof -
    have "dict_get (edr_value e) ''canonicalPayload'' = None" by (simp add: edr_value_def)
    then show ?thesis by (simp add: get_default_def assms(6) map_add_def)
  qed
  ultimately show ?thesis
    using decode_encode [OF assms(1,2)] assms(3,5) by (simp add: event_from_text_def)
qed

lemma event_from_wire_typed:
  assumes "event_from_wire fromiso data = Inr e"
  shows "valid_event e \<and> on_the_wire e = e"
proof -
  have job_type: "s \<noteq> []" if "text_or v ''GENERIC'' = Inr s" for v s
    using that by (cases v) (auto simp: text_or_def text_field_def split: if_splits)
  from assms show ?thesis
    unfolding event_from_wire_def bind_result_Inr_iff event_post_init_Inr_iff
    by (elim exE conjE) (auto simp: on_the_wire_def new_event_def str_or_def dest: job_type)
qed

text \<open>
  What the reader accepts is well typed: whatever object it is given, an event it returns has a
  non-negative attempt number, a positive attempt limit and a job type, and carries nothing but the
  wire's fields; so encoding it again and reading it back gives the same event.
\<close>

theorem accepted_wire_events_are_valid:
  assumes "event_from_wire fromiso data = Inr e"
    and "\<And>t. t \<in> event_times e \<Longrightarrow> fromiso (isoformat_utc t) = Inr t"
  shows "valid_event e \<and> ev_job_type e \<noteq> [] \<and> on_the_wire e = e \<and>
    event_from_wire fromiso (edr_value e) = Inr e"
proof -
  note typed = event_from_wire_typed [OF assms(1)]
  then have "ev_job_type (on_the_wire e) = ev_job_type e" by simp
  then have "ev_job_type e \<noteq> []" by (auto simp: on_the_wire_def str_or_def split: if_splits)
  then show ?thesis using typed decode_encode [of e fromiso] assms(2) by simp
qed

definition example_wire_event :: event where
  "example_wire_event =
     (new_event ''e1'' JOB_EXECUTION_FAILED 5 6 ''job-1'')\<lparr>ev_job_type := ''PRINT'',
        ev_attempt_number := 1, ev_retryable := Some True, ev_error_code := Some ''E''\<rparr>"

definition example_fromiso :: "string \<Rightarrow> time result" where
  "example_fromiso s =
     (if s = isoformat_utc 5 then Inr 5 else if s = isoformat_utc 6 then Inr 6
      else Inl (ValueError ''Invalid isoformat string''))"

lemma example_fromiso_times:
  "t \<in> event_times example_wire_event \<Longrightarrow> example_fromiso (isoformat_utc t) = Inr t"
proof -
  have "isoformat_utc 6 \<noteq> isoformat_utc 5" by code_simp
  then show "t \<in> event_times example_wire_event \<Longrightarrow> example_fromiso (isoformat_utc t) = Inr t"
    by (auto simp: event_times_def example_wire_event_def new_event_def example_fromiso_def)
qed

lemma example_wire_valid: "valid_event example_wire_event"
  by (simp add: valid_event_def example_wire_event_def new_event_def)

lemma length_joined:
  "length (joined sep xs) = sum_list (map length xs) + (length xs - 1) * length sep"
  by (induction sep xs rule: joined.induct) simp_all

lemma sum_list_mset_cong: "mset xs = mset ys \<Longrightarrow> sum_list (map f xs) = (sum_list (map f ys) :: nat)"
  by (metis mset_map sum_mset_sum_list)

lemma length_dumps_object:
  "length (json_dumps (JObj kvs)) =
     2 + sum_list (map (\<lambda>(k, v). length (json_string k) + 1 + length (json_dumps v)) kvs) + (length kvs - 1)"
proof -
  have "sum_list (map (\<lambda>(k, s). length (json_string k) + 1 + length s)
        (sort_key fst (map (map_prod id json_dumps) kvs))) =
      sum_list (map (\<lambda>(k, s). length (json_string k) + 1 + length s) (map (map_prod id json_dumps) kvs))"
    by (rule sum_list_mset_cong) simp
  then show ?thesis
    by (simp add: length_joined comp_def case_prod_unfold)
qed

theorem wire_round_trip_witness:
  "\<exists>loads. event_from_text loads example_fromiso
     (JStr (fst (canonical_edr (\<lambda>s. ''00'') example_wire_event))) = Inr example_wire_event"
proof -
  let ?e = example_wire_event
  let ?domain = "edr_value ?e"
  let ?wire = "?domain @ [(''canonicalPayload'', JStr (json_dumps (JObj ?domain))),
          (''payloadHash'', JStr (snd (canonical_edr (\<lambda>s. ''00'') ?e)))]"
  let ?loads = "\<lambda>s. if s = json_dumps (JObj ?domain) then Inr (JObj ?domain) else Inr (JObj ?wire)"
  have "length (json_dumps (JObj ?wire)) \<noteq> length (json_dumps (JObj ?domain))"
    by (simp only: length_dumps_object map_append sum_list_append length_append) simp
  then have differ: "fst (canonical_edr (\<lambda>s. CHR ''0'' # ''0'') ?e) \<noteq> json_dumps (JObj ?domain)"
    by (auto simp: canonical_edr_def Let_def simp del: json_dumps.simps)
  have "on_the_wire ?e = ?e" by (simp add: on_the_wire_def example_wire_event_def new_event_def str_or_def)
  then show ?thesis
    using wire_round_trip [where e = ?e and loads = ?loads and fromiso = example_fromiso
        and sha = "\<lambda>s. ''00''" and domain = ?domain and wire = ?wire]
      example_wire_valid example_fromiso_times differ
    by (intro exI [of _ ?loads]) simp
qed

theorem accepted_wire_events_are_valid_witness:
  "event_from_wire example_fromiso (edr_value example_wire_event) = Inr example_wire_event \<and>
   valid_event example_wire_event"
proof -
  have "on_the_wire example_wire_event = example_wire_event"
    by (simp add: on_the_wire_def example_wire_event_def new_event_def str_or_def)
  then have "event_from_wire example_fromiso (edr_value example_wire_event) = Inr example_wire_event"
    using decode_encode [OF example_wire_valid example_fromiso_times] by simp
  then show ?thesis
    using accepted_wire_events_are_valid [OF _ example_fromiso_times] by blast
qed

end
