(* ===== verification/Scheduler_Visibility.thy ===== *)
theory Scheduler_Visibility
  imports Scheduler_Completion Reducer_Lifecycle Edr_Wire
begin

text \<open>
  The scheduler and the visibility engine together: replaying the EDRs that scheduler operations
  write to the outbox, in the order they are written, through the reducer gives a job whose status,
  attempts and data mirror the tables of the scheduler.
\<close>

section \<open>One reduction\<close>

lemma advance_fields:
  "jv_recorded_status (advance job e) = jv_recorded_status (handled job e)"
  "jv_attempts (advance job e) = jv_attempts (handled job e)"
  "jv_findings (advance job e) = jv_findings (handled job e)"
  "jv_correlation_id (advance job e) = jv_correlation_id (handled job e)"
  "jv_job_type (advance job e) = jv_job_type (handled job e)"
  "jv_scheduled_at (advance job e) = jv_scheduled_at (handled job e)"
  "jv_max_attempts (advance job e) = jv_max_attempts (handled job e)"
  "jv_job_id (advance job e) = jv_job_id job"
  by (simp_all add: reduce_step_conv frame_simps)

lemma absorb_data:
  "jv_correlation_id (absorb_event job e) = str_or (jv_correlation_id job) (ev_correlation_id e)"
  "jv_job_type (absorb_event job e) = str_or (ev_job_type e) (jv_job_type job)"
  "jv_scheduled_at (absorb_event job e) = opt_or (jv_scheduled_at job) (ev_scheduled_at e)"
  "jv_max_attempts (absorb_event job e) = max (jv_max_attempts job) (ev_max_attempts e)"
  by (simp_all add: absorb_event_def)

lemma table_step_core:
  "jv_recorded_status (table_step job e) =
     (if accepted job e then target (ev_event_type e) (ev_retryable e) else jv_recorded_status job)"
  "jv_attempts (table_step job e) =
     (if ev_event_type e \<in> set attempt_events
      then dict_put (attempt_key e) (attempt_after job e) (jv_attempts job) else jv_attempts job)"
  "jv_findings (table_step job e) = findings_after job e"
  by (simp_all add: table_step_def Let_def)

lemma table_step_data [simp]:
  "jv_correlation_id (table_step job e) = jv_correlation_id job"
  "jv_job_type (table_step job e) = jv_job_type job"
  "jv_scheduled_at (table_step job e) = jv_scheduled_at job"
  "jv_max_attempts (table_step job e) = jv_max_attempts job"
  by (simp_all add: table_step_def Let_def)

lemma advance_table:
  assumes "\<not> is_semantic_duplicate job e"
  shows "jv_recorded_status (advance job e) =
      (if accepted job e then target (ev_event_type e) (ev_retryable e) else jv_recorded_status job)"
    and "jv_attempts (advance job e) =
      (if ev_event_type e \<in> set attempt_events
       then dict_put (attempt_key e) (attempt_after job e) (jv_attempts job) else jv_attempts job)"
    and "jv_findings (advance job e) = findings_after job e"
    and "jv_correlation_id (advance job e) = str_or (jv_correlation_id job) (ev_correlation_id e)"
    and "jv_job_type (advance job e) = str_or (ev_job_type e) (jv_job_type job)"
    and "jv_scheduled_at (advance job e) = opt_or (jv_scheduled_at job) (ev_scheduled_at e)"
    and "jv_max_attempts (advance job e) = max (jv_max_attempts job) (ev_max_attempts e)"
  using assms
  by (simp_all add: advance_fields handled_table table_step_core absorb_data)

section \<open>The mirror relation\<close>

text \<open>
  The statuses the visibility side may show for a row. Apart from recovery there is exactly one, the
  first; recovery moves a row without an EDR, so that the visible job stays where it was.
\<close>

definition shown_as :: "job_row \<Rightarrow> status list" where
  "shown_as r =
     (if jr_status r = ''PENDING'' then [PENDING_SUBMISSION]
      else if jr_status r = ''CLAIMED'' then [AWAITING_EXECUTION, RUNNING]
      else if jr_status r = ''RUNNING'' then [RUNNING]
      else if jr_status r = ''RETRY_WAIT'' then [RETRY_SCHEDULED, AWAITING_EXECUTION, RUNNING]
      else if jr_status r = ''SUCCEEDED'' then [SUCCEEDED]
      else if jr_status r = ''FAILED'' then [FAILED]
      else [RETRIES_EXHAUSTED, AWAITING_EXECUTION, RUNNING])"

text \<open>A row of the attempts table and the visible attempt with its number.\<close>

definition attempt_mirrors :: "attempt_row option \<Rightarrow> attempt option \<Rightarrow> bool" where
  "attempt_mirrors row seen \<longleftrightarrow>
     (case (row, seen) of
        (None, None) \<Rightarrow> True
      | (Some a, Some v) \<Rightarrow>
          (case ar_outcome a of
             None \<Rightarrow> (at_status v = AT_RETRIEVED \<or> at_status v = AT_RUNNING) \<and> at_completed_at v = None
           | Some out \<Rightarrow>
               (out = ''SUCCEEDED'' \<and> at_status v = AT_SUCCEEDED \<or>
                out = ''FAILED'' \<and> at_status v = AT_FAILED \<and> at_retryable v = ar_retryable a \<and>
                  at_error_code v = ar_error_code a) \<and>
               at_completed_at v = ar_completed_at a)
      | _ \<Rightarrow> False)"

definition data_mirrors :: "job_row \<Rightarrow> job_visibility \<Rightarrow> bool" where
  "data_mirrors r job \<longleftrightarrow>
     jv_correlation_id job = jr_correlation_id r \<and> jv_job_type job = jr_job_type r \<and>
     jv_scheduled_at job = Some (jr_scheduled_at r) \<and>
     jv_max_attempts job = max 3 (jr_max_attempts r) \<and> jv_findings job = []"

definition body_mirrors :: "job_row \<Rightarrow> (int \<Rightarrow> attempt_row option) \<Rightarrow> job_visibility \<Rightarrow> bool" where
  "body_mirrors r atts job \<longleftrightarrow>
     data_mirrors r job \<and> (\<forall>n. attempt_mirrors (atts n) (dict_get (jv_attempts job) n))"

definition status_mirrors :: "bool \<Rightarrow> job_row \<Rightarrow> status \<Rightarrow> bool" where
  "status_mirrors recovered r s \<longleftrightarrow> s \<in> set (shown_as r) \<and> (\<not> recovered \<longrightarrow> s = hd (shown_as r))"

definition mirrors :: "bool \<Rightarrow> job_row \<Rightarrow> (int \<Rightarrow> attempt_row option) \<Rightarrow> job_visibility \<Rightarrow> bool" where
  "mirrors recovered r atts job \<longleftrightarrow>
     status_mirrors recovered r (jv_recorded_status job) \<and> body_mirrors r atts job"

text \<open>An event about a row.\<close>

definition concerns :: "event \<Rightarrow> job_row \<Rightarrow> bool" where
  "concerns e r \<longleftrightarrow>
     ev_job_id e = jr_job_id r \<and> ev_correlation_id e = jr_correlation_id r \<and>
     ev_job_type e = jr_job_type r \<and> ev_scheduled_at e = Some (jr_scheduled_at r) \<and>
     ev_max_attempts e = jr_max_attempts r \<and> jr_correlation_id r \<noteq> [] \<and> jr_job_type r \<noteq> []"

lemma data_mirrors_advance:
  assumes "data_mirrors r job" and "concerns e r" and "\<not> is_semantic_duplicate job e"
    and "findings_after job e = []"
  shows "data_mirrors r (advance job e)"
  using assms by (simp add: data_mirrors_def concerns_def advance_table str_or_def opt_or_def)

lemma no_gap_findings:
  assumes "\<And>n. 1 \<le> n \<Longrightarrow> n < attempt_key e \<Longrightarrow> dict_get (jv_attempts job) n \<noteq> None"
  shows "gap_findings job e = jv_findings job"
proof -
  have "\<not> gap_before job e"
    using assms by (auto simp: gap_before_def map_of_eq_None_iff)
  then show ?thesis by (simp add: gap_findings_def)
qed

lemma resolved_none: "resolved [] code t = []"
  by (simp add: resolved_def)

text \<open>Events about an attempt write it and keep the rest; the others keep all attempts.\<close>

lemma body_attempt:
  assumes m: "body_mirrors r atts job" and e: "concerns e r" "ev_event_type e \<in> set attempt_events"
    and k: "attempt_key e = k"
    and new: "\<not> is_semantic_duplicate job e" "findings_after job e = []"
    and a: "attempt_mirrors a' (Some (attempt_after job e))"
  shows "body_mirrors r (atts(k := a')) (advance job e)"
  using assms data_mirrors_advance [OF _ e(1) new]
  by (simp add: advance_table [OF new(1)] body_mirrors_def pd.get_put)

lemma body_plain:
  assumes m: "body_mirrors r atts job" and e: "concerns e r" "ev_event_type e \<notin> set attempt_events"
    and f: "findings_after job e = []"
  shows "body_mirrors r atts (advance job e)"
proof -
  have new: "\<not> is_semantic_duplicate job e"
    using e(2) by (auto simp: is_semantic_duplicate_iff attempt_events_def)
  show ?thesis
    using m e(2) data_mirrors_advance [OF _ e(1) new f]
    by (simp add: advance_table [OF new] body_mirrors_def)
qed

lemma body_same: "body_mirrors r atts job \<Longrightarrow> same_submission r r' \<Longrightarrow> body_mirrors r' atts job"
  by (simp add: body_mirrors_def data_mirrors_def same_submission_def)

lemma body_findings: "body_mirrors r atts job \<Longrightarrow> jv_findings job = []"
  by (simp add: body_mirrors_def data_mirrors_def)

lemma body_at: "body_mirrors r atts job \<Longrightarrow> attempt_mirrors (atts n) (dict_get (jv_attempts job) n)"
  by (simp add: body_mirrors_def)

text \<open>The attempt of an open row is visible and open; the next attempt is not visible yet.\<close>

lemma open_attempt:
  assumes "body_mirrors r atts job" and "attempt_key e = k" and "atts k = Some a" "ar_outcome a = None"
  shows "at_status (attempt_at job e) = AT_RETRIEVED \<or> at_status (attempt_at job e) = AT_RUNNING"
    and "at_completed_at (attempt_at job e) = None"
  using body_at [OF assms(1), of k] assms(2-4)
  by (auto simp: attempt_mirrors_def attempt_at_def split: option.splits)

lemma new_attempt_at:
  assumes "body_mirrors r atts job" and "attempt_key e = k" and "atts k = None"
  shows "attempt_at job e = new_attempt k"
  using body_at [OF assms(1), of k] assms(2,3)
  by (auto simp: attempt_mirrors_def attempt_at_def split: option.splits)

lemma body_no_gap:
  assumes m: "body_mirrors r atts job" and k: "\<And>n. 1 \<le> n \<Longrightarrow> n < attempt_key e \<Longrightarrow> atts n \<noteq> None"
  shows "gap_findings job e = []"
proof -
  have "dict_get (jv_attempts job) n \<noteq> None" if "1 \<le> n" "n < attempt_key e" for n
    using body_at [OF m, of n] k [OF that] by (auto simp: attempt_mirrors_def split: option.splits)
  then show ?thesis using no_gap_findings body_findings [OF m] by simp
qed

section \<open>The five transitions\<close>

lemma advance_retrieved:
  assumes m: "body_mirrors r atts job" "status_mirrors rc r (jv_recorded_status job)"
    and e: "concerns e r" "ev_event_type e = JOB_SCHEDULER_ITEM_RETRIEVED"
    and k: "attempt_key e = k" "atts k = None" "\<And>n. 1 \<le> n \<Longrightarrow> n < k \<Longrightarrow> atts n \<noteq> None"
    and r: "is_waiting r" and r': "jr_status r' = ''CLAIMED''" and a: "ar_outcome a = None"
  shows "body_mirrors r (atts(k := Some a)) (advance job e)"
    and "status_mirrors rc r' (jv_recorded_status (advance job e))"
proof -
  have new: "\<not> is_semantic_duplicate job e" using e(2) by (simp add: is_semantic_duplicate_iff)
  show "body_mirrors r (atts(k := Some a)) (advance job e)"
  proof (rule body_attempt [OF m(1) e(1) _ k(1) new])
    show "ev_event_type e \<in> set attempt_events" using e(2) by (simp add: attempt_events_def)
    show "findings_after job e = []"
      using body_no_gap [OF m(1), of e] k e(2) by (simp add: findings_after_def)
    show "attempt_mirrors (Some a) (Some (attempt_after job e))"
      using new_attempt_at [OF m(1) k(1,2)] e(2) a
      by (simp add: attempt_mirrors_def attempt_after_def new_attempt_def Let_def)
  qed
  show "status_mirrors rc r' (jv_recorded_status (advance job e))"
    using e(2) r r' m(2)
    by (auto simp: advance_table [OF new] shown_as_def status_mirrors_def accepted_def
        attempt_permits_def is_waiting_def)
qed

text \<open>A row that holds a claim shows a job that awaits execution or runs.\<close>

lemma claimed_shown:
  "is_claimed r \<Longrightarrow> status_mirrors rc r s \<Longrightarrow> s = AWAITING_EXECUTION \<or> s = RUNNING"
  by (auto simp: is_claimed_def shown_as_def status_mirrors_def)

lemma advance_started:
  assumes m: "body_mirrors r atts job" "status_mirrors rc r (jv_recorded_status job)"
    and e: "concerns e r" "ev_event_type e = JOB_EXECUTION_STARTED"
    and k: "attempt_key e = k" "atts k = Some a" "\<And>n. 1 \<le> n \<Longrightarrow> n < k \<Longrightarrow> atts n \<noteq> None"
    and a: "ar_outcome a = None" "ar_outcome a' = None"
    and r: "is_claimed r" and r': "jr_status r' = ''RUNNING''"
  shows "body_mirrors r (atts(k := Some a')) (advance job e)"
    and "status_mirrors rc r' (jv_recorded_status (advance job e))"
proof -
  have new: "\<not> is_semantic_duplicate job e" using e(2) by (simp add: is_semantic_duplicate_iff)
  note at = open_attempt [OF m(1) k(1,2) a(1)] and s = claimed_shown [OF r m(2)]
  then have acc: "accepted job e" using e(2) by (auto simp: accepted_def attempt_permits_def)
  show "body_mirrors r (atts(k := Some a')) (advance job e)"
  proof (rule body_attempt [OF m(1) e(1) _ k(1) new])
    show "ev_event_type e \<in> set attempt_events" using e(2) by (simp add: attempt_events_def)
    show "findings_after job e = []"
      using body_no_gap [OF m(1), of e] k e(2) s by (auto simp: findings_after_def)
    show "attempt_mirrors (Some a') (Some (attempt_after job e))"
      using at e(2) a acc by (simp add: attempt_mirrors_def attempt_after_def Let_def)
  qed
  show "status_mirrors rc r' (jv_recorded_status (advance job e))"
    using e(2) r' acc by (simp add: advance_table [OF new] shown_as_def status_mirrors_def)
qed

lemma advance_finished:
  assumes m: "body_mirrors r atts job" "status_mirrors rc r (jv_recorded_status job)"
    and e: "concerns e r" "ev_event_type e = t" "t = JOB_EXECUTION_SUCCEEDED \<or> t = JOB_EXECUTION_FAILED"
    and k: "attempt_key e = k" "atts k = Some a" "\<And>n. 1 \<le> n \<Longrightarrow> n < k \<Longrightarrow> atts n \<noteq> None"
    and a: "ar_outcome a = None"
      "ar_outcome a' = Some (if t = JOB_EXECUTION_SUCCEEDED then ''SUCCEEDED'' else ''FAILED'')"
      "ar_completed_at a' = Some (ev_event_time e)"
      "t = JOB_EXECUTION_FAILED \<Longrightarrow> ar_retryable a' = ev_retryable e \<and> ar_error_code a' = ev_error_code e"
    and r: "is_claimed r"
  shows "body_mirrors r (atts(k := Some a')) (advance job e)"
    and "jv_recorded_status (advance job e) = target t (ev_retryable e)"
proof -
  note at = open_attempt [OF m(1) k(1,2) a(1)] and s = claimed_shown [OF r m(2)]
  then have new: "\<not> is_semantic_duplicate job e" by (auto simp: is_semantic_duplicate_iff)
  have acc: "accepted job e" using e(2,3) at s by (auto simp: accepted_def attempt_permits_def)
  show "body_mirrors r (atts(k := Some a')) (advance job e)"
  proof (rule body_attempt [OF m(1) e(1) _ k(1) new])
    show "ev_event_type e \<in> set attempt_events" using e(2,3) by (auto simp: attempt_events_def)
    show "findings_after job e = []"
      using body_no_gap [OF m(1), of e] k e(2,3) s acc
      by (auto simp: findings_after_def conflict_findings_def)
    show "attempt_mirrors (Some a') (Some (attempt_after job e))"
      using at e(2,3) a acc by (auto simp: attempt_mirrors_def attempt_after_def Let_def)
  qed
  show "jv_recorded_status (advance job e) = target t (ev_retryable e)"
    using e(2) acc by (simp add: advance_table [OF new])
qed

text \<open>The events that follow a failure, and the two of a submission.\<close>

lemma advance_plain:
  assumes m: "body_mirrors r atts job" and e: "concerns e r" "ev_event_type e = t"
    and t: "t \<in> {JOB_RETRY_REQUESTED, JOB_RETRY_ACKNOWLEDGED, JOB_RETRIES_EXHAUSTED,
                JOB_SCHEDULER_SUBMISSION_REQUESTED}"
    and s: "enabled t (jv_recorded_status job)"
  shows "body_mirrors r atts (advance job e)"
    and "jv_recorded_status (advance job e) = target t (ev_retryable e)"
proof -
  have plain: "ev_event_type e \<notin> set attempt_events" using e(2) t by (auto simp: attempt_events_def)
  have "findings_after job e = []"
    using e(2) t body_findings [OF m] by (auto simp: findings_after_def resolved_none)
  then show "body_mirrors r atts (advance job e)" by (rule body_plain [OF m e(1) plain])
  have "\<not> is_semantic_duplicate job e" "accepted job e"
    using e(2) t s by (auto simp: is_semantic_duplicate_iff accepted_def attempt_permits_def)
  then show "jv_recorded_status (advance job e) = target t (ev_retryable e)"
    using e(2) by (simp add: advance_table)
qed

lemma advance_created:
  assumes e: "concerns e r" "ev_event_type e = JOB_CREATED" and i: "jr_job_id r = i"
  shows "body_mirrors r (\<lambda>n. None) (advance (new_job i) e)"
    and "jv_recorded_status (advance (new_job i) e) = CREATED"
proof -
  have new: "\<not> is_semantic_duplicate (new_job i) e" "accepted (new_job i) e"
    using e(2) by (simp_all add: is_semantic_duplicate_iff accepted_def attempt_permits_def new_job_def)
  show "body_mirrors r (\<lambda>n. None) (advance (new_job i) e)"
    using e new
    by (simp add: body_mirrors_def data_mirrors_def advance_table attempt_mirrors_def
        findings_after_def attempt_events_def concerns_def str_or_def opt_or_def)
      (simp add: new_job_def)
  show "jv_recorded_status (advance (new_job i) e) = CREATED"
    using e(2) new by (simp add: advance_table)
qed

section \<open>The log of a database\<close>

definition log_events :: "string \<Rightarrow> (time \<times> event) list \<Rightarrow> event list" where
  "log_events i log = filter (\<lambda>e. ev_job_id e = i) (map snd log)"

text \<open>What the visibility side knows about a job once it has processed a log.\<close>

abbreviation visible :: "string \<Rightarrow> (time \<times> event) list \<Rightarrow> job_visibility" where
  "visible i log \<equiv> replay (new_job i) (log_events i log)"

definition job_mirrored :: "bool \<Rightarrow> scheduler_db \<Rightarrow> string \<Rightarrow> event list \<Rightarrow> bool" where
  "job_mirrored rc db i es \<longleftrightarrow>
     (case dict_get (db_jobs db) i of
        None \<Rightarrow> es = []
      | Some r \<Rightarrow>
          jr_correlation_id r \<noteq> [] \<and> jr_job_type r \<noteq> [] \<and>
          mirrors rc r (\<lambda>n. dict_get (db_attempts db) (i, n)) (replay (new_job i) es))"

definition wire_safe :: "event \<Rightarrow> bool" where
  "wire_safe e \<longleftrightarrow> valid_event e \<and> on_the_wire e = e"

text \<open>The outbox is the encoding of the log, entry by entry, and the log mirrors the tables.\<close>

definition log_inv :: "service \<Rightarrow> bool \<Rightarrow> (time \<times> event) list \<Rightarrow> scheduler_db \<Rightarrow> bool" where
  "log_inv svc rc log db \<longleftrightarrow>
     db_outbox db = map (\<lambda>(t, e). outbox_entry svc t e) log \<and>
     (\<forall>(t, e) \<in> set log. wire_safe e) \<and>
     (\<forall>i. job_mirrored rc db i (log_events i log))"

lemma log_events_append [simp]: "log_events i (log @ log') = log_events i log @ log_events i log'"
  by (simp add: log_events_def)

lemma log_events_Pair [simp]: "log_events i (map (Pair t) es) = filter (\<lambda>e. ev_job_id e = i) es"
  by (simp add: log_events_def comp_def)

text \<open>A transaction that appends some events and touches only their jobs.\<close>

lemma log_extend:
  assumes log: "log_inv svc rc log db"
    and out: "db_outbox db' = db_outbox db @ map (outbox_entry svc now) es"
    and safe: "\<And>e. e \<in> set es \<Longrightarrow> wire_safe e"
    and frame: "\<And>i. i \<notin> I \<Longrightarrow> dict_get (db_jobs db') i = dict_get (db_jobs db) i \<and>
      (\<forall>n. dict_get (db_attempts db') (i, n) = dict_get (db_attempts db) (i, n)) \<and>
      filter (\<lambda>e. ev_job_id e = i) es = []"
    and jobs: "\<And>i. i \<in> I \<Longrightarrow>
      job_mirrored rc db' i (log_events i log @ filter (\<lambda>e. ev_job_id e = i) es)"
  shows "log_inv svc rc (log @ map (Pair now) es) db'"
proof -
  have "job_mirrored rc db' i (log_events i (log @ map (Pair now) es))" for i
  proof (cases "i \<in> I")
    case False
    have "job_mirrored rc db i (log_events i log)" using log by (simp add: log_inv_def)
    then show ?thesis using frame [OF False] by (simp add: job_mirrored_def split: option.splits)
  qed (simp add: jobs)
  then show ?thesis using log out safe by (auto simp: log_inv_def)
qed

section \<open>Events the scheduler writes\<close>

lemma stamped_fields [simp]:
  "ev_job_id (stamped svc k e) = ev_job_id e" "ev_event_type (stamped svc k e) = ev_event_type e"
  "ev_event_time (stamped svc k e) = ev_event_time e" "ev_retryable (stamped svc k e) = ev_retryable e"
  "ev_error_code (stamped svc k e) = ev_error_code e" "attempt_key (stamped svc k e) = attempt_key e"
  "concerns (stamped svc k e) r = concerns e r"
  by (simp_all add: stamped_def attempt_key_def concerns_def)

lemma set_stamp_from: "e \<in> set (stamp_from svc k es) \<Longrightarrow> \<exists>j e0. e0 \<in> set es \<and> e = stamped svc j e0"
  by (induction es arbitrary: k) fastforce+

lemma stamp_from_jobs: "map ev_job_id (stamp_from svc k es) = map ev_job_id es"
  by (induction es arbitrary: k) simp_all

lemma job_event_fields [simp]:
  "ev_job_id (job_event c t u) = cl_job_id c" "ev_event_type (job_event c t u) = t"
  "ev_event_time (job_event c t u) = u" "ev_attempt_number (job_event c t u) = cl_attempt_number c"
  by (simp_all add: job_event_def new_event_def)

lemma job_event_key: "1 \<le> cl_attempt_number c \<Longrightarrow> attempt_key (job_event c t u) = cl_attempt_number c"
  by (simp add: attempt_key_def)

lemma concerns_job_event:
  "claim_of_row c r \<Longrightarrow> jr_correlation_id r \<noteq> [] \<Longrightarrow> jr_job_type r \<noteq> [] \<Longrightarrow> concerns (job_event c t u) r"
  by (simp add: concerns_def claim_of_row_def job_event_def new_event_def)

lemma wire_safe_job_event:
  assumes "1 \<le> cl_attempt_number c" "1 \<le> cl_max_attempts c" "cl_job_type c \<noteq> []"
  shows "wire_safe (stamped svc k (job_event c t u))"
    and "wire_safe (stamped svc k (success_event c u))"
    and "e \<in> set (failure_events c b code u a) \<Longrightarrow> wire_safe (stamped svc k e)"
  using assms
  by (auto simp: wire_safe_def valid_event_def on_the_wire_def stamped_def job_event_def new_event_def
      str_or_def success_event_def failure_events_def split: if_splits)

section \<open>Fenced transactions\<close>

lemma fenced_effect:
  assumes "bind_result (fenced_update now c assign db) (\<lambda>(db, r).
      bind_result (add_events svc now' (es r) (update_attempt (claim_key c) (f r) db))
        (\<lambda>db. Inr (db, ()))) = Inr (db', a)"
    and "\<And>r. dict_get (db_jobs db) (cl_job_id c) = Some r \<Longrightarrow> jr_job_id (assign r) = cl_job_id c"
  obtains r where "dict_get (db_jobs db) (cl_job_id c) = Some r" "holds_claim now c r"
    "db' = completed_db svc now' c (assign r) (f (assign r)) (es (assign r)) db"
proof -
  obtain r db1 where r: "dict_get (db_jobs db) (cl_job_id c) = Some r" "holds_claim now c r"
    and w: "write_job (assign r) db = Inr db1"
    and e: "add_events svc now' (es (assign r)) (update_attempt (claim_key c) (f (assign r)) db1) = Inr db'"
    using assms(1) by (auto simp: bind_result_Inr_iff fenced_update_Inr)
  have "db1 = db\<lparr>db_jobs := dict_put (cl_job_id c) (assign r) (db_jobs db)\<rparr>"
    using w assms(2) [OF r(1)] by (simp add: write_job_Inr)
  then have "db' = completed_db svc now' c (assign r) (f (assign r)) (es (assign r)) db"
    using add_events_outbox [OF e] by (simp add: completed_db_def)
  with r show thesis by (rule that)
qed

text \<open>The row, the claim and the attempt of a holder, and what the log shows of them.\<close>

lemma held_job:
  assumes s: "sys_inv svc s" "c \<in> set (ss_issued s)" and db: "ss_db s = db"
    and log: "log_inv svc rc log db"
    and r: "dict_get (db_jobs db) (cl_job_id c) = Some r" "holds_claim now c r"
  obtains a where "claim_of_row c r" "is_claimed r" "1 \<le> cl_attempt_number c" "1 \<le> cl_max_attempts c"
    "jr_job_id r = cl_job_id c" "jr_correlation_id r \<noteq> []" "jr_job_type r \<noteq> []"
    "dict_get (db_attempts db) (cl_job_id c, cl_attempt_number c) = Some a" "ar_outcome a = None"
    "\<And>n. 1 \<le> n \<Longrightarrow> n < cl_attempt_number c \<Longrightarrow> dict_get (db_attempts db) (cl_job_id c, n) \<noteq> None"
    "body_mirrors r (\<lambda>n. dict_get (db_attempts db) (cl_job_id c, n)) (visible (cl_job_id c) log)"
    "status_mirrors rc r (jv_recorded_status (visible (cl_job_id c) log))"
proof -
  have inv: "jobs_inv db" "attempts_inv {} db" "open_attempts db"
    using s(1) db by (simp_all add: sys_inv_def db_inv_def)
  have ok: "row_ok r" "jr_job_id r = cl_job_id c" using inv(1) r(1) by (simp_all add: jobs_inv_def)
  have cr: "claim_of_row c r" using s r(1) db by (auto simp: sys_inv_def issued_ok_def)
  have k: "jr_attempt_number r = cl_attempt_number c" using r(2) by (simp add: holds_claim_def)
  note bounds = claim_of_row_bounds [OF cr ok(1)]
  note claimed = held_is_claimed [OF ok(1) r(2)]
  have att: "dict_get (db_attempts db) (cl_job_id c, n) \<noteq> None" if "1 \<le> n" "n \<le> cl_attempt_number c" for n
    using inv(2) r(1) k that by (simp add: attempts_inv_def)
  then obtain a where a: "dict_get (db_attempts db) (cl_job_id c, cl_attempt_number c) = Some a"
    using bounds by fastforce
  then have out: "ar_outcome a = None"
    using inv(3) r(1) claimed k unfolding open_attempts_def by metis
  have "job_mirrored rc db (cl_job_id c) (log_events (cl_job_id c) log)"
    using log by (simp add: log_inv_def)
  then show thesis
    using that [OF cr claimed _ _ ok(2) _ _ a out] bounds att r(1)
    by (auto simp: job_mirrored_def mirrors_def)
qed

lemma completed_log:
  assumes log: "log_inv svc rc log db"
    and r: "dict_get (db_jobs db) (cl_job_id c) = Some r" "jr_correlation_id r \<noteq> []" "jr_job_type r \<noteq> []"
    and sub: "same_submission r r'"
    and es: "\<And>e. e \<in> set es \<Longrightarrow> ev_job_id e = cl_job_id c"
      "\<And>e k. e \<in> set es \<Longrightarrow> wire_safe (stamped svc k e)"
    and a: "dict_get (db_attempts db) (cl_job_id c, cl_attempt_number c) = Some a"
    and m: "\<And>k. mirrors rc r' ((\<lambda>n. dict_get (db_attempts db) (cl_job_id c, n))(cl_attempt_number c := Some (f a)))
      (replay (visible (cl_job_id c) log) (stamp_from svc k es))"
  shows "\<exists>log. log_inv svc rc log (completed_db svc now c r' f es db)"
proof
  let ?es = "stamp_from svc (db_uuids db) es"
  let ?db = "completed_db svc now c r' f es db"
  let ?i = "cl_job_id c"
  have ids: "ev_job_id e = ?i" if "e \<in> set ?es" for e
    using set_stamp_from [OF that] es(1) by auto
  then have here: "filter (\<lambda>e. ev_job_id e = ?i) ?es = ?es"
    and none: "j \<noteq> ?i \<Longrightarrow> filter (\<lambda>e. ev_job_id e = j) ?es = []" for j
    by (simp_all add: filter_id_conv filter_empty_conv)
  have get: "dict_get (db_attempts ?db) (j, n) =
      (if j = ?i \<and> n = cl_attempt_number c then Some (f a) else dict_get (db_attempts db) (j, n))" for j n
    using a by (simp add: completed_db_def update_attempt_get claim_key_def)
  then have atts: "(\<lambda>n. dict_get (db_attempts ?db) (?i, n)) =
      (\<lambda>n. dict_get (db_attempts db) (?i, n))(cl_attempt_number c := Some (f a))"
    by (auto simp: fun_eq_iff)
  show "log_inv svc rc (log @ map (Pair now) ?es) ?db"
  proof (rule log_extend [OF log, where I = "{?i}"])
    show "db_outbox ?db = db_outbox db @ map (outbox_entry svc now) ?es"
      by (simp add: completed_db_def)
    show "wire_safe e" if "e \<in> set ?es" for e
      using set_stamp_from [OF that] es(2) by auto
    show "dict_get (db_jobs ?db) i = dict_get (db_jobs db) i \<and>
      (\<forall>n. dict_get (db_attempts ?db) (i, n) = dict_get (db_attempts db) (i, n)) \<and>
      filter (\<lambda>e. ev_job_id e = i) ?es = []" if "i \<notin> {?i}" for i
      using that none get by (simp add: completed_db_def dict_rules)
    show "job_mirrored rc ?db i (log_events i log @ filter (\<lambda>e. ev_job_id e = i) ?es)" if "i \<in> {?i}" for i
    proof -
      have "dict_get (db_jobs ?db) ?i = Some r'" by (simp add: completed_db_def dict_rules)
      moreover have "jr_correlation_id r' \<noteq> []" "jr_job_type r' \<noteq> []"
        using sub r(2,3) by (simp_all add: same_submission_def)
      ultimately show ?thesis
        using that m [of "db_uuids db"] here by (simp add: job_mirrored_def atts)
    qed
  qed
qed

section \<open>Every operation keeps the log\<close>

lemma start_alt:
  "start svc now c = transaction (\<lambda>db.
      bind_result (fenced_update now c
        (\<lambda>r. r\<lparr>jr_status := ''RUNNING'', jr_updated_at := now, jr_version := jr_version r + 1\<rparr>) db) (\<lambda>(db, r).
      bind_result (add_events svc now [job_event c JOB_EXECUTION_STARTED (jr_updated_at r)]
        (update_attempt (claim_key c) (\<lambda>a. a\<lparr>ar_started_at := Some (jr_updated_at r)\<rparr>) db))
        (\<lambda>db. Inr (db, ()))))"
proof -
  have bind: "bind_result (add_events svc now [e] db) k = bind_result (add_event svc now e db) k" for e db
    and k :: "scheduler_db \<Rightarrow> (scheduler_db \<times> unit) result"
    by (cases "add_event svc now e db") simp_all
  show ?thesis unfolding start_def Let_def claim_key_def bind ..
qed

lemma start_log:
  assumes s: "sys_inv svc s" "c \<in> set (ss_issued s)" and log: "log_inv svc rc log (ss_db s)"
  shows "\<exists>log. log_inv svc rc log (fst (start svc now c (ss_db s)))"
  unfolding start_alt
proof (rule transaction_commit, goal_cases)
  case (1 db' u)
  let ?db = "ss_db s" and ?i = "cl_job_id c" and ?k = "cl_attempt_number c"
  let ?assign = "\<lambda>r. r\<lparr>jr_status := ''RUNNING'', jr_updated_at := now, jr_version := jr_version r + 1\<rparr>"
  let ?e = "job_event c JOB_EXECUTION_STARTED now" and ?f = "\<lambda>a. a\<lparr>ar_started_at := Some now\<rparr>"
  have j: "jobs_inv ?db" using s(1) by (simp add: sys_inv_def db_inv_def)
  obtain r where r: "dict_get (db_jobs ?db) ?i = Some r" "holds_claim now c r"
    and db': "db' = completed_db svc now c (?assign r) ?f [?e] ?db"
    using fenced_effect [OF 1] j by (auto simp: jobs_inv_def)
  show ?case
    unfolding db'
  proof (rule held_job [OF s refl log r], rule completed_log [OF log r(1)])
    fix a k
    assume h: "claim_of_row c r" "is_claimed r" "1 \<le> ?k" "1 \<le> cl_max_attempts c" "jr_job_id r = ?i"
      "jr_correlation_id r \<noteq> []" "jr_job_type r \<noteq> []"
      "dict_get (db_attempts ?db) (?i, ?k) = Some a" "ar_outcome a = None"
      "\<And>n. 1 \<le> n \<Longrightarrow> n < ?k \<Longrightarrow> dict_get (db_attempts ?db) (?i, n) \<noteq> None"
      "body_mirrors r (\<lambda>n. dict_get (db_attempts ?db) (?i, n)) (visible ?i log)"
      "status_mirrors rc r (jv_recorded_status (visible ?i log))"
    note st = advance_started [OF h(11,12), of "stamped svc k ?e" ?k a "?f a" "?assign r"]
    show "mirrors rc (?assign r) ((\<lambda>n. dict_get (db_attempts ?db) (?i, n))(?k := Some (?f a)))
        (replay (visible ?i log) (stamp_from svc k [?e]))"
      using st h concerns_job_event [OF h(1,6,7)] job_event_key [OF h(3)]
      by (simp add: mirrors_def body_same [of r] same_submission_def)
    show "wire_safe (stamped svc k e)" if "e \<in> set [?e]" for e
      using that wire_safe_job_event(1) [OF h(3,4)] h(1,7) by (simp add: claim_of_row_def)
    show "dict_get (db_attempts ?db) (?i, ?k) = Some a" "jr_correlation_id r \<noteq> []" "jr_job_type r \<noteq> []"
      by (rule h)+
  qed (simp_all add: same_submission_def)
qed (use log in blast)

lemma succeed_log:
  assumes s: "sys_inv svc s" "c \<in> set (ss_issued s)" and log: "log_inv svc rc log (ss_db s)"
  shows "\<exists>log. log_inv svc rc log (fst (succeed svc now c summary (ss_db s)))"
  unfolding succeed_alt
proof (rule transaction_commit, goal_cases)
  case (1 db' u)
  let ?db = "ss_db s" and ?i = "cl_job_id c" and ?k = "cl_attempt_number c"
  let ?e = "success_event c now" and ?f = "success_attempt now summary"
  have j: "jobs_inv ?db" using s(1) by (simp add: sys_inv_def db_inv_def)
  have at: "jr_updated_at (success_row now r) = now" for r by (simp add: success_row_def release_claim_def)
  have same: "same_submission r (success_row now r)" for r by (simp add: success_row_def)
  have id: "jr_job_id (success_row now r) = ?i" if "dict_get (db_jobs ?db) ?i = Some r" for r
    using j that same [of r] by (simp add: jobs_inv_def same_submission_def)
  obtain r where r: "dict_get (db_jobs ?db) ?i = Some r" "holds_claim now c r"
    and db': "db' = completed_db svc now c (success_row now r) ?f [?e] ?db"
    by (rule fenced_effect [OF 1 id], assumption, rule that) (simp_all only: at)
  show ?case
    unfolding db'
  proof (rule held_job [OF s refl log r], rule completed_log [OF log r(1) _ _ same])
    fix a k
    assume h: "claim_of_row c r" "is_claimed r" "1 \<le> ?k" "1 \<le> cl_max_attempts c" "jr_job_id r = ?i"
      "jr_correlation_id r \<noteq> []" "jr_job_type r \<noteq> []"
      "dict_get (db_attempts ?db) (?i, ?k) = Some a" "ar_outcome a = None"
      "\<And>n. 1 \<le> n \<Longrightarrow> n < ?k \<Longrightarrow> dict_get (db_attempts ?db) (?i, n) \<noteq> None"
      "body_mirrors r (\<lambda>n. dict_get (db_attempts ?db) (?i, n)) (visible ?i log)"
      "status_mirrors rc r (jv_recorded_status (visible ?i log))"
    have e: "concerns ?e r" "attempt_key ?e = ?k" "ev_event_type ?e = JOB_EXECUTION_SUCCEEDED"
      "ev_event_time ?e = now"
      using concerns_job_event [OF h(1,6,7)] job_event_key [OF h(3)] h(3)
      by (simp_all add: success_event_def concerns_def attempt_key_def)
    note fin = advance_finished [OF h(11,12), of "stamped svc k ?e" JOB_EXECUTION_SUCCEEDED ?k a "?f a"]
    show "mirrors rc (success_row now r) ((\<lambda>n. dict_get (db_attempts ?db) (?i, n))(?k := Some (?f a)))
        (replay (visible ?i log) (stamp_from svc k [?e]))"
      using fin h e body_same [OF _ same]
      by (simp add: mirrors_def success_attempt_def status_mirrors_def shown_as_def success_row_def)
    show "wire_safe (stamped svc k e)" if "e \<in> set [?e]" for e
      using that wire_safe_job_event(2) [OF h(3,4)] h(1,7) by (simp add: claim_of_row_def)
    show "dict_get (db_attempts ?db) (?i, ?k) = Some a" "jr_correlation_id r \<noteq> []" "jr_job_type r \<noteq> []"
      by (rule h)+
  qed (simp add: success_event_def)
qed (use log in blast)

text \<open>A failure: the failed event, then the request and acknowledgement of a retry or exhaustion.\<close>

lemma advance_failure:
  assumes m: "body_mirrors r atts job" "status_mirrors rc r (jv_recorded_status job)"
    and c: "claim_of_row c r" "is_claimed r" "jr_correlation_id r \<noteq> []" "jr_job_type r \<noteq> []"
    and k: "1 \<le> cl_attempt_number c" "atts (cl_attempt_number c) = Some a" "ar_outcome a = None"
      "\<And>n. 1 \<le> n \<Longrightarrow> n < cl_attempt_number c \<Longrightarrow> atts n \<noteq> None"
  shows "mirrors rc (failure_row now c b t r)
    (atts(cl_attempt_number c := Some (failure_attempt now c code b t a)))
    (replay job (stamp_from svc k (failure_events c b code now t)))"
proof -
  let ?k = "cl_attempt_number c" and ?f = "failure_attempt now c code b t"
  let ?e = "(job_event c JOB_EXECUTION_FAILED now)\<lparr>ev_retryable := Some b, ev_error_code := Some code\<rparr>"
  let ?q = "(job_event c JOB_RETRY_REQUESTED now)\<lparr>ev_retryable := Some True\<rparr>"
  let ?a = "(job_event c JOB_RETRY_ACKNOWLEDGED now)\<lparr>ev_retryable := Some True, ev_next_retry_at := Some t\<rparr>"
  let ?x = "(job_event c JOB_RETRIES_EXHAUSTED now)\<lparr>ev_retryable := Some False\<rparr>"
  let ?j = "advance job (stamped svc k ?e)"
  have con: "concerns ?e r" "concerns ?q r" "concerns ?a r" "concerns ?x r" "attempt_key ?e = ?k"
    using concerns_job_event [OF c(1,3,4)] job_event_key [OF k(1)] k(1)
    by (simp_all add: concerns_def attempt_key_def)
  have j: "body_mirrors r (atts(?k := Some (?f a))) ?j"
    "jv_recorded_status ?j = (if b then RETRY_PENDING else FAILED)"
    using advance_finished [OF m, of "stamped svc k ?e" JOB_EXECUTION_FAILED ?k a "?f a"] con c k
    by (simp_all add: failure_attempt_def)
  have same: "same_submission r (failure_row now c b t r)" by (simp add: failure_row_def)
  have "mirrors rc (failure_row now c b t r) (atts(?k := Some (?f a)))
      (replay ?j (stamp_from svc (Suc k) (tl (failure_events c b code now t))))"
  proof (cases "will_retry c b")
    case True
    then have b: "b" by (simp add: will_retry_def)
    let ?j1 = "advance ?j (stamped svc (Suc k) ?q)"
    let ?j2 = "advance ?j1 (stamped svc (Suc (Suc k)) ?a)"
    have j1: "body_mirrors r (atts(?k := Some (?f a))) ?j1" "jv_recorded_status ?j1 = RETRY_PENDING"
      using advance_plain [OF j(1), of "stamped svc (Suc k) ?q" JOB_RETRY_REQUESTED] con j(2) b by simp_all
    have "body_mirrors r (atts(?k := Some (?f a))) ?j2" "jv_recorded_status ?j2 = RETRY_SCHEDULED"
      using advance_plain [OF j1(1), of "stamped svc (Suc (Suc k)) ?a" JOB_RETRY_ACKNOWLEDGED] con j1(2)
      by simp_all
    then show ?thesis
      using True body_same [OF _ same]
      by (simp add: failure_events_def mirrors_def status_mirrors_def shown_as_def failure_row_def
          failure_status_def)
  next
    case no: False
    show ?thesis
    proof (cases b)
      case True
      let ?j1 = "advance ?j (stamped svc (Suc k) ?x)"
      have "body_mirrors r (atts(?k := Some (?f a))) ?j1" "jv_recorded_status ?j1 = RETRIES_EXHAUSTED"
        using advance_plain [OF j(1), of "stamped svc (Suc k) ?x" JOB_RETRIES_EXHAUSTED] con j(2) True
        by simp_all
      then show ?thesis
        using no True body_same [OF _ same]
        by (simp add: failure_events_def mirrors_def status_mirrors_def shown_as_def failure_row_def
            failure_status_def)
    next
      case False
      then show ?thesis
        using no j body_same [OF _ same]
        by (simp add: failure_events_def mirrors_def status_mirrors_def shown_as_def failure_row_def
            failure_status_def)
    qed
  qed
  then show ?thesis by (simp add: failure_events_def)
qed

lemma fail_log:
  assumes s: "sys_inv svc s" "c \<in> set (ss_issued s)" and log: "log_inv svc rc log (ss_db s)"
  shows "\<exists>log. log_inv svc rc log (fst (fail svc now now' c code b (ss_db s)))"
  unfolding fail_alt
proof (rule transaction_commit, goal_cases)
  case (1 db' u)
  let ?db = "ss_db s" and ?i = "cl_job_id c" and ?k = "cl_attempt_number c" and ?t = "retry_at svc now c b"
  let ?es = "failure_events c b code now' ?t" and ?f = "failure_attempt now' c code b ?t"
  let ?r = "failure_row now' c b ?t"
  have j: "jobs_inv ?db" using s(1) by (simp add: sys_inv_def db_inv_def)
  have at: "jr_updated_at (?r r) = now'" for r by (simp add: failure_row_def release_claim_def)
  have same: "same_submission r (?r r)" for r by (simp add: failure_row_def)
  have id: "jr_job_id (?r r) = ?i" if "dict_get (db_jobs ?db) ?i = Some r" for r
    using j that same [of r] by (simp add: jobs_inv_def same_submission_def)
  obtain r where r: "dict_get (db_jobs ?db) ?i = Some r" "holds_claim now' c r"
    and db': "db' = completed_db svc now' c (?r r) ?f ?es ?db"
    by (rule fenced_effect [OF 1 id], assumption, rule that) (simp_all only: at)
  show ?case
    unfolding db'
  proof (rule held_job [OF s refl log r], rule completed_log [OF log r(1) _ _ same])
    fix a k
    assume h: "claim_of_row c r" "is_claimed r" "1 \<le> ?k" "1 \<le> cl_max_attempts c" "jr_job_id r = ?i"
      "jr_correlation_id r \<noteq> []" "jr_job_type r \<noteq> []"
      "dict_get (db_attempts ?db) (?i, ?k) = Some a" "ar_outcome a = None"
      "\<And>n. 1 \<le> n \<Longrightarrow> n < ?k \<Longrightarrow> dict_get (db_attempts ?db) (?i, n) \<noteq> None"
      "body_mirrors r (\<lambda>n. dict_get (db_attempts ?db) (?i, n)) (visible ?i log)"
      "status_mirrors rc r (jv_recorded_status (visible ?i log))"
    show "mirrors rc (?r r) ((\<lambda>n. dict_get (db_attempts ?db) (?i, n))(?k := Some (?f a)))
        (replay (visible ?i log) (stamp_from svc k ?es))"
      by (rule advance_failure [OF h(11,12,1,2,6,7,3,8,9,10)])
    show "wire_safe (stamped svc k e)" if "e \<in> set ?es" for e
      using wire_safe_job_event(3) [OF h(3,4) _ that] h(1,7) by (simp add: claim_of_row_def)
    show "dict_get (db_attempts ?db) (?i, ?k) = Some a" "jr_correlation_id r \<noteq> []" "jr_job_type r \<noteq> []"
      by (rule h)+
  qed (auto simp: failure_events_def split: if_splits)
qed (use log in blast)

lemma heartbeat_log:
  assumes s: "sys_inv svc s" and log: "log_inv svc rc log (ss_db s)"
  shows "\<exists>log. log_inv svc rc log (fst (heartbeat svc now c (ss_db s)))"
  unfolding heartbeat_def
proof (rule transaction_commit, goal_cases)
  case (1 db' u)
  let ?db = "ss_db s" and ?i = "cl_job_id c"
  let ?f = "\<lambda>r. r\<lparr>jr_claim_expires_at := Some (now + seconds (sv_claim_lease_seconds svc)),
                jr_updated_at := now\<rparr>"
  obtain r where r: "dict_get (db_jobs ?db) ?i = Some r" and w: "write_job (?f r) ?db = Inr db'"
    using 1 by (auto simp: bind_result_Inr_iff fenced_update_Inr)
  have "jr_job_id r = ?i" using s r by (simp add: sys_inv_def db_inv_def jobs_inv_def)
  then have db': "db' = ?db\<lparr>db_jobs := dict_put ?i (?f r) (db_jobs ?db)\<rparr>"
    using w by (simp add: write_job_Inr)
  have shown: "status_mirrors rc (?f r) = status_mirrors rc r"
    by (simp add: fun_eq_iff status_mirrors_def shown_as_def)
  have "log_inv svc rc (log @ map (Pair now) []) db'"
  proof (rule log_extend [OF log, where I = "{?i}"])
    have "job_mirrored rc ?db ?i (log_events ?i log)" using log by (simp add: log_inv_def)
    then have "job_mirrored rc db' ?i (log_events ?i log)"
      using r body_same [of r _ _ "?f r"]
      by (simp add: job_mirrored_def db' dict_rules mirrors_def shown same_submission_def)
    then show "job_mirrored rc db' i (log_events i log @ filter (\<lambda>e. ev_job_id e = i) [])"
      if "i \<in> {?i}" for i
      using that by simp
  qed (simp_all add: db' dict_rules)
  then show ?case by blast
qed (use log in blast)

lemma submit_log:
  assumes s: "sys_inv svc s" and v: "valid_submission v" and log: "log_inv svc rc log (ss_db s)"
  shows "\<exists>log. log_inv svc rc log (fst (submit_checked svc faults now v (ss_db s)))"
  using submit_effect [of svc faults now v "ss_db s"]
proof (elim disjE conjE exE)
  let ?db = "ss_db s" and ?i = "su_job_id v" and ?r = "new_job_row v now"
  let ?es = "[submission_event v now JOB_CREATED, submission_event v now JOB_SCHEDULER_SUBMISSION_REQUESTED]"
  fix db1
  assume none: "dict_get (db_jobs ?db) ?i = None" and w: "write_job ?r ?db = Inr db1"
    and e: "add_events svc now ?es db1 = Inr (fst (submit_checked svc faults now v ?db))"
  let ?db' = "fst (submit_checked svc faults now v ?db)"
  let ?k = "db_uuids ?db" and ?ev = "stamp_from svc (db_uuids ?db) ?es"
  have id: "jr_job_id ?r = ?i" by (simp add: new_job_row_def)
  have db1: "db1 = ?db\<lparr>db_jobs := dict_put ?i ?r (db_jobs ?db)\<rparr>"
    using w id by (simp add: write_job_Inr)
  have db': "db_jobs ?db' = dict_put ?i ?r (db_jobs ?db)" "db_attempts ?db' = db_attempts ?db"
    "db_outbox ?db' = db_outbox ?db @ map (outbox_entry svc now) ?ev"
    using add_events_outbox [OF e] by (simp_all add: db1)
  have names: "su_job_id v \<noteq> []" "su_correlation_id v \<noteq> []" "su_job_type v \<noteq> []" "1 \<le> su_max_attempts v"
    using v by (auto simp: valid_submission_def submission_post_init_def split: if_splits)
  have con: "concerns (submission_event v now t) ?r" "ev_event_type (submission_event v now t) = t"
    "ev_job_id (submission_event v now t) = ?i" for t
    using names by (simp_all add: concerns_def submission_event_def new_event_def new_job_row_def)
  let ?j1 = "advance (new_job ?i) (stamped svc ?k (submission_event v now JOB_CREATED))"
  let ?j2 = "advance ?j1 (stamped svc (Suc ?k) (submission_event v now JOB_SCHEDULER_SUBMISSION_REQUESTED))"
  have j1: "body_mirrors ?r (\<lambda>n. None) ?j1" "jv_recorded_status ?j1 = CREATED"
    using advance_created [OF _ _ id, of "stamped svc ?k (submission_event v now JOB_CREATED)"] con by simp_all
  have j2: "body_mirrors ?r (\<lambda>n. None) ?j2" "jv_recorded_status ?j2 = PENDING_SUBMISSION"
    using advance_plain [OF j1(1), of "stamped svc (Suc ?k) (submission_event v now JOB_SCHEDULER_SUBMISSION_REQUESTED)"
        JOB_SCHEDULER_SUBMISSION_REQUESTED] con j1(2)
    by simp_all
  have atts: "dict_get (db_attempts ?db') (?i, n) = None" for n
  proof -
    have "attempts_inv {} ?db" using s by (simp add: sys_inv_def db_inv_def)
    then show ?thesis using none db'(2) unfolding attempts_inv_def by (metis option.distinct(1))
  qed
  have "log_inv svc rc (log @ map (Pair now) ?ev) ?db'"
  proof (rule log_extend [OF log db'(3), where I = "{?i}"])
    show "wire_safe e" if e: "e \<in> set ?ev" for e
    proof -
      obtain k t where "e = stamped svc k (submission_event v now t)"
        using set_stamp_from [OF e] by auto
      then show ?thesis
        using names valid_submission_event [OF v]
        by (simp add: wire_safe_def valid_event_def on_the_wire_def stamped_def submission_event_def
            new_event_def str_or_def)
    qed
    show "dict_get (db_jobs ?db') i = dict_get (db_jobs ?db) i \<and>
        (\<forall>n. dict_get (db_attempts ?db') (i, n) = dict_get (db_attempts ?db) (i, n)) \<and>
        filter (\<lambda>e. ev_job_id e = i) ?ev = []" if "i \<notin> {?i}" for i
      using that con(3) by (auto simp: db' dict_rules)
    show "job_mirrored rc ?db' i (log_events i log @ filter (\<lambda>e. ev_job_id e = i) ?ev)" if "i \<in> {?i}" for i
    proof -
      have "job_mirrored rc ?db ?i (log_events ?i log)" using log by (simp add: log_inv_def)
      then have "log_events ?i log = []" using none by (simp add: job_mirrored_def)
      moreover have "dict_get (db_jobs ?db') ?i = Some ?r" by (simp add: db' dict_rules)
      moreover have "shown_as ?r = [PENDING_SUBMISSION]" by (simp add: shown_as_def new_job_row_def)
      ultimately show ?thesis
        using that names j2 con(3) atts
        by (simp add: job_mirrored_def mirrors_def status_mirrors_def) (simp add: new_job_row_def)
    qed
  qed
  then show ?thesis by blast
qed (use log in \<open>metis\<close>)

text \<open>Recovery writes no EDR: the visible job stays where it was.\<close>

lemma recover_log:
  assumes s: "sys_inv svc s" and log: "log_inv svc True log (ss_db s)"
  shows "log_inv svc True log (fst (recover_expired_claims now locked limit (ss_db s)))"
proof -
  let ?db = "ss_db s"
  have inv: "db_inv svc {} ?db" using s by (simp add: sys_inv_def)
  show ?thesis
  proof (rule recover_effect [OF inv, of now locked limit])
    fix db'
    assume db': "fst (recover_expired_claims now locked limit ?db) = db'"
      "db_uuids db' = db_uuids ?db" "db_attempts db' = db_attempts ?db" "db_outbox db' = db_outbox ?db"
      "\<And>i. dict_get (db_jobs db') i =
         (if i \<in> row_ids (expired now locked limit ?db)
          then map_option (recover_row now) (dict_get (db_jobs ?db) i) else dict_get (db_jobs ?db) i)"
    have "log_inv svc True (log @ map (Pair now) []) db'"
    proof (rule log_extend [OF log, where I = "row_ids (expired now locked limit ?db)"])
      fix i assume i: "i \<in> row_ids (expired now locked limit ?db)"
      then obtain r where r: "dict_get (db_jobs ?db) i = Some r" "is_claimed r"
        using expired_claimed [OF inv] by blast
      have m: "job_mirrored True ?db i (log_events i log)" using log by (simp add: log_inv_def)
      then have "status_mirrors True r (jv_recorded_status (visible i log))"
        using r(1) by (simp add: job_mirrored_def mirrors_def)
      then have "status_mirrors True (recover_row now r) (jv_recorded_status (visible i log))"
        using claimed_shown [OF r(2)] by (auto simp: status_mirrors_def shown_as_def recover_row_def)
      moreover have "same_submission r (recover_row now r)" by (simp add: recover_row_def)
      ultimately have "job_mirrored True db' i (log_events i log)"
        using m i r(1) body_same [of r _ _ "recover_row now r"]
        by (simp add: job_mirrored_def mirrors_def db' same_submission_def)
      then show "job_mirrored True db' i (log_events i log @ filter (\<lambda>e. ev_job_id e = i) [])" by simp
    qed (simp_all add: db')
    then show ?thesis by (simp add: db'(1))
  qed (simp add: log)
qed

text \<open>A claim: one retrieval event per claimed row, in the order of the rows.\<close>

definition retrieval :: "service \<Rightarrow> claimed_job \<Rightarrow> event" where
  "retrieval svc c =
     job_event c JOB_SCHEDULER_ITEM_RETRIEVED (cl_claim_expires_at c - seconds (sv_claim_lease_seconds svc))"

lemma record_claims_outbox:
  "record_claims svc owner now cs db = Inr db' \<Longrightarrow>
   db_outbox db' = db_outbox db @
     map (outbox_entry svc now) (stamp_from svc (db_uuids db) (map (retrieval svc) cs))"
proof (induction cs arbitrary: db)
  case (Cons c cs)
  then obtain r db1 db2 where ins: "insert_attempt (cl_job_id c, cl_attempt_number c) r db = Inr db1"
    and e: "add_event svc now (retrieval svc c) db1 = Inr db2"
    and rest: "record_claims svc owner now cs db2 = Inr db'"
    by (simp only: record_claims.simps bind_result_Inr_iff retrieval_def) blast
  have a: "db_outbox db1 = db_outbox db" "db_uuids db1 = db_uuids db"
    using ins by (simp_all add: insert_attempt_Inr)
  have "add_events svc now [retrieval svc c] db1 = Inr db2" using e by (simp add: add_events_single)
  note add_events_outbox [OF this]
  then show ?case using Cons.IH [OF rest] a by simp
qed simp

lemma claim_due_outbox:
  assumes inj: "inj (sv_uuid svc)" and inv: "db_inv svc {} db"
    and c: "claim_due svc now now' locked owner limit db = (db', Inr claimed)"
  shows "\<exists>k. db_outbox db' = db_outbox db @
    map (outbox_entry svc now') (stamp_from svc k (map (retrieval svc) claimed))"
proof (cases "limit < 1")
  case True
  then show ?thesis using c by (auto simp: claim_due_def)
next
  case False
  let ?rs = "due now locked limit db"
  from c False obtain db1 rows where rows: "claim_rows svc owner now ?rs db = Inr (db1, rows)"
    and rec: "record_claims svc owner now' (map claimed_of rows) db1 = Inr db'"
    and claimed: "claimed = map claimed_of rows"
    by (auto simp: claim_due_def transaction_def bind_result_Inr_iff Let_def split: sum.splits)
  have j: "jobs_inv db" using inv by (simp add: db_inv_def)
  have pre: "dict_get (db_jobs db) (jr_job_id r) = Some r \<and> is_waiting r \<and> jr_job_id r \<notin> {}"
    if "r \<in> set ?rs" for r
    using due_rows(2) [OF j that] by simp
  have "db_outbox db1 = db_outbox db"
    using claim_rows_inv [OF inj inv rows due_rows(1) [OF j] pre] by simp
  then show ?thesis using record_claims_outbox [OF rec] claimed by auto
qed

lemma filter_job:
  assumes "distinct (map ev_job_id es)" and "e \<in> set es"
  shows "filter (\<lambda>x. ev_job_id x = ev_job_id e) es = [e]"
  using assms
proof (induction es)
  case (Cons x xs)
  show ?case
  proof (cases "e = x")
    case True
    have "filter (\<lambda>y. ev_job_id y = ev_job_id x) xs = []"
      using Cons.prems(1) by (auto simp: filter_empty_conv image_iff)
    then show ?thesis using True by simp
  next
    case False
    then have "e \<in> set xs" using Cons.prems(2) by simp
    moreover from this have "ev_job_id x \<noteq> ev_job_id e" using Cons.prems(1) by force
    ultimately show ?thesis using Cons.IH Cons.prems(1) by simp
  qed
qed simp

lemma claim_log:
  assumes inj: "inj (sv_uuid svc)" and s: "sys_inv svc s" and log: "log_inv svc rc log (ss_db s)"
    and c: "claim_due svc now now' locked owner limit (ss_db s) = (db', Inr claimed)"
  shows "\<exists>log. log_inv svc rc log db'"
proof -
  let ?db = "ss_db s"
  have inv: "db_inv svc {} ?db" using s by (simp add: sys_inv_def)
  have jobs: "jobs_inv ?db" and atts: "attempts_inv {} ?db" using inv by (simp_all add: db_inv_def)
  obtain k where out: "db_outbox db' = db_outbox ?db @
      map (outbox_entry svc now') (stamp_from svc k (map (retrieval svc) claimed))"
    using claim_due_outbox [OF inj inv c] by blast
  let ?es = "stamp_from svc k (map (retrieval svc) claimed)"
  show ?thesis
  proof (rule claim_due_effect [OF inj inv c])
    fix rows
    assume claimed: "claimed = map claimed_of rows"
      and ids: "map jr_job_id rows = map jr_job_id (due now locked limit ?db)"
      and rel: "list_all2 (\<lambda>r c. \<exists>t. t \<notin> drawn svc ?db \<and> c = claim_row svc owner t now r)
         (due now locked limit ?db) rows"
      and new: "\<And>r. r \<in> set rows \<Longrightarrow> dict_get (db_jobs db') (jr_job_id r) = Some r"
      and old: "\<And>i. i \<notin> row_ids rows \<Longrightarrow> dict_get (db_jobs db') i = dict_get (db_jobs ?db) i"
      and olda: "\<And>k. k \<notin> claim_key ` set claimed \<Longrightarrow>
        dict_get (db_attempts db') k = dict_get (db_attempts ?db) k"
      and newa: "\<And>c. c \<in> set claimed \<Longrightarrow> dict_get (db_attempts ?db) (claim_key c) = None \<and>
        (\<exists>a. dict_get (db_attempts db') (claim_key c) = Some a \<and> ar_outcome a = None \<and>
          ar_claim_token a = cl_claim_token c)"
    have evs: "map ev_job_id ?es = map jr_job_id rows"
      by (simp add: stamp_from_jobs claimed retrieval_def comp_def)
    then have dist: "distinct (map ev_job_id ?es)"
      using ids due_rows(1) [OF jobs] by simp
    have key: "claim_key (claimed_of q) = (jr_job_id q, jr_attempt_number q)" for q
      by (rule claim_key_of)
    have row: "\<exists>r t. dict_get (db_jobs ?db) (jr_job_id q) = Some r \<and> is_waiting r \<and>
        q = claim_row svc owner t now r" if q: "q \<in> set rows" for q
    proof -
      obtain n where n: "n < length rows" "rows ! n = q" using q by (auto simp: in_set_conv_nth)
      let ?r = "due now locked limit ?db ! n"
      have "?r \<in> set (due now locked limit ?db)" and "\<exists>t. q = claim_row svc owner t now ?r"
        using rel n by (auto simp: list_all2_conv_all_nth)
      then show ?thesis using due_rows(2) [OF jobs] by fastforce
    qed
    have unique: "q' = q" if "q \<in> set rows" "q' \<in> set rows" "jr_job_id q' = jr_job_id q" for q q'
      using new [OF that(1)] new [OF that(2)] that(3) by simp
    have main: "wire_safe e \<and> job_mirrored rc db' (ev_job_id e)
        (log_events (ev_job_id e) log @ filter (\<lambda>x. ev_job_id x = ev_job_id e) ?es)"
      if e: "e \<in> set ?es" for e
    proof -
      obtain q j where q: "q \<in> set rows" and e0: "e = stamped svc j (retrieval svc (claimed_of q))"
        using set_stamp_from [OF e] by (auto simp: claimed)
      let ?i = "jr_job_id q" and ?c = "claimed_of q"
      obtain r t where r: "dict_get (db_jobs ?db) ?i = Some r" "is_waiting r"
        and q0: "q = claim_row svc owner t now r"
        using row [OF q] by blast
      have ok: "row_ok r" using jobs r(1) by (simp add: jobs_inv_def)
      have same: "same_submission r q" by (simp add: q0 same_submission_def claim_row_def)
      have n: "cl_attempt_number ?c = jr_attempt_number r + 1" "0 \<le> jr_attempt_number r"
        using ok by (simp_all add: q0 row_ok_def job_row_check_def)
      have m: "job_mirrored rc ?db ?i (log_events ?i log)" using log by (simp add: log_inv_def)
      then have names: "jr_correlation_id r \<noteq> []" "jr_job_type r \<noteq> []"
        and b: "body_mirrors r (\<lambda>n. dict_get (db_attempts ?db) (?i, n)) (visible ?i log)"
        and st: "status_mirrors rc r (jv_recorded_status (visible ?i log))"
        using r(1) by (simp_all add: job_mirrored_def mirrors_def)
      have cq: "claim_of_row ?c q" using n by (simp add: claim_of_row_def claimed_of_def)
      have con: "concerns (retrieval svc ?c) q"
        using concerns_job_event [OF cq] names same by (simp add: retrieval_def same_submission_def)
      then have con': "concerns (retrieval svc ?c) r" using same by (simp add: concerns_def same_submission_def)
      obtain a where a: "dict_get (db_attempts db') (claim_key ?c) = Some a" "ar_outcome a = None"
        "dict_get (db_attempts ?db) (claim_key ?c) = None"
        using newa [of ?c] q claimed by auto
      have other: "dict_get (db_attempts db') (?i, n) = dict_get (db_attempts ?db) (?i, n)"
        if "n \<noteq> cl_attempt_number ?c" for n
      proof (rule olda, rule notI)
        assume "(?i, n) \<in> claim_key ` set claimed"
        then obtain q' where "q' \<in> set rows" "claim_key (claimed_of q') = (?i, n)" by (auto simp: claimed)
        then show False using unique [OF q] that by (auto simp: key)
      qed
      have attq: "(\<lambda>n. dict_get (db_attempts db') (?i, n)) =
          (\<lambda>n. dict_get (db_attempts ?db) (?i, n))(cl_attempt_number ?c := Some a)"
        using a(1) other by (auto simp: fun_eq_iff key)
      have before: "dict_get (db_attempts ?db) (?i, n) \<noteq> None" if "1 \<le> n" "n < cl_attempt_number ?c" for n
        using atts r(1) n that by (simp add: attempts_inv_def)
      have keyq: "attempt_key e = cl_attempt_number ?c"
        using job_event_key [of ?c] n by (simp add: e0 retrieval_def)
      note adv = advance_retrieved [OF b st, of e "cl_attempt_number ?c" q a]
      have "mirrors rc q (\<lambda>n. dict_get (db_attempts db') (?i, n)) (advance (visible ?i log) e)"
        unfolding attq mirrors_def
        using adv con' keyq a(2,3) before r(2) body_same [OF _ same]
        by (auto simp: e0 key retrieval_def q0 claim_row_def)
      moreover have "jr_correlation_id q \<noteq> []" "jr_job_type q \<noteq> []"
        using names same by (simp_all add: same_submission_def)
      moreover have "ev_job_id e = ?i" by (simp add: e0 retrieval_def)
      moreover have "filter (\<lambda>x. ev_job_id x = ev_job_id e) ?es = [e]" by (rule filter_job [OF dist e])
      moreover have "wire_safe e"
        using wire_safe_job_event(1) [of ?c] n cq ok names same
        by (simp add: e0 retrieval_def claim_of_row_def same_submission_def row_ok_def job_row_check_def)
      ultimately show ?thesis using new [OF q] by (simp add: job_mirrored_def)
    qed
    have "log_inv svc rc (log @ map (Pair now') ?es) db'"
    proof (rule log_extend [OF log out, where I = "row_ids rows"])
      show "wire_safe e" if "e \<in> set ?es" for e using main [OF that] by simp
      fix i
      have set: "row_ids rows = ev_job_id ` set ?es"
        unfolding row_ids_def using evs by (metis list.set_map)
      show "job_mirrored rc db' i (log_events i log @ filter (\<lambda>e. ev_job_id e = i) ?es)"
        if "i \<in> row_ids rows"
        using that main unfolding set by auto
      assume i: "i \<notin> row_ids rows"
      have "(i, n) \<notin> claim_key ` set claimed" for n
        using i by (auto simp: claimed key row_ids_def)
      moreover have "filter (\<lambda>e. ev_job_id e = i) ?es = []"
        using i unfolding set by (auto simp: filter_empty_conv)
      ultimately show "dict_get (db_jobs db') i = dict_get (db_jobs ?db) i \<and>
          (\<forall>n. dict_get (db_attempts db') (i, n) = dict_get (db_attempts ?db) (i, n)) \<and>
          filter (\<lambda>e. ev_job_id e = i) ?es = []"
        using old [OF i] olda by blast
    qed
    then show "\<exists>log. log_inv svc rc log db'" by blast
  qed
qed

section \<open>Runs\<close>

fun is_recovery :: "sched_op \<Rightarrow> bool" where
  "is_recovery (OpRecover now locked limit) = True"
| "is_recovery _ = False"

lemma step_log:
  assumes inj: "inj (sv_uuid svc)" and s: "sys_inv svc s" and log: "\<exists>log. log_inv svc rc log (ss_db s)"
    and op: "rc \<or> \<not> is_recovery op"
  shows "\<exists>log. log_inv svc rc log (ss_db (sched_step svc s op))"
proof -
  obtain log where log: "log_inv svc rc log (ss_db s)" using log by blast
  have issued: "\<exists>log. log_inv svc rc log (ss_db (on_issued s k f))"
    if "\<And>c. c \<in> set (ss_issued s) \<Longrightarrow> \<exists>log. log_inv svc rc log (f c (ss_db s))" for k f
    using that log by (auto simp: on_issued_def)
  show ?thesis
  proof (cases op)
    case (OpSubmit faults now v)
    have "valid_submission v'" if "submission_post_init v = Inr v'" for v'
      using that by (auto simp: submission_post_init_def valid_submission_def split: if_splits)
    then show ?thesis
      using OpSubmit submit_log [OF s _ log] log by (auto split: sum.split)
  next
    case (OpClaim now now' locked owner limit)
    show ?thesis
    proof (cases "claim_due svc now now' locked owner limit (ss_db s)")
      case (Pair db' res)
      show ?thesis
      proof (cases res)
        case (Inl err)
        then have "db' = ss_db s"
          using Pair by (auto simp: claim_due_def transaction_def split: if_splits sum.splits)
        then show ?thesis using OpClaim Pair Inl log by auto
      next
        case (Inr claimed)
        then show ?thesis using OpClaim Pair claim_log [OF inj s log] by simp
      qed
    qed
  next
    case (OpRecover now locked limit)
    then have rc using op by simp
    then have "log_inv svc rc log (ss_db (sched_step svc s op))"
      using OpRecover recover_log [OF s] log by simp
    then show ?thesis by blast
  qed (use issued start_log [OF s _ log] heartbeat_log [OF s log] succeed_log [OF s _ log]
      fail_log [OF s _ log] in simp_all)
qed

interpretation mirror_runs: invariant_machine "sched_step svc" "\<lambda>op. rc \<or> \<not> is_recovery op"
    "\<lambda>s. inj (sv_uuid svc) \<and> sys_inv svc s \<and> (\<exists>log. log_inv svc rc log (ss_db s))" for svc rc
  using sched_step_inv step_log by unfold_locales blast

lemma run_scheduler_log:
  assumes "inj (sv_uuid svc)" and "list_all (\<lambda>op. rc \<or> \<not> is_recovery op) ops"
  shows "\<exists>log. log_inv svc rc log (ss_db (run_scheduler svc ops))"
proof -
  have "log_inv svc rc [] empty_db"
    by (simp add: log_inv_def job_mirrored_def log_events_def) (simp add: empty_db_def)
  then have "\<exists>log. log_inv svc rc log (ss_db initial_system)" by (auto simp: initial_system_def)
  then show ?thesis
    using mirror_runs.run_inv [of svc initial_system rc ops] assms sys_inv_initial
    by (simp add: run_scheduler_def)
qed

section \<open>An attempt that is lost\<close>

text \<open>Recovery of a claim whose attempts are used up ends the job without an EDR.\<close>

lemma recover_exhausted:
  assumes inj: "inj (sv_uuid svc)"
    and rec: "recover_expired_claims now locked limit (ss_db (run_scheduler svc ops)) = (db', Inr n)"
    and r: "r \<in> set (expired now locked limit (ss_db (run_scheduler svc ops)))"
      "jr_attempt_number r = jr_max_attempts r"
  obtains r' log where "dict_get (db_jobs db') (jr_job_id r) = Some r'" "jr_status r' = ''RETRIES_EXHAUSTED''"
    "db_outbox db' = db_outbox (ss_db (run_scheduler svc ops))" "log_inv svc True log db'"
    "jv_recorded_status (visible (jr_job_id r) log) \<in> {AWAITING_EXECUTION, RUNNING}"
proof -
  let ?s = "run_scheduler svc ops" and ?db = "ss_db (run_scheduler svc ops)"
  have s: "sys_inv svc ?s" by (rule run_scheduler_inv [OF inj])
  then have inv: "db_inv svc {} ?db" and j: "jobs_inv ?db" by (simp_all add: sys_inv_def db_inv_def)
  have row: "dict_get (db_jobs ?db) (jr_job_id r) = Some r" "is_claimed r"
    using expired_rows(2) [OF j r(1)] by simp_all
  have "list_all (\<lambda>op. True \<or> \<not> is_recovery op) ops" by (simp add: list_all_iff)
  then obtain log where log: "log_inv svc True log ?db"
    using run_scheduler_log [OF inj] by blast
  have log': "log_inv svc True log db'"
    using recover_log [OF s log, of now locked limit] rec by simp
  obtain db1 where w: "write_rows (map (recover_row now) (expired now locked limit ?db)) ?db = Inr db1"
    "db' = db1"
    using rec by (auto simp: recover_expired_claims_def transaction_def Let_def bind_result_Inr_iff
        split: sum.splits)
  have got: "dict_get (db_jobs db') (jr_job_id r) = Some (recover_row now r)"
    and out: "db_outbox db' = db_outbox ?db"
    using write_recovered_inv [OF inv w(1) expired_rows(1) [OF j]] expired_rows(2) [OF j] row(1) r(1) w(2)
    by (auto simp: row_ids_def)
  have "job_mirrored True ?db (jr_job_id r) (log_events (jr_job_id r) log)"
    using log by (simp add: log_inv_def)
  then have "status_mirrors True r (jv_recorded_status (visible (jr_job_id r) log))"
    using row(1) by (simp add: job_mirrored_def mirrors_def)
  then have "jv_recorded_status (visible (jr_job_id r) log) \<in> {AWAITING_EXECUTION, RUNNING}"
    using claimed_shown [OF row(2)] by simp
  then show thesis
    using that [OF got _ out log'] r(2) by (simp add: recover_row_def)
qed

text \<open>A job of one attempt after its claim.\<close>

definition single_submission :: submission where
  "single_submission = example_submission\<lparr>su_max_attempts := 1\<rparr>"

lemma single_value:
  "(\<And>j. dict_get d j = (if j = i then Some r else None)) \<Longrightarrow> wf_dict d \<Longrightarrow> d = [(i, r)]"
proof (cases d)
  case Nil
  assume get: "\<And>j. dict_get d j = (if j = i then Some r else None)"
  show ?thesis using get [of i] Nil by simp
next
  case (Cons p d')
  assume get: "\<And>j. dict_get d j = (if j = i then Some r else None)" and wf: "wf_dict d"
  obtain k v where p: "p = (k, v)" by (cases p)
  have kv: "k = i" "v = r" using get [of k] Cons p by (simp_all split: if_splits)
  have "d' = []"
  proof (cases d')
    case q: (Cons q d'')
    obtain k' v' where "q = (k', v')" by (cases q)
    then have "k' \<noteq> k" "dict_get d k' \<noteq> None" using wf Cons p q by (auto simp: wf_dict_def)
    then show ?thesis using get [of k'] kv by (simp split: if_splits)
  qed simp
  then show ?thesis using Cons p kv by simp
qed

lemma single_claim:
  "\<exists>r db' n. expired 60000006 {} 10
       (ss_db (run_scheduler example_service [OpSubmit (\<lambda>c. None) 0 single_submission, OpClaim 5 6 {} ''w1'' 10])) = [r] \<and>
     jr_job_id r = ''job-1'' \<and> jr_attempt_number r = jr_max_attempts r \<and>
     recover_expired_claims 60000006 {} 10
       (ss_db (run_scheduler example_service [OpSubmit (\<lambda>c. None) 0 single_submission, OpClaim 5 6 {} ''w1'' 10])) =
     (db', Inr n)"
proof -
  let ?row = "new_job_row single_submission 0"
  have v: "submission_post_init single_submission = Inr single_submission"
    by (simp add: submission_post_init_def single_submission_def example_submission_def)
  then have valid: "valid_submission single_submission" by (simp add: valid_submission_def)
  obtain db1 where sub: "submit_checked example_service (\<lambda>c. None) 0 single_submission empty_db =
      (db1, Inr SD_CREATED)" and jobs1: "db_jobs db1 = [(''job-1'', ?row)]"
    using submit_commits [OF example_uuids db_inv_empty valid, of 0]
    by (auto simp: empty_db_def example_submission_def single_submission_def)
  have inv1: "db_inv example_service {} db1"
    using submit_inv [OF db_inv_empty valid, of example_service "\<lambda>c. None" 0] sub by simp
  have due1: "due 5 {} 10 db1 = [?row]"
    by (simp add: due_def jobs1 new_job_row_def example_submission_def single_submission_def)
  obtain db2 claimed where claim: "claim_due example_service 5 6 {} ''w1'' 10 db1 = (db2, Inr claimed)"
    using claim_due_total [OF example_uuids inv1] by blast
  have run: "ss_db (run_scheduler example_service
      [OpSubmit (\<lambda>c. None) 0 single_submission, OpClaim 5 6 {} ''w1'' 10]) = db2"
    using v sub claim by (simp add: run_scheduler_def initial_system_def)
  show ?thesis
    using claim_due_effect [OF example_uuids inv1 claim]
  proof cases
    case (1 rows)
    then obtain t where rows: "rows = [claim_row example_service ''w1'' t 5 ?row]"
      by (auto simp: due1 list_all2_Cons1)
    let ?r = "claim_row example_service ''w1'' t 5 ?row"
    have "dict_get (db_jobs db2) j = (if j = ''job-1'' then Some ?r else None)" for j
      using 1(6,7) rows jobs1
      by (auto simp: new_job_row_def example_submission_def single_submission_def row_ids_def)
    moreover have "wf_dict (db_jobs db2)" using 1(2) by (simp add: db_inv_def jobs_inv_def)
    ultimately have jobs2: "db_jobs db2 = [(''job-1'', ?r)]" by (rule single_value)
    have "expired 60000006 {} 10 db2 = [?r]"
      by (simp add: expired_def jobs2 claim_row_def new_job_row_def example_submission_def
          single_submission_def example_service_def)
    then show ?thesis
      unfolding run
      by (simp add: recover_expired_claims_def transaction_def write_job_def job_row_check_def
          recover_row_def release_claim_def claim_row_def new_job_row_def example_submission_def
          single_submission_def)
  qed
qed

end
