(* ===== verification/Projection_Worker.thy ===== *)
theory Projection_Worker
  imports Edr_Wire Engine_Delivery
begin

text \<open>
  The EDR store of \<open>src/migrations/edr/versions/0001_edr_base.py\<close> and its projection worker,
  \<open>src/job_visibility/edr_store/projection_worker.py\<close>: the immutable journal, the projection of one
  job by replaying its journal through the engine, projection rounds and rebuilds.
\<close>

section \<open>The EDR store\<close>

text \<open>
  A journal row as the sink wrote it; \<open>er_payload\<close> is the decoded \<open>canonical_payload\<close> column, a
  string or an object. A projection row is what the read API serves.
\<close>

record edr_row =
  er_event_id :: string
  er_job_id :: string
  er_payload :: json
  er_payload_hash :: string
  er_persisted_at :: time

record visibility_row =
  vr_correlation_id :: string
  vr_job_type :: string
  vr_recorded_status :: string
  vr_projection :: json
  vr_data_as_of :: "time option"
  vr_version :: int

record finding_row =
  fr_message :: string
  fr_active :: bool
  fr_resolved_at :: "time option"

record edr_db =
  pd_events :: "(string, edr_row) dict"
  pd_visibility :: "(string, visibility_row) dict"
  pd_projected :: "(string, string) dict"
  pd_attempts :: "(string \<times> int, json) dict"
  pd_decisions :: "(string, string \<times> string \<times> string option) dict"
  pd_findings :: "(string \<times> string \<times> time, finding_row) dict"

definition empty_edr_db :: edr_db where
  "empty_edr_db = \<lparr>pd_events = [], pd_visibility = [], pd_projected = [], pd_attempts = [],
     pd_decisions = [], pd_findings = []\<rparr>"

text \<open>
  The sink inserts a new row; on a present key it updates, and the trigger \<open>preserve_edr_event\<close> lets
  only an update with the same hash and payload pass, which it turns into a no-operation. Deletions
  never pass.
\<close>

definition sink_upsert :: "edr_row \<Rightarrow> edr_db \<Rightarrow> edr_db result" where
  "sink_upsert r db =
     (case dict_get (pd_events db) (er_event_id r) of
        None \<Rightarrow> Inr (db\<lparr>pd_events := dict_put (er_event_id r) r (pd_events db)\<rparr>)
      | Some old \<Rightarrow>
          (if er_payload_hash r = er_payload_hash old \<and> json_eq (er_payload r) (er_payload old)
           then Inr db
           else Inl (DriverError ''IntegrityConstraintViolation'')))"

definition sink_delete :: "string \<Rightarrow> edr_db \<Rightarrow> edr_db result" where
  "sink_delete event_id db =
     (case dict_get (pd_events db) event_id of
        None \<Rightarrow> Inr db
      | Some old \<Rightarrow> Inl (DriverError ''IntegrityConstraintViolation''))"

section \<open>Projecting one job\<close>

text \<open>What the standard library does: \<open>json.loads\<close> and \<open>datetime.fromisoformat\<close>.\<close>

record codec =
  co_loads :: "string \<Rightarrow> json result"
  co_fromiso :: "string \<Rightarrow> time result"

text \<open>\<open>event_from_wire(wire.get("canonicalPayload", wire))\<close> for one journal row.\<close>

definition event_of_payload :: "codec \<Rightarrow> json \<Rightarrow> event result" where
  "event_of_payload co payload =
     bind_result (case payload of JStr s \<Rightarrow> co_loads co s | _ \<Rightarrow> Inr payload) (\<lambda>wire.
     case wire of
       JObj kvs \<Rightarrow>
         event_from_text (co_loads co) (co_fromiso co) (get_default kvs ''canonicalPayload'' wire)
     | _ \<Rightarrow> Inl (AttributeError ''get''))"

definition job_rows :: "edr_db \<Rightarrow> string \<Rightarrow> edr_row list" where
  "job_rows db job_id =
     sort_key (\<lambda>r. (er_persisted_at r, er_event_id r))
       (filter (\<lambda>r. er_job_id r = job_id) (dict_values (pd_events db)))"

fun replay_rows :: "codec \<Rightarrow> edr_row list \<Rightarrow> engine \<Rightarrow> engine result" where
  "replay_rows co [] en = Inr en"
| "replay_rows co (r # rs) en =
     bind_result (event_of_payload co (er_payload r)) (\<lambda>e.
     case engine_apply en e None of
       (en, Inl err) \<Rightarrow> Inl err
     | (en, Inr decision) \<Rightarrow> replay_rows co rs en)"

definition visibility_row_of :: "engine \<Rightarrow> string \<Rightarrow> job_visibility \<Rightarrow> json \<Rightarrow> visibility_row" where
  "visibility_row_of en job_id job projection =
     \<lparr>vr_correlation_id = jv_correlation_id job, vr_job_type = jv_job_type job,
      vr_recorded_status = status_value (jv_recorded_status job), vr_projection = projection,
      vr_data_as_of = jv_data_as_of job, vr_version = jv_version job\<rparr>"

fun insert_attempt_rows ::
  "string \<Rightarrow> attempt list \<Rightarrow> (string \<times> int, json) dict \<Rightarrow> (string \<times> int, json) dict result" where
  "insert_attempt_rows job_id [] rows = Inr rows"
| "insert_attempt_rows job_id (a # as) rows =
     (if at_attempt_number a \<le> 0 then Inl (DriverError ''CheckViolation'')
      else if dict_get rows (job_id, at_attempt_number a) \<noteq> None
      then Inl (DriverError ''UniqueViolation'')
      else insert_attempt_rows job_id as
             (dict_put (job_id, at_attempt_number a) (attempt_to_dict a) rows))"

fun insert_decisions ::
  "edr_db \<Rightarrow> string \<Rightarrow> projection_decision list \<Rightarrow> edr_db result" where
  "insert_decisions db job_id [] = Inr db"
| "insert_decisions db job_id (d # ds) =
     (if dict_get (pd_decisions db) (de_event_id d) \<noteq> None then insert_decisions db job_id ds
      else if dict_get (pd_events db) (de_event_id d) = None
      then Inl (DriverError ''ForeignKeyViolation'')
      else insert_decisions
             (db\<lparr>pd_decisions := dict_put (de_event_id d) (job_id, de_decision d, de_reason d)
                                   (pd_decisions db)\<rparr>) job_id ds)"

definition upsert_finding :: "string \<Rightarrow> finding \<Rightarrow> edr_db \<Rightarrow> edr_db" where
  "upsert_finding job_id f db =
     (let key = (job_id, fi_code f, fi_first_observed_at f)
      in db\<lparr>pd_findings := dict_put key
              (case dict_get (pd_findings db) key of
                 None \<Rightarrow> \<lparr>fr_message = fi_message f, fr_active = fi_active f,
                          fr_resolved_at = fi_resolved_at f\<rparr>
               | Some old \<Rightarrow> old\<lparr>fr_active := fi_active f, fr_resolved_at := fi_resolved_at f\<rparr>)
              (pd_findings db)\<rparr>)"

text \<open>The view of a job: its snapshot and the response at the time its data is as of.\<close>

definition job_view :: "codec \<Rightarrow> edr_db \<Rightarrow> string \<Rightarrow> (job_visibility \<times> visibility_row) result" where
  "job_view co db job_id =
     bind_result (replay_rows co (job_rows db job_id) (new_engine None)) (\<lambda>en.
     bind_result (snapshot en job_id) (\<lambda>job.
     case jv_data_as_of job of
       None \<Rightarrow> Inl (TypeError ''now'')
     | Some now \<Rightarrow>
         bind_result (get_response en job_id now) (\<lambda>projection.
         Inr (job, visibility_row_of en job_id job projection))))"

definition project_job :: "codec \<Rightarrow> string \<Rightarrow> edr_db \<Rightarrow> edr_db result" where
  "project_job co job_id db =
     bind_result (job_view co db job_id) (\<lambda>(job, row).
     let db = db\<lparr>pd_visibility := dict_put job_id row (pd_visibility db)\<rparr>;
         kept = filter (\<lambda>((i, n), v). i \<noteq> job_id) (pd_attempts db)
     in bind_result (insert_attempt_rows job_id (dict_values (jv_attempts job)) kept) (\<lambda>attempts.
        bind_result (insert_decisions (db\<lparr>pd_attempts := attempts\<rparr>) job_id (jv_decisions job)) (\<lambda>db.
        Inr (fold (upsert_finding job_id) (dict_values (jv_findings job)) db))))"

section \<open>The worker\<close>

text \<open>The events without a \<open>projected_events\<close> row that no other transaction holds, oldest first.\<close>

definition pending_events :: "string set \<Rightarrow> int \<Rightarrow> edr_db \<Rightarrow> edr_row list" where
  "pending_events locked limit db =
     take (nat limit)
       (sort_key (\<lambda>r. (er_persisted_at r, er_event_id r))
         (filter (\<lambda>r. dict_get (pd_projected db) (er_event_id r) = None \<and> er_event_id r \<notin> locked)
           (dict_values (pd_events db))))"

fun project_pending ::
  "codec \<Rightarrow> (string \<Rightarrow> edr_row \<Rightarrow> exn option) \<Rightarrow> edr_row list \<Rightarrow> edr_db \<Rightarrow> edr_db result" where
  "project_pending co faults [] db = Inr db"
| "project_pending co faults (r # rs) db =
     (case faults ''projector.before_apply'' r of
        Some err \<Rightarrow> Inl err
      | None \<Rightarrow>
          bind_result (project_job co (er_job_id r) db) (\<lambda>db.
          let db = db\<lparr>pd_projected :=
                (if dict_get (pd_projected db) (er_event_id r) \<noteq> None then pd_projected db
                 else dict_put (er_event_id r) (er_job_id r) (pd_projected db))\<rparr>
          in case faults ''projector.after_apply'' r of
               Some err \<Rightarrow> Inl err
             | None \<Rightarrow> project_pending co faults rs db))"

text \<open>One transaction: an exception leaves the store as it was.\<close>

definition projection_run_once ::
  "codec \<Rightarrow> (string \<Rightarrow> edr_row \<Rightarrow> exn option) \<Rightarrow> (string list \<Rightarrow> exn option) \<Rightarrow> string set \<Rightarrow> int \<Rightarrow>
   edr_db \<Rightarrow> edr_db \<times> int result" where
  "projection_run_once co faults before_commit locked batch_size db =
     (let pending = pending_events locked batch_size db
      in case project_pending co faults pending db of
           Inl err \<Rightarrow> (db, Inl err)
         | Inr db' \<Rightarrow>
             (case (if pending = [] then None else before_commit (map er_event_id pending)) of
                Some err \<Rightarrow> (db, Inl err)
              | None \<Rightarrow> (db', Inr (int (length pending)))))"

fun project_jobs :: "codec \<Rightarrow> string list \<Rightarrow> edr_db \<Rightarrow> edr_db result" where
  "project_jobs co [] db = Inr db"
| "project_jobs co (i # is) db = bind_result (project_job co i db) (project_jobs co is)"

definition rebuild :: "codec \<Rightarrow> edr_db \<Rightarrow> edr_db \<times> int result" where
  "rebuild co db =
     (let ids = sort (remdups (map er_job_id (dict_values (pd_events db))))
      in case project_jobs co ids db of
           Inl err \<Rightarrow> (db, Inl err)
         | Inr db' \<Rightarrow> (db', Inr (int (length ids))))"

end
