(* ===== verification/Projection_Replay.thy ===== *)
theory Projection_Replay
  imports Projection_Worker
begin

text \<open>
  What a projected job's row and attempts are: those of the reducer's replay of its journal. The
  projection of a journalled job always succeeds.
\<close>

section \<open>What a job's projection should be\<close>

definition decodes :: "codec \<Rightarrow> edr_row \<Rightarrow> bool" where
  "decodes co r \<longleftrightarrow>
     (\<exists>e. event_of_payload co (er_payload r) = Inr e \<and> ev_event_id e = er_event_id r \<and>
        ev_job_id e = er_job_id r \<and> valid_event e)"

definition decoded :: "codec \<Rightarrow> edr_row \<Rightarrow> event" where
  "decoded co r =
     (case event_of_payload co (er_payload r) of Inr e \<Rightarrow> e | Inl err \<Rightarrow> new_event [] JOB_CREATED 0 0 [])"

definition job_events :: "codec \<Rightarrow> edr_db \<Rightarrow> string \<Rightarrow> event list" where
  "job_events co db i = map (decoded co) (job_rows db i)"

text \<open>The replay of the job's journal and the row it is served as.\<close>

definition replayed :: "codec \<Rightarrow> edr_db \<Rightarrow> string \<Rightarrow> job_visibility" where
  "replayed co db i = replay (new_job i) (job_events co db i)"

definition served_row :: "job_visibility \<Rightarrow> visibility_row" where
  "served_row job =
     \<lparr>vr_correlation_id = jv_correlation_id job, vr_job_type = jv_job_type job,
      vr_recorded_status = status_value (jv_recorded_status job),
      vr_projection = response default_config job
        (case jv_data_as_of job of None \<Rightarrow> 0 | Some t \<Rightarrow> t),
      vr_data_as_of = jv_data_as_of job, vr_version = jv_version job\<rparr>"

lemma decodes_decoded:
  "decodes co r \<Longrightarrow> event_of_payload co (er_payload r) = Inr (decoded co r) \<and>
     ev_event_id (decoded co r) = er_event_id r \<and> ev_job_id (decoded co r) = er_job_id r \<and>
     valid_event (decoded co r)"
  by (auto simp: decodes_def decoded_def)

section \<open>The journal\<close>

definition journal_ok :: "codec \<Rightarrow> edr_db \<Rightarrow> bool" where
  "journal_ok co db \<longleftrightarrow>
     wf_dict (pd_events db) \<and>
     (\<forall>i r. dict_get (pd_events db) i = Some r \<longrightarrow> er_event_id r = i \<and> decodes co r)"

lemma journal_values:
  assumes "journal_ok co db"
  shows "r \<in> set (dict_values (pd_events db)) \<longleftrightarrow> dict_get (pd_events db) (er_event_id r) = Some r"
    and "distinct (map er_event_id (dict_values (pd_events db)))"
proof -
  have wf: "wf_dict (pd_events db)"
    and id: "\<And>i r. dict_get (pd_events db) i = Some r \<Longrightarrow> er_event_id r = i"
    using assms by (simp_all add: journal_ok_def)
  show "r \<in> set (dict_values (pd_events db)) \<longleftrightarrow> dict_get (pd_events db) (er_event_id r) = Some r"
    using pd.vals_get [OF wf, of r] id by blast
  have keys: "map er_event_id (dict_values (pd_events db)) = dict_keys (pd_events db)"
    unfolding map_map by (rule map_cong) (use wf id in \<open>auto simp: wf_dict_def map_of_eq_Some_iff\<close>)
  show "distinct (map er_event_id (dict_values (pd_events db)))"
    unfolding keys using wf by (simp only: wf_dict_def)
qed

lemma job_rows_set:
  assumes "journal_ok co db"
  shows "r \<in> set (job_rows db i) \<longleftrightarrow> dict_get (pd_events db) (er_event_id r) = Some r \<and> er_job_id r = i"
    and "distinct (map er_event_id (job_rows db i))"
proof -
  show "r \<in> set (job_rows db i) \<longleftrightarrow> dict_get (pd_events db) (er_event_id r) = Some r \<and> er_job_id r = i"
    using journal_values(1) [OF assms, of r] unfolding job_rows_def by (simp only: set_sort set_filter) blast
  show "distinct (map er_event_id (job_rows db i))"
    unfolding job_rows_def
    by (intro distinct_map_sort distinct_map_filter journal_values(2) [OF assms])
qed

lemma job_rows_decode: "journal_ok co db \<Longrightarrow> r \<in> set (job_rows db i) \<Longrightarrow> decodes co r"
proof -
  assume j: "journal_ok co db" and "r \<in> set (job_rows db i)"
  then have "dict_get (pd_events db) (er_event_id r) = Some r" using job_rows_set(1) [OF j] by blast
  then show "decodes co r" using j unfolding journal_ok_def by blast
qed

section \<open>Replaying a journal through the engine\<close>

lemma replay_rows_replays:
  "(\<And>r. r \<in> set rs \<Longrightarrow> decodes co r \<and> er_job_id r = i \<and> er_event_id r \<notin> en_event_ids en) \<Longrightarrow>
   distinct (map er_event_id rs) \<Longrightarrow> jv_job_id (current_job en i) = i \<Longrightarrow>
   \<exists>en'. replay_rows co rs en = Inr en' \<and> en_config en' = en_config en \<and>
     current_job en' i = replay (current_job en i) (map (decoded co) rs) \<and>
     (rs \<noteq> [] \<or> dict_get (en_jobs en) i \<noteq> None \<longrightarrow> dict_get (en_jobs en') i \<noteq> None)"
proof (induction rs arbitrary: en)
  case (Cons r rs)
  let ?e = "decoded co r"
  have r: "event_of_payload co (er_payload r) = Inr ?e" "ev_event_id ?e = er_event_id r"
    "ev_job_id ?e = i" "er_event_id r \<notin> en_event_ids en"
    using Cons.prems(1) [of r] decodes_decoded [of co r] by auto
  let ?en = "en\<lparr>en_event_ids := insert (er_event_id r) (en_event_ids en),
      en_events := en_events en @ [?e],
      en_jobs := dict_put i (advance (current_job en i) ?e) (en_jobs en)\<rparr>"
  have "engine_apply en ?e None = (?en, Inr (decision_of (current_job en i) ?e))"
    using engine_apply_fresh [of ?e en None] r Cons.prems(3)
    by (simp add: conflicts_def decision_of_def)
  then have eq: "replay_rows co (r # rs) en = replay_rows co rs ?en" using r(1) by simp
  have cur: "current_job ?en i = advance (current_job en i) ?e"
    by (simp add: current_job_def dict_rules)
  have "jv_job_id (current_job ?en i) = i" using Cons.prems(3) unfolding cur by (simp add: reduce_bookkeeping)
  moreover have "decodes co q \<and> er_job_id q = i \<and> er_event_id q \<notin> en_event_ids ?en" if "q \<in> set rs" for q
    using Cons.prems(1) [of q] Cons.prems(2) that by (auto simp: image_iff)
  moreover have "distinct (map er_event_id rs)" using Cons.prems(2) by simp
  ultimately obtain en' where "replay_rows co rs ?en = Inr en'" "en_config en' = en_config ?en"
    "current_job en' i = replay (current_job ?en i) (map (decoded co) rs)"
    "dict_get (en_jobs ?en) i \<noteq> None \<longrightarrow> dict_get (en_jobs en') i \<noteq> None"
    using Cons.IH [of ?en] by blast
  then show ?case unfolding eq cur by (intro exI [of _ en']) (simp add: dict_rules)
qed simp

lemma replay_data_as_of: "es \<noteq> [] \<Longrightarrow> jv_data_as_of (replay job es) \<noteq> None"
proof (induction es rule: rev_induct)
  case (snoc e es)
  have "jv_data_as_of (advance j e) \<noteq> None" for j
    by (auto simp: reduce_step_conv latest_def split: option.splits)
  then show ?case by (simp add: replay_def)
qed simp

lemma job_view_is_replay:
  assumes j: "journal_ok co db" and rows: "job_rows db i \<noteq> []"
  shows "job_view co db i = Inr (replayed co db i, served_row (replayed co db i))"
proof -
  have "decodes co r \<and> er_job_id r = i \<and> er_event_id r \<notin> en_event_ids (new_engine None)"
    if "r \<in> set (job_rows db i)" for r
    using job_rows_decode [OF j that] job_rows_set(1) [OF j] that by (auto simp: new_engine_def)
  moreover have "jv_job_id (current_job (new_engine None) i) = i"
    by (simp add: current_job_def new_engine_def new_job_def)
  ultimately obtain en where en: "replay_rows co (job_rows db i) (new_engine None) = Inr en"
    "en_config en = default_config" "current_job en i = replayed co db i" "dict_get (en_jobs en) i \<noteq> None"
    using replay_rows_replays [of "job_rows db i" co i "new_engine None"] rows job_rows_set(2) [OF j]
    by (auto simp: new_engine_def current_job_def replayed_def job_events_def)
  then have get: "dict_get (en_jobs en) i = Some (replayed co db i)"
    by (auto simp: current_job_def)
  obtain t where t: "jv_data_as_of (replayed co db i) = Some t"
    using replay_data_as_of [of "job_events co db i" "new_job i"] rows
    by (auto simp: replayed_def job_events_def)
  show ?thesis
    using en(1,2) get t
    by (simp add: job_view_def snapshot_def get_response_def visibility_row_of_def served_row_def)
qed

section \<open>Projecting always succeeds\<close>

lemma decision_ids: "set (map de_event_id (jv_decisions (replay job es))) \<subseteq>
    set (map de_event_id (jv_decisions job)) \<union> set (map ev_event_id es)"
proof (induction es arbitrary: job)
  case (Cons e es)
  have "jv_decisions (advance job e) = jv_decisions job @ [decision_of job e]"
    by (simp add: reduce_step_conv)
  then show ?case using Cons.IH [of "advance job e"] by auto
qed simp

lemma insert_attempt_rows_total:
  "(\<And>a. a \<in> set as \<Longrightarrow> 1 \<le> at_attempt_number a \<and> dict_get rows (i, at_attempt_number a) = None) \<Longrightarrow>
   distinct (map at_attempt_number as) \<Longrightarrow>
   \<exists>rows'. insert_attempt_rows i as rows = Inr rows' \<and>
     (\<forall>k. dict_get rows' k =
        (if fst k = i \<and> snd k \<in> at_attempt_number ` set as
         then map_option attempt_to_dict (find (\<lambda>a. at_attempt_number a = snd k) as)
         else dict_get rows k))"
proof (induction as arbitrary: rows)
  case (Cons a as)
  let ?rows = "dict_put (i, at_attempt_number a) (attempt_to_dict a) rows"
  have "1 \<le> at_attempt_number b \<and> dict_get ?rows (i, at_attempt_number b) = None" if "b \<in> set as" for b
    using Cons.prems(1) [of b] Cons.prems(2) that by (auto simp: dict_rules image_iff)
  moreover have "distinct (map at_attempt_number as)" using Cons.prems(2) by simp
  ultimately obtain rows' where rows': "insert_attempt_rows i as ?rows = Inr rows'"
    "\<And>k. dict_get rows' k =
        (if fst k = i \<and> snd k \<in> at_attempt_number ` set as
         then map_option attempt_to_dict (find (\<lambda>a. at_attempt_number a = snd k) as)
         else dict_get ?rows k)"
    using Cons.IH [of ?rows] by blast
  have a: "\<not> at_attempt_number a \<le> 0" "dict_get rows (i, at_attempt_number a) = None"
    using Cons.prems(1) [of a] by auto
  have new: "at_attempt_number a \<notin> at_attempt_number ` set as" using Cons.prems(2) by simp
  have "dict_get rows' k =
        (if fst k = i \<and> snd k \<in> at_attempt_number ` set (a # as)
         then map_option attempt_to_dict (find (\<lambda>b. at_attempt_number b = snd k) (a # as))
         else dict_get rows k)" for k
    using new rows'(2) [of k] by (cases k) (auto simp: dict_rules)
  then show ?case using rows'(1) a by (intro exI [of _ rows']) simp
qed simp

lemma insert_decisions_total:
  "(\<And>d. d \<in> set ds \<Longrightarrow> dict_get (pd_events db) (de_event_id d) \<noteq> None) \<Longrightarrow>
   \<exists>decisions. insert_decisions db i ds = Inr (db\<lparr>pd_decisions := decisions\<rparr>)"
proof (induction ds arbitrary: db)
  case Nil
  show ?case by (intro exI [of _ "pd_decisions db"]) simp
next
  case (Cons d ds)
  let ?db = "db\<lparr>pd_decisions := dict_put (de_event_id d) (i, de_decision d, de_reason d)
                                   (pd_decisions db)\<rparr>"
  have here: "\<exists>decisions. insert_decisions db i ds = Inr (db\<lparr>pd_decisions := decisions\<rparr>)"
    by (rule Cons.IH) (use Cons.prems in auto)
  have there: "\<exists>decisions. insert_decisions ?db i ds = Inr (?db\<lparr>pd_decisions := decisions\<rparr>)"
    by (rule Cons.IH) (use Cons.prems in auto)
  show ?case
    using here there Cons.prems [of d] by (cases "dict_get (pd_decisions db) (de_event_id d)") auto
qed

lemma upsert_finding_frame [simp]:
  "pd_events (upsert_finding i f db) = pd_events db"
  "pd_visibility (upsert_finding i f db) = pd_visibility db"
  "pd_projected (upsert_finding i f db) = pd_projected db"
  "pd_attempts (upsert_finding i f db) = pd_attempts db"
  "pd_decisions (upsert_finding i f db) = pd_decisions db"
  by (simp_all add: upsert_finding_def Let_def)

lemma upsert_findings_frame [simp]:
  "pd_events (fold (upsert_finding i) fs db) = pd_events db"
  "pd_visibility (fold (upsert_finding i) fs db) = pd_visibility db"
  "pd_projected (fold (upsert_finding i) fs db) = pd_projected db"
  "pd_attempts (fold (upsert_finding i) fs db) = pd_attempts db"
  by (induction fs arbitrary: db) simp_all

text \<open>The job's row and attempts in the store are those of its replay.\<close>

definition serves :: "codec \<Rightarrow> edr_db \<Rightarrow> string \<Rightarrow> bool" where
  "serves co db i \<longleftrightarrow>
     dict_get (pd_visibility db) i = Some (served_row (replayed co db i)) \<and>
     (\<forall>n. dict_get (pd_attempts db) (i, n) =
        map_option attempt_to_dict (dict_get (jv_attempts (replayed co db i)) n))"

lemma map_of_filter_fst:
  "map_of (filter (\<lambda>((i, n), v). i \<noteq> j) d) k = (if fst k = j then None else map_of d k)"
  by (induction d) auto

lemma wf_replayed: "journal_ok co db \<Longrightarrow> wf_job (replayed co db i)"
  unfolding replayed_def
proof (rule wf_replay)
  assume j: "journal_ok co db"
  show "list_all valid_event (job_events co db i)"
    using job_rows_decode [OF j] decodes_decoded by (auto simp: job_events_def list_all_iff)
qed simp

lemma project_job_ok:
  assumes j: "journal_ok co db" and rows: "job_rows db i \<noteq> []"
  obtains db' where "project_job co i db = Inr db'" "pd_events db' = pd_events db"
    "pd_projected db' = pd_projected db" "serves co db' i"
    "\<And>k. k \<noteq> i \<Longrightarrow> dict_get (pd_visibility db') k = dict_get (pd_visibility db) k"
    "\<And>k n. k \<noteq> i \<Longrightarrow> dict_get (pd_attempts db') (k, n) = dict_get (pd_attempts db) (k, n)"
proof -
  let ?job = "replayed co db i"
  let ?db1 = "db\<lparr>pd_visibility := dict_put i (served_row ?job) (pd_visibility db)\<rparr>"
  let ?kept = "filter (\<lambda>((k, n), v). k \<noteq> i) (pd_attempts db)"
  let ?as = "dict_values (jv_attempts ?job)"
  have wf: "wf_dict (jv_attempts ?job)" "dict_all wf_attempt (jv_attempts ?job)"
    using wf_replayed [OF j] by (simp_all add: wf_job_def)
  have number: "at_attempt_number a = n \<and> 1 \<le> n" if "dict_get (jv_attempts ?job) n = Some a" for n a
    using dict_all_get [OF wf(2) that] by (simp add: wf_attempt_def)
  have pos: "1 \<le> at_attempt_number a" if "a \<in> set ?as" for a
    using that pd.vals_get [OF wf(1)] number by auto
  have keys: "map at_attempt_number ?as = dict_keys (jv_attempts ?job)"
    unfolding map_map by (rule map_cong) (use wf(1) number in \<open>auto simp: wf_dict_def map_of_eq_Some_iff\<close>)
  have dist: "distinct (map at_attempt_number ?as)" unfolding keys using wf(1) by (simp only: wf_dict_def)
  have kept: "dict_get ?kept k = (if fst k = i then None else dict_get (pd_attempts db) k)" for k
    by (rule map_of_filter_fst)
  obtain attempts where attempts: "insert_attempt_rows i ?as ?kept = Inr attempts"
    "\<And>k. dict_get attempts k =
        (if fst k = i \<and> snd k \<in> at_attempt_number ` set ?as
         then map_option attempt_to_dict (find (\<lambda>a. at_attempt_number a = snd k) ?as)
         else dict_get ?kept k)"
    using insert_attempt_rows_total [OF _ dist, of ?kept i] pos kept by auto
  have find: "find (\<lambda>a. at_attempt_number a = n) ?as = dict_get (jv_attempts ?job) n" for n
  proof (cases "dict_get (jv_attempts ?job) n")
    case None
    then show ?thesis using pd.vals_get [OF wf(1)] number by (auto simp: find_None_iff)
  next
    case (Some a)
    then have "a \<in> set ?as" "at_attempt_number a = n" using pd.vals_get [OF wf(1)] number by auto
    then show ?thesis using find_distinct [OF dist, of a] Some by simp
  qed
  have att_i: "dict_get attempts (i, n) = map_option attempt_to_dict (dict_get (jv_attempts ?job) n)" for n
  proof (cases "n \<in> at_attempt_number ` set ?as")
    case True
    then show ?thesis using attempts(2) [of "(i, n)"] find [of n] by simp
  next
    case False
    then have "find (\<lambda>a. at_attempt_number a = n) ?as = None" by (auto simp: find_None_iff)
    then show ?thesis using attempts(2) [of "(i, n)"] find [of n] kept [of "(i, n)"] False by simp
  qed
  let ?db2 = "?db1\<lparr>pd_attempts := attempts\<rparr>"
  have "dict_get (pd_events ?db2) (de_event_id d) \<noteq> None" if d: "d \<in> set (jv_decisions ?job)" for d
  proof -
    have "de_event_id d \<in> set (map ev_event_id (job_events co db i))"
      using decision_ids [of "new_job i" "job_events co db i"] d
      by (force simp: replayed_def new_job_def)
    then obtain r where "r \<in> set (job_rows db i)" "de_event_id d = er_event_id r"
      using decodes_decoded job_rows_decode [OF j] by (auto simp: job_events_def)
    then show ?thesis using job_rows_set(1) [OF j] by auto
  qed
  then obtain decisions where decisions: "insert_decisions ?db2 i (jv_decisions ?job) =
      Inr (?db2\<lparr>pd_decisions := decisions\<rparr>)"
    using insert_decisions_total [of "jv_decisions ?job" ?db2 i] by blast
  let ?db' = "fold (upsert_finding i) (dict_values (jv_findings ?job)) (?db2\<lparr>pd_decisions := decisions\<rparr>)"
  have "project_job co i db = Inr ?db'"
    using job_view_is_replay [OF j rows] attempts(1) decisions by (simp add: project_job_def Let_def)
  moreover have "job_rows ?db' i = job_rows db i" by (simp add: job_rows_def)
  then have "replayed co ?db' i = ?job" by (simp add: replayed_def job_events_def)
  then have "serves co ?db' i" using att_i by (simp add: serves_def dict_rules)
  ultimately show thesis
    by (intro that [of ?db']) (simp_all add: dict_rules attempts(2) kept)
qed

end
