(* ===== verification/Projection_Properties.thy ===== *)
theory Projection_Properties
  imports Projection_Replay
begin

text \<open>
  The store as a machine of sink writes, projection rounds and rebuilds, its invariant, and what
  follows for its readers.
\<close>

section \<open>The store as a machine\<close>

datatype store_op =
    OpSink edr_row
  | OpSinkDelete string
  | OpProject "string \<Rightarrow> edr_row \<Rightarrow> exn option" "string list \<Rightarrow> exn option" "string set" int
  | OpRebuild

primrec store_step :: "codec \<Rightarrow> edr_db \<Rightarrow> store_op \<Rightarrow> edr_db" where
  "store_step co db (OpSink r) = (case sink_upsert r db of Inl err \<Rightarrow> db | Inr db' \<Rightarrow> db')"
| "store_step co db (OpSinkDelete i) = (case sink_delete i db of Inl err \<Rightarrow> db | Inr db' \<Rightarrow> db')"
| "store_step co db (OpProject faults before_commit locked batch_size) =
     fst (projection_run_once co faults before_commit locked batch_size db)"
| "store_step co db OpRebuild = fst (rebuild co db)"

definition run_store :: "codec \<Rightarrow> store_op list \<Rightarrow> edr_db" where
  "run_store co ops = foldl (store_step co) empty_edr_db ops"

text \<open>The sink's columns agree with the payload it stores.\<close>

definition readable :: "codec \<Rightarrow> store_op \<Rightarrow> bool" where
  "readable co op \<longleftrightarrow> (case op of OpSink r \<Rightarrow> decodes co r | _ \<Rightarrow> True)"

text \<open>A job is caught up when all its journalled events are projected.\<close>

definition caught_up :: "edr_db \<Rightarrow> string \<Rightarrow> bool" where
  "caught_up db i \<longleftrightarrow>
     job_rows db i \<noteq> [] \<and>
     (\<forall>r \<in> set (job_rows db i). dict_get (pd_projected db) (er_event_id r) \<noteq> None)"

definition store_inv :: "codec \<Rightarrow> edr_db \<Rightarrow> bool" where
  "store_inv co db \<longleftrightarrow>
     journal_ok co db \<and>
     (\<forall>i. dict_get (pd_projected db) i \<noteq> None \<longrightarrow> dict_get (pd_events db) i \<noteq> None) \<and>
     (\<forall>i. caught_up db i \<longrightarrow> serves co db i)"

lemma store_inv_empty: "store_inv co empty_edr_db"
  by (simp add: store_inv_def journal_ok_def caught_up_def empty_edr_db_def job_rows_def)

lemma job_rows_cong: "pd_events db' = pd_events db \<Longrightarrow> job_rows db' i = job_rows db i"
  by (simp add: job_rows_def)

lemma replayed_cong: "job_rows db' i = job_rows db i \<Longrightarrow> replayed co db' i = replayed co db i"
  by (simp add: replayed_def job_events_def)

lemma journal_ok_cong: "pd_events db' = pd_events db \<Longrightarrow> journal_ok co db' \<longleftrightarrow> journal_ok co db"
  by (simp add: journal_ok_def)

text \<open>A change that keeps a job's journal, row and attempts keeps what it serves.\<close>

lemma serves_cong:
  assumes "job_rows db' i = job_rows db i"
    and "dict_get (pd_visibility db') i = dict_get (pd_visibility db) i"
    and "\<And>n. dict_get (pd_attempts db') (i, n) = dict_get (pd_attempts db) (i, n)"
  shows "serves co db' i \<longleftrightarrow> serves co db i"
  unfolding serves_def using assms(2,3) replayed_cong [OF assms(1), of co] by simp

lemma sink_upsert_inv:
  assumes inv: "store_inv co db" and r: "decodes co r" and s: "sink_upsert r db = Inr db'"
  shows "store_inv co db'"
proof (cases "dict_get (pd_events db) (er_event_id r)")
  case (Some old)
  then have "db' = db" using s by (auto simp: sink_upsert_def split: if_splits)
  then show ?thesis using inv by simp
next
  case None
  then have db': "db' = db\<lparr>pd_events := dict_put (er_event_id r) r (pd_events db)\<rparr>"
    using s by (simp add: sink_upsert_def)
  have "er_event_id r \<notin> set (dict_keys (pd_events db))"
    using None pd.get_keys [of "pd_events db" "er_event_id r"] by blast
  then have events: "pd_events db' = pd_events db @ [(er_event_id r, r)]"
    using db' by (simp add: dict_put_new del: set_map)
  have j: "journal_ok co db'"
    using inv r by (auto simp: db' store_inv_def journal_ok_def dict_rules wf_dict_put)
  have rows: "job_rows db' i = job_rows db i" if "i \<noteq> er_job_id r" for i
    using that by (simp add: job_rows_def events)
  have "serves co db' i" if up: "caught_up db' i" for i
  proof (cases "i = er_job_id r")
    case True
    have "r \<in> set (job_rows db' i)"
      using job_rows_set(1) [OF j, of r i] True by (simp add: db' dict_rules)
    then have "dict_get (pd_projected db) (er_event_id r) \<noteq> None"
      using up by (simp add: caught_up_def db')
    then show ?thesis using inv None unfolding store_inv_def by blast
  next
    case False
    have "caught_up db i" using up rows [OF False] by (simp add: caught_up_def db')
    then have "serves co db i" using inv by (simp add: store_inv_def)
    then show ?thesis using serves_cong [of db' i db co] rows [OF False] by (simp add: db')
  qed
  then show ?thesis
    using inv j by (auto simp: store_inv_def db' dict_rules)
qed

text \<open>Projecting the job of one pending event and marking the event.\<close>

lemma project_mark_inv:
  assumes inv: "store_inv co db" and r: "dict_get (pd_events db) (er_event_id r) = Some r"
  obtains db1 where "project_job co (er_job_id r) db = Inr db1"
    "pd_events db1 = pd_events db" "pd_projected db1 = pd_projected db" "store_inv co db1"
    "\<And>p. (\<And>i. i \<noteq> er_event_id r \<Longrightarrow> dict_get p i = dict_get (pd_projected db) i) \<Longrightarrow>
       store_inv co (db1\<lparr>pd_projected := p\<rparr>)"
    "serves co db1 (er_job_id r)"
proof -
  let ?i = "er_job_id r"
  have j: "journal_ok co db" using inv by (simp add: store_inv_def)
  have mem: "r \<in> set (job_rows db ?i)" using job_rows_set(1) [OF j] r by simp
  then have "job_rows db ?i \<noteq> []" by auto
  from project_job_ok [OF j this] obtain db1 where db1: "project_job co ?i db = Inr db1"
    "pd_events db1 = pd_events db" "pd_projected db1 = pd_projected db" "serves co db1 ?i"
    "\<And>k. k \<noteq> ?i \<Longrightarrow> dict_get (pd_visibility db1) k = dict_get (pd_visibility db) k"
    "\<And>k n. k \<noteq> ?i \<Longrightarrow> dict_get (pd_attempts db1) (k, n) = dict_get (pd_attempts db) (k, n)"
    by metis
  have rows: "job_rows db1 k = job_rows db k" for k by (rule job_rows_cong) (rule db1(2))
  have other: "serves co db1 k \<longleftrightarrow> serves co db k" if "k \<noteq> ?i" for k
    by (rule serves_cong) (simp_all add: rows db1(5,6) that)
  have marked: "store_inv co (db1\<lparr>pd_projected := p\<rparr>)"
    if p: "\<And>i. i \<noteq> er_event_id r \<Longrightarrow> dict_get p i = dict_get (pd_projected db) i" for p
  proof -
    have "serves co (db1\<lparr>pd_projected := p\<rparr>) k" if up: "caught_up (db1\<lparr>pd_projected := p\<rparr>) k" for k
    proof -
      have "serves co db1 k"
      proof (cases "k = ?i")
        case False
        have "er_event_id q \<noteq> er_event_id r" if "q \<in> set (job_rows db k)" for q
          using that job_rows_set(1) [OF j, of q k] r False by auto
        then have "caught_up db k"
          using up p by (simp add: caught_up_def job_rows_def db1(2))
        then show ?thesis using inv other [OF False] by (simp add: store_inv_def)
      qed (use db1(4) in simp)
      then show ?thesis
        using serves_cong [of "db1\<lparr>pd_projected := p\<rparr>" k db1 co] by (simp add: job_rows_def)
    qed
    moreover have "journal_ok co (db1\<lparr>pd_projected := p\<rparr>)"
      using j journal_ok_cong [of "db1\<lparr>pd_projected := p\<rparr>" db co] db1(2) by simp
    moreover have "dict_get (pd_events db) i \<noteq> None" if "dict_get p i \<noteq> None" for i
      using that p [of i] inv r by (cases "i = er_event_id r") (auto simp: store_inv_def)
    ultimately show ?thesis using db1(2) by (simp add: store_inv_def)
  qed
  have "db1\<lparr>pd_projected := pd_projected db\<rparr> = db1" using db1(3) by simp
  then have "store_inv co db1" using marked [of "pd_projected db"] by simp
  then show thesis using that db1 marked by blast
qed

lemma project_pending_inv:
  "store_inv co db \<Longrightarrow> (\<And>r. r \<in> set rs \<Longrightarrow> dict_get (pd_events db) (er_event_id r) = Some r) \<Longrightarrow>
   project_pending co faults rs db = Inr db' \<Longrightarrow>
   store_inv co db' \<and> pd_events db' = pd_events db \<and>
   (\<forall>i. dict_get (pd_projected db') i \<noteq> None \<longleftrightarrow>
      dict_get (pd_projected db) i \<noteq> None \<or> i \<in> er_event_id ` set rs)"
proof (induction rs arbitrary: db)
  case (Cons r rs)
  obtain db1 where db1: "project_job co (er_job_id r) db = Inr db1"
    "pd_events db1 = pd_events db" "pd_projected db1 = pd_projected db"
    "\<And>p. (\<And>i. i \<noteq> er_event_id r \<Longrightarrow> dict_get p i = dict_get (pd_projected db) i) \<Longrightarrow>
       store_inv co (db1\<lparr>pd_projected := p\<rparr>)"
    using project_mark_inv [OF Cons.prems(1), of r] Cons.prems(2) [of r] by (metis list.set_intros(1))
  let ?p = "if dict_get (pd_projected db1) (er_event_id r) \<noteq> None then pd_projected db1
      else dict_put (er_event_id r) (er_job_id r) (pd_projected db1)"
  have p: "dict_get ?p i = dict_get (pd_projected db) i" if "i \<noteq> er_event_id r" for i
    using that db1(3) by (simp add: dict_rules)
  have marked: "dict_get ?p (er_event_id r) \<noteq> None" by (auto simp: dict_rules)
  have "project_pending co faults rs (db1\<lparr>pd_projected := ?p\<rparr>) = Inr db'"
    using Cons.prems(3) db1(1) by (auto simp: Let_def split: option.splits)
  note IH = Cons.IH [OF db1(4) [OF p] _ this]
  have "pd_events (db1\<lparr>pd_projected := ?p\<rparr>) = pd_events db" using db1(2) by simp
  then have rest: "store_inv co db'" "pd_events db' = pd_events db"
    "\<And>i. dict_get (pd_projected db') i \<noteq> None \<longleftrightarrow> dict_get ?p i \<noteq> None \<or> i \<in> er_event_id ` set rs"
    using IH Cons.prems(2) by auto
  have "dict_get ?p i \<noteq> None \<longleftrightarrow> dict_get (pd_projected db) i \<noteq> None \<or> i = er_event_id r" for i
    using marked p by (cases "i = er_event_id r") auto
  then show ?case using rest by auto
qed simp

lemma project_pending_total:
  "store_inv co db \<Longrightarrow> (\<And>r. r \<in> set rs \<Longrightarrow> dict_get (pd_events db) (er_event_id r) = Some r) \<Longrightarrow>
   \<exists>db'. project_pending co (\<lambda>c r. None) rs db = Inr db'"
proof (induction rs arbitrary: db)
  case (Cons r rs)
  obtain db1 where db1: "project_job co (er_job_id r) db = Inr db1"
    "pd_events db1 = pd_events db" "pd_projected db1 = pd_projected db"
    "\<And>p. (\<And>i. i \<noteq> er_event_id r \<Longrightarrow> dict_get p i = dict_get (pd_projected db) i) \<Longrightarrow>
       store_inv co (db1\<lparr>pd_projected := p\<rparr>)"
    using project_mark_inv [OF Cons.prems(1), of r] Cons.prems(2) [of r] by (metis list.set_intros(1))
  let ?p = "if dict_get (pd_projected db1) (er_event_id r) \<noteq> None then pd_projected db1
      else dict_put (er_event_id r) (er_job_id r) (pd_projected db1)"
  have p: "dict_get ?p i = dict_get (pd_projected db) i" if "i \<noteq> er_event_id r" for i
    using that db1(3) by (simp add: dict_rules)
  have "\<exists>db'. project_pending co (\<lambda>c r. None) rs (db1\<lparr>pd_projected := ?p\<rparr>) = Inr db'"
    by (rule Cons.IH [OF db1(4) [OF p]]) (use Cons.prems(2) db1(2) in simp_all)
  then show ?case using db1(1) by (simp add: Let_def)
qed simp

lemma pending_rows:
  assumes "journal_ok co db" and "r \<in> set (pending_events locked limit db)"
  shows "dict_get (pd_events db) (er_event_id r) = Some r"
proof -
  have "r \<in> set (dict_values (pd_events db))"
    using in_set_takeD [OF assms(2) [unfolded pending_events_def]] by simp
  then show ?thesis using journal_values(1) [OF assms(1)] by blast
qed

lemma projection_run_once_inv:
  assumes inv: "store_inv co db"
  shows "store_inv co (fst (projection_run_once co faults before_commit locked batch_size db))"
proof -
  let ?rs = "pending_events locked batch_size db"
  have j: "journal_ok co db" using inv by (simp add: store_inv_def)
  have rows: "dict_get (pd_events db) (er_event_id r) = Some r" if "r \<in> set ?rs" for r
    by (rule pending_rows [OF j that])
  have "store_inv co db'" if "project_pending co faults ?rs db = Inr db'" for db'
    using project_pending_inv [OF inv rows that] by blast
  then show ?thesis
    using inv by (auto simp: projection_run_once_def Let_def split: sum.split option.split)
qed

lemma project_jobs_inv:
  "store_inv co db \<Longrightarrow> (\<And>i. i \<in> set ids \<Longrightarrow> job_rows db i \<noteq> []) \<Longrightarrow>
   \<exists>db'. project_jobs co ids db = Inr db' \<and> store_inv co db' \<and> pd_events db' = pd_events db \<and>
     pd_projected db' = pd_projected db \<and> (\<forall>i. serves co db i \<or> i \<in> set ids \<longrightarrow> serves co db' i)"
proof (induction ids arbitrary: db)
  case (Cons i ids)
  have j: "journal_ok co db" using Cons.prems(1) by (simp add: store_inv_def)
  obtain r where r: "r \<in> set (job_rows db i)"
    using Cons.prems(2) [of i] by (metis list.set_intros(1) list.set_sel(1))
  then have ri: "dict_get (pd_events db) (er_event_id r) = Some r" "er_job_id r = i"
    using job_rows_set(1) [OF j] by blast+
  obtain db1 where db1: "project_job co i db = Inr db1" "pd_events db1 = pd_events db"
    "pd_projected db1 = pd_projected db" "store_inv co db1" "serves co db1 i"
    using project_mark_inv [OF Cons.prems(1) ri(1)] ri(2) by metis
  have keep: "serves co db1 k" if k: "serves co db k" "k \<noteq> i" for k
  proof -
    obtain db2 where db2: "project_job co i db = Inr db2" "pd_events db2 = pd_events db"
      "\<And>k. k \<noteq> i \<Longrightarrow> dict_get (pd_visibility db2) k = dict_get (pd_visibility db) k"
      "\<And>k n. k \<noteq> i \<Longrightarrow> dict_get (pd_attempts db2) (k, n) = dict_get (pd_attempts db) (k, n)"
      using project_job_ok [OF j] Cons.prems(2) [of i] by (metis list.set_intros(1))
    then have "db2 = db1" using db1(1) by simp
    then show ?thesis
      using serves_cong [of db1 k db co] job_rows_cong [of db1 db k] db2 k by simp
  qed
  have "\<exists>db'. project_jobs co ids db1 = Inr db' \<and> store_inv co db' \<and> pd_events db' = pd_events db1 \<and>
     pd_projected db' = pd_projected db1 \<and> (\<forall>i. serves co db1 i \<or> i \<in> set ids \<longrightarrow> serves co db' i)"
  proof (rule Cons.IH [OF db1(4)])
    show "job_rows db1 k \<noteq> []" if "k \<in> set ids" for k
      using Cons.prems(2) [of k] that job_rows_cong [OF db1(2)] by simp
  qed
  then show ?case using db1 keep by (auto intro: exI)
qed simp

lemma job_rows_nonempty:
  "job_rows db i \<noteq> [] \<longleftrightarrow> (\<exists>r \<in> set (dict_values (pd_events db)). er_job_id r = i)"
proof -
  have "set (job_rows db i) = {r \<in> set (dict_values (pd_events db)). er_job_id r = i}"
    by (simp only: job_rows_def set_sort set_filter)
  then show ?thesis by (metis (mono_tags, lifting) empty_Collect_eq set_empty)
qed

lemma rebuild_ids:
  "set (sort (remdups (map er_job_id (dict_values (pd_events db))))) = {i. job_rows db i \<noteq> []}"
  unfolding job_rows_nonempty by (simp only: set_sort set_remdups set_map) blast

lemma store_step_inv: "store_inv co db \<Longrightarrow> readable co op \<Longrightarrow> store_inv co (store_step co db op)"
proof (cases op)
  case (OpSink r)
  assume "store_inv co db" and "readable co op"
  then show ?thesis using OpSink sink_upsert_inv by (auto simp: readable_def split: sum.split)
next
  case (OpSinkDelete i)
  assume "store_inv co db"
  then show ?thesis using OpSinkDelete by (auto simp: sink_delete_def split: option.split)
next
  case (OpProject faults before_commit locked batch_size)
  assume "store_inv co db"
  then show ?thesis using OpProject projection_run_once_inv by simp
next
  case OpRebuild
  assume inv: "store_inv co db"
  have "\<exists>db'. project_jobs co (sort (remdups (map er_job_id (dict_values (pd_events db))))) db = Inr db' \<and>
      store_inv co db'"
    using project_jobs_inv [OF inv, of "sort (remdups (map er_job_id (dict_values (pd_events db))))"]
      rebuild_ids by blast
  then show ?thesis using inv OpRebuild by (auto simp: rebuild_def Let_def)
qed

interpretation store_runs: invariant_machine "store_step co" "readable co" "store_inv co" for co
  by unfold_locales (rule store_step_inv)

lemma run_store_inv: "list_all (readable co) ops \<Longrightarrow> store_inv co (run_store co ops)"
  unfolding run_store_def by (rule store_runs.run_inv [OF store_inv_empty])

lemma projection_catches_up:
  assumes "list_all (readable co) ops"
    and "length (pd_events (run_store co ops)) \<le> nat batch_size"
  shows "let db = run_store co ops in
    \<exists>db'. projection_run_once co (\<lambda>c r. None) (\<lambda>ids. None) {} batch_size db =
        (db', Inr (int (length (filter (\<lambda>r. dict_get (pd_projected db) (er_event_id r) = None)
           (dict_values (pd_events db)))))) \<and>
      (\<forall>r \<in> set (dict_values (pd_events db)). caught_up db' (er_job_id r) \<and> serves co db' (er_job_id r))"
proof -
  let ?db = "run_store co ops"
  let ?rs = "pending_events {} batch_size ?db"
  let ?backlog = "filter (\<lambda>r. dict_get (pd_projected ?db) (er_event_id r) = None) (dict_values (pd_events ?db))"
  have inv: "store_inv co ?db" by (rule run_store_inv [OF assms(1)])
  then have j: "journal_ok co ?db" by (simp add: store_inv_def)
  have "length ?backlog \<le> nat batch_size"
    using assms(2) length_filter_le [of _ "dict_values (pd_events ?db)"] by (metis length_map order_trans)
  then have all: "?rs = sort_key (\<lambda>r. (er_persisted_at r, er_event_id r)) ?backlog"
    by (simp add: pending_events_def)
  have rows: "dict_get (pd_events ?db) (er_event_id r) = Some r" if "r \<in> set ?rs" for r
    by (rule pending_rows [OF j that])
  obtain db' where db': "project_pending co (\<lambda>c r. None) ?rs ?db = Inr db'"
    using project_pending_total [OF inv rows] by blast
  note eff = project_pending_inv [OF inv rows db']
  have run: "projection_run_once co (\<lambda>c r. None) (\<lambda>ids. None) {} batch_size ?db =
      (db', Inr (int (length ?rs)))"
    using db' by (simp add: projection_run_once_def)
  have proj: "dict_get (pd_projected db') (er_event_id r) \<noteq> None" if "r \<in> set (dict_values (pd_events ?db))" for r
    using that eff unfolding all set_sort set_filter by blast
  have j': "journal_ok co db'" and ev: "pd_events db' = pd_events ?db" using eff by (simp_all add: store_inv_def)
  have "caught_up db' (er_job_id r)" if r: "r \<in> set (dict_values (pd_events ?db))" for r
    unfolding caught_up_def
  proof
    show "job_rows db' (er_job_id r) \<noteq> []" using r by (auto simp: job_rows_nonempty ev)
    show "\<forall>q \<in> set (job_rows db' (er_job_id r)). dict_get (pd_projected db') (er_event_id q) \<noteq> None"
      using job_rows_set(1) [OF j'] journal_values(1) [OF j'] proj unfolding ev by blast
  qed
  then have "\<forall>r \<in> set (dict_values (pd_events ?db)). caught_up db' (er_job_id r) \<and> serves co db' (er_job_id r)"
    using eff by (simp add: store_inv_def)
  moreover have "length ?rs = length ?backlog" unfolding all by (rule length_sort)
  ultimately show ?thesis unfolding Let_def using run by auto
qed

section \<open>Properties\<close>

definition example_codec :: codec where
  "example_codec = \<lparr>co_loads = (\<lambda>s. Inl (ValueError ''Expecting value'')), co_fromiso = example_fromiso\<rparr>"

definition example_edr_row :: edr_row where
  "example_edr_row =
     \<lparr>er_event_id = ''e1'', er_job_id = ''job-1'', er_payload = JObj (edr_value example_wire_event),
      er_payload_hash = ''00'', er_persisted_at = 9\<rparr>"

lemma example_decodes: "decodes example_codec example_edr_row"
proof -
  have "on_the_wire example_wire_event = example_wire_event"
    by (simp add: on_the_wire_def example_wire_event_def new_event_def str_or_def)
  then have "event_from_wire example_fromiso (edr_value example_wire_event) = Inr example_wire_event"
    using decode_encode [OF example_wire_valid example_fromiso_times] by simp
  moreover have "get_default (edr_value example_wire_event) ''canonicalPayload''
      (JObj (edr_value example_wire_event)) = JObj (edr_value example_wire_event)"
    by (simp add: get_default_def edr_value_def)
  ultimately have "event_of_payload example_codec (er_payload example_edr_row) = Inr example_wire_event"
    by (simp add: event_of_payload_def event_from_text_def example_codec_def example_edr_row_def)
  then show ?thesis
    using example_wire_valid
    by (simp add: decodes_def example_edr_row_def) (simp add: example_wire_event_def new_event_def)
qed

lemma example_readable: "list_all (readable example_codec) [OpSink example_edr_row]"
  by (simp add: readable_def example_decodes)

lemma example_journal:
  "pd_events (run_store example_codec [OpSink example_edr_row]) = [(''e1'', example_edr_row)]"
  "pd_projected (run_store example_codec [OpSink example_edr_row]) = []"
  by (simp_all add: run_store_def sink_upsert_def empty_edr_db_def example_edr_row_def)

abbreviation example_round_ops :: "store_op list" where
  "example_round_ops \<equiv> [OpSink example_edr_row, OpProject (\<lambda>c r. None) (\<lambda>ids. None) {} 500]"

lemma example_caught_up: "caught_up (run_store example_codec example_round_ops) ''job-1''"
proof -
  have "run_store example_codec example_round_ops =
      fst (projection_run_once example_codec (\<lambda>c r. None) (\<lambda>ids. None) {} 500
        (run_store example_codec [OpSink example_edr_row]))"
    by (simp add: run_store_def)
  then show ?thesis
    using projection_catches_up [OF example_readable, of 500] example_journal
    by (auto simp: Let_def example_edr_row_def)
qed

lemma example_round_journal:
  "pd_events (run_store example_codec example_round_ops) = [(''e1'', example_edr_row)]"
proof -
  let ?db = "run_store example_codec [OpSink example_edr_row]"
  have inv: "store_inv example_codec ?db" by (rule run_store_inv [OF example_readable])
  then have "journal_ok example_codec ?db" by (simp add: store_inv_def)
  note rows = pending_rows [OF this, where locked = "{}" and limit = 500]
  obtain db' where db': "project_pending example_codec (\<lambda>c r. None) (pending_events {} 500 ?db) ?db = Inr db'"
    using project_pending_total [OF inv rows] by blast
  then have "pd_events db' = [(''e1'', example_edr_row)]"
    using project_pending_inv [OF inv rows db'] example_journal by simp
  with db' show ?thesis by (simp add: run_store_def projection_run_once_def)
qed

text \<open>
  The read model is a replay of the journal: however the sink's writes, projection rounds (of
  any batch size, with rows locked by others, with injected faults and failing commits) and rebuilds
  interleave, a job whose journalled EDRs are all projected is served with exactly the row and the
  attempts of the reducer's replay of its EDRs in journal order.
\<close>

theorem read_model_replays_the_journal:
  assumes "list_all (readable co) ops"
  shows "let db = run_store co ops in
    \<forall>i. caught_up db i \<longrightarrow>
      dict_get (pd_visibility db) i = Some (served_row (replay (new_job i) (job_events co db i))) \<and>
      (\<forall>n. dict_get (pd_attempts db) (i, n) =
         map_option attempt_to_dict (dict_get (jv_attempts (replay (new_job i) (job_events co db i))) n))"
  using run_store_inv [OF assms] by (simp add: store_inv_def serves_def replayed_def Let_def)

theorem read_model_replays_the_journal_witness:
  "let db = run_store example_codec example_round_ops in
   caught_up db ''job-1'' \<and> dict_get (pd_visibility db) ''job-1'' =
     Some (served_row (replay (new_job ''job-1'') (job_events example_codec db ''job-1'')))"
  using read_model_replays_the_journal [of example_codec example_round_ops] example_caught_up
  by (simp add: Let_def readable_def example_decodes)

text \<open>
  A fault-free round catches up: with a batch that covers the backlog, no locked rows and no
  faults, a projection round succeeds, returns the size of the backlog, and afterwards every job in
  the journal is served from the replay of all its EDRs.
\<close>

theorem projection_round_catches_up:
  assumes "list_all (readable co) ops"
    and "length (pd_events (run_store co ops)) \<le> nat batch_size"
  shows "let db = run_store co ops in
    \<exists>db'. projection_run_once co (\<lambda>c r. None) (\<lambda>ids. None) {} batch_size db =
        (db', Inr (int (length (filter (\<lambda>r. dict_get (pd_projected db) (er_event_id r) = None)
           (dict_values (pd_events db)))))) \<and>
      (\<forall>r \<in> set (dict_values (pd_events db)). caught_up db' (er_job_id r) \<and> serves co db' (er_job_id r))"
  by (rule projection_catches_up [OF assms])

theorem projection_round_catches_up_witness:
  "\<exists>db'. projection_run_once example_codec (\<lambda>c r. None) (\<lambda>ids. None) {} 500
       (run_store example_codec [OpSink example_edr_row]) = (db', Inr 1) \<and> caught_up db' ''job-1''"
  using projection_round_catches_up [OF example_readable, of 500] example_journal
  by (auto simp: Let_def example_edr_row_def)

text \<open>
  C28. Rebuilding agrees with projecting: on any reachable store whose jobs are all caught up, a
  rebuild succeeds for every job of the journal and leaves every served row and attempt as it is.
\<close>

theorem rebuild_agrees_with_projection:
  assumes "list_all (readable co) ops"
    and "\<And>r. r \<in> set (dict_values (pd_events (run_store co ops))) \<Longrightarrow> caught_up (run_store co ops) (er_job_id r)"
  shows "let db = run_store co ops in
    \<exists>db'. rebuild co db = (db', Inr (int (card (er_job_id ` set (dict_values (pd_events db)))))) \<and>
      (\<forall>r \<in> set (dict_values (pd_events db)). let i = er_job_id r in
         dict_get (pd_visibility db') i = dict_get (pd_visibility db) i \<and>
         (\<forall>n. dict_get (pd_attempts db') (i, n) = dict_get (pd_attempts db) (i, n)))"
proof -
  let ?db = "run_store co ops"
  let ?ids = "sort (remdups (map er_job_id (dict_values (pd_events ?db))))"
  have inv: "store_inv co ?db" by (rule run_store_inv [OF assms(1)])
  obtain db' where db': "project_jobs co ?ids ?db = Inr db'" "pd_events db' = pd_events ?db"
    "\<And>i. serves co ?db i \<or> i \<in> set ?ids \<Longrightarrow> serves co db' i"
    using project_jobs_inv [OF inv, of ?ids] rebuild_ids by blast
  have "serves co db' (er_job_id r) \<and> serves co ?db (er_job_id r)"
    if "r \<in> set (dict_values (pd_events ?db))" for r
    using inv assms(2) [OF that] db'(3) by (auto simp: store_inv_def)
  moreover have "replayed co db' i = replayed co ?db i" for i
    by (intro replayed_cong job_rows_cong db'(2))
  moreover have "length ?ids = card (er_job_id ` set (dict_values (pd_events ?db)))"
    by (metis length_sort length_remdups_card_conv list.set_map)
  ultimately show ?thesis
    using db'(1) by (auto simp: rebuild_def serves_def Let_def)
qed

theorem rebuild_agrees_with_projection_witness:
  "\<exists>db'. rebuild example_codec (run_store example_codec example_round_ops) = (db', Inr 1)"
proof -
  have up: "caught_up (run_store example_codec example_round_ops) (er_job_id r)"
    if "r \<in> set (dict_values (pd_events (run_store example_codec example_round_ops)))" for r
  proof -
    have "r = example_edr_row" using that unfolding example_round_journal by simp
    then have "er_job_id r = ''job-1''" by (simp add: example_edr_row_def)
    then show ?thesis using example_caught_up by simp
  qed
  have "list_all (readable example_codec) example_round_ops" by (simp add: readable_def example_decodes)
  from rebuild_agrees_with_projection [OF this up]
  show ?thesis by (auto simp: example_round_journal Let_def)
qed

end
