(* ===== verification/Simulation.thy ===== *)
theory Simulation
  imports Engine_Delivery "HOL-Library.Multiset"
begin

text \<open>
  The deterministic simulation of \<open>src/job_visibility/simulation.py\<close>: the virtual clock, the event
  factory, the polling scheduler and the transport with its faults, all driving the in-memory engine.
\<close>

section \<open>Python sequences\<close>

text \<open>\<open>xs[i]\<close>, \<open>xs[:n]\<close> and \<open>xs.insert(i, x)\<close>, where negative numbers count from the end.\<close>

definition py_position :: "int \<Rightarrow> 'a list \<Rightarrow> nat option" where
  "py_position i xs =
     (if 0 \<le> i \<and> i < int (length xs) then Some (nat i)
      else if i < 0 \<and> - int (length xs) \<le> i then Some (nat (i + int (length xs)))
      else None)"

definition py_slice_to :: "int \<Rightarrow> 'a list \<Rightarrow> 'a list" where
  "py_slice_to n xs = (if 0 \<le> n then take (nat n) xs else take (length xs - nat (- n)) xs)"

definition py_insert :: "int \<Rightarrow> 'a \<Rightarrow> 'a list \<Rightarrow> 'a list" where
  "py_insert i x xs =
     (let k = (if 0 \<le> i then min (nat i) (length xs) else length xs - nat (- i))
      in take k xs @ x # drop k xs)"

section \<open>Clock and event factory\<close>

definition clock_advance :: "int \<Rightarrow> int \<Rightarrow> time \<Rightarrow> time" where
  "clock_advance secs mins current = current + seconds secs + minutes mins"

definition clock_set :: "time \<Rightarrow> time \<Rightarrow> time result" where
  "clock_set v current =
     (if v < current then Inl (ValueError ''virtual clock cannot move backwards'') else Inr v)"

text \<open>
  \<open>make\<close>: the default of \<open>values.pop\<close> is evaluated also when an event id is given, so every call draws
  a number. \<open>drawn\<close> are the numbers drawn before; \<open>values\<close> sets the remaining keyword arguments.
\<close>

definition factory_make ::
  "time \<Rightarrow> nat \<Rightarrow> event_type \<Rightarrow> string \<Rightarrow> time option \<Rightarrow> time option \<Rightarrow> string option \<Rightarrow>
   (event \<Rightarrow> event) \<Rightarrow> nat \<times> event result" where
  "factory_make now drawn event_type job_id event_time ingestion_time event_id values' =
     (let event_time = (case event_time of Some t \<Rightarrow> t | None \<Rightarrow> now);
          ingestion_time = (case ingestion_time of Some t \<Rightarrow> t | None \<Rightarrow> now);
          generated = ''evt-'' @ zero_pad 5 (Suc drawn);
          event_id = (case event_id of Some i \<Rightarrow> i | None \<Rightarrow> generated)
      in (Suc drawn,
          event_post_init (values' (new_event event_id event_type event_time ingestion_time job_id))))"

section \<open>The polling scheduler\<close>

record scheduled_item =
  si_job_id :: string
  si_scheduled_at :: time
  si_correlation_id :: string
  si_job_type :: string
  si_scheduler_reference :: "string option"
  si_attempt_number :: int
  si_retrieved :: bool

definition new_item :: "string \<Rightarrow> time \<Rightarrow> scheduled_item" where
  "new_item job_id scheduled_at =
     \<lparr>si_job_id = job_id, si_scheduled_at = scheduled_at, si_correlation_id = '''',
      si_job_type = ''GENERIC'', si_scheduler_reference = None, si_attempt_number = 1,
      si_retrieved = False\<rparr>"

text \<open>
  The scheduler with the clock, the factory's counter and the engine it shares. An item is a position
  of \<open>po_items\<close>: every enqueued item is an object of its own.
\<close>

record polling =
  po_engine :: engine
  po_clock :: time
  po_drawn :: nat
  po_config :: visibility_config
  po_items :: "scheduled_item list"
  po_polls :: "poll_record list"
  po_poll_number :: nat

definition new_polling :: "engine \<Rightarrow> time \<Rightarrow> visibility_config option \<Rightarrow> polling" where
  "new_polling en now config =
     \<lparr>po_engine = en, po_clock = now, po_drawn = 0,
      po_config = (case config of Some c \<Rightarrow> c | None \<Rightarrow> en_config en),
      po_items = [], po_polls = [], po_poll_number = 0\<rparr>"

definition enqueue :: "scheduled_item \<Rightarrow> polling \<Rightarrow> polling" where
  "enqueue item s = s\<lparr>po_items := po_items s @ [item]\<rparr>"

text \<open>\<open>self.engine.apply(self.factory.make(...))\<close>\<close>

definition emit :: "event_type \<Rightarrow> string \<Rightarrow> (event \<Rightarrow> event) \<Rightarrow> polling \<Rightarrow> polling \<times> unit result" where
  "emit t job_id values' s =
     (case factory_make (po_clock s) (po_drawn s) t job_id None None None values' of
        (drawn, Inl err) \<Rightarrow> (s\<lparr>po_drawn := drawn\<rparr>, Inl err)
      | (drawn, Inr e) \<Rightarrow>
          (case engine_apply (po_engine s) e None of
             (en, Inl err) \<Rightarrow> (s\<lparr>po_drawn := drawn, po_engine := en\<rparr>, Inl err)
           | (en, Inr decision) \<Rightarrow> (s\<lparr>po_drawn := drawn, po_engine := en\<rparr>, Inr ())))"

definition and_then ::
  "polling \<times> unit result \<Rightarrow> (polling \<Rightarrow> polling \<times> unit result) \<Rightarrow> polling \<times> unit result" where
  "and_then r f = (case r of (s, Inl err) \<Rightarrow> (s, Inl err) | (s, Inr u) \<Rightarrow> f s)"

text \<open>The keyword arguments \<open>common\<close>.\<close>

definition common :: "scheduled_item \<Rightarrow> event \<Rightarrow> event" where
  "common item e =
     e\<lparr>ev_scheduled_at := Some (si_scheduled_at item), ev_attempt_number := si_attempt_number item,
       ev_correlation_id := si_correlation_id item, ev_job_type := si_job_type item,
       ev_scheduler_reference := si_scheduler_reference item\<rparr>"

record poll_request =
  rq_start :: bool
  rq_complete :: bool
  rq_retrieve_count :: "int option"
  rq_emit_retrieval :: bool
  rq_poller_id :: string

definition default_request :: poll_request where
  "default_request =
     \<lparr>rq_start = True, rq_complete = False, rq_retrieve_count = None, rq_emit_retrieval = True,
      rq_poller_id = ''poller-1''\<rparr>"

text \<open>One round of the loop over the selected items, and the loop; \<open>position\<close> counts from one.\<close>

definition announce ::
  "poll_request \<Rightarrow> string \<Rightarrow> time \<Rightarrow> int \<Rightarrow> int \<Rightarrow> scheduled_item \<Rightarrow> polling \<Rightarrow> polling \<times> unit result" where
  "announce rq poll_id now limit position item s =
     and_then
       (if rq_emit_retrieval rq
        then emit JOB_SCHEDULER_ITEM_RETRIEVED (si_job_id item)
               (\<lambda>e. common item (e\<lparr>ev_poll_id := Some poll_id, ev_poll_time := Some now,
                  ev_batch_position := Some position, ev_batch_limit := Some limit\<rparr>)) s
        else (s, Inr ())) (\<lambda>s.
     if rq_start rq \<and> position \<le> cf_worker_capacity (po_config s)
     then and_then (emit JOB_EXECUTION_STARTED (si_job_id item) (common item) s) (\<lambda>s.
            if rq_complete rq
            then emit JOB_EXECUTION_SUCCEEDED (si_job_id item)
                   (\<lambda>e. common item (e\<lparr>ev_result_code := Some ''SUCCESS''\<rparr>)) s
            else (s, Inr ()))
     else (s, Inr ()))"

definition mark :: "nat \<Rightarrow> scheduled_item list \<Rightarrow> scheduled_item list" where
  "mark k items = items[k := (items ! k)\<lparr>si_retrieved := True\<rparr>]"

fun retrieve ::
  "poll_request \<Rightarrow> string \<Rightarrow> time \<Rightarrow> int \<Rightarrow> int \<Rightarrow> nat list \<Rightarrow> polling \<Rightarrow> polling \<times> unit result" where
  "retrieve rq poll_id now limit position [] s = (s, Inr ())"
| "retrieve rq poll_id now limit position (k # ks) s =
     (let s = s\<lparr>po_items := mark k (po_items s)\<rparr>
      in and_then (announce rq poll_id now limit position (po_items s ! k) s)
           (retrieve rq poll_id now limit (position + 1) ks))"

definition is_due :: "time \<Rightarrow> scheduled_item \<Rightarrow> bool" where
  "is_due now item \<longleftrightarrow> \<not> si_retrieved item \<and> si_scheduled_at item \<le> now"

definition eligible_items :: "polling \<Rightarrow> nat list" where
  "eligible_items s =
     sort_key (\<lambda>k. (si_scheduled_at (po_items s ! k), si_job_id (po_items s ! k)))
       (filter (\<lambda>k. is_due (po_clock s) (po_items s ! k)) [0..<length (po_items s)])"

text \<open>\<open>retrieve_count or max_items\<close>: a count of zero counts as no count.\<close>

definition poll_limit :: "visibility_config \<Rightarrow> int option \<Rightarrow> int" where
  "poll_limit c retrieve_count =
     min (cf_max_items_per_poll c)
       (case retrieve_count of Some n \<Rightarrow> if n = 0 then cf_max_items_per_poll c else n
        | None \<Rightarrow> cf_max_items_per_poll c)"

definition poll :: "poll_request \<Rightarrow> polling \<Rightarrow> polling \<times> poll_record result" where
  "poll rq s =
     (let now = po_clock s;
          eligible = eligible_items s;
          limit = poll_limit (po_config s) (rq_retrieve_count rq);
          selected = py_slice_to limit eligible;
          number = Suc (po_poll_number s);
          poll_id = rq_poller_id rq @ ''-poll-'' @ zero_pad 4 number;
          rec = \<lparr>pr_poll_id = poll_id, pr_poll_time = now, pr_eligible_count = int (length eligible),
                 pr_retrieved_job_ids = map (\<lambda>k. si_job_id (po_items s ! k)) selected,
                 pr_batch_limit = limit\<rparr>;
          s = s\<lparr>po_poll_number := number, po_polls := po_polls s @ [rec]\<rparr>
      in case retrieve rq poll_id now limit 1 selected s of
           (s, Inl err) \<Rightarrow> (s, Inl err)
         | (s, Inr u) \<Rightarrow> (s, Inr rec))"

section \<open>The transport\<close>

record transport =
  tr_pending :: "event list"
  tr_dropped :: "event list"

definition new_transport :: transport where
  "new_transport = \<lparr>tr_pending = [], tr_dropped = []\<rparr>"

definition tr_publish :: "event list \<Rightarrow> transport \<Rightarrow> transport" where
  "tr_publish events t = t\<lparr>tr_pending := tr_pending t @ events\<rparr>"

definition tr_duplicate :: "int \<Rightarrow> transport \<Rightarrow> transport result" where
  "tr_duplicate index t =
     (case py_position index (tr_pending t) of
        None \<Rightarrow> Inl IndexError
      | Some k \<Rightarrow> Inr (t\<lparr>tr_pending := py_insert (index + 1) (tr_pending t ! k) (tr_pending t)\<rparr>))"

definition tr_drop :: "int \<Rightarrow> transport \<Rightarrow> transport result" where
  "tr_drop index t =
     (case py_position index (tr_pending t) of
        None \<Rightarrow> Inl IndexError
      | Some k \<Rightarrow>
          Inr (t\<lparr>tr_pending := take k (tr_pending t) @ drop (Suc k) (tr_pending t),
                 tr_dropped := tr_dropped t @ [tr_pending t ! k]\<rparr>))"

fun pick :: "'a list \<Rightarrow> int list \<Rightarrow> 'a list result" where
  "pick original [] = Inr []"
| "pick original (i # is) =
     (case py_position i original of
        None \<Rightarrow> Inl IndexError
      | Some k \<Rightarrow> bind_result (pick original is) (\<lambda>xs. Inr (original ! k # xs)))"

definition tr_reorder :: "int list \<Rightarrow> transport \<Rightarrow> transport result" where
  "tr_reorder order t = bind_result (pick (tr_pending t) order) (\<lambda>xs. Inr (t\<lparr>tr_pending := xs\<rparr>))"

fun deliver_all :: "event list \<Rightarrow> engine \<Rightarrow> engine \<times> unit result" where
  "deliver_all [] en = (en, Inr ())"
| "deliver_all (e # es) en =
     (case engine_apply en e None of
        (en, Inl err) \<Rightarrow> (en, Inl err)
      | (en, Inr decision) \<Rightarrow> deliver_all es en)"

text \<open>The pending events are cleared only once all of them were applied.\<close>

definition burst_deliver :: "engine \<Rightarrow> transport \<Rightarrow> engine \<times> transport \<times> event list result" where
  "burst_deliver en t =
     (case deliver_all (tr_pending t) en of
        (en, Inl err) \<Rightarrow> (en, t, Inl err)
      | (en, Inr u) \<Rightarrow> (en, t\<lparr>tr_pending := []\<rparr>, Inr (tr_pending t)))"

section \<open>Polling is exact\<close>

lemma emit_total:
  assumes "journalled (po_engine s)" and "\<And>e. valid_event e \<Longrightarrow> valid_event (f e)"
  shows "\<exists>en d. emit t i f s = (s\<lparr>po_drawn := d, po_engine := en\<rparr>, Inr ()) \<and> journalled en"
proof -
  let ?e = "f (new_event (''evt-'' @ zero_pad 5 (Suc (po_drawn s))) t (po_clock s) (po_clock s) i)"
  have "valid_event ?e" by (rule assms(2)) (simp add: valid_event_def new_event_def)
  then have "event_post_init ?e = Inr ?e" by (simp add: event_post_init_Inr_iff)
  then have e: "factory_make (po_clock s) (po_drawn s) t i None None None f = (Suc (po_drawn s), Inr ?e)"
    by (simp add: factory_make_def Let_def)
  obtain en r where en: "engine_apply (po_engine s) ?e None = (en, r)"
    by (cases "engine_apply (po_engine s) ?e None")
  have "\<not> conflicts (po_engine s) ?e None" by (simp add: conflicts_def)
  then obtain dec where "r = Inr dec" using apply_succeeds [OF assms(1)] en by (metis snd_conv)
  moreover have "journalled en" using journalled_apply [OF assms(1), of ?e None] en by simp
  ultimately show ?thesis using e en by (simp add: emit_def) blast
qed

text \<open>What is emitted for an item changes the engine and the factory only.\<close>

definition quiet :: "polling \<Rightarrow> polling \<times> unit result \<Rightarrow> bool" where
  "quiet s res \<longleftrightarrow>
     (\<exists>en d. res = (s\<lparr>po_drawn := d, po_engine := en\<rparr>, Inr ()) \<and> journalled en)"

lemma quiet_refl: "journalled (po_engine s) \<Longrightarrow> quiet s (s, Inr ())"
  unfolding quiet_def by (intro exI [of _ "po_engine s"] exI [of _ "po_drawn s"]) simp

lemma quiet_then:
  assumes "quiet s res" and "\<And>s'. journalled (po_engine s') \<Longrightarrow> quiet s' (f s')"
  shows "quiet s (and_then res f)"
proof -
  obtain en d where res: "res = (s\<lparr>po_drawn := d, po_engine := en\<rparr>, Inr ())" "journalled en"
    using assms(1) by (auto simp: quiet_def)
  have "quiet (s\<lparr>po_drawn := d, po_engine := en\<rparr>) (f (s\<lparr>po_drawn := d, po_engine := en\<rparr>))"
    by (rule assms(2)) (simp add: res(2))
  then show ?thesis by (auto simp: quiet_def res(1) and_then_def)
qed

lemma announce_quiet:
  assumes "journalled (po_engine s)" and item: "0 \<le> si_attempt_number item"
  shows "quiet s (announce rq poll_id now limit position item s)"
proof -
  have emit: "quiet s (emit t i f s)"
    if "journalled (po_engine s)" "\<And>e. valid_event e \<Longrightarrow> valid_event (f e)" for s t i f
    using emit_total [OF that] by (simp add: quiet_def)
  show ?thesis
    unfolding announce_def
    using assms(1) item
    by (intro quiet_then) (auto intro!: quiet_refl emit quiet_then simp: common_def valid_event_def)
qed

lemma length_mark [simp]: "length (mark k items) = length items"
  by (simp add: mark_def)

text \<open>Retrieving marks the selected items and never fails.\<close>

lemma retrieve_total:
  "journalled (po_engine s) \<Longrightarrow> list_all (\<lambda>item. 0 \<le> si_attempt_number item) (po_items s) \<Longrightarrow>
   list_all (\<lambda>k. k < length (po_items s)) ks \<Longrightarrow>
   \<exists>en d. retrieve rq poll_id now limit position ks s =
     (s\<lparr>po_drawn := d, po_engine := en, po_items := fold mark ks (po_items s)\<rparr>, Inr ()) \<and> journalled en"
proof (induction ks arbitrary: s position)
  case Nil
  then show ?case by (intro exI [of _ "po_engine s"] exI [of _ "po_drawn s"]) simp
next
  case (Cons k ks)
  let ?s0 = "s\<lparr>po_items := mark k (po_items s)\<rparr>"
  have items: "list_all (\<lambda>item. 0 \<le> si_attempt_number item) (mark k (po_items s))"
    using Cons.prems(2,3) by (auto simp: list_all_length mark_def nth_list_update)
  have "k < length (po_items s)" using Cons.prems(3) by simp
  then have "0 \<le> si_attempt_number (po_items ?s0 ! k)"
    using Cons.prems(2) by (simp add: list_all_length mark_def)
  then have "quiet ?s0 (announce rq poll_id now limit position (po_items ?s0 ! k) ?s0)"
    using Cons.prems(1) by (intro announce_quiet) simp_all
  then obtain en1 d1 where one: "announce rq poll_id now limit position (po_items ?s0 ! k) ?s0 =
      (?s0\<lparr>po_drawn := d1, po_engine := en1\<rparr>, Inr ())" "journalled en1"
    by (auto simp: quiet_def)
  let ?s1 = "?s0\<lparr>po_drawn := d1, po_engine := en1\<rparr>"
  obtain en d where "retrieve rq poll_id now limit (position + 1) ks ?s1 =
      (?s1\<lparr>po_drawn := d, po_engine := en, po_items := fold mark ks (po_items ?s1)\<rparr>, Inr ())" "journalled en"
    using Cons.IH [of ?s1 "position + 1"] one(2) items Cons.prems(3) by auto
  then show ?case
    using one(1) by (intro exI [of _ en] exI [of _ d]) (simp add: Let_def and_then_def)
qed

section \<open>The items a run of polls retrieves\<close>

abbreviation taken_ids :: "scheduled_item list \<Rightarrow> string multiset" where
  "taken_ids items \<equiv> mset (map si_job_id (filter si_retrieved items))"

lemma taken_mark:
  assumes "k < length items" and "\<not> si_retrieved (items ! k)"
  shows "taken_ids (mark k items) = add_mset (si_job_id (items ! k)) (taken_ids items)"
proof -
  have "items = take k items @ items ! k # drop (Suc k) items"
    by (rule id_take_nth_drop [OF assms(1)])
  then have "taken_ids items = taken_ids (take k items @ items ! k # drop (Suc k) items)" by simp
  then show ?thesis using assms by (simp add: mark_def upd_conv_take_nth_drop)
qed

lemma taken_fold_mark:
  "distinct ks \<Longrightarrow> list_all (\<lambda>k. k < length items \<and> \<not> si_retrieved (items ! k)) ks \<Longrightarrow>
   taken_ids (fold mark ks items) = taken_ids items + mset (map (\<lambda>k. si_job_id (items ! k)) ks)"
proof (induction ks arbitrary: items)
  case (Cons k ks)
  have keep: "mark k items ! j = items ! j" if "j \<in> set ks" for j
  proof -
    have "j \<noteq> k" using Cons.prems(1) that by auto
    then show ?thesis by (simp add: mark_def)
  qed
  then have "list_all (\<lambda>j. j < length (mark k items) \<and> \<not> si_retrieved (mark k items ! j)) ks"
    using Cons.prems(2) by (simp add: list_all_iff)
  then have "taken_ids (fold mark ks (mark k items)) =
      taken_ids (mark k items) + mset (map (\<lambda>j. si_job_id (mark k items ! j)) ks)"
    using Cons by simp
  also have "map (\<lambda>j. si_job_id (mark k items ! j)) ks = map (\<lambda>j. si_job_id (items ! j)) ks"
    using keep by simp
  finally show ?case using taken_mark [of k items] Cons.prems(2) by simp
qed simp

lemma length_fold_mark [simp]: "length (fold mark ks items) = length items"
  by (induction ks arbitrary: items) (simp_all add: mark_def)

lemma nth_fold_mark:
  "k < length items \<Longrightarrow>
   fold mark ks items ! k = (if k \<in> set ks then (items ! k)\<lparr>si_retrieved := True\<rparr> else items ! k)"
proof (induction ks arbitrary: items)
  case (Cons j ks)
  then show ?case by (cases "j = k") (auto simp: mark_def)
qed simp

lemma set_py_slice: "set (py_slice_to n xs) \<subseteq> set xs"
  by (auto simp: py_slice_to_def dest: in_set_takeD)

lemma distinct_py_slice: "distinct xs \<Longrightarrow> distinct (py_slice_to n xs)"
  by (simp add: py_slice_to_def)

lemma map_py_slice: "map f (py_slice_to n xs) = py_slice_to n (map f xs)"
  by (simp add: py_slice_to_def take_map)

lemma eligible_due:
  "k \<in> set (eligible_items s) \<longleftrightarrow> k < length (po_items s) \<and> is_due (po_clock s) (po_items s ! k)"
  by (auto simp: eligible_items_def)

lemma map_insort_key: "map f (insort_key (\<lambda>x. g (f x)) x xs) = insort_key g (f x) (map f xs)"
  by (induction xs) simp_all

lemma map_sort_key: "map f (sort_key (\<lambda>x. g (f x)) xs) = sort_key g (map f xs)"
  by (induction xs) (simp_all add: map_insort_key)

abbreviation item_order :: "scheduled_item \<Rightarrow> time \<times> string" where
  "item_order item \<equiv> (si_scheduled_at item, si_job_id item)"

text \<open>The eligible items themselves, in the order of the queue.\<close>

lemma eligible_sorted:
  "map (\<lambda>k. po_items s ! k) (eligible_items s) =
     sort_key item_order (filter (is_due (po_clock s)) (po_items s))"
proof -
  have "map (\<lambda>k. po_items s ! k) (eligible_items s) =
      map ((!) (po_items s)) (sort_key (\<lambda>k. item_order (po_items s ! k))
        (filter (is_due (po_clock s) \<circ> (!) (po_items s)) [0..<length (po_items s)]))"
    by (simp add: eligible_items_def comp_def)
  also have "\<dots> = sort_key item_order (filter (is_due (po_clock s)) (map ((!) (po_items s)) [0..<length (po_items s)]))"
    by (simp only: filter_map map_sort_key [where g = item_order and f = "(!) (po_items s)", symmetric])
  finally show ?thesis by (simp add: map_nth)
qed

definition poll_ok :: "polling \<Rightarrow> bool" where
  "poll_ok s \<longleftrightarrow>
     journalled (po_engine s) \<and> list_all (\<lambda>item. 0 \<le> si_attempt_number item) (po_items s) \<and>
     mset (concat (map pr_retrieved_job_ids (po_polls s))) = taken_ids (po_items s)"

text \<open>A poll on a consistent scheduler.\<close>

lemma poll_effect:
  assumes "poll_ok s"
  shows "\<exists>s' rec. poll rq s = (s', Inr rec) \<and> poll_ok s' \<and> po_polls s' = po_polls s @ [rec] \<and>
    pr_retrieved_job_ids rec = map si_job_id (py_slice_to (poll_limit (po_config s) (rq_retrieve_count rq))
      (sort_key item_order (filter (is_due (po_clock s)) (po_items s)))) \<and>
    po_items s' = fold mark (py_slice_to (poll_limit (po_config s) (rq_retrieve_count rq)) (eligible_items s))
      (po_items s) \<and>
    po_clock s' = po_clock s \<and> po_config s' = po_config s"
proof -
  let ?limit = "poll_limit (po_config s) (rq_retrieve_count rq)"
  let ?ks = "py_slice_to ?limit (eligible_items s)"
  let ?id = "rq_poller_id rq @ ''-poll-'' @ zero_pad 4 (Suc (po_poll_number s))"
  let ?rec = "\<lparr>pr_poll_id = ?id, pr_poll_time = po_clock s,
      pr_eligible_count = int (length (eligible_items s)),
      pr_retrieved_job_ids = map (\<lambda>k. si_job_id (po_items s ! k)) ?ks, pr_batch_limit = ?limit\<rparr>"
  let ?s0 = "s\<lparr>po_poll_number := Suc (po_poll_number s), po_polls := po_polls s @ [?rec]\<rparr>"
  have ks: "list_all (\<lambda>k. k < length (po_items s) \<and> \<not> si_retrieved (po_items s ! k)) ?ks"
    using set_py_slice [of ?limit "eligible_items s"] by (auto simp: list_all_iff eligible_due is_due_def)
  then have inside: "list_all (\<lambda>k. k < length (po_items ?s0)) ?ks" by (simp add: list_all_iff)
  have "journalled (po_engine ?s0)" "list_all (\<lambda>item. 0 \<le> si_attempt_number item) (po_items ?s0)"
    using assms by (simp_all add: poll_ok_def)
  from retrieve_total [OF this inside, of rq ?id "po_clock s" ?limit 1]
  obtain en d where ret: "retrieve rq ?id (po_clock s) ?limit 1 ?ks ?s0 =
      (?s0\<lparr>po_drawn := d, po_engine := en, po_items := fold mark ?ks (po_items ?s0)\<rparr>, Inr ())" "journalled en"
    by blast
  let ?s' = "?s0\<lparr>po_drawn := d, po_engine := en, po_items := fold mark ?ks (po_items s)\<rparr>"
  have "distinct (eligible_items s)" by (simp add: eligible_items_def)
  then have dist: "distinct ?ks" by (rule distinct_py_slice)
  have "list_all (\<lambda>item. 0 \<le> si_attempt_number item) (fold mark ?ks (po_items s))"
    using assms by (auto simp: poll_ok_def list_all_length nth_fold_mark)
  then have "poll_ok ?s'"
    using assms ret(2) taken_fold_mark [OF dist ks] by (simp add: poll_ok_def)
  moreover have "map (\<lambda>k. si_job_id (po_items s ! k)) ?ks =
      map si_job_id (py_slice_to ?limit (sort_key item_order (filter (is_due (po_clock s)) (po_items s))))"
    by (simp only: eligible_sorted [symmetric] map_py_slice map_map comp_def)
  moreover have "poll rq s = (?s', Inr ?rec)" using ret(1) by (simp add: poll_def Let_def)
  ultimately show ?thesis by simp
qed

section \<open>Runs of the simulation\<close>

datatype sim_op =
    SimEnqueue scheduled_item
  | SimAdvance int int
  | SimPoll poll_request

fun sim_step :: "polling \<Rightarrow> sim_op \<Rightarrow> polling" where
  "sim_step s (SimEnqueue item) = enqueue item s"
| "sim_step s (SimAdvance secs mins) = s\<lparr>po_clock := clock_advance secs mins (po_clock s)\<rparr>"
| "sim_step s (SimPoll rq) = fst (poll rq s)"

fun sim_ok :: "sim_op \<Rightarrow> bool" where
  "sim_ok (SimEnqueue item) \<longleftrightarrow> 0 \<le> si_attempt_number item \<and> \<not> si_retrieved item"
| "sim_ok _ \<longleftrightarrow> True"

interpretation sim_runs: invariant_machine sim_step sim_ok poll_ok
proof
  show "poll_ok (sim_step s op)" if s: "poll_ok s" and op: "sim_ok op" for s op
  proof (cases op)
    case (SimPoll rq)
    then show ?thesis using poll_effect [OF s, of rq] by auto
  qed (use s op in \<open>auto simp: poll_ok_def enqueue_def\<close>)
qed

definition run_sim :: "polling \<Rightarrow> sim_op list \<Rightarrow> polling" where
  "run_sim s ops = foldl sim_step s ops"

lemma run_sim_ok: "list_all sim_ok ops \<Longrightarrow> poll_ok (run_sim (new_polling (new_engine c) now config) ops)"
  unfolding run_sim_def
  by (rule sim_runs.run_inv) (simp_all add: poll_ok_def new_polling_def journalled_new)

section \<open>Property\<close>

text \<open>
  C29. Polling is exact. After any enqueuing, clock moves and polls, a poll never fails; it retrieves
  the first items of the queue that are due and not retrieved yet, in the order of (scheduled_at,
  job_id), within the limit; it marks exactly these; and all polls together list every retrieved item
  exactly once, so that no item is handed out twice and none disappears.
\<close>

theorem polling_is_exact:
  assumes "list_all sim_ok ops"
  shows "let s = run_sim (new_polling (new_engine c) now config) ops;
      limit = poll_limit (po_config s) (rq_retrieve_count rq);
      due = sort_key item_order (filter (is_due (po_clock s)) (po_items s))
    in mset (concat (map pr_retrieved_job_ids (po_polls s))) = taken_ids (po_items s) \<and>
      (\<exists>s' rec. poll rq s = (s', Inr rec) \<and> po_polls s' = po_polls s @ [rec] \<and>
        pr_retrieved_job_ids rec = map si_job_id (py_slice_to limit due) \<and>
        (0 \<le> limit \<longrightarrow> length (pr_retrieved_job_ids rec) = min (nat limit) (length due)) \<and>
        taken_ids (po_items s') = taken_ids (po_items s) + mset (pr_retrieved_job_ids rec) \<and>
        length (po_items s') = length (po_items s))"
proof -
  let ?s = "run_sim (new_polling (new_engine c) now config) ops"
  have s: "poll_ok ?s" by (rule run_sim_ok [OF assms])
  then obtain s' rec where p: "poll rq ?s = (s', Inr rec)" "poll_ok s'" "po_polls s' = po_polls ?s @ [rec]"
    "pr_retrieved_job_ids rec = map si_job_id (py_slice_to (poll_limit (po_config ?s) (rq_retrieve_count rq))
      (sort_key item_order (filter (is_due (po_clock ?s)) (po_items ?s))))"
    "length (po_items s') = length (po_items ?s)"
    using poll_effect [OF s, of rq] by auto
  have "taken_ids (po_items s') = taken_ids (po_items ?s) + mset (pr_retrieved_job_ids rec)"
    using s p(2,3) by (simp add: poll_ok_def)
  then show ?thesis
    using s p by (auto simp: Let_def poll_ok_def py_slice_to_def)
qed

theorem polling_is_exact_witness:
  "\<exists>s' rec. poll default_request (run_sim (new_polling (new_engine None) 10 None)
       [SimEnqueue (new_item ''b'' 5), SimEnqueue (new_item ''a'' 5), SimEnqueue (new_item ''c'' 99)]) =
     (s', Inr rec) \<and> pr_retrieved_job_ids rec = [''a'', ''b'']"
proof -
  let ?ops = "[SimEnqueue (new_item ''b'' 5), SimEnqueue (new_item ''a'' 5), SimEnqueue (new_item ''c'' 99)]"
  have "list_all sim_ok ?ops" by (simp add: new_item_def)
  from polling_is_exact [OF this, of None 10 None default_request]
  show ?thesis
    by (auto simp: Let_def run_sim_def enqueue_def new_polling_def new_item_def default_request_def
        is_due_def poll_limit_def new_engine_def default_config_def py_slice_to_def)
qed

end
