(* ===== verification/Cassandra_Workload.thy ===== *)
theory Cassandra_Workload
  imports Scheduler_Handlers
begin

text \<open>
  The Cassandra workload: the driver client of \<open>src/job_visibility/scheduler/cassandra_client.py\<close> over
  the tables of \<open>src/infra/cassandra/schema.cql\<close>, and the handler of
  \<open>src/job_visibility/scheduler/cassandra_workload.py\<close>. A statement may be lost before or after the
  server executed it, and other clients may act before every statement.
\<close>

section \<open>Tables\<close>

text \<open>The key is data set, bucket and record id.\<close>

type_synonym record_key = "string \<times> int \<times> int"

record workload_record =
  wr_dataset_id :: string
  wr_bucket :: int
  wr_record_id :: int
  wr_input_number :: int
  wr_checksum :: int

definition key_of :: "workload_record \<Rightarrow> record_key" where
  "key_of r = (wr_dataset_id r, wr_bucket r, wr_record_id r)"

record record_row =
  rw_input_number :: int
  rw_fibonacci_result :: "string option"
  rw_checksum :: int
  rw_pending :: "string option"
  rw_last :: "string option"

record marker_row =
  mk_previous_checksum :: int
  mk_new_checksum :: int
  mk_fibonacci_result :: string

record cassandra_db =
  cd_rows :: "(record_key, record_row) dict"
  cd_operations :: "(record_key \<times> string, marker_row) dict"
  cd_datasets :: "(string, int \<times> int) dict"

section \<open>Statements\<close>

text \<open>The conditional updates answer whether they were applied; a missing row is never applied to.\<close>

definition update_if ::
  "record_key \<Rightarrow> (record_row \<Rightarrow> bool) \<Rightarrow> (record_row \<Rightarrow> record_row) \<Rightarrow> cassandra_db \<Rightarrow> cassandra_db \<times> bool" where
  "update_if key cond f db =
     (case dict_get (cd_rows db) key of
        None \<Rightarrow> (db, False)
      | Some r \<Rightarrow>
          (if cond r then (db\<lparr>cd_rows := dict_put key (f r) (cd_rows db)\<rparr>, True) else (db, False)))"

definition reserve :: "workload_record \<Rightarrow> string \<Rightarrow> cassandra_db \<Rightarrow> cassandra_db \<times> bool" where
  "reserve record op =
     update_if (key_of record) (\<lambda>r. rw_checksum r = wr_checksum record \<and> rw_pending r = None)
       (\<lambda>r. r\<lparr>rw_pending := Some op\<rparr>)"

definition finish :: "workload_record \<Rightarrow> string \<Rightarrow> string \<Rightarrow> cassandra_db \<Rightarrow> cassandra_db \<times> bool" where
  "finish record op fibonacci_result =
     update_if (key_of record) (\<lambda>r. rw_pending r = Some op \<and> rw_checksum r = wr_checksum record)
       (\<lambda>r. r\<lparr>rw_fibonacci_result := Some fibonacci_result, rw_checksum := wr_checksum record + 1,
              rw_last := Some op, rw_pending := None\<rparr>)"

definition write_marker ::
  "workload_record \<Rightarrow> string \<Rightarrow> string \<Rightarrow> int \<Rightarrow> cassandra_db \<Rightarrow> cassandra_db \<times> unit" where
  "write_marker record op fibonacci_result checksum db =
     (db\<lparr>cd_operations := dict_put (key_of record, op)
          \<lparr>mk_previous_checksum = checksum - 1, mk_new_checksum = checksum,
           mk_fibonacci_result = fibonacci_result\<rparr> (cd_operations db)\<rparr>, ())"

text \<open>
  What happens to one statement: other clients act first (\<open>sv_others\<close>), then it is answered, or not
  executed, or executed without an answer; the last two raise.
\<close>

datatype delivery = Answered | NotExecuted exn | AnswerLost exn

record server =
  se_others :: "cassandra_db \<Rightarrow> cassandra_db"
  se_delivery :: delivery

definition run_statement ::
  "server \<Rightarrow> (cassandra_db \<Rightarrow> cassandra_db \<times> 'a) \<Rightarrow> cassandra_db \<Rightarrow> cassandra_db \<times> 'a result" where
  "run_statement sv stmt db =
     (let db = se_others sv db
      in case se_delivery sv of
           Answered \<Rightarrow> (case stmt db of (db, a) \<Rightarrow> (db, Inr a))
         | NotExecuted err \<Rightarrow> (db, Inl err)
         | AnswerLost err \<Rightarrow> (fst (stmt db), Inl err))"

section \<open>Applying an operation once\<close>

text \<open>The statements of one call in the order they are executed, and the two hooks of the client.\<close>

record call_env =
  ce_read :: server
  ce_find :: server
  ce_reserve :: server
  ce_finish :: server
  ce_reread :: server
  ce_mark :: server
  ce_before_reserve :: "exn option"
  ce_after_finalize :: "exn option"

definition read_row :: "workload_record \<Rightarrow> cassandra_db \<Rightarrow> cassandra_db \<times> record_row option" where
  "read_row record db = (db, dict_get (cd_rows db) (key_of record))"

definition read_record :: "server \<Rightarrow> workload_record \<Rightarrow> cassandra_db \<Rightarrow> cassandra_db \<times> record_row result" where
  "read_record sv record db =
     (case run_statement sv (read_row record) db of
        (db, Inl err) \<Rightarrow> (db, Inl err)
      | (db, Inr None) \<Rightarrow> (db, Inl (AttributeError ''last_operation_id''))
      | (db, Inr (Some r)) \<Rightarrow> (db, Inr r))"

definition find_operation ::
  "server \<Rightarrow> workload_record \<Rightarrow> string \<Rightarrow> cassandra_db \<Rightarrow> cassandra_db \<times> int option result" where
  "find_operation sv record op =
     run_statement sv (\<lambda>db. (db, map_option mk_new_checksum (dict_get (cd_operations db) (key_of record, op))))"

definition mark_operation ::
  "call_env \<Rightarrow> workload_record \<Rightarrow> string \<Rightarrow> string \<Rightarrow> int \<Rightarrow> cassandra_db \<Rightarrow>
   cassandra_db \<times> (bool \<times> int) result" where
  "mark_operation env record op fibonacci_result checksum db =
     (case run_statement (ce_mark env) (write_marker record op fibonacci_result checksum) db of
        (db, Inl err) \<Rightarrow> (db, Inl err)
      | (db, Inr u) \<Rightarrow> (db, Inr (True, checksum)))"

text \<open>The reservation: what it leaves and whether the call goes on (\<open>None\<close>) or ends with a result.\<close>

definition take_reservation ::
  "call_env \<Rightarrow> workload_record \<Rightarrow> string \<Rightarrow> record_row \<Rightarrow> cassandra_db \<Rightarrow>
   cassandra_db \<times> (bool \<times> int) result option" where
  "take_reservation env record op state db =
     (if rw_pending state = Some op then (db, None)
      else case ce_before_reserve env of
        Some err \<Rightarrow> (db, Some (Inl err))
      | None \<Rightarrow>
          (case run_statement (ce_reserve env) (reserve record op) db of
             (db, Inl err) \<Rightarrow> (db, Some (Inl err))
           | (db, Inr applied) \<Rightarrow>
               (db, if applied then None else Some (Inr (False, rw_checksum state)))))"

text \<open>The \<open>except\<close> branch of the finalization: reread, and only a matching last operation is success.\<close>

definition reconcile_finish ::
  "call_env \<Rightarrow> workload_record \<Rightarrow> string \<Rightarrow> string \<Rightarrow> exn \<Rightarrow> cassandra_db \<Rightarrow>
   cassandra_db \<times> (bool \<times> int) result" where
  "reconcile_finish env record op fibonacci_result err db =
     (case read_record (ce_reread env) record db of
        (db, Inl err') \<Rightarrow> (db, Inl err')
      | (db, Inr state) \<Rightarrow>
          (if rw_last state \<noteq> Some op then (db, Inl err)
           else mark_operation env record op fibonacci_result (rw_checksum state) db))"

definition finish_operation ::
  "call_env \<Rightarrow> workload_record \<Rightarrow> string \<Rightarrow> string \<Rightarrow> cassandra_db \<Rightarrow> cassandra_db \<times> (bool \<times> int) result" where
  "finish_operation env record op fibonacci_result db =
     (case run_statement (ce_finish env) (finish record op fibonacci_result) db of
        (db, Inl err) \<Rightarrow> reconcile_finish env record op fibonacci_result err db
      | (db, Inr applied) \<Rightarrow>
          (case ce_after_finalize env of
             Some err \<Rightarrow> reconcile_finish env record op fibonacci_result err db
           | None \<Rightarrow>
               (if applied
                then mark_operation env record op fibonacci_result (wr_checksum record + 1) db
                else (db, Inr (False, wr_checksum record)))))"

definition apply_once ::
  "call_env \<Rightarrow> workload_record \<Rightarrow> string \<Rightarrow> string \<Rightarrow> cassandra_db \<Rightarrow> cassandra_db \<times> (bool \<times> int) result" where
  "apply_once env record op fibonacci_result db =
     (case read_record (ce_read env) record db of
        (db, Inl err) \<Rightarrow> (db, Inl err)
      | (db, Inr state) \<Rightarrow>
          (if rw_last state = Some op
           then mark_operation env record op fibonacci_result (rw_checksum state) db
           else
             (case find_operation (ce_find env) record op db of
                (db, Inl err) \<Rightarrow> (db, Inl err)
              | (db, Inr existing) \<Rightarrow>
                  (if existing = Some (rw_checksum state) then (db, Inr (True, rw_checksum state))
                   else
                     (case take_reservation env record op state db of
                        (db, Some res) \<Rightarrow> (db, res)
                      | (db, None) \<Rightarrow> finish_operation env record op fibonacci_result db)))))"

section \<open>Selecting records\<close>

text \<open>\<open>sample seed n k\<close> stands for \<open>random.Random(seed).sample(range(n), k)\<close>.\<close>

fun read_selected :: "cassandra_db \<Rightarrow> string \<Rightarrow> int \<Rightarrow> int list \<Rightarrow> workload_record list result" where
  "read_selected db dataset_id buckets [] = Inr []"
| "read_selected db dataset_id buckets (i # is) =
     (if buckets = 0 then Inl ZeroDivisionError
      else bind_result (read_selected db dataset_id buckets is) (\<lambda>records.
        Inr (case dict_get (cd_rows db) (dataset_id, i mod buckets, i) of
               None \<Rightarrow> records
             | Some r \<Rightarrow>
                 \<lparr>wr_dataset_id = dataset_id, wr_bucket = i mod buckets, wr_record_id = i,
                  wr_input_number = rw_input_number r, wr_checksum = rw_checksum r\<rparr> # records)))"

definition select_records ::
  "(int \<Rightarrow> int \<Rightarrow> int \<Rightarrow> int list) \<Rightarrow> string \<Rightarrow> int \<Rightarrow> int \<Rightarrow> cassandra_db \<Rightarrow> workload_record list result" where
  "select_records sample dataset_id record_count seed db =
     (case dict_get (cd_datasets db) dataset_id of
        None \<Rightarrow> Inr []
      | Some (available, buckets) \<Rightarrow>
          (if available < record_count then Inr []
           else read_selected db dataset_id buckets (sample seed available record_count)))"

section \<open>The handler\<close>

record cassandra_limits =
  cc_max_record_count :: int
  cc_max_input_number :: int
  cc_max_processing_delay_ms :: int

text \<open>\<open>uuid5 name\<close> stands for \<open>uuid5(NAMESPACE_URL, name)\<close>.\<close>

definition stable_operation_id :: "(string \<Rightarrow> string) \<Rightarrow> claimed_job \<Rightarrow> string" where
  "stable_operation_id uuid5 job = uuid5 (''job-visibility:cassandra-fib-update:v1:'' @ cl_job_id job)"

definition int_in :: "json \<Rightarrow> int \<Rightarrow> int \<Rightarrow> int option" where
  "int_in v lo hi = (case v of JInt n \<Rightarrow> if lo \<le> n \<and> n \<le> hi then Some n else None | _ \<Rightarrow> None)"

text \<open>The four payload checks: data set, record count, seed and delay.\<close>

definition workload_parameters ::
  "cassandra_limits \<Rightarrow> (string \<times> json) list \<Rightarrow> (string \<times> int \<times> int \<times> int) result" where
  "workload_parameters limits payload =
     (case get_default payload ''datasetId'' JNull of
        JStr dataset_id \<Rightarrow>
          (if dataset_id = [] then Inl (HandlerError ''INVALID_DATASET'' ''datasetId is required'' False)
           else case int_in (get_default payload ''recordCount'' JNull) 1 (cc_max_record_count limits) of
             None \<Rightarrow> Inl (HandlerError ''INVALID_RECORD_COUNT''
                            ''recordCount exceeds configured bounds'' False)
           | Some record_count \<Rightarrow>
               (case get_default payload ''seed'' JNull of
                  JInt seed \<Rightarrow>
                    (case int_in (get_default payload ''processingDelayMs'' (JInt 0)) 0
                            (cc_max_processing_delay_ms limits) of
                       None \<Rightarrow> Inl (HandlerError ''INVALID_PROCESSING_DELAY''
                                      ''processing delay exceeds configured bounds'' False)
                     | Some delay_ms \<Rightarrow> Inr (dataset_id, record_count, seed, delay_ms))
                | _ \<Rightarrow> Inl (HandlerError ''INVALID_SEED'' ''seed must be an integer'' False)))
      | _ \<Rightarrow> Inl (HandlerError ''INVALID_DATASET'' ''datasetId is required'' False))"

text \<open>\<open>max(records, key=...)\<close>: the first of the greatest records.\<close>

fun greatest :: "workload_record \<Rightarrow> workload_record list \<Rightarrow> workload_record" where
  "greatest best [] = best"
| "greatest best (r # rs) =
     greatest (if wr_input_number best < wr_input_number r \<or>
                  wr_input_number best = wr_input_number r \<and>
                    (wr_bucket r < wr_bucket best \<or>
                     wr_bucket r = wr_bucket best \<and> wr_record_id r < wr_record_id best)
               then r else best) rs"

text \<open>\<open>str(number)\<close>: the interpreter refuses to print integers of more than 4300 digits.\<close>

definition str_of_int :: "int \<Rightarrow> string result" where
  "str_of_int n =
     (let digits = int_digits n
      in if 4300 < length digits - of_bool (n < 0)
         then Inl (ValueError ''Exceeds the limit (4300 digits) for integer string conversion'')
         else Inr digits)"

text \<open>\<open>lost\<close> is what the selection's own statements raise, if anything.\<close>

definition cassandra_handler ::
  "cassandra_limits \<Rightarrow> (string \<Rightarrow> string) \<Rightarrow> (string \<Rightarrow> string) \<Rightarrow> (int \<Rightarrow> int \<Rightarrow> int \<Rightarrow> int list) \<Rightarrow>
   exn option \<Rightarrow> call_env \<Rightarrow> claimed_job \<Rightarrow> cassandra_db \<Rightarrow> cassandra_db \<times> json result" where
  "cassandra_handler limits uuid5 sha256 sample lost env job db =
     (case bind_result (payload_dict (cl_payload job)) (workload_parameters limits) of
        Inl err \<Rightarrow> (db, Inl err)
      | Inr (dataset_id, record_count, seed, delay_ms) \<Rightarrow>
          (case (case lost of Some err \<Rightarrow> Inl err
                 | None \<Rightarrow> select_records sample dataset_id record_count seed db) of
             Inl err \<Rightarrow> (db, Inl err)
           | Inr records \<Rightarrow>
               (if int (length records) \<noteq> record_count
                then (db, Inl (HandlerError ''RECORD_COUNT_MISMATCH''
                                 ''dataset returned an incomplete selection'' False))
                else
                  let selected = greatest (hd records) (tl records)
                  in if cc_max_input_number limits < wr_input_number selected
                     then (db, Inl (HandlerError ''INPUT_BOUND_EXCEEDED''
                                      ''selected input exceeds configured bounds'' False))
                     else
                       (case bind_result (fibonacci (wr_input_number selected)) str_of_int of
                          Inl err \<Rightarrow> (db, Inl err)
                        | Inr result \<Rightarrow>
                            let op = stable_operation_id uuid5 job
                            in case apply_once env selected op result db of
                                 (db, Inl err) \<Rightarrow>
                                   (db, Inl (HandlerError ''CASSANDRA_OPERATION_FAILED''
                                               ''Cassandra operation failed'' True))
                               | (db, Inr (applied, checksum)) \<Rightarrow>
                                   (if \<not> applied
                                    then (db, Inl (HandlerError ''CASSANDRA_CONDITIONAL_CONFLICT''
                                                     ''conditional update conflicted'' True))
                                    else (db, Inr (JObj
                                      [(''rows'', JInt (int (length records))),
                                       (''maximum'', JInt (wr_input_number selected)),
                                       (''bucket'', JInt (wr_bucket selected)),
                                       (''recordId'', JInt (wr_record_id selected)),
                                       (''operationId'', JStr op),
                                       (''previousChecksum'', JInt (wr_checksum selected)),
                                       (''checksum'', JInt checksum),
                                       (''delayMs'', JInt delay_ms),
                                       (''resultHash'', JStr (sha256 result))])))))))"

section \<open>Retries of one operation\<close>

text \<open>Other clients may do anything except to this record and the marker of this operation.\<close>

definition leaves_alone :: "record_key \<Rightarrow> string \<Rightarrow> server \<Rightarrow> bool" where
  "leaves_alone key op sv \<longleftrightarrow>
     (\<forall>db. dict_get (cd_rows (se_others sv db)) key = dict_get (cd_rows db) key \<and>
           dict_get (cd_operations (se_others sv db)) (key, op) = dict_get (cd_operations db) (key, op))"

definition undisturbed :: "record_key \<Rightarrow> string \<Rightarrow> call_env \<Rightarrow> bool" where
  "undisturbed key op env \<longleftrightarrow>
     list_all (leaves_alone key op)
       [ce_read env, ce_find env, ce_reserve env, ce_finish env, ce_reread env, ce_mark env]"

definition row_at :: "record_key \<Rightarrow> cassandra_db \<Rightarrow> record_row option" where
  "row_at key db = dict_get (cd_rows db) key"

definition marker_at :: "record_key \<Rightarrow> string \<Rightarrow> cassandra_db \<Rightarrow> int option" where
  "marker_at key op db = map_option mk_new_checksum (dict_get (cd_operations db) (key, op))"

text \<open>Before the operation took effect, and after.\<close>

definition not_applied :: "record_key \<Rightarrow> string \<Rightarrow> int \<Rightarrow> cassandra_db \<Rightarrow> bool" where
  "not_applied key op c db \<longleftrightarrow> marker_at key op db = None \<and>
     (\<exists>r. row_at key db = Some r \<and> rw_checksum r = c \<and> rw_last r \<noteq> Some op \<and>
        (rw_pending r = None \<or> rw_pending r = Some op))"

definition applied :: "record_key \<Rightarrow> string \<Rightarrow> int \<Rightarrow> string \<Rightarrow> cassandra_db \<Rightarrow> bool" where
  "applied key op c result db \<longleftrightarrow>
     (\<exists>r. row_at key db = Some r \<and> rw_checksum r = c + 1 \<and> rw_last r = Some op \<and> rw_pending r = None \<and>
        rw_fibonacci_result r = Some result)"

lemma statement_alone:
  assumes "leaves_alone key op sv"
  shows "row_at key (se_others sv db) = row_at key db"
    and "marker_at key op (se_others sv db) = marker_at key op db"
  using assms by (simp_all add: leaves_alone_def row_at_def marker_at_def)

lemma phase_alone:
  assumes "leaves_alone key op sv"
  shows "not_applied key op c (se_others sv db) \<longleftrightarrow> not_applied key op c db"
    and "applied key op c result (se_others sv db) \<longleftrightarrow> applied key op c result db"
  by (simp_all add: not_applied_def applied_def statement_alone [OF assms])

lemma read_record_cases:
  assumes "leaves_alone key op sv" and "key_of record = key" and "row_at key db = Some r"
  obtains err db' where "read_record sv record db = (db', Inl err)" "db' = se_others sv db"
    | db' where "read_record sv record db = (db', Inr r)" "db' = se_others sv db"
  using assms statement_alone(1) [OF assms(1), of db]
  by (cases "se_delivery sv")
    (auto simp: read_record_def run_statement_def read_row_def Let_def row_at_def)

lemma mark_keeps:
  assumes "leaves_alone key op (ce_mark env)"
  shows "mark_operation env record op result c db = (db', res) \<Longrightarrow>
    (applied key op b x db \<longrightarrow> applied key op b x db') \<and> (res = Inr (True, c) \<or> (\<exists>err. res = Inl err))"
  using statement_alone(1) [OF assms, of db]
  by (cases "se_delivery (ce_mark env)")
    (auto simp: mark_operation_def run_statement_def write_marker_def Let_def applied_def row_at_def)

text \<open>One call on a record that already carries the operation.\<close>

lemma apply_again:
  assumes u: "undisturbed key op env" and k: "key_of record = key" and a: "applied key op c x db"
    and call: "apply_once env record op result db = (db', res)"
  shows "applied key op c x db' \<and> (res = Inr (True, c + 1) \<or> (\<exists>err. res = Inl err))"
proof -
  have alone: "leaves_alone key op (ce_read env)" "leaves_alone key op (ce_mark env)"
    using u by (simp_all add: undisturbed_def)
  obtain r where r: "row_at key db = Some r" "rw_checksum r = c + 1" "rw_last r = Some op"
    using a by (auto simp: applied_def)
  have a': "applied key op c x (se_others (ce_read env) db)" using a phase_alone(2) [OF alone(1)] by simp
  show ?thesis
  proof (rule read_record_cases [OF alone(1) k r(1)])
    fix err d assume "read_record (ce_read env) record db = (d, Inl err)" "d = se_others (ce_read env) db"
    then show ?thesis using call a' by (auto simp: apply_once_def)
  next
    fix d assume "read_record (ce_read env) record db = (d, Inr r)" "d = se_others (ce_read env) db"
    then show ?thesis
      using call a' r mark_keeps [OF alone(2), of "record" result "c + 1" d db' res c x]
      by (simp add: apply_once_def)
  qed
qed

text \<open>The first call that gets through: reservation, finalization and its reconciliation.\<close>

definition reserved :: "record_key \<Rightarrow> string \<Rightarrow> int \<Rightarrow> cassandra_db \<Rightarrow> bool" where
  "reserved key op c db \<longleftrightarrow>
     not_applied key op c db \<and> (\<exists>r. row_at key db = Some r \<and> rw_pending r = Some op)"

lemma reserved_alone:
  "leaves_alone key op sv \<Longrightarrow> reserved key op c (se_others sv db) \<longleftrightarrow> reserved key op c db"
  by (simp add: reserved_def phase_alone statement_alone)

lemma reserve_effect:
  assumes "not_applied key op c db" and "key_of record = key" and "wr_checksum record = c"
    and "row_at key db = Some r" and "rw_pending r = None"
  shows "reserve record op db = (fst (reserve record op db), True)" and "reserved key op c (fst (reserve record op db))"
  using assms
  by (auto simp: reserve_def update_if_def reserved_def not_applied_def row_at_def marker_at_def dict_rules)

lemma finish_effect:
  assumes "reserved key op c db" and "key_of record = key" and "wr_checksum record = c"
  shows "finish record op result db = (fst (finish record op result db), True)"
    and "applied key op c result (fst (finish record op result db))"
  using assms
  by (auto simp: finish_def update_if_def reserved_def not_applied_def applied_def row_at_def dict_rules)

lemma take_reservation_effect:
  assumes u: "undisturbed key op env" and n: "not_applied key op c db"
    and k: "key_of record = key" "wr_checksum record = c"
    and r: "row_at key db = Some r" "rw_pending state = rw_pending r"
    and t: "take_reservation env record op state db = (db', res)"
  shows "not_applied key op c db' \<and> (res = None \<and> reserved key op c db' \<or> (\<exists>err. res = Some (Inl err)))"
proof (cases "rw_pending r = Some op")
  case True
  then show ?thesis using n r t by (auto simp: take_reservation_def reserved_def)
next
  case False
  then have none: "rw_pending r = None" using n r(1) by (auto simp: not_applied_def)
  show ?thesis
  proof (cases "ce_before_reserve env")
    case (Some err)
    then show ?thesis using n False r t by (auto simp: take_reservation_def)
  next
    case hook: None
    have alone: "leaves_alone key op (ce_reserve env)" using u by (simp add: undisturbed_def)
    let ?db = "se_others (ce_reserve env) db"
    have n': "not_applied key op c ?db" using n phase_alone(1) [OF alone] by simp
    have "row_at key ?db = Some r" using r(1) statement_alone(1) [OF alone] by simp
    note eff = reserve_effect [OF n' k this none]
    show ?thesis
    proof (cases "se_delivery (ce_reserve env)")
      case Answered
      have "run_statement (ce_reserve env) (reserve record op) db = (fst (reserve record op ?db), Inr True)"
        using Answered eff(1) by (simp add: run_statement_def Let_def split: prod.split) (metis prod.inject)
      then show ?thesis
        using t False r(2) hook eff(2) by (auto simp: take_reservation_def reserved_def)
    next
      case (NotExecuted err)
      then show ?thesis
        using t False r(2) hook n' by (auto simp: take_reservation_def run_statement_def Let_def)
    next
      case (AnswerLost err)
      then show ?thesis
        using t False r(2) hook eff(2)
        by (auto simp: take_reservation_def run_statement_def Let_def reserved_def)
    qed
  qed
qed

definition call_outcome ::
  "record_key \<Rightarrow> string \<Rightarrow> int \<Rightarrow> string \<Rightarrow> cassandra_db \<Rightarrow> (bool \<times> int) result \<Rightarrow> bool" where
  "call_outcome key op c result db res \<longleftrightarrow>
     not_applied key op c db \<and> (\<exists>err. res = Inl err) \<or>
     applied key op c result db \<and> (res = Inr (True, c + 1) \<or> (\<exists>err. res = Inl err))"

lemma reconcile_effect:
  assumes u: "undisturbed key op env" and k: "key_of record = key"
    and phase: "not_applied key op c db \<or> applied key op c result db"
    and t: "reconcile_finish env record op result err db = (db', res)"
  shows "call_outcome key op c result db' res"
proof -
  have alone: "leaves_alone key op (ce_reread env)" "leaves_alone key op (ce_mark env)"
    using u by (simp_all add: undisturbed_def)
  let ?db = "se_others (ce_reread env) db"
  have phase': "not_applied key op c ?db \<or> applied key op c result ?db"
    using phase phase_alone [OF alone(1)] by simp
  obtain r where r: "row_at key db = Some r" using phase by (auto simp: not_applied_def applied_def)
  then have r': "row_at key ?db = Some r" using statement_alone(1) [OF alone(1)] by simp
  show ?thesis
  proof (rule read_record_cases [OF alone(1) k r])
    fix e d assume "read_record (ce_reread env) record db = (d, Inl e)" "d = ?db"
    then show ?thesis using t phase' by (auto simp: reconcile_finish_def call_outcome_def)
  next
    fix d assume d: "read_record (ce_reread env) record db = (d, Inr r)" "d = ?db"
    show ?thesis
    proof (cases "rw_last r = Some op")
      case True
      then have a: "applied key op c result ?db" "rw_checksum r = c + 1"
        using phase' r' by (auto simp: not_applied_def applied_def)
      then show ?thesis
        using t d True mark_keeps [OF alone(2), of "record" result "c + 1" ?db db' res c result]
        by (auto simp: reconcile_finish_def call_outcome_def)
    next
      case False
      then have "not_applied key op c ?db" using phase' r' by (auto simp: applied_def)
      then show ?thesis using t d False by (auto simp: reconcile_finish_def call_outcome_def)
    qed
  qed
qed

lemma finish_operation_effect:
  assumes u: "undisturbed key op env" and res0: "reserved key op c db"
    and k: "key_of record = key" "wr_checksum record = c"
    and t: "finish_operation env record op result db = (db', res)"
  shows "call_outcome key op c result db' res"
proof -
  have alone: "leaves_alone key op (ce_finish env)" "leaves_alone key op (ce_mark env)"
    using u by (simp_all add: undisturbed_def)
  let ?db = "se_others (ce_finish env) db"
  have "reserved key op c ?db" using res0 reserved_alone [OF alone(1)] by simp
  note eff = finish_effect [OF this k, of result]
  have n: "not_applied key op c ?db" using \<open>reserved key op c ?db\<close> by (simp add: reserved_def)
  show ?thesis
  proof (cases "se_delivery (ce_finish env)")
    case Answered
    have run: "run_statement (ce_finish env) (finish record op result) db =
        (fst (finish record op result ?db), Inr True)"
      using Answered eff(1) by (simp add: run_statement_def Let_def split: prod.split) (metis prod.inject)
    show ?thesis
    proof (cases "ce_after_finalize env")
      case None
      then show ?thesis
        using t run eff(2) k(2) mark_keeps [OF alone(2), of "record" result "c + 1"
            "fst (finish record op result ?db)" db' res c result]
        by (auto simp: finish_operation_def call_outcome_def)
    next
      case (Some err)
      then show ?thesis
        using t run reconcile_effect [OF u k(1) disjI2 [OF eff(2)]] by (simp add: finish_operation_def)
    qed
  next
    case (NotExecuted err)
    then show ?thesis
      using t reconcile_effect [OF u k(1) disjI1 [OF n]]
      by (simp add: finish_operation_def run_statement_def Let_def)
  next
    case (AnswerLost err)
    then show ?thesis
      using t reconcile_effect [OF u k(1) disjI2 [OF eff(2)]]
      by (simp add: finish_operation_def run_statement_def Let_def)
  qed
qed

lemma apply_first:
  assumes u: "undisturbed key op env" and n: "not_applied key op c db"
    and k: "key_of record = key" "wr_checksum record = c"
    and t: "apply_once env record op result db = (db', res)"
  shows "call_outcome key op c result db' res"
proof -
  have alone: "leaves_alone key op (ce_read env)" "leaves_alone key op (ce_find env)"
    using u by (simp_all add: undisturbed_def)
  obtain r where r: "row_at key db = Some r" "rw_last r \<noteq> Some op"
    using n by (auto simp: not_applied_def)
  let ?db1 = "se_others (ce_read env) db"
  have n1: "not_applied key op c ?db1" using n phase_alone(1) [OF alone(1)] by simp
  have r1: "row_at key ?db1 = Some r" using r(1) statement_alone(1) [OF alone(1)] by simp
  show ?thesis
  proof (rule read_record_cases [OF alone(1) k(1) r(1)])
    fix e d assume "read_record (ce_read env) record db = (d, Inl e)" "d = ?db1"
    then show ?thesis using t n1 by (auto simp: apply_once_def call_outcome_def)
  next
    fix d assume d: "read_record (ce_read env) record db = (d, Inr r)" "d = ?db1"
    let ?db2 = "se_others (ce_find env) ?db1"
    have n2: "not_applied key op c ?db2" using n1 phase_alone(1) [OF alone(2)] by simp
    have r2: "row_at key ?db2 = Some r" using r1 statement_alone(1) [OF alone(2)] by simp
    have none: "map_option mk_new_checksum (dict_get (cd_operations ?db2) (key_of record, op)) = None"
      using n2 k(1) by (simp add: not_applied_def marker_at_def)
    show ?thesis
    proof (cases "\<exists>e. find_operation (ce_find env) record op ?db1 = (?db2, Inl e)")
      case True
      then show ?thesis using t d n2 r(2) by (auto simp: apply_once_def call_outcome_def)
    next
      case False
      then have find: "find_operation (ce_find env) record op ?db1 = (?db2, Inr None)"
        using none by (cases "se_delivery (ce_find env)")
          (auto simp: find_operation_def run_statement_def Let_def)
      obtain db3 out where take: "take_reservation env record op r ?db2 = (db3, out)"
        by (cases "take_reservation env record op r ?db2")
      note eff = take_reservation_effect [OF u n2 k r2 refl take]
      show ?thesis
      proof (cases out)
        case None
        then have "finish_operation env record op result db3 = (db', res)"
          using t d find take r(2) by (simp add: apply_once_def)
        then show ?thesis using finish_operation_effect [OF u _ k] eff None by blast
      next
        case (Some x)
        then show ?thesis
          using t d find take r(2) eff by (auto simp: apply_once_def call_outcome_def)
      qed
    qed
  qed
qed

text \<open>One retry: the record is selected anew, so it carries the checksum of the moment.\<close>

definition attempt_operation ::
  "record_key \<Rightarrow> string \<Rightarrow> string \<Rightarrow> call_env \<Rightarrow> cassandra_db \<Rightarrow> cassandra_db \<times> (bool \<times> int) result" where
  "attempt_operation key op result env db =
     (case row_at key db of
        None \<Rightarrow> (db, Inl (HandlerError ''RECORD_COUNT_MISMATCH'' ''dataset returned an incomplete selection'' False))
      | Some r \<Rightarrow>
          apply_once env \<lparr>wr_dataset_id = fst key, wr_bucket = fst (snd key), wr_record_id = snd (snd key),
            wr_input_number = rw_input_number r, wr_checksum = rw_checksum r\<rparr> op result db)"

fun retries ::
  "record_key \<Rightarrow> string \<Rightarrow> string \<Rightarrow> call_env list \<Rightarrow> cassandra_db \<Rightarrow> cassandra_db \<times> (bool \<times> int) result list" where
  "retries key op result [] db = (db, [])"
| "retries key op result (env # envs) db =
     (case attempt_operation key op result env db of
        (db, res) \<Rightarrow> (case retries key op result envs db of (db, rs) \<Rightarrow> (db, res # rs)))"

lemma attempt_first:
  assumes "undisturbed key op env" and "not_applied key op c db"
    and "attempt_operation key op result env db = (db', res)"
  shows "call_outcome key op c result db' res"
proof -
  obtain r where r: "row_at key db = Some r" "rw_checksum r = c"
    using assms(2) by (auto simp: not_applied_def)
  then show ?thesis
    using assms(3) by (intro apply_first [OF assms(1,2)]) (auto simp: attempt_operation_def key_of_def)
qed

lemma attempt_again:
  assumes "undisturbed key op env" and "applied key op c x db"
    and "attempt_operation key op result env db = (db', res)"
  shows "applied key op c x db' \<and> (res = Inr (True, c + 1) \<or> (\<exists>err. res = Inl err))"
proof -
  obtain r where r: "row_at key db = Some r" using assms(2) by (auto simp: applied_def)
  let ?w = "\<lparr>wr_dataset_id = fst key, wr_bucket = fst (snd key), wr_record_id = snd (snd key),
            wr_input_number = rw_input_number r, wr_checksum = rw_checksum r\<rparr>"
  have "apply_once env ?w op result db = (db', res)" "key_of ?w = key"
    using assms(3) r by (simp_all add: attempt_operation_def key_of_def)
  then show ?thesis by (intro apply_again [OF assms(1) _ assms(2)])
qed

lemma retries_again:
  "list_all (undisturbed key op) envs \<Longrightarrow> applied key op c x db \<Longrightarrow>
   retries key op result envs db = (db', rs) \<Longrightarrow>
   applied key op c x db' \<and> (\<forall>res \<in> set rs. res = Inr (True, c + 1) \<or> (\<exists>err. res = Inl err))"
proof (induction envs arbitrary: db rs)
  case (Cons env envs)
  obtain db1 res where a: "attempt_operation key op result env db = (db1, res)"
    by (cases "attempt_operation key op result env db")
  obtain db2 rs' where b: "retries key op result envs db1 = (db2, rs')"
    by (cases "retries key op result envs db1")
  show ?case
    using Cons.prems a b Cons.IH [of db1 rs'] attempt_again [OF _ Cons.prems(2) a] by auto
qed simp

lemma retries_outcome:
  "list_all (undisturbed key op) envs \<Longrightarrow> not_applied key op c db \<Longrightarrow>
   retries key op result envs db = (db', rs) \<Longrightarrow>
   (not_applied key op c db' \<and> (\<forall>res \<in> set rs. \<exists>err. res = Inl err) \<or> applied key op c result db') \<and>
   (\<forall>res \<in> set rs. res = Inr (True, c + 1) \<or> (\<exists>err. res = Inl err))"
proof (induction envs arbitrary: db rs)
  case (Cons env envs)
  obtain db1 res where a: "attempt_operation key op result env db = (db1, res)"
    by (cases "attempt_operation key op result env db")
  obtain db2 rs' where b: "retries key op result envs db1 = (db2, rs')"
    by (cases "retries key op result envs db1")
  have u: "undisturbed key op env" "list_all (undisturbed key op) envs" using Cons.prems(1) by simp_all
  have eq: "db' = db2" "rs = res # rs'" using Cons.prems(3) a b by simp_all
  show ?case
  proof (cases "applied key op c result db1")
    case True
    then show ?thesis
      using retries_again [OF u(2) True b] attempt_first [OF u(1) Cons.prems(2) a] eq
      by (auto simp: call_outcome_def)
  next
    case False
    then have "not_applied key op c db1" "\<exists>err. res = Inl err"
      using attempt_first [OF u(1) Cons.prems(2) a] by (auto simp: call_outcome_def)
    then show ?thesis using Cons.IH [of db1 rs'] u(2) b eq by auto
  qed
qed simp

text \<open>A call whose statements are all answered.\<close>

definition answered :: "call_env \<Rightarrow> bool" where
  "answered env \<longleftrightarrow>
     list_all (\<lambda>sv. se_delivery sv = Answered)
       [ce_read env, ce_find env, ce_reserve env, ce_finish env, ce_reread env, ce_mark env] \<and>
     ce_before_reserve env = None \<and> ce_after_finalize env = None"

lemma apply_once_answers:
  assumes "answered env" and "undisturbed (key_of record) op env" and "row_at (key_of record) db = Some r"
  shows "\<exists>b. snd (apply_once env record op result db) = Inr b"
proof -
  have "leaves_alone (key_of record) op (ce_read env)" using assms(2) by (simp add: undisturbed_def)
  then have "row_at (key_of record) (se_others (ce_read env) db) = Some r"
    using statement_alone(1) assms(3) by metis
  then have "read_record (ce_read env) record db = (se_others (ce_read env) db, Inr r)"
    using assms(1) by (simp add: answered_def read_record_def run_statement_def read_row_def row_at_def Let_def)
  then show ?thesis
    using assms(1)
    by (auto simp: apply_once_def answered_def find_operation_def take_reservation_def
        finish_operation_def mark_operation_def run_statement_def Let_def split: prod.split)
qed

section \<open>Properties\<close>


definition quiet_server :: "delivery \<Rightarrow> server" where
  "quiet_server d = \<lparr>se_others = (\<lambda>db. db), se_delivery = d\<rparr>"

definition quiet_call :: "delivery \<Rightarrow> call_env" where
  "quiet_call d =
     \<lparr>ce_read = quiet_server Answered, ce_find = quiet_server Answered, ce_reserve = quiet_server Answered,
      ce_finish = quiet_server d, ce_reread = quiet_server d, ce_mark = quiet_server Answered,
      ce_before_reserve = None, ce_after_finalize = None\<rparr>"

definition example_cassandra :: cassandra_db where
  "example_cassandra =
     \<lparr>cd_rows = [((''d'', 0, 7), \<lparr>rw_input_number = 5, rw_fibonacci_result = None, rw_checksum = 0,
        rw_pending = None, rw_last = None\<rparr>)], cd_operations = [], cd_datasets = [(''d'', 8, 1)]\<rparr>"


text \<open>A reservation of another operation refuses every call and survives it.\<close>

definition taken_by_another :: "record_key \<Rightarrow> string \<Rightarrow> record_row \<Rightarrow> cassandra_db \<Rightarrow> bool" where
  "taken_by_another key op r db \<longleftrightarrow>
     row_at key db = Some r \<and> rw_pending r \<noteq> None \<and> rw_pending r \<noteq> Some op \<and> rw_last r \<noteq> Some op \<and>
     marker_at key op db \<noteq> Some (rw_checksum r)"

lemma taken_alone:
  "leaves_alone key op sv \<Longrightarrow> taken_by_another key op r (se_others sv db) \<longleftrightarrow> taken_by_another key op r db"
  by (simp add: taken_by_another_def statement_alone)

lemma blocked_call:
  assumes u: "undisturbed key op env" and k: "key_of record = key"
    and taken: "taken_by_another key op r db"
    and t: "apply_once env record op result db = (db', res)"
  shows "taken_by_another key op r db' \<and> (\<forall>c. res \<noteq> Inr (True, c))"
proof -
  have alone: "leaves_alone key op (ce_read env)" "leaves_alone key op (ce_find env)"
      "leaves_alone key op (ce_reserve env)"
    using u by (simp_all add: undisturbed_def)
  let ?db1 = "se_others (ce_read env) db" let ?db2 = "se_others (ce_find env) ?db1"
  let ?db3 = "se_others (ce_reserve env) ?db2"
  have at: "taken_by_another key op r ?db1" "taken_by_another key op r ?db2" "taken_by_another key op r ?db3"
    using taken by (simp_all add: taken_alone [OF alone(1)] taken_alone [OF alone(2)] taken_alone [OF alone(3)])
  have row: "row_at key db = Some r" "rw_pending r \<noteq> Some op" "rw_last r \<noteq> Some op"
    using taken by (simp_all add: taken_by_another_def)
  show ?thesis
  proof (rule read_record_cases [OF alone(1) k row(1)])
    fix e d assume "read_record (ce_read env) record db = (d, Inl e)" "d = ?db1"
    then show ?thesis using t at(1) by (auto simp: apply_once_def)
  next
    fix d assume d: "read_record (ce_read env) record db = (d, Inr r)" "d = ?db1"
    show ?thesis
    proof (cases "\<exists>e. find_operation (ce_find env) record op ?db1 = (?db2, Inl e)")
      case True
      then show ?thesis using t d row at(2) by (auto simp: apply_once_def)
    next
      case False
      then have find: "find_operation (ce_find env) record op ?db1 = (?db2, Inr (marker_at key op ?db2))"
        using k by (cases "se_delivery (ce_find env)")
          (auto simp: find_operation_def run_statement_def marker_at_def Let_def)
      have refuse: "reserve record op ?db3 = (?db3, False)"
        using at(3) k by (auto simp: taken_by_another_def reserve_def update_if_def row_at_def)
      obtain d3 res' where take: "take_reservation env record op r ?db2 = (d3, Some res')"
        "d3 = ?db2 \<or> d3 = ?db3" "\<forall>c. res' \<noteq> Inr (True, c)"
        using row(2) refuse
        by (cases "ce_before_reserve env"; cases "se_delivery (ce_reserve env)")
          (auto simp: take_reservation_def run_statement_def Let_def)
      have "marker_at key op ?db2 \<noteq> Some (rw_checksum r)" using at(2) by (simp add: taken_by_another_def)
      then have "apply_once env record op result db = (d3, res')"
        using d row find take(1) by (simp add: apply_once_def)
      then show ?thesis using t take at by auto
    qed
  qed
qed

text \<open>
  C31. A reservation whose owner never comes back refuses every other operation on the record: however
  often another operation is tried, no call succeeds and the row stays as it is.
\<close>

theorem abandoned_reservation_blocks:
  assumes "list_all (undisturbed key op) envs" and "taken_by_another key op r db"
    and "retries key op result envs db = (db', rs)"
  shows "row_at key db' = Some r \<and> (\<forall>res \<in> set rs. \<forall>c. res \<noteq> Inr (True, c))"
proof -
  have "list_all (undisturbed key op) envs \<Longrightarrow> taken_by_another key op r db \<Longrightarrow>
      retries key op result envs db = (db', rs) \<Longrightarrow>
      taken_by_another key op r db' \<and> list_all (\<lambda>res. \<forall>c. res \<noteq> Inr (True, c)) rs" for envs db rs
  proof (induction envs arbitrary: db rs)
    case (Cons env envs)
    obtain db1 res where a: "attempt_operation key op result env db = (db1, res)"
      by (cases "attempt_operation key op result env db")
    obtain db2 rs' where b: "retries key op result envs db1 = (db2, rs')"
      by (cases "retries key op result envs db1")
    let ?w = "\<lparr>wr_dataset_id = fst key, wr_bucket = fst (snd key), wr_record_id = snd (snd key),
            wr_input_number = rw_input_number r, wr_checksum = rw_checksum r\<rparr>"
    have w: "apply_once env ?w op result db = (db1, res)" "key_of ?w = key"
      using a Cons.prems(2) by (simp_all add: attempt_operation_def key_of_def taken_by_another_def)
    have "undisturbed key op env" using Cons.prems(1) by simp
    note one = blocked_call [OF this w(2) Cons.prems(2) w(1)]
    have eq: "db' = db2" "rs = res # rs'" using Cons.prems(3) a b by auto
    have "list_all (undisturbed key op) envs" using Cons.prems(1) by simp
    then show ?case using one Cons.IH [of db1 rs'] b eq by simp
  qed simp
  from this [OF assms] show ?thesis by (simp add: taken_by_another_def list_all_iff)
qed

theorem abandoned_reservation_blocks_witness:
  "row_at (''d'', 0, 7) (fst (retries (''d'', 0, 7) ''B'' ''5'' [quiet_call Answered, quiet_call Answered]
      (fst (attempt_operation (''d'', 0, 7) ''A'' ''5''
         (quiet_call (NotExecuted (TimeoutError ''write''))) example_cassandra)))) =
    Some \<lparr>rw_input_number = 5, rw_fibonacci_result = None, rw_checksum = 0, rw_pending = Some ''A'',
      rw_last = None\<rparr>"
proof -
  let ?row = "\<lparr>rw_input_number = 5, rw_fibonacci_result = None, rw_checksum = 0, rw_pending = Some ''A'',
      rw_last = None\<rparr>"
  let ?db = "fst (attempt_operation (''d'', 0, 7) ''A'' ''5''
         (quiet_call (NotExecuted (TimeoutError ''write''))) example_cassandra)"
  have u: "list_all (undisturbed (''d'', 0, 7) ''B'') [quiet_call Answered, quiet_call Answered]"
    by (simp add: undisturbed_def leaves_alone_def quiet_call_def quiet_server_def)
  have taken: "taken_by_another (''d'', 0, 7) ''B'' ?row ?db"
    by (simp add: taken_by_another_def attempt_operation_def apply_once_def read_record_def
        run_statement_def read_row_def quiet_call_def quiet_server_def row_at_def example_cassandra_def
        key_of_def find_operation_def take_reservation_def finish_operation_def reconcile_finish_def
        marker_at_def reserve_def update_if_def Let_def)
  show ?thesis using abandoned_reservation_blocks [OF u taken surjective_pairing] by simp
qed

text \<open>
  An operation that has taken effect and is retried after another one took effect increments the
  checksum again, although its marker is still there.
\<close>

lemma completed_operation_applies_again:
  "\<exists>db1 db2 db3.
     attempt_operation (''d'', 0, 7) ''A'' ''5'' (quiet_call Answered) example_cassandra = (db1, Inr (True, 1)) \<and>
     attempt_operation (''d'', 0, 7) ''B'' ''5'' (quiet_call Answered) db1 = (db2, Inr (True, 2)) \<and>
     marker_at (''d'', 0, 7) ''A'' db2 = Some 1 \<and>
     attempt_operation (''d'', 0, 7) ''A'' ''5'' (quiet_call Answered) db2 = (db3, Inr (True, 3))"
  by (simp add: attempt_operation_def apply_once_def read_record_def run_statement_def read_row_def
      quiet_call_def quiet_server_def row_at_def example_cassandra_def key_of_def find_operation_def
      take_reservation_def finish_operation_def mark_operation_def marker_at_def
      write_marker_def reserve_def finish_def update_if_def Let_def)

end
