(* ===== verification/Visibility_Reader.thy ===== *)
theory Visibility_Reader
  imports Projection_Properties Scheduler_Service
begin

text \<open>
  The durable reads of \<open>src/job_visibility/edr_store/repository.py\<close> over the projected tables, and the
  direct ingress of \<open>edr_store/ingress.py\<close>. The reads agree with those of an in-memory engine that is
  fed the journal, at the instant of the newest evidence and at no later one.
\<close>

section \<open>Reads\<close>

text \<open>
  \<open>faults\<close> is what the injector does at \<open>visibility.before_query\<close> for the context of the call. A
  projection column is never null, so an absent value is an absent row.
\<close>

definition reader_get :: "faults \<Rightarrow> edr_db \<Rightarrow> string \<Rightarrow> json result" where
  "reader_get faults db job_id =
     inject faults ''visibility.before_query''
       (case dict_get (pd_visibility db) job_id of
          None \<Rightarrow> Inl (JobNotFoundError job_id)
        | Some row \<Rightarrow> Inr (vr_projection row))"

text \<open>\<open>WHERE job_id=:id ORDER BY attempt_number\<close>\<close>

definition attempt_rows :: "edr_db \<Rightarrow> string \<Rightarrow> ((string \<times> int) \<times> json) list" where
  "attempt_rows db job_id =
     sort_key (\<lambda>((i, n), v). n) (filter (\<lambda>((i, n), v). i = job_id) (pd_attempts db))"

definition reader_attempts :: "faults \<Rightarrow> edr_db \<Rightarrow> string \<Rightarrow> json list result" where
  "reader_attempts faults db job_id =
     inject faults ''visibility.before_query''
       (case dict_get (pd_visibility db) job_id of
          None \<Rightarrow> Inl (JobNotFoundError job_id)
        | Some row \<Rightarrow> Inr (map snd (attempt_rows db job_id)))"

text \<open>A clause is added for a value that is neither \<open>None\<close> nor empty.\<close>

definition row_matches :: "string option \<Rightarrow> string option \<Rightarrow> visibility_row \<Rightarrow> bool" where
  "row_matches status correlation_id row \<longleftrightarrow>
     (truthy_str status \<longrightarrow> vr_recorded_status row = the status) \<and>
     (truthy_str correlation_id \<longrightarrow> vr_correlation_id row = the correlation_id)"

definition reader_search ::
  "faults \<Rightarrow> edr_db \<Rightarrow> string option \<Rightarrow> string option \<Rightarrow> json list result" where
  "reader_search faults db status correlation_id =
     inject faults ''visibility.before_query''
       (Inr (map (\<lambda>(i, row). vr_projection row)
          (sort_key fst
            (filter (\<lambda>(i, row). row_matches status correlation_id row) (pd_visibility db)))))"

definition reader_findings ::
  "faults \<Rightarrow> edr_db \<Rightarrow> ((string \<times> string \<times> time) \<times> finding_row) list result" where
  "reader_findings faults db =
     inject faults ''visibility.before_query''
       (Inr (sort_key (\<lambda>((job_id, code, first_observed_at), row). first_observed_at)
          (pd_findings db)))"

text \<open>\<open>KafkaEdrIngress.publish\<close>: \<open>producer topic key value\<close> is the broker's answer.\<close>

definition ingress_publish ::
  "(string \<Rightarrow> string \<Rightarrow> string \<Rightarrow> coordinate result) \<Rightarrow> (string \<Rightarrow> string) \<Rightarrow> string \<Rightarrow> event \<Rightarrow> unit result" where
  "ingress_publish producer sha256 topic e =
     bind_result (producer topic (ev_job_id e) (fst (canonical_edr sha256 e))) (\<lambda>coordinate. Inr ())"

section \<open>What every projected row is\<close>

abbreviation no_faults :: faults where
  "no_faults \<equiv> \<lambda>checkpoint. None"

text \<open>
  Each row, caught up or not, is the row of some replay of events of a job of the journal.
\<close>

definition honest :: "edr_db \<Rightarrow> bool" where
  "honest db \<longleftrightarrow>
     wf_dict (pd_attempts db) \<and> wf_dict (pd_visibility db) \<and>
     (\<forall>i row. dict_get (pd_visibility db) i = Some row \<longrightarrow>
        job_rows db i \<noteq> [] \<and> (\<exists>es. es \<noteq> [] \<and> row = served_row (replay (new_job i) es)))"

lemma honest_projected [simp]: "honest (db\<lparr>pd_projected := p\<rparr>) = honest db"
  by (simp add: honest_def job_rows_def)

lemma insert_attempt_rows_wf:
  "wf_dict rows \<Longrightarrow> insert_attempt_rows i as rows = Inr rows' \<Longrightarrow> wf_dict rows'"
proof (induction as arbitrary: rows)
  case (Cons a as)
  show ?case
    by (rule Cons.IH [of "dict_put (i, at_attempt_number a) (attempt_to_dict a) rows"])
      (use Cons.prems in \<open>auto simp: wf_dict_put split: if_splits\<close>)
qed simp

lemma insert_decisions_frame:
  "insert_decisions db i ds = Inr db' \<Longrightarrow>
   pd_visibility db' = pd_visibility db \<and> pd_attempts db' = pd_attempts db"
proof (induction ds arbitrary: db)
  case (Cons d ds)
  then show ?case by (fastforce split: if_splits)
qed simp

text \<open>Projecting a job of the journal keeps the rows honest.\<close>

lemma project_job_wf:
  assumes "project_job co i db = Inr db'" and "wf_dict (pd_attempts db)" and "wf_dict (pd_visibility db)"
  shows "wf_dict (pd_attempts db') \<and> wf_dict (pd_visibility db')"
proof -
  obtain job row attempts db2 where view: "job_view co db i = Inr (job, row)"
    and attempts: "insert_attempt_rows i (dict_values (jv_attempts job))
      (filter (\<lambda>((k, n), v). k \<noteq> i) (pd_attempts db)) = Inr attempts"
    and db2: "insert_decisions (db\<lparr>pd_visibility := dict_put i row (pd_visibility db),
      pd_attempts := attempts\<rparr>) i (jv_decisions job) = Inr db2"
    and db': "db' = fold (upsert_finding i) (dict_values (jv_findings job)) db2"
    using assms(1) by (auto simp: project_job_def bind_result_Inr_iff Let_def)
  have "wf_dict (filter (\<lambda>((k, n), v). k \<noteq> i) (pd_attempts db))"
    using assms(2) unfolding wf_dict_def by (rule distinct_map_filter)
  then have "wf_dict attempts" by (rule insert_attempt_rows_wf [OF _ attempts])
  then show ?thesis using insert_decisions_frame [OF db2] db' assms(3) by (simp add: wf_dict_put)
qed

lemma project_job_honest:
  assumes j: "journal_ok co db" and h: "honest db" and r: "r \<in> set (job_rows db i)"
    and p: "project_job co i db = Inr db'"
  shows "honest db' \<and> pd_events db' = pd_events db"
proof -
  have rows: "job_rows db i \<noteq> []" using r by auto
  obtain db'' where db'': "project_job co i db = Inr db''" "pd_events db'' = pd_events db"
    "serves co db'' i"
    "\<And>k. k \<noteq> i \<Longrightarrow> dict_get (pd_visibility db'') k = dict_get (pd_visibility db) k"
    by (rule project_job_ok [OF j rows]) blast
  then have db': "pd_events db' = pd_events db" "serves co db' i"
    "\<And>k. k \<noteq> i \<Longrightarrow> dict_get (pd_visibility db') k = dict_get (pd_visibility db) k"
    using p by simp_all
  have same: "job_rows db' k = job_rows db k" for k by (rule job_rows_cong) (rule db'(1))
  have "job_rows db' k \<noteq> [] \<and> (\<exists>es. es \<noteq> [] \<and> row = served_row (replay (new_job k) es))"
    if row: "dict_get (pd_visibility db') k = Some row" for k row
  proof (cases "k = i")
    case True
    have "row = served_row (replay (new_job k) (job_events co db' k))"
      using row db'(2) True by (simp add: serves_def replayed_def)
    moreover have "job_rows db' k \<noteq> []" using rows same True by simp
    moreover from this have "job_events co db' k \<noteq> []" by (simp add: job_events_def)
    ultimately show ?thesis by blast
  next
    case False
    then have "dict_get (pd_visibility db) k = Some row" using row db'(3) by simp
    then show ?thesis using h same unfolding honest_def by simp
  qed
  then show ?thesis using project_job_wf [OF p] h db'(1) by (simp add: honest_def)
qed

lemma project_pending_honest:
  "journal_ok co db \<Longrightarrow> honest db \<Longrightarrow>
   (\<And>r. r \<in> set rs \<Longrightarrow> dict_get (pd_events db) (er_event_id r) = Some r) \<Longrightarrow>
   project_pending co faults rs db = Inr db' \<Longrightarrow> honest db'"
proof (induction rs arbitrary: db)
  case (Cons r rs)
  obtain db1 where db1: "project_job co (er_job_id r) db = Inr db1"
    using Cons.prems(4) by (auto simp: bind_result_Inr_iff split: option.splits)
  have "r \<in> set (job_rows db (er_job_id r))"
    using job_rows_set(1) [OF Cons.prems(1)] Cons.prems(3) [of r] by simp
  then have one: "honest db1" "pd_events db1 = pd_events db"
    using project_job_honest [OF Cons.prems(1,2) _ db1] by simp_all
  obtain p where rest: "project_pending co faults rs (db1\<lparr>pd_projected := p\<rparr>) = Inr db'"
    using Cons.prems(4) db1 by (auto simp: Let_def split: option.splits)
  show ?case
  proof (rule Cons.IH [OF _ _ _ rest])
    show "journal_ok co (db1\<lparr>pd_projected := p\<rparr>)"
      using Cons.prems(1) journal_ok_cong [of "db1\<lparr>pd_projected := p\<rparr>" db co] one(2) by simp
    show "honest (db1\<lparr>pd_projected := p\<rparr>)" using one(1) by simp
    show "dict_get (pd_events (db1\<lparr>pd_projected := p\<rparr>)) (er_event_id q) = Some q" if "q \<in> set rs" for q
      using Cons.prems(3) [of q] that one(2) by simp
  qed
qed simp

lemma project_jobs_honest:
  "journal_ok co db \<Longrightarrow> honest db \<Longrightarrow> (\<And>i. i \<in> set ids \<Longrightarrow> job_rows db i \<noteq> []) \<Longrightarrow>
   project_jobs co ids db = Inr db' \<Longrightarrow> honest db'"
proof (induction ids arbitrary: db)
  case (Cons i ids)
  obtain db1 where db1: "project_job co i db = Inr db1" "project_jobs co ids db1 = Inr db'"
    using Cons.prems(4) by (auto simp: bind_result_Inr_iff)
  have "job_rows db i \<noteq> []" using Cons.prems(3) by simp
  then obtain r where "r \<in> set (job_rows db i)" using list.set_sel(1) by blast
  then have one: "honest db1" "pd_events db1 = pd_events db"
    using project_job_honest [OF Cons.prems(1,2) _ db1(1)] by simp_all
  show ?case
  proof (rule Cons.IH [OF _ one(1) _ db1(2)])
    show "journal_ok co db1" using Cons.prems(1) journal_ok_cong [OF one(2)] by blast
    show "job_rows db1 k \<noteq> []" if "k \<in> set ids" for k
      using Cons.prems(3) [of k] that job_rows_cong [OF one(2)] by simp
  qed
qed simp

lemma sink_honest: "honest db \<Longrightarrow> sink_upsert r db = Inr db' \<Longrightarrow> honest db'"
proof (cases "dict_get (pd_events db) (er_event_id r)")
  case None
  assume h: "honest db" and "sink_upsert r db = Inr db'"
  then have db': "db' = db\<lparr>pd_events := dict_put (er_event_id r) r (pd_events db)\<rparr>"
    using None by (simp add: sink_upsert_def)
  have "er_event_id r \<notin> set (dict_keys (pd_events db))"
    using None pd.get_keys [of "pd_events db" "er_event_id r"] by blast
  then have "pd_events db' = pd_events db @ [(er_event_id r, r)]"
    using db' by (simp add: dict_put_new del: set_map)
  then have "job_rows db' i \<noteq> []" if "job_rows db i \<noteq> []" for i
    using that unfolding job_rows_nonempty by auto
  then show ?thesis using h by (auto simp: honest_def db')
qed (auto simp: sink_upsert_def split: if_splits)

lemma store_step_honest:
  assumes inv: "store_inv co db" and h: "honest db"
  shows "honest (store_step co db op)"
proof -
  have j: "journal_ok co db" using inv by (simp add: store_inv_def)
  show ?thesis
  proof (cases op)
    case (OpProject faults before_commit locked batch_size)
    then show ?thesis
      using h project_pending_honest [OF j h pending_rows [OF j]]
      by (auto simp: projection_run_once_def Let_def split: sum.split option.split)
  next
    case OpRebuild
    then show ?thesis
      using h project_jobs_honest [OF j h, of "sort (remdups (map er_job_id (dict_values (pd_events db))))"]
        rebuild_ids [of db] by (auto simp: rebuild_def Let_def simp del: set_map set_sort set_remdups split: sum.split)
  qed (use h sink_honest in \<open>auto simp: sink_delete_def split: sum.split option.split\<close>)
qed

interpretation honest_runs: invariant_machine "store_step co" "readable co"
    "\<lambda>db. store_inv co db \<and> honest db" for co
  by unfold_locales (simp add: store_step_inv store_step_honest)

lemma run_store_honest: "list_all (readable co) ops \<Longrightarrow> honest (run_store co ops)"
proof -
  have "honest empty_edr_db" by (simp add: honest_def empty_edr_db_def)
  then show "list_all (readable co) ops \<Longrightarrow> honest (run_store co ops)"
    using honest_runs.run_inv [of co empty_edr_db ops] store_inv_empty unfolding run_store_def by blast
qed

section \<open>The attempts of a job\<close>

lemma attempt_rows_numbers:
  assumes wf: "wf_dict (pd_attempts db)" and ns: "distinct ns"
    "\<And>n. n \<in> set ns \<longleftrightarrow> dict_get (pd_attempts db) (i, n) \<noteq> None"
  shows "map snd (attempt_rows db i) = map (\<lambda>n. the (dict_get (pd_attempts db) (i, n))) (sort ns)"
proof -
  let ?number = "\<lambda>((i, n), v). n :: int"
  have sel: "((k, n), v) \<in> set (attempt_rows db i) \<longleftrightarrow> k = i \<and> dict_get (pd_attempts db) (k, n) = Some v"
    for k n v
    using wf by (auto simp: attempt_rows_def wf_dict_def map_of_eq_Some_iff)
  then have key: "fst x = (i, ?number x) \<and> snd x = the (dict_get (pd_attempts db) (i, ?number x))"
    if "x \<in> set (attempt_rows db i)" for x
    using that by (cases x) (auto split: prod.splits)
  have "distinct (map fst (attempt_rows db i))"
    unfolding attempt_rows_def
    by (intro distinct_map_sort distinct_map_filter) (use wf in \<open>simp add: wf_dict_def\<close>)
  then have "distinct (map ?number (attempt_rows db i))"
    unfolding distinct_map inj_on_def using key by metis
  moreover have "sorted (map ?number (attempt_rows db i))"
    by (simp add: attempt_rows_def)
  moreover have "set (map ?number (attempt_rows db i)) = set (sort ns)"
  proof -
    have "n \<in> set (map ?number (attempt_rows db i)) \<longleftrightarrow> dict_get (pd_attempts db) (i, n) \<noteq> None" for n
    proof
      assume "n \<in> set (map ?number (attempt_rows db i))"
      then obtain k v where "((k, n), v) \<in> set (attempt_rows db i)" by auto
      then show "dict_get (pd_attempts db) (i, n) \<noteq> None" using sel [of k n v] by auto
    next
      assume "dict_get (pd_attempts db) (i, n) \<noteq> None"
      then obtain v where "((i, n), v) \<in> set (attempt_rows db i)" using sel [of i n] by auto
      then show "n \<in> set (map ?number (attempt_rows db i))" by force
    qed
    then show ?thesis using ns(2) by (simp add: set_eq_iff)
  qed
  ultimately have "map ?number (attempt_rows db i) = sort ns"
    using sorted_distinct_set_unique ns(1) by (metis distinct_sort sorted_sort)
  moreover have "map snd (attempt_rows db i) =
      map (\<lambda>n. the (dict_get (pd_attempts db) (i, n))) (map ?number (attempt_rows db i))"
    using key by simp
  ultimately show ?thesis by simp
qed

lemma replay_of_journal:
  assumes j: "journal_ok co db" and rows: "job_rows db i \<noteq> []"
  obtains en as_of where "replay_rows co (job_rows db i) (new_engine None) = Inr en"
    "en_config en = default_config" "dict_get (en_jobs en) i = Some (replayed co db i)"
    "jv_data_as_of (replayed co db i) = Some as_of"
proof -
  have "decodes co r \<and> er_job_id r = i \<and> er_event_id r \<notin> en_event_ids (new_engine None)"
    if "r \<in> set (job_rows db i)" for r
    using job_rows_decode [OF j that] job_rows_set(1) [OF j] that by (auto simp: new_engine_def)
  moreover have "jv_job_id (current_job (new_engine None) i) = i"
    by (simp add: current_job_def new_engine_def new_job_def)
  ultimately obtain en where en: "replay_rows co (job_rows db i) (new_engine None) = Inr en"
    "en_config en = default_config" "current_job en i = replayed co db i" "dict_get (en_jobs en) i \<noteq> None"
    using replay_rows_replays [of "job_rows db i" co i "new_engine None"] rows job_rows_set(2) [OF j]
    by (auto simp: new_engine_def current_job_def replayed_def job_events_def)
  obtain as_of where "jv_data_as_of (replayed co db i) = Some as_of"
    using replay_data_as_of [of "job_events co db i" "new_job i"] rows
    by (auto simp: replayed_def job_events_def)
  moreover have "dict_get (en_jobs en) i = Some (replayed co db i)"
    using en(3,4) by (auto simp: current_job_def)
  ultimately show thesis using that en(1,2) by blast
qed

text \<open>What a caught-up job is answered.\<close>

lemma caught_up_reads:
  assumes ops: "list_all (readable co) ops" and u: "caught_up (run_store co ops) i"
  defines "job \<equiv> replayed co (run_store co ops) i"
  obtains as_of where "jv_data_as_of job = Some as_of"
    "reader_get no_faults (run_store co ops) i = Inr (response default_config job as_of)"
    "reader_attempts no_faults (run_store co ops) i =
       Inr (map (\<lambda>n. attempt_to_dict (the (dict_get (jv_attempts job) n))) (sort (dict_keys (jv_attempts job))))"
proof -
  let ?db = "run_store co ops"
  have h: "honest ?db" and inv: "store_inv co ?db"
    by (rule run_store_honest [OF ops], rule run_store_inv [OF ops])
  have j: "journal_ok co ?db" using inv by (simp add: store_inv_def)
  have rows: "job_rows ?db i \<noteq> []" using u by (simp add: caught_up_def)
  obtain as_of where as_of: "jv_data_as_of job = Some as_of"
    using replay_of_journal [OF j rows] unfolding job_def by blast
  have s: "serves co ?db i" using inv u by (simp add: store_inv_def)
  have keys: "n \<in> set (dict_keys (jv_attempts job)) \<longleftrightarrow> dict_get (pd_attempts ?db) (i, n) \<noteq> None" for n
    using s pd.get_keys [of "jv_attempts job" n] by (auto simp: serves_def job_def)
  have "distinct (dict_keys (jv_attempts job))"
    using wf_replayed [OF j] by (simp add: wf_job_def wf_dict_def job_def)
  then have "map snd (attempt_rows ?db i) =
      map (\<lambda>n. the (dict_get (pd_attempts ?db) (i, n))) (sort (dict_keys (jv_attempts job)))"
    using h by (intro attempt_rows_numbers keys) (simp_all add: honest_def)
  also have "\<dots> = map (\<lambda>n. attempt_to_dict (the (dict_get (jv_attempts job) n)))
      (sort (dict_keys (jv_attempts job)))"
  proof (rule map_cong [OF refl])
    fix n assume "n \<in> set (sort (dict_keys (jv_attempts job)))"
    then obtain a where "dict_get (jv_attempts job) n = Some a"
      using pd.keys_get [of n "jv_attempts job"] unfolding set_sort by blast
    then show "the (dict_get (pd_attempts ?db) (i, n)) = attempt_to_dict (the (dict_get (jv_attempts job) n))"
      using s by (simp add: serves_def job_def)
  qed
  finally have "reader_attempts no_faults ?db i =
      Inr (map (\<lambda>n. attempt_to_dict (the (dict_get (jv_attempts job) n))) (sort (dict_keys (jv_attempts job))))"
    using s by (simp add: reader_attempts_def inject_def serves_def)
  moreover have "reader_get no_faults ?db i = Inr (response default_config job as_of)"
    using s as_of by (simp add: reader_get_def inject_def serves_def served_row_def job_def)
  ultimately show thesis using that as_of by blast
qed

section \<open>Properties\<close>

text \<open>
  C32. The durable reads agree with the in-memory ones: in any reachable store a job whose EDRs are all
  projected is answered exactly as an engine answers that was fed the job's journal, its attempts in
  ascending order, as of the newest evidence; a job without EDRs is not found.
\<close>

theorem durable_reads_agree_with_the_engine:
  assumes "list_all (readable co) ops"
  shows "let db = run_store co ops in \<forall>i.
    (job_rows db i = [] \<longrightarrow>
       reader_get no_faults db i = Inl (JobNotFoundError i) \<and>
       reader_attempts no_faults db i = Inl (JobNotFoundError i)) \<and>
    (caught_up db i \<longrightarrow>
       (\<exists>en job as_of. replay_rows co (job_rows db i) (new_engine None) = Inr en \<and>
          snapshot en i = Inr job \<and> jv_data_as_of job = Some as_of \<and>
          reader_get no_faults db i = get_response en i as_of \<and>
          reader_attempts no_faults db i = get_attempts en i))"
proof -
  let ?db = "run_store co ops"
  have h: "honest ?db" and inv: "store_inv co ?db"
    by (rule run_store_honest [OF assms], rule run_store_inv [OF assms])
  have j: "journal_ok co ?db" using inv by (simp add: store_inv_def)
  have none: "dict_get (pd_visibility ?db) i = None" if "job_rows ?db i = []" for i
    using h that unfolding honest_def by (meson option.exhaust)
  have up: "\<exists>en job as_of. replay_rows co (job_rows ?db i) (new_engine None) = Inr en \<and>
      snapshot en i = Inr job \<and> jv_data_as_of job = Some as_of \<and>
      reader_get no_faults ?db i = get_response en i as_of \<and>
      reader_attempts no_faults ?db i = get_attempts en i" if u: "caught_up ?db i" for i
  proof -
    let ?job = "replayed co ?db i"
    have rows: "job_rows ?db i \<noteq> []" using u by (simp add: caught_up_def)
    obtain en as_of where en: "replay_rows co (job_rows ?db i) (new_engine None) = Inr en"
      "en_config en = default_config" "dict_get (en_jobs en) i = Some ?job"
      "jv_data_as_of ?job = Some as_of"
      by (rule replay_of_journal [OF j rows])
    note reads = caught_up_reads [OF assms u]
    have "reader_attempts no_faults ?db i = get_attempts en i"
      using en(3) by (rule_tac reads) (simp add: get_attempts_def)
    moreover have "reader_get no_faults ?db i = get_response en i as_of"
      using en by (rule_tac reads) (simp add: get_response_def)
    ultimately show ?thesis using en by (auto simp: snapshot_def)
  qed
  show ?thesis unfolding Let_def using none up by (simp add: reader_get_def reader_attempts_def inject_def)
qed

theorem durable_reads_agree_with_the_engine_witness:
  "let db = run_store example_codec example_round_ops in
   reader_get no_faults db ''job-2'' = Inl (JobNotFoundError ''job-2'') \<and>
   (\<exists>en as_of. replay_rows example_codec (job_rows db ''job-1'') (new_engine None) = Inr en \<and>
      reader_get no_faults db ''job-1'' = get_response en ''job-1'' as_of)"
proof -
  let ?db = "run_store example_codec example_round_ops"
  have "list_all (readable example_codec) example_round_ops" by (simp add: readable_def example_decodes)
  note reads = durable_reads_agree_with_the_engine [OF this, unfolded Let_def]
  have "caught_up ?db ''job-1''" by (rule example_caught_up)
  moreover have "job_rows ?db ''job-2'' = []"
    by (simp only: job_rows_def example_round_journal) (simp add: example_edr_row_def)
  ultimately show ?thesis using reads unfolding Let_def by blast
qed

text \<open>
  A stored projection was rendered at the instant of its own evidence, so it always calls itself
  fresh, and no row is recorded as overdue.
\<close>

lemma served_row_fresh:
  "es \<noteq> [] \<Longrightarrow> \<exists>freshness. jfield (vr_projection (served_row (replay job es))) ''freshness'' = Some freshness \<and>
     jfield freshness ''possiblyStale'' = Some (JBool False)"
  using replay_data_as_of [of es job]
  by (auto simp: served_row_def response_def Let_def default_config_def)

lemma served_row_not_overdue: "vr_recorded_status (served_row (replay (new_job i) es)) \<noteq> ''OVERDUE''"
proof -
  have "coherent (replay (new_job i) es)" by (rule coherent_replay) simp
  then have "jv_recorded_status (replay (new_job i) es) \<noteq> OVERDUE" by (auto simp: coherent_def)
  then show ?thesis by (cases "jv_recorded_status (replay (new_job i) es)") (simp_all add: served_row_def)
qed

text \<open>
  C33. Lateness never reaches the durable reads: in any reachable store a search for overdue jobs finds
  nothing, although the projection of a job may itself say OVERDUE, and every projection says that it
  is fresh, however old its evidence is.
\<close>

theorem durable_reads_hide_lateness:
  assumes "list_all (readable co) ops"
  shows "let db = run_store co ops in
    reader_search no_faults db (Some ''OVERDUE'') correlation_id = Inr [] \<and>
    (\<forall>i v. reader_get no_faults db i = Inr v \<longrightarrow>
       (\<exists>freshness. jfield v ''freshness'' = Some freshness \<and>
          jfield freshness ''possiblyStale'' = Some (JBool False)))"
proof -
  let ?db = "run_store co ops"
  have h: "honest ?db" by (rule run_store_honest [OF assms])
  then have row: "\<exists>es. es \<noteq> [] \<and> row = served_row (replay (new_job i) es)"
    if "dict_get (pd_visibility ?db) i = Some row" for i row
    using that by (simp add: honest_def)
  have "vr_recorded_status row \<noteq> ''OVERDUE''" if "(i, row) \<in> set (pd_visibility ?db)" for i row
  proof -
    have "dict_get (pd_visibility ?db) i = Some row"
      using h that by (simp add: honest_def wf_dict_def map_of_eq_Some_iff)
    then show ?thesis using row served_row_not_overdue by blast
  qed
  then have "filter (\<lambda>(i, row). row_matches (Some ''OVERDUE'') correlation_id row) (pd_visibility ?db) = []"
    by (auto simp: filter_empty_conv row_matches_def truthy_str_def)
  then have "reader_search no_faults ?db (Some ''OVERDUE'') correlation_id = Inr []"
    by (simp add: reader_search_def inject_def)
  moreover have "\<exists>freshness. jfield v ''freshness'' = Some freshness \<and>
      jfield freshness ''possiblyStale'' = Some (JBool False)" if "reader_get no_faults ?db i = Inr v" for i v
    using that row [of i] served_row_fresh
    by (auto simp: reader_get_def inject_def split: option.splits)
  ultimately show ?thesis by (simp add: Let_def)
qed

lemma encoded_payload:
  assumes "valid_event e" and "\<And>t. t \<in> event_times e \<Longrightarrow> co_fromiso co (isoformat_utc t) = Inr t"
    and "on_the_wire e = e"
  shows "event_of_payload co (JObj (edr_value e)) = Inr e"
proof -
  have "event_from_wire (co_fromiso co) (edr_value e) = Inr e"
    using decode_encode [OF assms(1,2)] assms(3) by simp
  moreover have "get_default (edr_value e) ''canonicalPayload'' (JObj (edr_value e)) = JObj (edr_value e)"
    by (simp add: get_default_def edr_value_def)
  ultimately show ?thesis by (simp add: event_of_payload_def event_from_text_def)
qed

text \<open>A job acknowledged at its scheduled time whose start never shows up.\<close>

definition late_event :: event where
  "late_event = (new_event ''e1'' JOB_SCHEDULER_SUBMISSION_ACKNOWLEDGED 5 6 ''job-1'')
     \<lparr>ev_job_type := ''PRINT'', ev_scheduled_at := Some 5\<rparr>"

definition late_row :: edr_row where
  "late_row = \<lparr>er_event_id = ''e1'', er_job_id = ''job-1'', er_payload = JObj (edr_value late_event),
     er_payload_hash = ''00'', er_persisted_at = 9\<rparr>"

lemma late_fields [simp]:
  "ev_event_id late_event = ''e1''" "ev_job_id late_event = ''job-1''"
  "er_event_id late_row = ''e1''" "er_job_id late_row = ''job-1''"
  "er_payload late_row = JObj (edr_value late_event)"
  by (simp_all add: late_event_def late_row_def new_event_def)

lemma late_valid: "valid_event late_event"
  by (simp add: valid_event_def late_event_def new_event_def)

lemma late_payload: "event_of_payload example_codec (JObj (edr_value late_event)) = Inr late_event"
proof (rule encoded_payload [OF late_valid])
  fix t assume "t \<in> event_times late_event"
  then show "co_fromiso example_codec (isoformat_utc t) = Inr t"
    using example_fromiso_times [of t]
    by (auto simp: event_times_def late_event_def example_wire_event_def example_codec_def new_event_def)
qed (simp add: on_the_wire_def late_event_def new_event_def str_or_def)

lemma late_in_memory:
  "\<exists>en v. replay_rows example_codec [late_row] (new_engine None) = Inr en \<and>
     search en (seconds 10000) (Some OVERDUE) None None None = Inr [v]"
proof -
  let ?job = "advance (new_job ''job-1'') late_event"
  let ?en = "(new_engine None)\<lparr>en_event_ids := {''e1''}, en_events := [late_event],
      en_jobs := [(''job-1'', ?job)]\<rparr>"
  have "engine_apply (new_engine None) late_event None = (?en, Inr (decision_of (new_job ''job-1'') late_event))"
    using engine_apply_fresh [of late_event "new_engine None" None]
    by (simp add: new_engine_def conflicts_def current_job_def new_job_def)
  then have "replay_rows example_codec [late_row] (new_engine None) = Inr ?en"
    using late_payload by simp
  moreover have "derived_status default_config ?job (seconds 10000) = OVERDUE"
  proof -
    have "jv_recorded_status ?job = SCHEDULED" "jv_scheduled_at ?job = Some 5" "jv_started_at ?job = None"
      by code_simp+
    then show ?thesis by (simp add: derived_status_def is_overdue_def default_config_def)
  qed
  then have "search ?en (seconds 10000) (Some OVERDUE) None None None =
      Inr [response default_config ?job (seconds 10000)]"
    by (simp add: search_def get_response_def job_ids_def new_engine_def response_fields truthy_str_def)
  ultimately show ?thesis by blast
qed

abbreviation late_ops :: "store_op list" where
  "late_ops \<equiv> [OpSink late_row, OpProject (\<lambda>c r. None) (\<lambda>ids. None) {} 500]"

theorem durable_reads_hide_lateness_witness:
  "(\<exists>en v. replay_rows example_codec [late_row] (new_engine None) = Inr en \<and>
     search en (seconds 10000) (Some OVERDUE) None None None = Inr [v]) \<and>
   reader_search no_faults (run_store example_codec late_ops) (Some ''OVERDUE'') None = Inr []"
proof -
  have "decodes example_codec late_row" using late_payload late_valid by (simp add: decodes_def)
  then have "list_all (readable example_codec) late_ops" by (simp add: readable_def)
  from durable_reads_hide_lateness [OF this] show ?thesis using late_in_memory unfolding Let_def by blast
qed

end
