(* ===== verification/Fault_Injection.thy ===== *)
theory Fault_Injection
  imports Complex_Main Json_Values
begin

text \<open>
  Fault injection, \<open>src/job_visibility/chaos\<close>: the validated rules of \<open>model.py\<close>, the configured
  injector of \<open>injector.py\<close> with its counters, and the gate that builds one from the environment. Each
  rule fires at exactly one of the calls it matches, whatever threads interleave.
\<close>

section \<open>Rules\<close>

datatype checkpoint =
    SCHEDULER_BEFORE_COMMIT
  | SCHEDULER_AFTER_COMMIT
  | WORKER_AFTER_CLAIM
  | WORKER_BEFORE_COMPLETE
  | PUBLISHER_BEFORE_SEND
  | PUBLISHER_AFTER_BROKER_ACK
  | PROJECTOR_BEFORE_APPLY
  | PROJECTOR_AFTER_APPLY
  | VISIBILITY_BEFORE_QUERY

primrec checkpoint_value :: "checkpoint \<Rightarrow> string" where
  "checkpoint_value SCHEDULER_BEFORE_COMMIT = ''scheduler.before_commit''"
| "checkpoint_value SCHEDULER_AFTER_COMMIT = ''scheduler.after_commit''"
| "checkpoint_value WORKER_AFTER_CLAIM = ''worker.after_claim''"
| "checkpoint_value WORKER_BEFORE_COMPLETE = ''worker.before_complete''"
| "checkpoint_value PUBLISHER_BEFORE_SEND = ''publisher.before_send''"
| "checkpoint_value PUBLISHER_AFTER_BROKER_ACK = ''publisher.after_broker_ack''"
| "checkpoint_value PROJECTOR_BEFORE_APPLY = ''projector.before_apply''"
| "checkpoint_value PROJECTOR_AFTER_APPLY = ''projector.after_apply''"
| "checkpoint_value VISIBILITY_BEFORE_QUERY = ''visibility.before_query''"

datatype fault_action = DELAY | RAISE | EXIT | PAUSE

text \<open>Durations are floats in the code; the accepted ones are finite, so they are rationals here.\<close>

record fault_rule =
  ru_checkpoint :: checkpoint
  ru_action :: fault_action
  ru_invocations :: int
  ru_activate_on :: int
  ru_delay_seconds :: rat
  ru_job_id :: "string option"
  ru_correlation_id :: "string option"
  ru_error_code :: string
  ru_exit_code :: int
  ru_pause_timeout_seconds :: rat

text \<open>The rule with the defaults of its fields.\<close>

definition new_rule :: "checkpoint \<Rightarrow> fault_action \<Rightarrow> fault_rule" where
  "new_rule c a =
     \<lparr>ru_checkpoint = c, ru_action = a, ru_invocations = 1, ru_activate_on = 1, ru_delay_seconds = 0,
      ru_job_id = None, ru_correlation_id = None, ru_error_code = ''CHAOS_INJECTED'',
      ru_exit_code = 86, ru_pause_timeout_seconds = 10\<rparr>"

definition is_upper :: "char \<Rightarrow> bool" where
  "is_upper c \<longleftrightarrow> (let n = of_char c :: nat in 65 \<le> n \<and> n \<le> 90)"

definition is_digit :: "char \<Rightarrow> bool" where
  "is_digit c \<longleftrightarrow> (let n = of_char c :: nat in 48 \<le> n \<and> n \<le> 57)"

text \<open>The pattern \<open>^[A-Z][A-Z0-9_]{0,63}$\<close>.\<close>

definition error_code_pattern :: "string \<Rightarrow> bool" where
  "error_code_pattern s =
     (case s of
        [] \<Rightarrow> False
      | c # cs \<Rightarrow>
          is_upper c \<and> length cs \<le> 63 \<and>
          list_all (\<lambda>d. is_upper d \<or> is_digit d \<or> d = CHR ''_'') cs)"

definition bounded_text :: "string option \<Rightarrow> bool" where
  "bounded_text s = (case s of None \<Rightarrow> True | Some t \<Rightarrow> 1 \<le> length t \<and> length t \<le> 200)"

text \<open>The bounds the fields declare.\<close>

definition fields_in_bounds :: "fault_rule \<Rightarrow> bool" where
  "fields_in_bounds r \<longleftrightarrow>
     1 \<le> ru_invocations r \<and> ru_invocations r \<le> 100 \<and>
     1 \<le> ru_activate_on r \<and> ru_activate_on r \<le> 100 \<and>
     0 \<le> ru_delay_seconds r \<and> ru_delay_seconds r \<le> 30 \<and>
     bounded_text (ru_job_id r) \<and> bounded_text (ru_correlation_id r) \<and>
     error_code_pattern (ru_error_code r) \<and>
     1 \<le> ru_exit_code r \<and> ru_exit_code r \<le> 125 \<and>
     0 < ru_pause_timeout_seconds r \<and> ru_pause_timeout_seconds r \<le> 30"

definition validate_action :: "fault_rule \<Rightarrow> fault_rule result" where
  "validate_action r =
     (if ru_activate_on r > ru_invocations r
      then Inl (ValueError ''activate_on cannot exceed invocations'')
      else if ru_action r = DELAY \<and> ru_delay_seconds r \<le> 0
      then Inl (ValueError ''delay action requires a positive delay_seconds'')
      else if ru_action r \<noteq> DELAY \<and> ru_delay_seconds r \<noteq> 0
      then Inl (ValueError ''delay_seconds is valid only for delay action'')
      else Inr r)"

text \<open>Constructing a rule: the field checks, then the validator.\<close>

definition fault_rule_of :: "fault_rule \<Rightarrow> fault_rule result" where
  "fault_rule_of r =
     (if fields_in_bounds r then validate_action r else Inl (ValueError ''validation error''))"

section \<open>The injector\<close>

record fault_context =
  fx_job_id :: "string option"
  fx_correlation_id :: "string option"
  fx_event_id :: "string option"

definition EMPTY_CONTEXT :: fault_context where
  "EMPTY_CONTEXT = \<lparr>fx_job_id = None, fx_correlation_id = None, fx_event_id = None\<rparr>"

text \<open>\<open>ij_barriers\<close> says of each pausing rule whether its barrier has been released.\<close>

record injector =
  ij_experiment_id :: string
  ij_rules :: "fault_rule list"
  ij_counts :: "int list"
  ij_barriers :: "(nat, bool) dict"

definition new_injector :: "string \<Rightarrow> fault_rule list \<Rightarrow> injector result" where
  "new_injector experiment_id rules =
     (if experiment_id = [] \<or> 100 < length experiment_id
      then Inl (ValueError ''a bounded experiment_id is required'')
      else Inr \<lparr>ij_experiment_id = experiment_id, ij_rules = rules,
                ij_counts = map (\<lambda>r. 0) rules,
                ij_barriers = map (\<lambda>i. (i, False))
                  (filter (\<lambda>i. ru_action (rules ! i) = PAUSE) [0..<length rules])\<rparr>)"

definition rule_matches :: "fault_rule \<Rightarrow> checkpoint \<Rightarrow> fault_context \<Rightarrow> bool" where
  "rule_matches r checkpoint ctx \<longleftrightarrow>
     ru_checkpoint r = checkpoint \<and>
     (ru_job_id r = None \<or> ru_job_id r = fx_job_id ctx) \<and>
     (ru_correlation_id r = None \<or> ru_correlation_id r = fx_correlation_id ctx)"

definition release_pauses :: "injector \<Rightarrow> injector" where
  "release_pauses ij = ij\<lparr>ij_barriers := map (\<lambda>(i, released). (i, True)) (ij_barriers ij)\<rparr>"

text \<open>
  One turn of the loop in \<open>inject\<close>, for the rule of the given index: the match, the count taken under
  the lock, and whether the rule activates.
\<close>

definition visit :: "injector \<Rightarrow> nat \<Rightarrow> checkpoint \<Rightarrow> fault_context \<Rightarrow> injector \<times> bool" where
  "visit ij index checkpoint ctx =
     (let r = ij_rules ij ! index in
      if \<not> rule_matches r checkpoint ctx then (ij, False)
      else if ij_counts ij ! index \<ge> ru_invocations r then (ij, False)
      else
        (let n = ij_counts ij ! index + 1
         in (ij\<lparr>ij_counts := (ij_counts ij)[index := n]\<rparr>, n = ru_activate_on r)))"

lemma visit_rules [simp]: "ij_rules (fst (visit ij index checkpoint ctx)) = ij_rules ij"
  by (simp add: visit_def Let_def)

text \<open>
  What an activation does. A wait on a barrier ends at its release or after the timeout. The real
  \<open>os._exit\<close> does not return; a test's \<open>terminate\<close> may.
\<close>

datatype fault_effect = Waited rat | Exited int | PausedAt nat rat

datatype injected = Returned | Raised exn | Gone

text \<open>The rest of the loop, from the rule of the given index on.\<close>

function inject_from ::
  "bool \<Rightarrow> nat \<Rightarrow> checkpoint \<Rightarrow> fault_context \<Rightarrow> injector \<Rightarrow> injector \<times> fault_effect list \<times> injected" where
  "inject_from returns index checkpoint ctx ij =
     (if length (ij_rules ij) \<le> index then (ij, [], Returned)
      else
        (let r = ij_rules ij ! index;
             (ij', active) = visit ij index checkpoint ctx;
             continue = (\<lambda>effects.
               case inject_from returns (Suc index) checkpoint ctx ij' of
                 (ij', rest, outcome) \<Rightarrow> (ij', effects @ rest, outcome))
         in if \<not> active then continue []
            else case ru_action r of
                   DELAY \<Rightarrow> continue [Waited (ru_delay_seconds r)]
                 | RAISE \<Rightarrow> (ij', [], Raised (SyntheticFault (ru_error_code r) (checkpoint_value checkpoint)))
                 | EXIT \<Rightarrow>
                     (if returns then continue [Exited (ru_exit_code r)]
                      else (ij', [Exited (ru_exit_code r)], Gone))
                 | PAUSE \<Rightarrow> continue [PausedAt index (ru_pause_timeout_seconds r)]))"
  by pat_completeness auto

termination
  by (relation "measure (\<lambda>(returns, index, checkpoint, ctx, ij). length (ij_rules ij) - index)")
    (auto simp: visit_def Let_def split: if_splits)

declare inject_from.simps [simp del]

definition inject_call ::
  "bool \<Rightarrow> checkpoint \<Rightarrow> fault_context \<Rightarrow> injector \<Rightarrow> injector \<times> fault_effect list \<times> injected" where
  "inject_call returns checkpoint ctx ij = inject_from returns 0 checkpoint ctx ij"

section \<open>The gate\<close>

definition lower_char :: "char \<Rightarrow> char" where
  "lower_char c = (if is_upper c then char_of (of_char c + 32 :: nat) else c)"

datatype fault_injector = NoOpFaultInjector | ConfiguredFaultInjector injector

primrec validate_rules :: "fault_rule list \<Rightarrow> fault_rule list result" where
  "validate_rules [] = Inr []"
| "validate_rules (r # rs) =
     bind_result (fault_rule_of r) (\<lambda>r. bind_result (validate_rules rs) (\<lambda>rs. Inr (r # rs)))"

text \<open>
  \<open>loads\<close> is \<open>json.loads\<close>, which reports malformed text as a \<open>ValueError\<close>; \<open>shaped\<close> is the conversion of
  the parsed value to a list of rules, none when a value does not have the type of its field.
\<close>

definition fault_injector_from_env ::
  "(string \<Rightarrow> json result) \<Rightarrow> (json \<Rightarrow> fault_rule list option) \<Rightarrow> (string \<rightharpoonup> string) \<Rightarrow> fault_injector result" where
  "fault_injector_from_env loads shaped values =
     (let get = (\<lambda>name default. case values name of None \<Rightarrow> default | Some v \<Rightarrow> v) in
      if map lower_char (get ''CHAOS_MODE'' ''disabled'') \<noteq> ''enabled'' then Inr NoOpFaultInjector
      else if map lower_char (get ''APP_ENVIRONMENT'' ''development'') \<in> {''prod'', ''production''}
      then Inl (ValueError ''chaos mode is forbidden in production'')
      else
        (let experiment_id = get ''CHAOS_EXPERIMENT_ID'' '''';
             invalid = ValueError ''CHAOS_FAULTS_JSON must contain valid bounded fault rules''
         in case values ''CHAOS_FAULTS_JSON'' of
              None \<Rightarrow> Inl (ValueError ''chaos mode requires CHAOS_EXPERIMENT_ID and CHAOS_FAULTS_JSON'')
            | Some raw_rules \<Rightarrow>
                if experiment_id = [] \<or> raw_rules = []
                then Inl (ValueError ''chaos mode requires CHAOS_EXPERIMENT_ID and CHAOS_FAULTS_JSON'')
                else case loads raw_rules of
                  Inl (ValueError m) \<Rightarrow> Inl invalid
                | Inl err \<Rightarrow> Inl err
                | Inr data \<Rightarrow>
                    (case shaped data of
                       None \<Rightarrow> Inl invalid
                     | Some rules \<Rightarrow>
                         (case validate_rules rules of
                            Inl err \<Rightarrow> Inl invalid
                          | Inr rules \<Rightarrow>
                              if rules = []
                              then Inl (ValueError ''chaos mode requires at least one fault rule'')
                              else bind_result (new_injector experiment_id rules)
                                     (\<lambda>ij. Inr (ConfiguredFaultInjector ij))))))"

section \<open>The catalogue\<close>

record chaos_scenario =
  ex_id :: string
  ex_tier :: string
  ex_fault :: string
  ex_hypothesis :: string

definition chaos_catalog :: "chaos_scenario list" where
  "chaos_catalog =
     [\<lparr>ex_id = ''NET-01'', ex_tier = ''pr'', ex_fault = ''dependency latency and jitter'',
        ex_hypothesis = ''deadlines remain bounded''\<rparr>,
      \<lparr>ex_id = ''NET-02'', ex_tier = ''nightly'', ex_fault = ''Connect bandwidth restriction'',
        ex_hypothesis = ''lag drains without loss''\<rparr>,
      \<lparr>ex_id = ''NET-03'', ex_tier = ''pr'', ex_fault = ''scheduler DB pool saturation'',
        ex_hypothesis = ''bounded backpressure recovers''\<rparr>,
      \<lparr>ex_id = ''MEM-01'', ex_tier = ''pr'', ex_fault = ''worker OOM after claim'',
        ex_hypothesis = ''lease recovery yields one outcome''\<rparr>,
      \<lparr>ex_id = ''MEM-02'', ex_tier = ''nightly'', ex_fault = ''publisher OOM after acknowledgement'',
        ex_hypothesis = ''replay is idempotent''\<rparr>,
      \<lparr>ex_id = ''MEM-03'', ex_tier = ''nightly'', ex_fault = ''visibility API OOM'',
        ex_hypothesis = ''scheduler remains isolated''\<rparr>,
      \<lparr>ex_id = ''CPU-01'', ex_tier = ''pr'', ex_fault = ''worker CPU saturation'',
        ex_hypothesis = ''fencing holds and backlog drains''\<rparr>,
      \<lparr>ex_id = ''CPU-02'', ex_tier = ''nightly'', ex_fault = ''PostgreSQL CPU pressure'',
        ex_hypothesis = ''deadlines and pools recover''\<rparr>,
      \<lparr>ex_id = ''CPU-03'', ex_tier = ''nightly'', ex_fault = ''Connect CPU pressure'',
        ex_hypothesis = ''lag drains without loss''\<rparr>,
      \<lparr>ex_id = ''DISK-01'', ex_tier = ''nightly'', ex_fault = ''scheduler DB write latency'',
        ex_hypothesis = ''submission remains atomic''\<rparr>,
      \<lparr>ex_id = ''DISK-02'', ex_tier = ''nightly'', ex_fault = ''EDR DB write latency'',
        ex_hypothesis = ''scheduler remains available''\<rparr>,
      \<lparr>ex_id = ''DISK-03'', ex_tier = ''nightly'', ex_fault = ''disposable DB volume full'',
        ex_hypothesis = ''failure and recovery are explicit''\<rparr>,
      \<lparr>ex_id = ''APP-01'', ex_tier = ''pr'', ex_fault = ''exception before scheduler commit'',
        ex_hypothesis = ''no partial state persists''\<rparr>,
      \<lparr>ex_id = ''APP-02'', ex_tier = ''pr'', ex_fault = ''failure after scheduler commit'',
        ex_hypothesis = ''retry is idempotent''\<rparr>,
      \<lparr>ex_id = ''APP-03'', ex_tier = ''pr'', ex_fault = ''publisher exit after broker ack'',
        ex_hypothesis = ''redelivery deduplicates''\<rparr>,
      \<lparr>ex_id = ''APP-04'', ex_tier = ''pr'', ex_fault = ''projector exit before commit'',
        ex_hypothesis = ''checkpoint replay is safe''\<rparr>,
      \<lparr>ex_id = ''APP-05'', ex_tier = ''nightly'', ex_fault = ''application checkpoint delay'',
        ex_hypothesis = ''backpressure is bounded''\<rparr>,
      \<lparr>ex_id = ''APP-06'', ex_tier = ''nightly'', ex_fault = ''poison event'',
        ex_hypothesis = ''DLQ does not block progress''\<rparr>]"

definition catalog_json :: "json list" where
  "catalog_json =
     map (\<lambda>x. JObj [(''id'', JStr (ex_id x)), (''tier'', JStr (ex_tier x)), (''fault'', JStr (ex_fault x)),
                    (''hypothesis'', JStr (ex_hypothesis x))]) chaos_catalog"

lemma catalog_ids: "length chaos_catalog = 18 \<and> distinct (map ex_id chaos_catalog)"
  by (simp add: chaos_catalog_def)

section \<open>When rules fire\<close>

text \<open>
  Threads share the injector; what they interleave are the turns of their loops. A list of visits is
  any such interleaving, and the answers say which visits activated their rule.
\<close>

fun run_visits ::
  "injector \<Rightarrow> (nat \<times> checkpoint \<times> fault_context) list \<Rightarrow> injector \<times> bool list" where
  "run_visits ij [] = (ij, [])"
| "run_visits ij ((index, checkpoint, ctx) # vs) =
     (let (ij, active) = visit ij index checkpoint ctx; (ij, answers) = run_visits ij vs
      in (ij, active # answers))"

text \<open>How many of the visits a rule matches.\<close>

definition hits :: "fault_rule list \<Rightarrow> nat \<Rightarrow> (nat \<times> checkpoint \<times> fault_context) list \<Rightarrow> nat" where
  "hits rules i vs = length (filter (\<lambda>(j, c, x). j = i \<and> rule_matches (rules ! i) c x) vs)"

lemma hits_simps [simp]:
  "hits rules i [] = 0"
  "hits rules i ((j, c, x) # vs) =
     (if j = i \<and> rule_matches (rules ! i) c x then Suc (hits rules i vs) else hits rules i vs)"
  by (simp_all add: hits_def)

text \<open>A counter is the number of matching visits so far, up to the limit of its rule.\<close>

definition counts_are :: "fault_rule list \<Rightarrow> (nat \<Rightarrow> nat) \<Rightarrow> injector \<Rightarrow> bool" where
  "counts_are rules past ij \<longleftrightarrow>
     ij_rules ij = rules \<and> length (ij_counts ij) = length rules \<and>
     (\<forall>i < length rules. ij_counts ij ! i = min (ru_invocations (rules ! i)) (int (past i)))"

lemma visit_counts:
  assumes c: "counts_are rules past ij" and i: "i < length rules"
  shows "counts_are rules (past(i := past i + hits rules i [(i, checkpoint, ctx)]))
      (fst (visit ij i checkpoint ctx))"
    and "snd (visit ij i checkpoint ctx) \<longleftrightarrow>
      rule_matches (rules ! i) checkpoint ctx \<and> int (past i) < ru_invocations (rules ! i) \<and>
      int (Suc (past i)) = ru_activate_on (rules ! i)"
  using assms by (auto simp: counts_are_def visit_def Let_def nth_list_update)

lemma run_visits_exact:
  assumes "list_all (\<lambda>r. ru_activate_on r \<le> ru_invocations r) rules"
  shows "counts_are rules past ij \<Longrightarrow> list_all (\<lambda>v. fst v < length rules) vs \<Longrightarrow> k < length vs \<Longrightarrow>
    snd (run_visits ij vs) ! k \<longleftrightarrow>
      (case vs ! k of (i, c, x) \<Rightarrow> rule_matches (rules ! i) c x \<and>
         int (past i + hits rules i (take (Suc k) vs)) = ru_activate_on (rules ! i))"
proof (induction vs arbitrary: past ij k)
  case (Cons v vs)
  obtain i c x where v: "v = (i, c, x)" by (cases v)
  have i: "i < length rules" using Cons.prems(2) v by simp
  have limit: "ru_activate_on (rules ! i) \<le> ru_invocations (rules ! i)"
    using assms i by (simp add: list_all_length)
  let ?past = "past(i := past i + hits rules i [(i, c, x)])"
  note one = visit_counts [OF Cons.prems(1) i, of c x]
  have answers: "snd (run_visits ij (v # vs)) = snd (visit ij i c x) # snd (run_visits (fst (visit ij i c x)) vs)"
    by (simp add: v Let_def split_beta)
  show ?case
  proof (cases k)
    case 0
    then show ?thesis using one(2) limit unfolding answers by (auto simp: v)
  next
    case (Suc m)
    have "m < length vs" and "list_all (\<lambda>v. fst v < length rules) vs"
      using Cons.prems(2,3) Suc by simp_all
    then have rest: "snd (run_visits (fst (visit ij i c x)) vs) ! m \<longleftrightarrow>
        (case vs ! m of (j, d, y) \<Rightarrow> rule_matches (rules ! j) d y \<and>
           int (?past j + hits rules j (take (Suc m) vs)) = ru_activate_on (rules ! j))"
      by (intro Cons.IH one(1))
    have "?past j + hits rules j ws = past j + hits rules j ((i, c, x) # ws)" for j ws by simp
    then show ?thesis using rest unfolding answers Suc by (simp only: v nth_Cons_Suc take_Suc_Cons)
  qed
qed simp

lemma fault_rule_of_Inr:
  "fault_rule_of r = Inr r' \<longleftrightarrow> r' = r \<and> fields_in_bounds r \<and> ru_activate_on r \<le> ru_invocations r \<and>
     (ru_action r = DELAY \<longleftrightarrow> 0 < ru_delay_seconds r)"
  by (auto simp: fault_rule_of_def validate_action_def fields_in_bounds_def)

lemma validate_rules_Inr: "validate_rules rs = Inr rs' \<longleftrightarrow> rs' = rs \<and> list_all (\<lambda>r. fault_rule_of r = Inr r) rs"
  by (induction rs arbitrary: rs') (auto simp: bind_result_Inr_iff fault_rule_of_Inr)

lemma new_injector_counts:
  assumes "new_injector e rules = Inr ij" and "list_all (\<lambda>r. fault_rule_of r = Inr r) rules"
  shows "counts_are rules (\<lambda>i. 0) ij"
proof -
  have "1 \<le> ru_invocations (rules ! i)" if "i < length rules" for i
    using assms(2) that by (simp add: list_all_length fault_rule_of_Inr fields_in_bounds_def)
  then have "min (ru_invocations (rules ! i)) 0 = 0" if "i < length rules" for i
    using that by fastforce
  then show ?thesis using assms(1) by (auto simp: new_injector_def counts_are_def split: if_splits)
qed

section \<open>A call is a run of visits\<close>

definition effect_of :: "fault_rule list \<Rightarrow> nat \<Rightarrow> fault_effect list" where
  "effect_of rules i =
     (let r = rules ! i in
      case ru_action r of
        DELAY \<Rightarrow> [Waited (ru_delay_seconds r)] | RAISE \<Rightarrow> []
      | EXIT \<Rightarrow> [Exited (ru_exit_code r)] | PAUSE \<Rightarrow> [PausedAt i (ru_pause_timeout_seconds r)])"

text \<open>The rules a call reaches are a prefix; only an activation that does not return cuts it short.\<close>

definition reaches ::
  "injector \<Rightarrow> bool \<Rightarrow> nat \<Rightarrow> checkpoint \<Rightarrow> fault_context \<Rightarrow> nat \<Rightarrow> bool list \<Rightarrow> bool" where
  "reaches ij returns index checkpoint ctx m answers \<longleftrightarrow>
     (case inject_from returns index checkpoint ctx ij of (ij', effects, outcome) \<Rightarrow>
        run_visits ij (map (\<lambda>i. (i, checkpoint, ctx)) [index..<m]) = (ij', answers) \<and>
        effects = concat (map2 (\<lambda>i active. if active then effect_of (ij_rules ij) i else []) [index..<m] answers) \<and>
        (case outcome of
           Returned \<Rightarrow> m = max index (length (ij_rules ij))
         | Raised err \<Rightarrow> index < m \<and> m \<le> length (ij_rules ij) \<and> last answers \<and>
             ru_action (ij_rules ij ! (m - 1)) = RAISE \<and>
             err = SyntheticFault (ru_error_code (ij_rules ij ! (m - 1))) (checkpoint_value checkpoint)
         | Gone \<Rightarrow> index < m \<and> m \<le> length (ij_rules ij) \<and> last answers \<and> \<not> returns \<and>
             ru_action (ij_rules ij ! (m - 1)) = EXIT))"

lemma length_answers: "run_visits ij vs = (ij', answers) \<Longrightarrow> length answers = length vs"
  by (induction ij vs arbitrary: ij' answers rule: run_visits.induct) (auto simp: Let_def split: prod.splits)

lemma inject_from_visits: "\<exists>m answers. reaches ij returns index checkpoint ctx m answers"
proof (induction "length (ij_rules ij) - index" arbitrary: index ij)
  case 0
  then show ?case
    by (intro exI [of _ index] exI [of _ "[]"]) (simp add: reaches_def inject_from.simps)
next
  case (Suc d)
  let ?r = "ij_rules ij ! index" and ?ij = "fst (visit ij index checkpoint ctx)"
  let ?active = "snd (visit ij index checkpoint ctx)"
  have index: "\<not> length (ij_rules ij) \<le> index" using Suc.hyps(2) by simp
  have "d = length (ij_rules ?ij) - Suc index" using Suc.hyps(2) by simp
  from Suc.hyps(1) [OF this] obtain m answers
    where rest: "reaches ?ij returns (Suc index) checkpoint ctx m answers" by blast
  obtain ij' effects outcome
    where tail: "inject_from returns (Suc index) checkpoint ctx ?ij = (ij', effects, outcome)"
    by (cases "inject_from returns (Suc index) checkpoint ctx ?ij")
  note rest = rest [unfolded reaches_def tail prod.case visit_rules]
  let ?pre = "if ?active then effect_of (ij_rules ij) index else []"
  let ?stops = "?active \<and> (ru_action ?r = RAISE \<or> ru_action ?r = EXIT \<and> \<not> returns)"
  have v: "visit ij index checkpoint ctx = (?ij, ?active)" by simp
  show ?case
  proof (cases ?stops)
    case True
    then have "inject_from returns index checkpoint ctx ij = (?ij,
        (if ru_action ?r = RAISE then [] else [Exited (ru_exit_code ?r)]),
        (if ru_action ?r = RAISE
         then Raised (SyntheticFault (ru_error_code ?r) (checkpoint_value checkpoint)) else Gone))"
      using index by (subst inject_from.simps) (auto simp: Let_def split_beta)
    then have "reaches ij returns index checkpoint ctx (Suc index) [True]"
      using True index v by (auto simp: reaches_def effect_of_def Let_def split_beta)
    then show ?thesis by blast
  next
    case False
    then have call: "inject_from returns index checkpoint ctx ij = (ij', ?pre @ effects, outcome)"
      using index tail
      by (subst inject_from.simps) (auto simp: Let_def split_beta effect_of_def split: fault_action.split)
    have m: "index < m" using rest by (auto split: injected.splits)
    then have upt: "[index..<m] = index # [Suc index..<m]" by (rule upt_conv_Cons)
    have "length answers = m - Suc index" using rest length_answers by fastforce
    then have "Suc index < m \<Longrightarrow> last (?active # answers) = last answers" by auto
    then have "reaches ij returns index checkpoint ctx m (?active # answers)"
      using rest index unfolding reaches_def call prod.case upt
      by (auto simp: Let_def split_beta split: injected.splits)
    then show ?thesis by blast
  qed
qed

section \<open>What a whole experiment can do\<close>

fun run_calls ::
  "bool \<Rightarrow> injector \<Rightarrow> (checkpoint \<times> fault_context) list \<Rightarrow> (fault_effect list \<times> injected) list" where
  "run_calls returns ij [] = []"
| "run_calls returns ij ((checkpoint, ctx) # calls) =
     (case inject_call returns checkpoint ctx ij of
        (ij, effects, outcome) \<Rightarrow> (effects, outcome) # run_calls returns ij calls)"

definition activations ::
  "(nat \<times> checkpoint \<times> fault_context) list \<Rightarrow> bool list \<Rightarrow> nat list" where
  "activations vs answers = map (fst \<circ> fst) (filter snd (zip vs answers))"

lemma run_visits_append:
  "run_visits ij (vs @ ws) =
     (let (ij, answers) = run_visits ij vs; (ij, more_answers) = run_visits ij ws
      in (ij, answers @ more_answers))"
  by (induction ij vs rule: run_visits.induct) (auto simp: Let_def split: prod.splits)

lemma activations_append:
  "length vs = length as \<Longrightarrow> activations (vs @ ws) (as @ bs) = activations vs as @ activations ws bs"
  by (simp add: activations_def)

lemma run_visits_rules: "ij_rules (fst (run_visits ij vs)) = ij_rules ij"
proof (induction vs arbitrary: ij)
  case (Cons v vs)
  then show ?case by (cases v) (simp add: Let_def split_beta)
qed simp

text \<open>The effects of a call are those of the rules that its visits activate.\<close>

lemma effects_activations:
  "length is = length answers \<Longrightarrow>
   concat (map2 (\<lambda>i active. if active then effect_of rules i else []) is answers) =
   concat (map (effect_of rules) (activations (map (\<lambda>i. (i, c, x)) is) answers))"
  by (induction "is" answers rule: list_induct2) (simp_all add: activations_def)

lemma call_visits:
  assumes "ij_rules ij = rules"
  obtains vs answers where "list_all (\<lambda>v. fst v < length rules) vs"
    "run_visits ij vs = (fst (inject_call returns checkpoint ctx ij), answers)"
    "fst (snd (inject_call returns checkpoint ctx ij)) = concat (map (effect_of rules) (activations vs answers))"
proof -
  obtain m answers where r: "reaches ij returns 0 checkpoint ctx m answers"
    using inject_from_visits by blast
  obtain ij' effects outcome where c: "inject_from returns 0 checkpoint ctx ij = (ij', effects, outcome)"
    by (cases "inject_from returns 0 checkpoint ctx ij")
  note r = r [unfolded reaches_def c prod.case assms]
  let ?vs = "map (\<lambda>i. (i, checkpoint, ctx)) [0..<m]"
  have "m \<le> length rules" using r assms by (auto split: injected.splits)
  then have "list_all (\<lambda>v. fst v < length rules) ?vs" by (auto simp: list_all_iff)
  moreover have run: "run_visits ij ?vs = (ij', answers)" using r by blast
  moreover have "effects = concat (map (effect_of rules) (activations ?vs answers))"
    using r assms effects_activations [of "[0..<m]" answers rules checkpoint ctx] length_answers [OF run]
    by simp
  ultimately show thesis using that [of ?vs answers] c by (simp add: inject_call_def)
qed

lemma calls_visits:
  "ij_rules ij = rules \<Longrightarrow> \<exists>vs answers ij'. list_all (\<lambda>v. fst v < length rules) vs \<and>
     run_visits ij vs = (ij', answers) \<and>
     concat (map fst (run_calls returns ij calls)) = concat (map (effect_of rules) (activations vs answers))"
proof (induction returns ij calls rule: run_calls.induct)
  case (1 returns ij)
  then show ?case
    by (intro exI [of _ "[]"] exI [of _ "[]"] exI [of _ ij]) (simp add: activations_def)
next
  case (2 returns ij checkpoint ctx calls)
  obtain ij1 effects outcome where call: "inject_call returns checkpoint ctx ij = (ij1, effects, outcome)"
    by (cases "inject_call returns checkpoint ctx ij")
  obtain vs answers where one: "list_all (\<lambda>v. fst v < length rules) vs" "run_visits ij vs = (ij1, answers)"
    "effects = concat (map (effect_of rules) (activations vs answers))"
    using call_visits [OF "2.prems", of returns checkpoint ctx] call by auto
  have "ij_rules ij1 = rules" using run_visits_rules [of ij vs] one(2) "2.prems" by simp
  then obtain ws bs ij' where rest: "list_all (\<lambda>v. fst v < length rules) ws" "run_visits ij1 ws = (ij', bs)"
    "concat (map fst (run_calls returns ij1 calls)) = concat (map (effect_of rules) (activations ws bs))"
    using "2.IH" [OF call [symmetric] refl] by blast
  have "length vs = length answers" using length_answers [OF one(2)] by simp
  then have "concat (map fst (run_calls returns ij ((checkpoint, ctx) # calls))) =
      concat (map (effect_of rules) (activations (vs @ ws) (answers @ bs)))"
    using one(3) rest(3) call by (simp add: activations_append)
  moreover have "run_visits ij (vs @ ws) = (ij', answers @ bs)"
    using one(2) rest(2) by (simp add: run_visits_append)
  moreover have "list_all (\<lambda>v. fst v < length rules) (vs @ ws)" using one(1) rest(1) by simp
  ultimately show ?case by blast
qed

text \<open>No rule is activated twice: an activation brings its counter to the activating count.\<close>

lemma run_visits_activations:
  "counts_are rules past ij \<Longrightarrow> list_all (\<lambda>v. fst v < length rules) vs \<Longrightarrow> run_visits ij vs = (ij', answers) \<Longrightarrow>
   distinct (activations vs answers) \<and>
   (\<forall>i \<in> set (activations vs answers). i < length rules \<and> int (past i) < ru_activate_on (rules ! i))"
proof (induction vs arbitrary: past ij answers)
  case Nil
  then show ?case by (simp add: activations_def)
next
  case (Cons v vs)
  obtain i c x where v: "v = (i, c, x)" by (cases v)
  have i: "i < length rules" "list_all (\<lambda>v. fst v < length rules) vs" using Cons.prems(2) v by simp_all
  let ?ij = "fst (visit ij i c x)" and ?active = "snd (visit ij i c x)"
  let ?past = "past(i := past i + hits rules i [(i, c, x)])"
  obtain rest where rest: "run_visits ?ij vs = (ij', rest)" and answers: "answers = ?active # rest"
    using Cons.prems(3) v by (auto simp: Let_def split: prod.splits)
  note one = visit_counts [OF Cons.prems(1) i(1), of c x]
  note IH = Cons.IH [OF one(1) i(2) rest]
  have split: "activations (v # vs) answers = (if ?active then [i] else []) @ activations vs rest"
    by (simp add: activations_def answers v)
  have fresh: "i \<notin> set (activations vs rest)" if ?active
    using IH one(2) that by auto
  have "int (past j) < ru_activate_on (rules ! j)" if "j \<in> set (activations vs rest)" for j
    using IH that by (cases "j = i") auto
  then show ?case using IH fresh one(2) i(1) by (auto simp: split)
qed

definition blocked_seconds :: "fault_effect \<Rightarrow> rat" where
  "blocked_seconds e = (case e of Waited d \<Rightarrow> d | Exited code \<Rightarrow> 0 | PausedAt i timeout \<Rightarrow> timeout)"

lemma effect_of_bounds:
  assumes "fault_rule_of (rules ! i) = Inr (rules ! i)"
  shows "length (effect_of rules i) \<le> 1" and "sum_list (map blocked_seconds (effect_of rules i)) \<le> 30"
  using assms
  by (auto simp: effect_of_def Let_def blocked_seconds_def fault_rule_of_Inr fields_in_bounds_def
      split: fault_action.split)

lemma effects_bounds:
  "\<forall>i \<in> set is. i < length rules \<Longrightarrow> list_all (\<lambda>r. fault_rule_of r = Inr r) rules \<Longrightarrow>
   length (concat (map (effect_of rules) is)) \<le> length is \<and>
   sum_list (map blocked_seconds (concat (map (effect_of rules) is))) \<le> 30 * of_nat (length is)"
proof (induction "is")
  case (Cons i "is")
  have "fault_rule_of (rules ! i) = Inr (rules ! i)" using Cons.prems by (simp add: list_all_length)
  from effect_of_bounds [OF this] show ?case using Cons by (simp add: algebra_simps)
qed simp

section \<open>Properties\<close>

text \<open>
  C34. Each rule fires exactly once: whatever threads interleave their turns at the injector, a turn for
  a rule activates it exactly when the turn matches the rule and is the \<open>activate_on\<close>-th to do so, which
  the checks of a rule make reachable within its invocations.
\<close>

theorem each_fault_fires_once:
  assumes "new_injector experiment_id rules = Inr ij"
    and "list_all (\<lambda>r. fault_rule_of r = Inr r) rules"
    and "list_all (\<lambda>v. fst v < length rules) vs"
    and "k < length vs" and "vs ! k = (i, checkpoint, ctx)"
  shows "snd (run_visits ij vs) ! k \<longleftrightarrow>
    rule_matches (rules ! i) checkpoint ctx \<and>
    int (hits rules i (take (Suc k) vs)) = ru_activate_on (rules ! i)"
proof -
  have "list_all (\<lambda>r. ru_activate_on r \<le> ru_invocations r) rules"
    using assms(2) by (simp add: list_all_iff fault_rule_of_Inr)
  from run_visits_exact [OF this new_injector_counts [OF assms(1,2)] assms(3,4)] assms(5)
  show ?thesis by simp
qed

definition example_rules :: "fault_rule list" where
  "example_rules =
     [(new_rule WORKER_AFTER_CLAIM DELAY)\<lparr>ru_delay_seconds := 1 / 4, ru_job_id := Some ''selected'',
         ru_invocations := 2, ru_activate_on := 2\<rparr>,
      new_rule WORKER_AFTER_CLAIM RAISE]"

lemma example_rules_valid: "list_all (\<lambda>r. fault_rule_of r = Inr r) example_rules"
  by (simp add: example_rules_def fault_rule_of_def fields_in_bounds_def validate_action_def new_rule_def
      bounded_text_def error_code_pattern_def is_upper_def is_digit_def)

theorem each_fault_fires_once_witness:
  "\<exists>ij. new_injector ''experiment-1'' example_rules = Inr ij \<and>
     snd (run_visits ij [(0, WORKER_AFTER_CLAIM, EMPTY_CONTEXT\<lparr>fx_job_id := Some ''other''\<rparr>),
        (0, WORKER_AFTER_CLAIM, EMPTY_CONTEXT\<lparr>fx_job_id := Some ''selected''\<rparr>),
        (0, WORKER_AFTER_CLAIM, EMPTY_CONTEXT\<lparr>fx_job_id := Some ''selected''\<rparr>)]) ! 2"
proof -
  let ?x = "\<lambda>j. (0 :: nat, WORKER_AFTER_CLAIM, EMPTY_CONTEXT\<lparr>fx_job_id := Some j\<rparr>)"
  obtain ij where ij: "new_injector ''experiment-1'' example_rules = Inr ij"
    by (simp add: new_injector_def)
  have "snd (run_visits ij [?x ''other'', ?x ''selected'', ?x ''selected'']) ! 2"
    using each_fault_fires_once [OF ij example_rules_valid, of "[?x ''other'', ?x ''selected'', ?x ''selected'']" 2 0
        WORKER_AFTER_CLAIM "EMPTY_CONTEXT\<lparr>fx_job_id := Some ''selected''\<rparr>"]
    by (simp add: example_rules_def rule_matches_def new_rule_def EMPTY_CONTEXT_def)
  then show ?thesis using ij by blast
qed

text \<open>
  An experiment is bounded: over any sequence of calls at any checkpoints the injector of n rules
  causes at most n effects, and its delays and pauses together block at most 30 n seconds.
\<close>

theorem disruption_is_bounded:
  assumes "new_injector experiment_id rules = Inr ij"
    and "list_all (\<lambda>r. fault_rule_of r = Inr r) rules"
  shows "let effects = concat (map fst (run_calls returns ij calls)) in
    length effects \<le> length rules \<and>
    sum_list (map blocked_seconds effects) \<le> 30 * of_nat (length rules)"
proof -
  have "ij_rules ij = rules" using assms(1) by (auto simp: new_injector_def split: if_splits)
  from calls_visits [OF this] obtain vs answers ij' where vs: "list_all (\<lambda>v. fst v < length rules) vs"
    "run_visits ij vs = (ij', answers)"
    "concat (map fst (run_calls returns ij calls)) = concat (map (effect_of rules) (activations vs answers))"
    by blast
  let ?is = "activations vs answers"
  note acts = run_visits_activations [OF new_injector_counts [OF assms] vs(1,2)]
  then have idx: "set ?is \<subseteq> {..<length rules}" and "distinct ?is" by auto
  then have n: "length ?is \<le> length rules"
    using card_mono [OF _ idx] distinct_card [of ?is] by simp
  then have "30 * of_nat (length ?is) \<le> (30 * of_nat (length rules) :: rat)" by simp
  moreover have "\<forall>i \<in> set ?is. i < length rules" using acts by blast
  ultimately show ?thesis using effects_bounds [OF _ assms(2), of ?is] n vs(3) by (fastforce simp: Let_def)
qed

theorem disruption_is_bounded_witness:
  "\<exists>ij. new_injector ''experiment-1'' example_rules = Inr ij \<and>
     sum_list (map blocked_seconds (concat (map fst (run_calls True ij
       (replicate 1000 (WORKER_AFTER_CLAIM, EMPTY_CONTEXT\<lparr>fx_job_id := Some ''selected''\<rparr>)))))) \<le> 60"
proof -
  obtain ij where ij: "new_injector ''experiment-1'' example_rules = Inr ij"
    by (simp add: new_injector_def)
  have "length example_rules = 2" by (simp add: example_rules_def)
  then show ?thesis using disruption_is_bounded [OF ij example_rules_valid] ij
    unfolding Let_def by (auto intro!: exI [of _ ij])
qed

text \<open>
  Chaos is gated: the environment yields a configured injector only when chaos mode is switched on
  outside production, with a bounded experiment id and at least one rule, all of them valid; by
  default it yields the injector that does nothing.
\<close>

theorem chaos_is_gated:
  "fault_injector_from_env loads shaped (\<lambda>name. None) = Inr NoOpFaultInjector \<and>
   (\<forall>ij. fault_injector_from_env loads shaped values = Inr (ConfiguredFaultInjector ij) \<longrightarrow>
      (\<exists>mode. values ''CHAOS_MODE'' = Some mode \<and> map lower_char mode = ''enabled'') \<and>
      (\<forall>env. values ''APP_ENVIRONMENT'' = Some env \<longrightarrow> map lower_char env \<notin> {''prod'', ''production''}) \<and>
      ij_experiment_id ij \<noteq> [] \<and> length (ij_experiment_id ij) \<le> 100 \<and>
      ij_rules ij \<noteq> [] \<and> list_all (\<lambda>r. fault_rule_of r = Inr r) (ij_rules ij))"
proof -
  have unset: "map lower_char ''disabled'' \<noteq> ''enabled''" by (simp add: lower_char_def is_upper_def)
  then have "fault_injector_from_env loads shaped (\<lambda>name. None) = Inr NoOpFaultInjector"
    by (simp add: fault_injector_from_env_def)
  moreover have "(\<exists>mode. values ''CHAOS_MODE'' = Some mode \<and> map lower_char mode = ''enabled'') \<and>
      (\<forall>env. values ''APP_ENVIRONMENT'' = Some env \<longrightarrow> map lower_char env \<notin> {''prod'', ''production''}) \<and>
      ij_experiment_id ij \<noteq> [] \<and> length (ij_experiment_id ij) \<le> 100 \<and>
      ij_rules ij \<noteq> [] \<and> list_all (\<lambda>r. fault_rule_of r = Inr r) (ij_rules ij)"
    if "fault_injector_from_env loads shaped values = Inr (ConfiguredFaultInjector ij)" for ij
    using that unset
    by (auto simp: fault_injector_from_env_def Let_def bind_result_Inr_iff new_injector_def validate_rules_Inr
        split: if_splits option.splits sum.splits exn.splits)
  ultimately show ?thesis by blast
qed

theorem chaos_is_gated_witness:
  "\<exists>ij. fault_injector_from_env (\<lambda>s. Inr (JList [])) (\<lambda>data. Some example_rules)
      [''CHAOS_MODE'' \<mapsto> ''Enabled'', ''CHAOS_EXPERIMENT_ID'' \<mapsto> ''app-01'', ''CHAOS_FAULTS_JSON'' \<mapsto> ''[...]''] =
        Inr (ConfiguredFaultInjector ij) \<and> ij_rules ij \<noteq> []"
proof -
  let ?vars = "[''CHAOS_MODE'' \<mapsto> ''Enabled'', ''CHAOS_EXPERIMENT_ID'' \<mapsto> ''app-01'',
      ''CHAOS_FAULTS_JSON'' \<mapsto> ''[...]'']"
  have "map lower_char ''Enabled'' = ''enabled''" by code_simp
  moreover have "map lower_char ''development'' \<notin> {''prod'', ''production''}"
    by (simp add: lower_char_def is_upper_def)
  moreover have "validate_rules example_rules = Inr example_rules"
    using example_rules_valid by (simp add: validate_rules_Inr)
  moreover have "example_rules \<noteq> []" by (simp add: example_rules_def)
  ultimately obtain ij where ij: "fault_injector_from_env (\<lambda>s. Inr (JList [])) (\<lambda>data. Some example_rules) ?vars =
      Inr (ConfiguredFaultInjector ij)"
    by (simp add: fault_injector_from_env_def new_injector_def)
  then show ?thesis
    using chaos_is_gated [of "\<lambda>s. Inr (JList [])" "\<lambda>data. Some example_rules" ?vars] by blast
qed

end
