(* ===== verification/Scenarios.thy ===== *)
theory Scenarios
  imports Simulation
begin

text \<open>
  The scripted scenarios of \<open>src/job_visibility/scenarios.py\<close>, as scripts over the engine and the
  simulation, and the result that every one of them passes all of its checks.
\<close>

section \<open>Results and checks\<close>

record assertion_result =
  ar_name :: string
  ar_passed :: bool
  ar_expected :: json
  ar_actual :: json

record scenario_result =
  sr_scenario_id :: string
  sr_scenario_name :: string
  sr_input_events :: "json list"
  sr_delivery_order :: "string list"
  sr_faults_injected :: "string list"
  sr_final_visibility_record :: json
  sr_api_response :: json
  sr_reconciliation_findings :: json
  sr_assertions :: "assertion_result list"
  sr_result :: string
  sr_poll_records :: "json list option"

text \<open>\<open>asdict\<close>, then each renamed key popped and put back at the end.\<close>

definition assertion_to_dict :: "assertion_result \<Rightarrow> json" where
  "assertion_to_dict a =
     JObj [(''name'', JStr (ar_name a)), (''passed'', JBool (ar_passed a)),
           (''expected'', ar_expected a), (''actual'', ar_actual a)]"

definition scenario_to_dict :: "scenario_result \<Rightarrow> json" where
  "scenario_to_dict r =
     JObj [(''assertions'', JList (map assertion_to_dict (sr_assertions r))),
           (''result'', JStr (sr_result r)),
           (''scenarioId'', JStr (sr_scenario_id r)),
           (''scenarioName'', JStr (sr_scenario_name r)),
           (''inputEvents'', JList (sr_input_events r)),
           (''deliveryOrder'', JList (map JStr (sr_delivery_order r))),
           (''faultsInjected'', JList (map JStr (sr_faults_injected r))),
           (''finalVisibilityRecord'', sr_final_visibility_record r),
           (''apiResponse'', sr_api_response r),
           (''reconciliationFindings'', sr_reconciliation_findings r),
           (''pollRecords'', jopt JList (sr_poll_records r))]"

text \<open>\<open>bool(x)\<close>\<close>

primrec json_truthy :: "json \<Rightarrow> bool" where
  "json_truthy JNull = False"
| "json_truthy (JBool b) = b"
| "json_truthy (JInt i) = (i \<noteq> 0)"
| "json_truthy (JStr s) = (s \<noteq> [])"
| "json_truthy (JList xs) = (xs \<noteq> [])"
| "json_truthy (JObj kvs) = (kvs \<noteq> [])"

definition check_equal :: "string \<Rightarrow> json \<Rightarrow> json \<Rightarrow> assertion_result" where
  "check_equal name actual expected =
     \<lparr>ar_name = name, ar_passed = (actual = expected), ar_expected = expected, ar_actual = actual\<rparr>"

definition check_true :: "string \<Rightarrow> json \<Rightarrow> assertion_result" where
  "check_true name actual =
     \<lparr>ar_name = name, ar_passed = json_truthy actual, ar_expected = JBool True, ar_actual = actual\<rparr>"

section \<open>Scripts\<close>

text \<open>
  A script runs on the clock, the factory's counter, the engine and, for the polling scenarios, the
  scheduler; an exception ends it.
\<close>

type_synonym 'a script = "polling \<Rightarrow> (polling \<times> 'a) result"

definition give :: "'a \<Rightarrow> 'a script" where
  "give x s = Inr (s, x)"

definition lifted :: "'a result \<Rightarrow> 'a script" where
  "lifted r s = bind_result r (\<lambda>x. Inr (s, x))"

definition run :: "'a script \<Rightarrow> ('a \<Rightarrow> 'b script) \<Rightarrow> 'b script" where
  "run m f s = (case m s of Inl err \<Rightarrow> Inl err | Inr (s, x) \<Rightarrow> f x s)"

fun run_all :: "'a script list \<Rightarrow> 'a list script" where
  "run_all [] = give []"
| "run_all (m # ms) = run m (\<lambda>x. run (run_all ms) (\<lambda>xs. give (x # xs)))"

definition BASE :: time where
  "BASE = seconds 1784714400"

definition scenario_context :: "visibility_config option \<Rightarrow> polling" where
  "scenario_context config = new_polling (new_engine config) BASE config"

text \<open>\<open>kwargs\<close> sets the fields \<open>_event\<close> passes through.\<close>

definition scenario_event ::
  "event_type \<Rightarrow> string \<Rightarrow> time option \<Rightarrow> time option \<Rightarrow> (event \<Rightarrow> event) \<Rightarrow> event script" where
  "scenario_event kind job_id event_time ingestion_time kwargs s =
     (case factory_make (po_clock s) (po_drawn s) kind job_id event_time ingestion_time None
             (\<lambda>e. kwargs (e\<lparr>ev_correlation_id := ''subscription-456:RENEW:2026-07-23'',
                            ev_job_type := ''RENEW_SUBSCRIPTION'', ev_max_attempts := 3\<rparr>)) of
        (drawn, Inl err) \<Rightarrow> Inl err
      | (drawn, Inr e) \<Rightarrow> Inr (s\<lparr>po_drawn := drawn\<rparr>, e))"

abbreviation happens :: "event_type \<Rightarrow> (event \<Rightarrow> event) \<Rightarrow> event script" where
  "happens kind kwargs \<equiv> scenario_event kind ''job-123'' None None kwargs"

abbreviation at_attempt :: "int \<Rightarrow> event \<Rightarrow> event" where
  "at_attempt n \<equiv> ev_attempt_number_update (\<lambda>_. n)"

abbreviation due_at :: "time \<Rightarrow> event \<Rightarrow> event" where
  "due_at t \<equiv> ev_scheduled_at_update (\<lambda>_. Some t)"

definition apply_events :: "event list \<Rightarrow> unit script" where
  "apply_events events s =
     (case deliver_all events (po_engine s) of
        (en, Inl err) \<Rightarrow> Inl err
      | (en, Inr u) \<Rightarrow> Inr (s\<lparr>po_engine := en\<rparr>, ()))"

definition advance_clock :: "int \<Rightarrow> int \<Rightarrow> unit script" where
  "advance_clock secs mins s = Inr (s\<lparr>po_clock := clock_advance secs mins (po_clock s)\<rparr>, ())"

definition reconcile_now :: "unit script" where
  "reconcile_now s = Inr (s\<lparr>po_engine := fst (reconcile (po_engine s) (po_clock s))\<rparr>, ())"

text \<open>\<open>engine.get("job-123", clock.now())\<close>\<close>

definition look :: "json script" where
  "look s = bind_result (get_response (po_engine s) ''job-123'' (po_clock s)) (\<lambda>api. Inr (s, api))"

text \<open>\<open>engine.attempts("job-123")\<close>\<close>

definition attempts_now :: "json list script" where
  "attempts_now s = bind_result (get_attempts (po_engine s) ''job-123'') (\<lambda>as. Inr (s, as))"

text \<open>\<open>api["k"]\<close>, and two subscripts in a row.\<close>

definition item :: "string \<Rightarrow> json \<Rightarrow> json result" where
  "item k v = (case jfield v k of None \<Rightarrow> Inl (KeyError k) | Some x \<Rightarrow> Inr x)"

definition item2 :: "string \<Rightarrow> string \<Rightarrow> json \<Rightarrow> json result" where
  "item2 k l v = bind_result (item k v) (item l)"

text \<open>\<open>engine.apply(event, expected_version=v)\<close>, and the same where a conflict is caught and retried.\<close>

definition apply_version :: "event \<Rightarrow> int \<Rightarrow> unit script" where
  "apply_version e v s =
     (case engine_apply (po_engine s) e (Some v) of
        (en, Inl err) \<Rightarrow> Inl err
      | (en, Inr decision) \<Rightarrow> Inr (s\<lparr>po_engine := en\<rparr>, ()))"

definition apply_or_retry :: "event \<Rightarrow> int \<Rightarrow> bool script" where
  "apply_or_retry e v s =
     (case engine_apply (po_engine s) e (Some v) of
        (en, Inr decision) \<Rightarrow> Inr (s\<lparr>po_engine := en\<rparr>, False)
      | (en, Inl (VersionConflictError i expected actual)) \<Rightarrow>
          (case apply_with_retry (\<lambda>number en. en) en e v 3 of
             (en, Inl err) \<Rightarrow> Inl err
           | (en, Inr decision) \<Rightarrow> Inr (s\<lparr>po_engine := en\<rparr>, True))
      | (en, Inl err) \<Rightarrow> Inl err)"

definition state :: "polling script" where
  "state s = Inr (s, s)"

definition poll_once :: "poll_request \<Rightarrow> poll_record script" where
  "poll_once rq s =
     (case poll rq s of (s, Inl err) \<Rightarrow> Inl err | (s, Inr rec) \<Rightarrow> Inr (s, rec))"

text \<open>The checks of a scenario: each reads the response and compares.\<close>

definition expect :: "string \<Rightarrow> json result \<Rightarrow> json \<Rightarrow> assertion_result result" where
  "expect name actual expected = bind_result actual (\<lambda>v. Inr (check_equal name v expected))"

definition expect_true :: "string \<Rightarrow> json result \<Rightarrow> assertion_result result" where
  "expect_true name actual = bind_result actual (\<lambda>v. Inr (check_true name v))"

definition checks :: "assertion_result result list \<Rightarrow> assertion_result list script" where
  "checks rs = lifted (collect_results (\<lambda>r. r) rs)"

text \<open>\<open>any(f["code"] == code for f in api["reconciliationFindings"])\<close>\<close>

fun any_code :: "string \<Rightarrow> json list \<Rightarrow> json result" where
  "any_code code [] = Inr (JBool False)"
| "any_code code (f # fs) =
     bind_result (item ''code'' f) (\<lambda>c. if c = JStr code then Inr (JBool True) else any_code code fs)"

definition has_finding :: "string \<Rightarrow> json \<Rightarrow> json result" where
  "has_finding code api =
     bind_result (item ''reconciliationFindings'' api) (\<lambda>v.
       case v of JList fs \<Rightarrow> any_code code fs | _ \<Rightarrow> Inl (TypeError ''not iterable''))"

text \<open>\<open>next(f for f in api["reconciliationFindings"] if f["code"] == code)\<close>\<close>

fun next_code :: "string \<Rightarrow> json list \<Rightarrow> json result" where
  "next_code code [] = Inl (RuntimeError ''StopIteration'')"
| "next_code code (f # fs) =
     bind_result (item ''code'' f) (\<lambda>c. if c = JStr code then Inr f else next_code code fs)"

definition next_finding :: "string \<Rightarrow> json \<Rightarrow> json result" where
  "next_finding code api =
     bind_result (item ''reconciliationFindings'' api) (\<lambda>v.
       case v of JList fs \<Rightarrow> next_code code fs | _ \<Rightarrow> Inl (TypeError ''not iterable''))"

definition finish_scenario ::
  "string \<Rightarrow> string \<Rightarrow> assertion_result list \<Rightarrow> event list \<Rightarrow> string list \<Rightarrow> json list option \<Rightarrow>
   scenario_result script" where
  "finish_scenario scenario_id name items events faults polls =
     run look (\<lambda>response.
     run (lifted (item ''reconciliationFindings'' response)) (\<lambda>findings.
     give \<lparr>sr_scenario_id = scenario_id, sr_scenario_name = name,
           sr_input_events = map event_to_dict events,
           sr_delivery_order = map ev_event_id events,
           sr_faults_injected = faults,
           sr_final_visibility_record = response, sr_api_response = response,
           sr_reconciliation_findings = findings, sr_assertions = items,
           sr_result = (if list_all ar_passed items then ''PASS'' else ''FAIL''),
           sr_poll_records = polls\<rparr>))"

definition outcome :: "visibility_config option \<Rightarrow> scenario_result script \<Rightarrow> scenario_result result" where
  "outcome config script = bind_result (script (scenario_context config)) (\<lambda>(s, r). Inr r)"

section \<open>Happy paths\<close>

definition hp01 :: "scenario_result result" where
  "hp01 = outcome None
     (let scheduled = BASE + seconds 86400 in
      run (run_all
        [happens JOB_CREATED (due_at scheduled),
         happens JOB_SCHEDULER_SUBMISSION_REQUESTED (due_at scheduled),
         happens JOB_SCHEDULER_SUBMISSION_ACKNOWLEDGED
           (\<lambda>e. (due_at scheduled e)\<lparr>ev_scheduler_reference := Some ''scheduler-789''\<rparr>)]) (\<lambda>events.
      run (apply_events events) (\<lambda>_.
      run look (\<lambda>api.
      run (checks
        [expect ''status'' (item ''status'' api) (JStr ''SCHEDULED''),
         expect ''completed attempts'' (item2 ''retry'' ''completedAttempts'' api) (JInt 0),
         expect_true ''scheduler reference present'' (item ''schedulerReference'' api),
         expect_true ''freshness present'' (item ''dataAsOf'' api)]) (\<lambda>items.
      finish_scenario ''HP-01'' ''Job created and scheduled successfully''
        items events [] None)))))"

definition hp02 :: "scenario_result result" where
  "hp02 = outcome None
     (run (run_all
        [happens JOB_CREATED (due_at BASE),
         happens JOB_SCHEDULER_SUBMISSION_ACKNOWLEDGED (due_at BASE),
         happens JOB_EXECUTION_STARTED (\<lambda>e. at_attempt 1 (due_at BASE e)),
         happens JOB_EXECUTION_SUCCEEDED (\<lambda>e. at_attempt 1 (due_at BASE e))]) (\<lambda>events.
      run (apply_events events) (\<lambda>_.
      run look (\<lambda>api.
      run (checks
        [expect ''status'' (item ''status'' api) (JStr ''SUCCEEDED''),
         expect ''attempt count'' (item2 ''retry'' ''completedAttempts'' api) (JInt 1),
         expect_true ''startedAt populated'' (item ''startedAt'' api),
         expect_true ''completedAt populated'' (item ''completedAt'' api)]) (\<lambda>items.
      finish_scenario ''HP-02'' ''Job executes successfully''
        items events [] None)))))"

definition hp03 :: "scenario_result result" where
  "hp03 = outcome None
     (let retry_at = BASE + minutes 5 in
      run (run_all
        [happens JOB_EXECUTION_STARTED (at_attempt 1),
         happens JOB_EXECUTION_FAILED (\<lambda>e. (at_attempt 1 e)\<lparr>ev_retryable := Some True, ev_error_code := Some ''UPSTREAM_TIMEOUT''\<rparr>),
         happens JOB_RETRY_REQUESTED (at_attempt 2),
         happens JOB_RETRY_ACKNOWLEDGED (\<lambda>e. (at_attempt 2 e)\<lparr>ev_next_retry_at := Some retry_at\<rparr>)]) (\<lambda>events.
      run (apply_events events) (\<lambda>_.
      run look (\<lambda>api.
      run (checks
        [expect ''status'' (item ''status'' api) (JStr ''RETRY_SCHEDULED''),
         expect ''completed attempts'' (item2 ''retry'' ''completedAttempts'' api) (JInt 1),
         expect ''next attempt'' (item2 ''retry'' ''nextAttemptNumber'' api) (JInt 2),
         expect_true ''retry acknowledged'' (item2 ''retry'' ''schedulerAcknowledged'' api)]) (\<lambda>items.
      finish_scenario ''HP-03'' ''Job fails and retry is scheduled''
        items events [] None)))))"

definition hp04 :: "scenario_result result" where
  "hp04 = outcome None
     (run (run_all
        [happens JOB_EXECUTION_STARTED (at_attempt 1),
         happens JOB_EXECUTION_FAILED (\<lambda>e. (at_attempt 1 e)\<lparr>ev_retryable := Some True\<rparr>),
         happens JOB_RETRY_ACKNOWLEDGED (\<lambda>e. (at_attempt 2 e)\<lparr>ev_next_retry_at := Some BASE\<rparr>),
         happens JOB_EXECUTION_STARTED (at_attempt 2),
         happens JOB_EXECUTION_SUCCEEDED (at_attempt 2)]) (\<lambda>events.
      run (apply_events events) (\<lambda>_.
      run look (\<lambda>api.
      run attempts_now (\<lambda>attempts.
      run (checks
        [expect ''status'' (item ''status'' api) (JStr ''SUCCEEDED''),
         expect ''completed attempts'' (item2 ''retry'' ''completedAttempts'' api) (JInt 2),
         expect ''attempt outcomes''
           (bind_result (collect_results (item ''status'') attempts) (\<lambda>xs. Inr (JList xs)))
           (JList [JStr ''FAILED'', JStr ''SUCCEEDED''])]) (\<lambda>items.
      finish_scenario ''HP-04'' ''Retry succeeds''
        items events [] None))))))"

definition hp05 :: "scenario_result result" where
  "hp05 = outcome None
     (run (run_all
        (concat (map (\<lambda>attempt.
           [happens JOB_EXECUTION_STARTED (at_attempt attempt),
            happens JOB_EXECUTION_FAILED
              (\<lambda>e. (at_attempt attempt e)\<lparr>ev_retryable := Some (attempt < 3)\<rparr>)]) [1, 2, 3]) @
         [happens JOB_RETRIES_EXHAUSTED (at_attempt 3)])) (\<lambda>events.
      run (apply_events events) (\<lambda>_.
      run look (\<lambda>api.
      run (checks
        [expect ''status'' (item ''status'' api) (JStr ''RETRIES_EXHAUSTED''),
         expect ''completed attempts'' (item2 ''retry'' ''completedAttempts'' api) (JInt 3),
         expect ''next retry null'' (item2 ''retry'' ''nextRetryAt'' api) JNull]) (\<lambda>items.
      finish_scenario ''HP-05'' ''Retry exhausted''
        items events [] None)))))"

section \<open>Disorder\<close>

definition ch02 :: "scenario_result result" where
  "ch02 = outcome None
     (run (run_all
        [happens JOB_EXECUTION_SUCCEEDED (at_attempt 1),
         happens JOB_EXECUTION_SUCCEEDED (at_attempt 1)]) (\<lambda>events.
      run (apply_events events) (\<lambda>_.
      run look (\<lambda>api.
      run (checks
        [expect ''status'' (item ''status'' api) (JStr ''SUCCEEDED''),
         expect ''attempt count'' (item2 ''retry'' ''completedAttempts'' api) (JInt 1),
         expect ''version unchanged by semantic duplicate'' (item ''version'' api) (JInt 1)]) (\<lambda>items.
      finish_scenario ''CH-02'' ''Semantic duplicate execution outcome''
        items events [''DUPLICATE''] None)))))"

definition ch03 :: "scenario_result result" where
  "ch03 = outcome None
     (run (run_all
        [happens JOB_EXECUTION_SUCCEEDED (at_attempt 1),
         scenario_event JOB_EXECUTION_STARTED ''job-123'' (Some (BASE - seconds 5)) None (at_attempt 1)]) (\<lambda>events.
      run (apply_events events) (\<lambda>_.
      run look (\<lambda>api.
      run (checks
        [expect ''terminal state stable'' (item ''status'' api) (JStr ''SUCCEEDED''),
         expect_true ''startedAt backfilled'' (item ''startedAt'' api)]) (\<lambda>items.
      finish_scenario ''CH-03'' ''Out-of-order STARTED after SUCCEEDED''
        items events [''REORDER''] None)))))"

definition ch04 :: "scenario_result result" where
  "ch04 = outcome None
     (run (run_all
        [happens JOB_CREATED id,
         happens JOB_SCHEDULER_SUBMISSION_REQUESTED id]) (\<lambda>events.
      run (apply_events events) (\<lambda>_.
      run (advance_clock 0 3) (\<lambda>_.
      run reconcile_now (\<lambda>_.
      run look (\<lambda>api.
      run (checks
        [expect ''not scheduled'' (item ''status'' api) (JStr ''PENDING_SUBMISSION''),
         expect_true ''ack timeout finding'' (has_finding ''SCHEDULER_ACK_TIMEOUT'' api)]) (\<lambda>items.
      finish_scenario ''CH-04'' ''Scheduler acknowledgement missing''
        items events [''DROP''] None)))))))"

definition ch05 :: "scenario_result result" where
  "ch05 = outcome None
     (run (run_all
        [happens JOB_SCHEDULER_SUBMISSION_ACKNOWLEDGED (due_at BASE)]) (\<lambda>events.
      run (apply_events events) (\<lambda>_.
      run (advance_clock 0 11) (\<lambda>_.
      run reconcile_now (\<lambda>_.
      run look (\<lambda>api.
      run (checks
        [expect ''overdue'' (item ''status'' api) (JStr ''OVERDUE''),
         expect ''recorded scheduler state'' (item ''recordedStatus'' api) (JStr ''SCHEDULED'')]) (\<lambda>items.
      finish_scenario ''CH-05'' ''Acknowledged but execution EDR missing''
        items events [''DROP''] None)))))))"

definition ch06 :: "scenario_result result" where
  "ch06 = outcome None
     (run (run_all
        [happens JOB_SCHEDULER_SUBMISSION_ACKNOWLEDGED (due_at BASE)]) (\<lambda>events.
      run (apply_events events) (\<lambda>_.
      run (advance_clock 0 5) (\<lambda>_.
      run look (\<lambda>api.
      run (checks
        [expect ''within grace'' (item ''status'' api) (JStr ''AWAITING_EXECUTION'')]) (\<lambda>items.
      finish_scenario ''CH-06'' ''Execution delayed within grace period''
        items events [''DELAY''] None))))))"

definition ch07 :: "scenario_result result" where
  "ch07 = outcome None
     (run (run_all
        [happens JOB_EXECUTION_FAILED (\<lambda>e. (at_attempt 1 e)\<lparr>ev_retryable := Some True\<rparr>),
         happens JOB_RETRY_REQUESTED (at_attempt 2)]) (\<lambda>events.
      run (apply_events events) (\<lambda>_.
      run look (\<lambda>api.
      run (checks
        [expect ''retry pending'' (item ''status'' api) (JStr ''RETRY_PENDING''),
         expect ''not acknowledged'' (item2 ''retry'' ''schedulerAcknowledged'' api) (JBool False),
         expect ''next retry unknown'' (item2 ''retry'' ''nextRetryAt'' api) JNull]) (\<lambda>items.
      finish_scenario ''CH-07'' ''Retry acknowledgement missing''
        items events [''DROP''] None)))))"

definition ch09 :: "scenario_result result" where
  "ch09 = outcome None
     (run (run_all
        [happens JOB_EXECUTION_STARTED (at_attempt 2),
         happens JOB_RETRY_ACKNOWLEDGED (\<lambda>e. (at_attempt 2 e)\<lparr>ev_next_retry_at := Some BASE\<rparr>)]) (\<lambda>events.
      run (apply_events events) (\<lambda>_.
      run look (\<lambda>api.
      run (checks
        [expect ''late ack does not regress running'' (item ''status'' api) (JStr ''RUNNING'')]) (\<lambda>items.
      finish_scenario ''CH-09'' ''Retry executes before acknowledgement EDR''
        items events [''REORDER''] None)))))"

definition ch11 :: "scenario_result result" where
  "ch11 = outcome None
     (run (run_all
        [happens JOB_EXECUTION_SUCCEEDED (at_attempt 1)]) (\<lambda>events.
      run (apply_events events) (\<lambda>_.
      run look (\<lambda>api.
      run (checks
        [expect ''success despite dropped start'' (item ''status'' api) (JStr ''SUCCEEDED''),
         expect ''start unknown'' (item ''startedAt'' api) JNull,
         expect_true ''incomplete lifecycle'' (item ''incompleteLifecycle'' api)]) (\<lambda>items.
      finish_scenario ''CH-11'' ''Execution start EDR dropped''
        items events [''DROP''] None)))))"

definition ch12 :: "scenario_result result" where
  "ch12 = outcome None
     (run (run_all
        [happens JOB_EXECUTION_FAILED (\<lambda>e. (at_attempt 2 e)\<lparr>ev_retryable := Some True\<rparr>)]) (\<lambda>events.
      run (apply_events events) (\<lambda>_.
      run reconcile_now (\<lambda>_.
      run look (\<lambda>api.
      run (checks
        [expect ''does not infer attempt one'' (item2 ''retry'' ''completedAttempts'' api) (JInt 1),
         expect_true ''gap finding'' (has_finding ''ATTEMPT_SEQUENCE_GAP'' api)]) (\<lambda>items.
      finish_scenario ''CH-12'' ''Invalid attempt number''
        items events [] None))))))"

definition ch14 :: "scenario_result result" where
  "ch14 = outcome None
     (run (run_all
        [happens JOB_CREATED id]) (\<lambda>events.
      run (apply_events events) (\<lambda>_.
      run (advance_clock 30 0) (\<lambda>_.
      run look (\<lambda>api.
      run (checks
        [expect_true ''stale snapshot exposed'' (item2 ''freshness'' ''possiblyStale'' api),
         expect_true ''dataAsOf exposed'' (item ''dataAsOf'' api)]) (\<lambda>items.
      finish_scenario ''CH-14'' ''Stale API replica''
        items events [''STALE_READ''] None))))))"

definition ch16 :: "scenario_result result" where
  "ch16 = outcome None
     (run (run_all
        [happens JOB_EXECUTION_SUCCEEDED (at_attempt 1),
         happens JOB_EXECUTION_FAILED (\<lambda>e. (at_attempt 1 e)\<lparr>ev_retryable := Some False\<rparr>)]) (\<lambda>events.
      run (apply_events events) (\<lambda>_.
      run look (\<lambda>api.
      run (checks
        [expect ''success preserved'' (item ''status'' api) (JStr ''SUCCEEDED''),
         expect_true ''conflict finding'' (has_finding ''CONFLICTING_TERMINAL_OUTCOME'' api)]) (\<lambda>items.
      finish_scenario ''CH-16'' ''Late failure after success''
        items events [''REORDER''] None)))))"

definition ch17 :: "scenario_result result" where
  "ch17 = outcome None
     (run (run_all
        [happens JOB_CANCELLED id,
         happens JOB_EXECUTION_STARTED (at_attempt 1),
         happens JOB_EXECUTION_SUCCEEDED (at_attempt 1)]) (\<lambda>events.
      run (apply_events events) (\<lambda>_.
      run look (\<lambda>api.
      run (checks
        [expect ''observed success wins'' (item ''status'' api) (JStr ''SUCCEEDED''),
         expect_true ''cancellation violation'' (item ''cancellationViolation'' api)]) (\<lambda>items.
      finish_scenario ''CH-17'' ''Cancelled job executes later''
        items events [] None)))))"

definition ch18 :: "scenario_result result" where
  "ch18 = outcome None
     (run (run_all
        [happens JOB_RETRIES_EXHAUSTED (at_attempt 3),
         happens JOB_EXECUTION_STARTED (at_attempt 4)]) (\<lambda>events.
      run (apply_events events) (\<lambda>_.
      run look (\<lambda>api.
      run (checks
        [expect ''observed execution wins'' (item ''status'' api) (JStr ''RUNNING''),
         expect_true ''exhaustion violation'' (item ''retriesExhaustedViolation'' api)]) (\<lambda>items.
      finish_scenario ''CH-18'' ''Attempt starts after retry exhaustion''
        items events [] None)))))"

text \<open>The scenarios that interleave deliveries with the clock, the writer or reconciliation.\<close>

definition ch01 :: "scenario_result result" where
  "ch01 = outcome None
     (run (happens JOB_CREATED id) (\<lambda>created.
      run (apply_events [created, created]) (\<lambda>_.
      run look (\<lambda>api.
      run (checks
        [expect ''status'' (item ''status'' api) (JStr ''CREATED''),
         expect ''version unchanged by duplicate'' (item ''version'' api) (JInt 1)]) (\<lambda>items.
      finish_scenario ''CH-01'' ''Duplicate JOB_CREATED''
        items [created, created] [''DUPLICATE''] None)))))"

definition ch08 :: "scenario_result result" where
  "ch08 = outcome None
     (run (happens JOB_RETRY_REQUESTED (at_attempt 2)) (\<lambda>requested.
      run (apply_events [requested]) (\<lambda>_.
      run (advance_clock 0 3) (\<lambda>_.
      run reconcile_now (\<lambda>_.
      run state (\<lambda>s.
      run (happens JOB_RETRY_ACKNOWLEDGED
             (\<lambda>e. (at_attempt 2 e)\<lparr>ev_next_retry_at := Some (po_clock s)\<rparr>)) (\<lambda>ack.
      run (apply_events [ack]) (\<lambda>_.
      run look (\<lambda>api.
      run (checks
        [expect ''late ack schedules retry'' (item ''status'' api) (JStr ''RETRY_SCHEDULED''),
         expect ''historical timeout resolved''
           (bind_result (next_finding ''RETRY_ACK_TIMEOUT'' api) (item ''active'')) (JBool False)]) (\<lambda>items.
      finish_scenario ''CH-08'' ''Retry acknowledgement arrives late''
        items [requested, ack] [''DELAY''] None))))))))))"

definition ch10 :: "scenario_result result" where
  "ch10 = outcome None
     (run (advance_clock 0 10) (\<lambda>_.
      run state (\<lambda>s.
      run (scenario_event JOB_EXECUTION_STARTED ''job-123'' (Some BASE) (Some (po_clock s))
             (at_attempt 1)) (\<lambda>event.
      run (apply_events [event]) (\<lambda>_.
      run look (\<lambda>api.
      run (checks
        [expect ''state from event semantics'' (item ''status'' api) (JStr ''RUNNING''),
         expect ''dataAsOf uses ingestion'' (item ''dataAsOf'' api) (jtime (Some (po_clock s))),
         expect ''processing delay observable''
           (item2 ''freshness'' ''processingDelaySeconds'' api) (JInt 600)]) (\<lambda>items.
      finish_scenario ''CH-10'' ''EDR delivery delay'' items [event] [''DELAY''] None)))))))"

definition ch13 :: "scenario_result result" where
  "ch13 = outcome None
     (run (run_all
        [happens JOB_CREATED id,
         happens JOB_SCHEDULER_SUBMISSION_REQUESTED id,
         happens JOB_SCHEDULER_SUBMISSION_ACKNOWLEDGED id]) (\<lambda>events.
      run (apply_version (events ! 0) 0) (\<lambda>_.
      run (apply_version (events ! 1) 1) (\<lambda>_.
      run (apply_or_retry (events ! 2) 1) (\<lambda>conflict_observed.
      run state (\<lambda>s.
      run look (\<lambda>api.
      run (checks
        [expect_true ''optimistic conflict observed'' (Inr (JBool conflict_observed)),
         expect ''event reapplied'' (item ''status'' api) (JStr ''SCHEDULED''),
         expect ''no event lost'' (Inr (JInt (int (length (en_events (po_engine s)))))) (JInt 3)]) (\<lambda>items.
      finish_scenario ''CH-13'' ''Concurrent job updates''
        items events [''CONCURRENT_UPDATE''] None))))))))"

definition ch15 :: "scenario_result result" where
  "ch15 = outcome None
     (run (happens JOB_SCHEDULER_SUBMISSION_ACKNOWLEDGED (due_at BASE)) (\<lambda>ack.
      run (apply_events [ack]) (\<lambda>_.
      run (advance_clock 0 11) (\<lambda>_.
      run reconcile_now (\<lambda>_.
      run (run_all
        [happens JOB_EXECUTION_STARTED (\<lambda>e. at_attempt 1 (due_at BASE e)),
         happens JOB_EXECUTION_SUCCEEDED (\<lambda>e. at_attempt 1 (due_at BASE e))]) (\<lambda>events.
      run (apply_events events) (\<lambda>_.
      run look (\<lambda>api.
      run (checks
        [expect ''late success wins'' (item ''status'' api) (JStr ''SUCCEEDED''),
         expect_true ''overdue finding retained'' (has_finding ''EXECUTION_START_OVERDUE'' api)]) (\<lambda>items.
      finish_scenario ''CH-15'' ''Job succeeds after overdue''
        items (ack # events) [''DELAY''] None)))))))))"

section \<open>Polling\<close>

definition polling_config :: visibility_config where
  "polling_config =
     default_config\<lparr>cf_max_items_per_poll := 3, cf_worker_capacity := 3, cf_grace_period_seconds := 180\<rparr>"

definition add_job :: "string \<Rightarrow> time \<Rightarrow> unit script" where
  "add_job job_id scheduled_at =
     run (scenario_event JOB_CREATED job_id None None (due_at scheduled_at)) (\<lambda>created.
     run (apply_events [created]) (\<lambda>_.
     run (scenario_event JOB_SCHEDULER_SUBMISSION_ACKNOWLEDGED job_id None None (due_at scheduled_at))
       (\<lambda>acknowledged.
     run (apply_events [acknowledged]) (\<lambda>_.
     (\<lambda>s. Inr (enqueue (new_item job_id scheduled_at) s, ()))))))"

definition held_back :: poll_request where
  "held_back = default_request\<lparr>rq_start := False\<rparr>"

abbreviation names :: "string list \<Rightarrow> json" where
  "names ids \<equiv> JList (map JStr ids)"

abbreviation number_of :: "'a list \<Rightarrow> json result" where
  "number_of xs \<equiv> Inr (JInt (int (length xs)))"

text \<open>\<open>len(set(xs))\<close>\<close>

abbreviation distinct_number :: "'a list \<Rightarrow> json" where
  "distinct_number xs \<equiv> JInt (int (length (remdups xs)))"

definition report ::
  "int \<Rightarrow> nat \<Rightarrow> string \<Rightarrow> string list \<Rightarrow> assertion_result result list \<Rightarrow> scenario_result script" where
  "report number events_before name faults rs =
     run state (\<lambda>s.
     run (checks rs) (\<lambda>items.
     finish_scenario (''POLL-'' @ zero_pad 2 (nat number)) name items
       (drop events_before (en_events (po_engine s))) faults
       (Some (map poll_record_to_dict (po_polls s)))))"

definition polling_script :: "int \<Rightarrow> nat \<Rightarrow> scenario_result script" where
  "polling_script number events_before =
     (if number = 1 then
        run (add_job ''job-123'' (BASE + seconds 59)) (\<lambda>_.
        run (advance_clock 60 0) (\<lambda>_.
        run (poll_once default_request) (\<lambda>rec.
        report number events_before ''Eligible just before a poll'' []
          [expect ''retrieved at next poll'' (Inr (names (pr_retrieved_job_ids rec))) (names [''job-123''])])))
      else if number = 2 then
        run (add_job ''job-123'' (BASE + seconds 1)) (\<lambda>_.
        run (poll_once default_request) (\<lambda>_.
        run look (\<lambda>api.
        run (advance_clock 60 0) (\<lambda>_.
        run (poll_once default_request) (\<lambda>rec.
        report number events_before ''Eligible just after a poll'' []
          [expect ''not overdue before next poll'' (item ''status'' api) (JStr ''SCHEDULED''),
           expect ''retrieved on following poll'' (Inr (names (pr_retrieved_job_ids rec)))
             (names [''job-123''])])))))
      else if number \<in> {3, 4, 5} then
        (let job_count = (if number = 3 then 3 else if number = 4 then 4 else 10 :: nat) in
        run (run_all (map (\<lambda>index.
               add_job (if index = 0 then ''job-123'' else ''job-'' @ zero_pad 3 (index + 1)) BASE)
               [0..<job_count])) (\<lambda>_.
        run (run_all (replicate ((job_count + 2) div 3)
               (run (poll_once held_back) (\<lambda>_. advance_clock 0 1)))) (\<lambda>_.
        run state (\<lambda>s.
        (let retrieved = concat (map pr_retrieved_job_ids (po_polls s)) in
        report number events_before
          (if number = 3 then ''Exactly X eligible jobs''
           else if number = 4 then ''X plus one eligible jobs'' else ''Multi-batch backlog'') []
          [expect ''all jobs retrieved once'' (number_of retrieved) (distinct_number retrieved),
           expect ''all eligible jobs retrieved'' (number_of retrieved) (JInt (int job_count))])))))
      else if number = 6 then
        run (add_job ''job-123'' BASE) (\<lambda>_.
        run (advance_clock 0 2) (\<lambda>_.
        run reconcile_now (\<lambda>_.
        run look (\<lambda>api.
        report number events_before ''Poll skipped'' [''SKIPPED_POLL'']
          [expect ''job remains evidence-based'' (item ''recordedStatus'' api) (JStr ''SCHEDULED'')]))))
      else if number = 7 then
        run (run_all (map (\<lambda>index.
               add_job (if index = 0 then ''job-123'' else ''job-'' @ nat_digits index) BASE) [0..<3])) (\<lambda>_.
        run (poll_once (held_back\<lparr>rq_retrieve_count := Some 2\<rparr>)) (\<lambda>rec.
        report number events_before ''Scheduler retrieves fewer than X'' []
          [expect ''partial batch visible'' (number_of (pr_retrieved_job_ids rec)) (JInt 2),
           expect ''eligible count visible'' (Inr (JInt (pr_eligible_count rec))) (JInt 3)]))
      else if number = 8 then
        run (add_job ''job-123'' BASE) (\<lambda>_.
        run (poll_once held_back) (\<lambda>_.
        run look (\<lambda>api.
        report number events_before ''Retrieved but worker unavailable'' []
          [expect ''retrieved awaiting execution'' (item ''status'' api) (JStr ''AWAITING_EXECUTION''),
           expect ''worker delay classified'' (item2 ''delay'' ''classification'' api)
             (JStr ''RETRIEVED_AWAITING_WORKER'')])))
      else if number = 9 then
        run (run_all (map (\<lambda>index.
               add_job (if index = 0 then ''job-123'' else ''job-'' @ nat_digits index) BASE) [0..<6])) (\<lambda>_.
        run (poll_once (held_back\<lparr>rq_poller_id := ''a''\<rparr>)) (\<lambda>first.
        run (poll_once (held_back\<lparr>rq_poller_id := ''b''\<rparr>)) (\<lambda>second.
        (let combined = pr_retrieved_job_ids first @ pr_retrieved_job_ids second in
        report number events_before ''Multiple concurrent pollers'' []
          [expect ''no double retrieval'' (number_of combined) (distinct_number combined),
           expect ''both pollers claim full work'' (number_of combined) (JInt 6)]))))
      else if number = 10 then
        run (add_job ''job-123'' BASE) (\<lambda>_.
        run (poll_once (default_request\<lparr>rq_complete := True, rq_emit_retrieval := False\<rparr>)) (\<lambda>_.
        run look (\<lambda>api.
        report number events_before ''Retrieval EDR missing'' [''DROP_RETRIEVAL_EDR'']
          [expect ''execution outcome preserved'' (item ''status'' api) (JStr ''SUCCEEDED''),
           expect ''retrieval remains unknown'' (item ''schedulerRetrievedAt'' api) JNull,
           expect_true ''incomplete lifecycle'' (item ''incompleteLifecycle'' api)])))
      else if number = 11 then
        run (add_job ''job-123'' BASE) (\<lambda>_.
        run (run_all
          [happens JOB_EXECUTION_STARTED (\<lambda>e. at_attempt 1 (due_at BASE e)),
           scenario_event JOB_SCHEDULER_ITEM_RETRIEVED ''job-123'' (Some (BASE - seconds 1)) None
             (\<lambda>e. at_attempt 1 (due_at BASE e))]) (\<lambda>events.
        run (apply_events events) (\<lambda>_.
        run look (\<lambda>api.
        report number events_before ''Retrieval EDR delayed'' [''DELAY_RETRIEVAL_EDR'']
          [expect ''late retrieval does not regress'' (item ''status'' api) (JStr ''RUNNING'')]))))
      else if number = 12 then
        run (add_job ''job-123'' (BASE + seconds 3600)) (\<lambda>_.
        run (advance_clock 30 0) (\<lambda>_.
        run look (\<lambda>api.
        report number events_before ''Stale visibility data'' [''STALE_READ'']
          [expect_true ''stale visibility exposed'' (item2 ''freshness'' ''possiblyStale'' api)])))
      else (\<lambda>s. Inl (ValueError (nat_digits (nat number)))))"

definition polling_scenario :: "int \<Rightarrow> scenario_result result" where
  "polling_scenario number =
     outcome (Some polling_config)
       (run state (\<lambda>s. polling_script number (length (en_events (po_engine s)))))"

section \<open>The suite\<close>

definition SCENARIOS :: "(string \<times> scenario_result result) list" where
  "SCENARIOS =
     [(''HP-01'', hp01), (''HP-02'', hp02), (''HP-03'', hp03), (''HP-04'', hp04), (''HP-05'', hp05),
      (''CH-01'', ch01), (''CH-02'', ch02), (''CH-03'', ch03), (''CH-04'', ch04), (''CH-05'', ch05),
      (''CH-06'', ch06), (''CH-07'', ch07), (''CH-08'', ch08), (''CH-09'', ch09), (''CH-10'', ch10),
      (''CH-11'', ch11), (''CH-12'', ch12), (''CH-13'', ch13), (''CH-14'', ch14), (''CH-15'', ch15),
      (''CH-16'', ch16), (''CH-17'', ch17), (''CH-18'', ch18)] @
     map (\<lambda>number. (''POLL-'' @ zero_pad 2 number, polling_scenario (int number))) [1..<13]"

definition CI_SCENARIOS :: "string list" where
  "CI_SCENARIOS =
     [''HP-01'', ''HP-02'', ''HP-03'', ''HP-04'', ''CH-01'', ''CH-03'', ''CH-04'', ''CH-05'', ''CH-07'',
      ''CH-09'', ''CH-13'', ''CH-15'', ''CH-16'', ''POLL-02'', ''POLL-04'', ''POLL-08'', ''POLL-09'',
      ''POLL-10'']"

section \<open>What passing means\<close>

definition passes :: "string \<Rightarrow> scenario_result result \<Rightarrow> bool" where
  "passes i r =
     (case r of Inl err \<Rightarrow> False | Inr x \<Rightarrow> sr_scenario_id x = i \<and> sr_result x = ''PASS'')"

lemma response_items:
  "item ''status'' (response c job now) = Inr (JStr (status_value (derived_status c job now)))"
  "item ''recordedStatus'' (response c job now) = Inr (JStr (status_value (jv_recorded_status job)))"
  "item ''schedulerReference'' (response c job now) = Inr (jopt JStr (jv_scheduler_reference job))"
  "item ''startedAt'' (response c job now) = Inr (jtime (jv_started_at job))"
  "item ''completedAt'' (response c job now) = Inr (jtime (jv_completed_at job))"
  "item ''schedulerRetrievedAt'' (response c job now) = Inr (jtime (jv_scheduler_retrieved_at job))"
  "item ''dataAsOf'' (response c job now) = Inr (jtime (jv_data_as_of job))"
  "item ''version'' (response c job now) = Inr (JInt (jv_version job))"
  "item ''incompleteLifecycle'' (response c job now) = Inr (JBool (jv_incomplete_lifecycle job))"
  "item ''cancellationViolation'' (response c job now) = Inr (JBool (jv_cancellation_violation job))"
  "item ''retriesExhaustedViolation'' (response c job now) = Inr (JBool (jv_retries_exhausted_violation job))"
  "item ''reconciliationFindings'' (response c job now) =
     Inr (JList (map finding_to_dict (dict_values (jv_findings job))))"
  "item2 ''retry'' ''completedAttempts'' (response c job now) = Inr (JInt (completed_attempts job))"
  "item2 ''retry'' ''nextAttemptNumber'' (response c job now) = Inr (jopt JInt (next_attempt_number job))"
  "item2 ''retry'' ''schedulerAcknowledged'' (response c job now) = Inr (JBool (jv_retry_acknowledged job))"
  "item2 ''retry'' ''nextRetryAt'' (response c job now) = Inr (jtime (jv_next_retry_at job))"
  "item2 ''delay'' ''classification'' (response c job now) =
     Inr (jopt (\<lambda>d. JStr (delay_classification_value d)) (delay_of c job now (derived_status c job now)))"
  "item2 ''freshness'' ''possiblyStale'' (response c job now) =
     Inr (JBool (case jv_data_as_of job of None \<Rightarrow> False
       | Some as_of \<Rightarrow> now - as_of > seconds (cf_eventual_consistency_target_seconds c)))"
  "item2 ''freshness'' ''processingDelaySeconds'' (response c job now) =
     Inr (jopt JInt (case (jv_data_as_of job, jv_last_event_time job) of
       (Some as_of, Some last_event) \<Rightarrow> Some (max 0 (int_total_seconds (as_of - last_event)))
     | _ \<Rightarrow> None))"
  by (simp_all add: item_def item2_def response_def Let_def)

lemma any_code_findings:
  "any_code code (map finding_to_dict fs) = Inr (JBool (list_ex (\<lambda>f. fi_code f = code) fs))"
  by (induction fs) (auto simp: item_def finding_to_dict_def)

lemma next_code_findings:
  "bind_result (next_code code (map finding_to_dict fs)) (item ''active'') =
     (case find (\<lambda>f. fi_code f = code) fs of
        None \<Rightarrow> Inl (RuntimeError ''StopIteration'') | Some f \<Rightarrow> Inr (JBool (fi_active f)))"
  by (induction fs) (auto simp: item_def finding_to_dict_def)

lemma response_findings:
  "has_finding code (response c job now) =
     Inr (JBool (list_ex (\<lambda>f. fi_code f = code) (dict_values (jv_findings job))))"
  "bind_result (next_finding code (response c job now)) (item ''active'') =
     (case find (\<lambda>f. fi_code f = code) (dict_values (jv_findings job)) of
        None \<Rightarrow> Inl (RuntimeError ''StopIteration'') | Some f \<Rightarrow> Inr (JBool (fi_active f)))"
  by (simp_all only: has_finding_def next_finding_def response_items any_code_findings
      bind_result.simps json.case next_code_findings)

lemma attempt_statuses:
  "collect_results (item ''status'') (map (\<lambda>k. attempt_to_dict (f k)) ks) =
     Inr (map (\<lambda>k. JStr (at_status (f k))) ks)"
  by (induction ks) (simp_all add: item_def attempt_to_dict_def)

lemma truthy_time [simp]: "json_truthy (jtime t) = (t \<noteq> None)"
proof (cases t)
  case (Some u)
  obtain w where "isoformat_utc u = w @ ''+00:00''"
    unfolding isoformat_utc_def Let_def split_beta append_assoc [symmetric] by blast
  then have "isoformat_utc u \<noteq> []" by simp
  moreover have "str_replace old new' s \<noteq> []" if "s \<noteq> []" "new' \<noteq> []" for old new' s
    using that by (cases s) auto
  ultimately show ?thesis using Some by (simp add: iso_def)
qed simp

text \<open>What it takes to pass, read off the script from its end.\<close>

definition pass_on :: "string \<Rightarrow> scenario_result script \<Rightarrow> polling \<Rightarrow> bool" where
  "pass_on i m s =
     (case m s of Inl err \<Rightarrow> False | Inr (s, r) \<Rightarrow> sr_scenario_id r = i \<and> sr_result r = ''PASS'')"

definition all_passed :: "assertion_result result list \<Rightarrow> bool" where
  "all_passed rs = list_all (\<lambda>r. case r of Inl err \<Rightarrow> False | Inr a \<Rightarrow> ar_passed a) rs"

lemma passes_outcome: "passes i (outcome c m) = pass_on i m (scenario_context c)"
  by (auto simp: passes_def outcome_def pass_on_def split: sum.split)

lemma pass_run:
  "pass_on i (run m f) s = (case m s of Inl err \<Rightarrow> False | Inr (s, x) \<Rightarrow> pass_on i (f x) s)"
  by (auto simp: pass_on_def run_def split: sum.split)

lemma pass_look:
  "pass_on i (run look f) s =
     (case dict_get (en_jobs (po_engine s)) ''job-123'' of
        None \<Rightarrow> False
      | Some job \<Rightarrow> pass_on i (f (response (en_config (po_engine s)) job (po_clock s))) s)"
  by (auto simp: pass_on_def run_def look_def get_response_def split: option.split)

lemma collect_passed:
  "(case collect_results (\<lambda>r. r) rs of Inl err \<Rightarrow> False | Inr items \<Rightarrow> P \<and> list_all ar_passed items) \<longleftrightarrow>
   P \<and> all_passed rs"
proof (induction rs)
  case (Cons r rs)
  then show ?case
    by (cases r; cases "collect_results (\<lambda>r. r) rs") (auto simp: all_passed_def)
qed (simp add: all_passed_def)

lemma pass_attempts:
  "pass_on i (run attempts_now f) s =
     (case dict_get (en_jobs (po_engine s)) ''job-123'' of
        None \<Rightarrow> False
      | Some job \<Rightarrow> pass_on i (f (map (\<lambda>key. attempt_to_dict (the (dict_get (jv_attempts job) key)))
          (sort (dict_keys (jv_attempts job))))) s)"
  by (auto simp: pass_on_def run_def attempts_now_def get_attempts_def split: option.split)

lemma pass_finish:
  "pass_on i (run (checks rs) (\<lambda>items. finish_scenario j name items events faults polls)) s \<longleftrightarrow>
     j = i \<and> dict_get (en_jobs (po_engine s)) ''job-123'' \<noteq> None \<and> all_passed rs"
proof -
  have "pass_on i (finish_scenario j name items events faults polls) s \<longleftrightarrow>
      (j = i \<and> dict_get (en_jobs (po_engine s)) ''job-123'' \<noteq> None) \<and> list_all ar_passed items" for items
    by (auto simp: pass_on_def run_def finish_scenario_def look_def lifted_def get_response_def give_def
        response_items split: option.split)
  then show ?thesis
    by (simp add: pass_run checks_def lifted_def collect_passed [symmetric] split: sum.split)
qed

lemma check_rules:
  "all_passed [] = True"
  "all_passed (expect name r w # rs) = ((case r of Inl err \<Rightarrow> False | Inr v \<Rightarrow> v = w) \<and> all_passed rs)"
  "all_passed (expect_true name r # rs) =
     ((case r of Inl err \<Rightarrow> False | Inr v \<Rightarrow> json_truthy v) \<and> all_passed rs)"
  by (auto simp: all_passed_def expect_def expect_true_def check_equal_def check_true_def split: sum.split)

lemmas verdict = passes_outcome pass_look pass_attempts pass_finish check_rules response_items
  response_findings attempt_statuses truthy_time sum.case bind_result.simps
  pass_run [of _ "run_all ms"] pass_run [of _ "apply_events es"] pass_run [of _ "advance_clock a b"]
  pass_run [of _ reconcile_now] pass_run [of _ state] pass_run [of _ "poll_once rq"]
  pass_run [of _ "apply_version e v"] pass_run [of _ "apply_or_retry e v"]
  pass_run [of _ "scenario_event k i et it f"] pass_run [of _ "add_job i t"] for ms es a b rq e v k i et it f t

lemma hp01_passes: "passes ''HP-01'' hp01"
  by (simp only: hp01_def Let_def verdict) code_simp

lemma hp02_passes: "passes ''HP-02'' hp02"
  by (simp only: hp02_def Let_def verdict) code_simp

lemma hp03_passes: "passes ''HP-03'' hp03"
  by (simp only: hp03_def Let_def verdict) code_simp

lemma hp04_passes: "passes ''HP-04'' hp04"
  by (simp only: hp04_def Let_def verdict) code_simp

lemma hp05_passes: "passes ''HP-05'' hp05"
  by (simp only: hp05_def Let_def verdict) code_simp

lemma ch01_passes: "passes ''CH-01'' ch01"
  by (simp only: ch01_def Let_def verdict) code_simp

lemma ch02_passes: "passes ''CH-02'' ch02"
  by (simp only: ch02_def Let_def verdict) code_simp

lemma ch03_passes: "passes ''CH-03'' ch03"
  by (simp only: ch03_def Let_def verdict) code_simp

lemma ch04_passes: "passes ''CH-04'' ch04"
  by (simp only: ch04_def Let_def verdict) code_simp

lemma ch05_passes: "passes ''CH-05'' ch05"
  by (simp only: ch05_def Let_def verdict) code_simp

lemma ch06_passes: "passes ''CH-06'' ch06"
  by (simp only: ch06_def Let_def verdict) code_simp

lemma ch07_passes: "passes ''CH-07'' ch07"
  by (simp only: ch07_def Let_def verdict) code_simp

lemma ch08_passes: "passes ''CH-08'' ch08"
  by (simp only: ch08_def Let_def verdict) code_simp

lemma ch09_passes: "passes ''CH-09'' ch09"
  by (simp only: ch09_def Let_def verdict) code_simp

lemma ch10_passes: "passes ''CH-10'' ch10"
  by (simp only: ch10_def Let_def verdict) code_simp

lemma ch11_passes: "passes ''CH-11'' ch11"
  by (simp only: ch11_def Let_def verdict) code_simp

lemma ch12_passes: "passes ''CH-12'' ch12"
  by (simp only: ch12_def Let_def verdict) code_simp

lemma ch13_passes: "passes ''CH-13'' ch13"
  by (simp only: ch13_def Let_def verdict) code_simp

lemma ch14_passes: "passes ''CH-14'' ch14"
  by (simp only: ch14_def Let_def verdict) code_simp

lemma ch15_passes: "passes ''CH-15'' ch15"
  by (simp only: ch15_def Let_def verdict) code_simp

lemma ch16_passes: "passes ''CH-16'' ch16"
  by (simp only: ch16_def Let_def verdict) code_simp

lemma ch17_passes: "passes ''CH-17'' ch17"
  by (simp only: ch17_def Let_def verdict) code_simp

lemma ch18_passes: "passes ''CH-18'' ch18"
  by (simp only: ch18_def Let_def verdict) code_simp

lemmas polling_verdict = polling_scenario_def polling_script_def report_def if_True if_False
  numeral_eq_iff one_eq_numeral_iff numeral_eq_one_iff num.distinct num.inject insert_iff empty_iff simp_thms

lemma polling_1_passes: "passes (''POLL-'' @ zero_pad 2 1) (polling_scenario 1)"
  by (simp only: polling_verdict Let_def verdict) code_simp

lemma polling_2_passes: "passes (''POLL-'' @ zero_pad 2 2) (polling_scenario 2)"
  by (simp only: polling_verdict Let_def verdict) code_simp

lemma polling_3_passes: "passes (''POLL-'' @ zero_pad 2 3) (polling_scenario 3)"
  by (simp only: polling_verdict Let_def verdict) code_simp

lemma polling_4_passes: "passes (''POLL-'' @ zero_pad 2 4) (polling_scenario 4)"
  by (simp only: polling_verdict Let_def verdict) code_simp

lemma polling_5_passes: "passes (''POLL-'' @ zero_pad 2 5) (polling_scenario 5)"
  by (simp only: polling_verdict Let_def verdict) code_simp

lemma polling_6_passes: "passes (''POLL-'' @ zero_pad 2 6) (polling_scenario 6)"
  by (simp only: polling_verdict Let_def verdict) code_simp

lemma polling_7_passes: "passes (''POLL-'' @ zero_pad 2 7) (polling_scenario 7)"
  by (simp only: polling_verdict Let_def verdict) code_simp

lemma polling_8_passes: "passes (''POLL-'' @ zero_pad 2 8) (polling_scenario 8)"
  by (simp only: polling_verdict Let_def verdict) code_simp

lemma polling_9_passes: "passes (''POLL-'' @ zero_pad 2 9) (polling_scenario 9)"
  by (simp only: polling_verdict Let_def verdict) code_simp

lemma polling_10_passes: "passes (''POLL-'' @ zero_pad 2 10) (polling_scenario 10)"
  by (simp only: polling_verdict Let_def verdict) code_simp

lemma polling_11_passes: "passes (''POLL-'' @ zero_pad 2 11) (polling_scenario 11)"
  by (simp only: polling_verdict Let_def verdict) code_simp

lemma polling_12_passes: "passes (''POLL-'' @ zero_pad 2 12) (polling_scenario 12)"
  by (simp only: polling_verdict Let_def verdict) code_simp

section \<open>The whole suite passes\<close>

lemma suite:
  "SCENARIOS =
     [(''HP-01'', hp01), (''HP-02'', hp02), (''HP-03'', hp03), (''HP-04'', hp04), (''HP-05'', hp05),
      (''CH-01'', ch01), (''CH-02'', ch02), (''CH-03'', ch03), (''CH-04'', ch04), (''CH-05'', ch05),
      (''CH-06'', ch06), (''CH-07'', ch07), (''CH-08'', ch08), (''CH-09'', ch09), (''CH-10'', ch10),
      (''CH-11'', ch11), (''CH-12'', ch12), (''CH-13'', ch13), (''CH-14'', ch14), (''CH-15'', ch15),
      (''CH-16'', ch16), (''CH-17'', ch17), (''CH-18'', ch18)] @
     map (\<lambda>n. (''POLL-'' @ zero_pad 2 n, polling_scenario (int n))) [1, 2, 3, 4, 5, 6, 7, 8, 9, 10, 11, 12]"
proof -
  have "[1..<13] = [1, 2, 3, 4, 5, 6, 7, 8, 9, 10, 11, 12 :: nat]" by code_simp
  then show ?thesis by (simp only: SCENARIOS_def)
qed

lemmas happy_paths_pass = hp01_passes hp02_passes hp03_passes hp04_passes hp05_passes

lemmas disorder_passes = ch01_passes ch02_passes ch03_passes ch04_passes ch05_passes ch06_passes
  ch07_passes ch08_passes ch09_passes ch10_passes ch11_passes ch12_passes ch13_passes ch14_passes
  ch15_passes ch16_passes ch17_passes ch18_passes

lemmas polling_passes = polling_1_passes polling_2_passes polling_3_passes polling_4_passes
  polling_5_passes polling_6_passes polling_7_passes polling_8_passes polling_9_passes
  polling_10_passes polling_11_passes polling_12_passes

text \<open>
  Every scenario of the suite, the happy paths, the disorder scenarios and the polling scenarios,
  runs to its end without an exception and passes all of its checks.
\<close>

lemma every_scenario_passes: "list_all (\<lambda>(i, r). passes i r) SCENARIOS"
  by (simp only: suite list.pred_inject list_all_append list.map prod.case of_nat_numeral of_nat_1
      happy_paths_pass disorder_passes polling_passes simp_thms)

end
