(* ===== verification/Python_Numbers.thy ===== *)
theory Python_Numbers
  imports Json_Values "HOL-Library.Log_Nat"
begin

text \<open>
  How the program reads numbers out of its environment: Python's \<open>int(s)\<close> and \<open>float(s)\<close> on text,
  with IEEE double precision, and the string methods \<open>strip\<close>, \<open>split\<close> and \<open>lower\<close> around them.
  Characters are code points below 256.
\<close>

section \<open>Strings\<close>

definition strip_by :: "(char \<Rightarrow> bool) \<Rightarrow> string \<Rightarrow> string" where
  "strip_by P s = rev (dropWhile P (rev (dropWhile P s)))"

text \<open>\<open>s.strip()\<close>\<close>

definition py_space :: "char \<Rightarrow> bool" where
  "py_space c = (of_char c \<in> {9, 10, 11, 12, 13, 28, 29, 30, 31, 32, 133, 160 :: nat})"

definition py_strip :: "string \<Rightarrow> string" where
  "py_strip = strip_by py_space"

text \<open>\<open>s.split(c)\<close> of a single character\<close>

fun py_split :: "char \<Rightarrow> string \<Rightarrow> string list" where
  "py_split sep [] = [[]]"
| "py_split sep (c # s) =
     (if c = sep then [] # py_split sep s
      else case py_split sep s of [] \<Rightarrow> [[c]] | w # ws \<Rightarrow> (c # w) # ws)"

text \<open>\<open>s.lower()\<close>\<close>

definition py_lower_char :: "char \<Rightarrow> char" where
  "py_lower_char c =
     (let n = of_char c :: nat
      in if 65 \<le> n \<and> n \<le> 90 \<or> 192 \<le> n \<and> n \<le> 222 \<and> n \<noteq> 215 then char_of (n + 32) else c)"

definition py_lower :: "string \<Rightarrow> string" where
  "py_lower = map py_lower_char"

section \<open>Integers\<close>

text \<open>The white space the number readers skip, which is less than that of \<open>strip\<close>.\<close>

definition number_space :: "char \<Rightarrow> bool" where
  "number_space c = (of_char c \<in> {9, 10, 11, 12, 13, 32, 133, 160 :: nat})"

definition decimal :: "char \<Rightarrow> bool" where
  "decimal c = (48 \<le> (of_char c :: nat) \<and> (of_char c :: nat) \<le> 57)"

definition decimal_value :: "string \<Rightarrow> nat" where
  "decimal_value ds = foldl (\<lambda>n c. 10 * n + (of_char c - 48)) 0 ds"

text \<open>An underscore may stand between two digits.\<close>

fun drop_underscores :: "bool \<Rightarrow> string \<Rightarrow> string option" where
  "drop_underscores after_digit [] = Some []"
| "drop_underscores after_digit (c # s) =
     (if c = CHR ''_''
      then (case s of
              [] \<Rightarrow> None
            | d # s' \<Rightarrow> if after_digit \<and> decimal d then drop_underscores False s else None)
      else map_option (Cons c) (drop_underscores (decimal c) s))"

definition split_sign :: "string \<Rightarrow> bool \<times> string" where
  "split_sign s =
     (case s of
        [] \<Rightarrow> (False, [])
      | c # t \<Rightarrow> if c = CHR ''-'' then (True, t) else if c = CHR ''+'' then (False, t) else (False, s))"

definition max_str_digits :: nat where
  "max_str_digits = 4300"

definition py_int :: "string \<Rightarrow> int option" where
  "py_int s =
     (case drop_underscores False (strip_by number_space s) of
        None \<Rightarrow> None
      | Some t \<Rightarrow>
          (case split_sign t of
             (negative, ds) \<Rightarrow>
               if ds \<noteq> [] \<and> list_all decimal ds \<and> length ds \<le> max_str_digits
               then Some (if negative then - int (decimal_value ds) else int (decimal_value ds))
               else None))"

section \<open>Floats\<close>

text \<open>A double is its value; the two zeros are one, as every comparison has it.\<close>

datatype pyfloat = Fin rat | PInf | NInf | NaN

text \<open>The exponent of the greatest power of two that a positive number reaches.\<close>

definition binary_exponent :: "rat \<Rightarrow> int" where
  "binary_exponent q =
     (case quotient_of q of
        (n, d) \<Rightarrow> let k = bitlen n - bitlen d in if q < 2 powi k then k - 1 else k)"

definition half_even :: "rat \<Rightarrow> int" where
  "half_even q =
     (let f = \<lfloor>q\<rfloor>; r = q - of_int f
      in if r < 1 / 2 \<or> r = 1 / 2 \<and> even f then f else f + 1)"

text \<open>Rounding to the nearest double, ties to even; subnormals below and infinities above.\<close>

definition round_double :: "rat \<Rightarrow> pyfloat" where
  "round_double q =
     (if q = 0 then Fin 0
      else
        (let e = max (binary_exponent \<bar>q\<bar> - 52) (- 1074);
             v = of_int (half_even (\<bar>q\<bar> / 2 powi e)) * 2 powi e
         in if 2 ^ 1024 \<le> v then (if q < 0 then NInf else PInf) else Fin (sgn q * v)))"

definition float_literal :: "string \<Rightarrow> rat option" where
  "float_literal s =
     (let whole = takeWhile decimal s;
          rest = dropWhile decimal s;
          (fraction, rest) =
            (case rest of
               c # t \<Rightarrow> if c = CHR ''.'' then (takeWhile decimal t, dropWhile decimal t) else ([], rest)
             | [] \<Rightarrow> ([], rest));
          mantissa = of_nat (decimal_value (whole @ fraction)) / 10 ^ length fraction :: rat
      in if whole @ fraction = [] then None
         else
           (case rest of
              [] \<Rightarrow> Some mantissa
            | c # t \<Rightarrow>
                if c \<noteq> CHR ''e'' \<and> c \<noteq> CHR ''E'' then None
                else
                  (case split_sign t of
                     (negative, ds) \<Rightarrow>
                       if ds = [] \<or> \<not> list_all decimal ds then None
                       else if negative then Some (mantissa / 10 ^ decimal_value ds)
                       else Some (mantissa * 10 ^ decimal_value ds))))"

definition py_float :: "string \<Rightarrow> pyfloat option" where
  "py_float s =
     (case drop_underscores False (strip_by number_space s) of
        None \<Rightarrow> None
      | Some t \<Rightarrow>
          (case split_sign t of
             (negative, u) \<Rightarrow>
               if py_lower u \<in> {''inf'', ''infinity''} then Some (if negative then NInf else PInf)
               else if py_lower u = ''nan'' then Some NaN
               else map_option (\<lambda>q. round_double (if negative then - q else q)) (float_literal u)))"

text \<open>\<open>x > y\<close>, false when either is not a number, and a product.\<close>

fun float_gt :: "pyfloat \<Rightarrow> pyfloat \<Rightarrow> bool" where
  "float_gt (Fin p) (Fin q) = (q < p)"
| "float_gt PInf (Fin q) = True"
| "float_gt PInf NInf = True"
| "float_gt (Fin q) NInf = True"
| "float_gt _ _ = False"

fun float_times :: "pyfloat \<Rightarrow> rat \<Rightarrow> pyfloat" where
  "float_times (Fin p) q = round_double (p * q)"
| "float_times PInf q = (if 0 < q then PInf else if q < 0 then NInf else NaN)"
| "float_times NInf q = (if 0 < q then NInf else if q < 0 then PInf else NaN)"
| "float_times NaN q = NaN"

section \<open>Exact doubles\<close>

lemma binary_exponent_le: "2 powi binary_exponent q \<le> q" if "0 < q"
proof -
  obtain n d where nd: "quotient_of q = (n, d)" by fastforce
  have d: "0 < d" using quotient_of_denom_pos [OF nd] .
  have q: "q = of_int n / of_int d" using quotient_of_div [OF nd] .
  then have n: "0 < n" using that d by (simp add: zero_less_divide_iff)
  let ?k = "bitlen n - bitlen d"
  have bn: "1 \<le> bitlen n" "1 \<le> bitlen d" using n d by (simp_all add: bitlen_alt_def)
  have "(2 :: rat) ^ nat (bitlen n - 1) \<le> of_int n"
    using bitlen_bounds [OF n] by (metis of_int_le_iff of_int_numeral of_int_power)
  moreover have "of_int d \<le> (2 :: rat) ^ nat (bitlen d)"
    using bitlen_bounds [OF d] by (metis less_imp_le of_int_le_iff of_int_numeral of_int_power)
  ultimately have "(2 :: rat) ^ nat (bitlen n - 1) / 2 ^ nat (bitlen d) \<le> q"
    unfolding q using d n by (intro frac_le) auto
  moreover have k: "?k - 1 = int (nat (bitlen n - 1)) - int (nat (bitlen d))" using bn by simp
  have "(2 :: rat) powi (?k - 1) = 2 ^ nat (bitlen n - 1) / 2 ^ nat (bitlen d)"
    unfolding k by (subst power_int_diff) (simp, simp only: power_int_of_nat)
  ultimately have "2 powi (?k - 1) \<le> q" by simp
  then show ?thesis by (simp add: binary_exponent_def nd Let_def)
qed

lemma half_even_of_int [simp]: "half_even (of_int n) = n"
  by (simp add: half_even_def)

lemma round_double_exact: "round_double q = Fin q"
  if "q \<noteq> 0" "\<bar>q\<bar> < 2 ^ 1024" "e = max (binary_exponent \<bar>q\<bar> - 52) (- 1074)"
    "of_int (half_even (\<bar>q\<bar> / 2 powi e)) * 2 powi e = \<bar>q\<bar>"
proof -
  have "\<not> 2 ^ 1024 \<le> \<bar>q\<bar>" using that(2) by (rule less_le_not_le [THEN iffD1, THEN conjunct2])
  then show ?thesis
    unfolding round_double_def Let_def that(3) [symmetric] that(4) if_not_P [OF that(1)]
    by (simp only: if_False sgn_mult_abs)
qed

lemma round_double_dyadic:
  assumes "\<bar>n\<bar> < 2 ^ 53" "k \<le> 1074"
  shows "round_double (of_int n / 2 ^ k) = Fin (of_int n / 2 ^ k)"
proof (cases "n = 0")
  case False
  let ?q = "\<bar>of_int n / 2 ^ k :: rat\<bar>"
  have q: "?q = of_int \<bar>n\<bar> / 2 ^ k" by simp
  have pos: "0 < ?q" using False by simp
  have small: "?q < 2 powi (53 - int k)"
  proof -
    have "of_int \<bar>n\<bar> < (2 :: rat) ^ 53" using assms(1) by (metis of_int_less_iff of_int_numeral of_int_power)
    then have "?q < 2 ^ 53 / 2 ^ k" unfolding q by (intro divide_strict_right_mono) auto
    also have "2 ^ 53 / 2 ^ k = (2 :: rat) powi (53 - int k)"
      by (subst power_int_diff) simp_all
    finally show ?thesis .
  qed
  define e where "e = max (binary_exponent ?q - 52) (- 1074)"
  have "(2 :: rat) powi binary_exponent ?q < 2 powi (53 - int k)"
    using binary_exponent_le [OF pos] small by linarith
  then have "binary_exponent ?q < 53 - int k" 
    using power_int_increasing [of "53 - int k" "binary_exponent ?q" "2 :: rat"] by force
  then have "e \<le> - int k" using assms(2) by (simp add: e_def)
  then obtain j where j: "- e = int k + int j" using zle_iff_zadd [of "int k" "- e"] by auto
  have "?q / 2 powi e = ?q * 2 powi (- e)" by (simp add: power_int_minus divide_inverse)
  also have "\<dots> = of_int (\<bar>n\<bar> * 2 ^ j)" unfolding j q by (simp add: power_int_add)
  finally have whole: "?q / 2 powi e = of_int (\<bar>n\<bar> * 2 ^ j)" .
  then have v: "of_int (half_even (?q / 2 powi e)) * 2 powi e = ?q"
    by (metis half_even_of_int nonzero_divide_eq_eq power_int_eq_0_iff zero_neq_numeral)
  have "(2 :: rat) powi (53 - int k) \<le> 2 powi int 1024" by (intro power_int_increasing) auto
  then have "?q < 2 ^ 1024" using small unfolding power_int_of_nat by linarith
  then show ?thesis using False v by (intro round_double_exact [OF _ _ e_def]) simp_all
qed (simp add: round_double_def)

lemma float_integer: "round_double (of_nat n) = Fin (of_nat n)" if "n < 2 ^ 53"
  using round_double_dyadic [of "int n" 0] that by simp

lemma float_half: "round_double (1 / 2) = Fin (1 / 2)"
  using round_double_dyadic [of 1 1] by simp

section \<open>Numbers print and read back\<close>

lemma digit_char_value: "n < 10 \<Longrightarrow> of_char (digit_char n) = (48 + n :: nat)"
  by (simp add: digit_char_def)

lemma decimal_digit: "n < 10 \<Longrightarrow> decimal (digit_char n)"
  by (simp add: decimal_def digit_char_value)

lemma nat_digits_decimal: "list_all decimal (nat_digits n)"
  by (induction n rule: nat_digits.induct) (subst nat_digits.simps, simp add: decimal_digit)

lemma nat_digits_not_Nil: "nat_digits n \<noteq> []"
  by (subst nat_digits.simps) simp

lemma nat_digits_value: "decimal_value (nat_digits n) = n"
proof (induction n rule: nat_digits.induct)
  case (1 n)
  show ?case
  proof (cases "n < 10")
    case True
    then show ?thesis by (subst nat_digits.simps) (simp add: decimal_value_def digit_char_value)
  next
    case False
    then have "decimal_value (nat_digits n) =
        10 * decimal_value (nat_digits (n div 10)) + (of_char (digit_char (n mod 10)) - 48)"
      by (subst nat_digits.simps) (simp add: decimal_value_def)
    also have "\<dots> = n" using 1 False by (simp add: digit_char_value)
    finally show ?thesis .
  qed
qed

lemma length_nat_digits: "n < 10 ^ k \<Longrightarrow> 0 < k \<Longrightarrow> length (nat_digits n) \<le> k"
proof (induction n arbitrary: k rule: nat_digits.induct)
  case (1 n)
  show ?case
  proof (cases "n < 10")
    case True
    then show ?thesis using 1(3) by (subst nat_digits.simps) simp
  next
    case False
    then obtain j where j: "k = Suc j" "0 < j" using 1(2,3) by (cases k; cases "k - 1") auto
    then have "n div 10 < 10 ^ j" using 1(2) by (simp add: less_mult_imp_div_less mult.commute)
    then show ?thesis using 1(1) False j by (subst nat_digits.simps) simp
  qed
qed

lemma decimal_chars:
  assumes "decimal c"
  shows "\<not> number_space c" "c \<noteq> CHR ''_''" "c \<noteq> CHR ''-''" "c \<noteq> CHR ''+''" 
    "py_lower_char c \<notin> {CHR ''i'', CHR ''n''}"
  using assms by (auto simp: decimal_def number_space_def py_lower_char_def)

lemma dropWhile_none: "list_all (\<lambda>c. \<not> P c) s \<Longrightarrow> dropWhile P s = s"
  by (cases s) auto

lemma strip_by_none: "list_all (\<lambda>c. \<not> P c) s \<Longrightarrow> strip_by P s = s"
  by (simp add: strip_by_def dropWhile_none list_all_rev)

lemma drop_underscores_none: "CHR ''_'' \<notin> set s \<Longrightarrow> drop_underscores b s = Some s"
  by (induction s arbitrary: b) auto

lemma plain_number:
  assumes "list_all decimal ds" "ds \<noteq> []"
  shows "drop_underscores False (strip_by number_space ds) = Some ds" "split_sign ds = (False, ds)"
    "py_lower ds \<notin> {''inf'', ''infinity''}" "py_lower ds \<noteq> ''nan''"
    "float_literal ds = Some (of_nat (decimal_value ds))"
proof -
  have "strip_by number_space ds = ds"
    using assms(1) by (intro strip_by_none) (auto simp: list_all_iff decimal_chars)
  moreover have "CHR ''_'' \<notin> set ds" using assms(1) decimal_chars(2) by (auto simp: list_all_iff)
  ultimately show "drop_underscores False (strip_by number_space ds) = Some ds"
    by (simp add: drop_underscores_none)
  obtain c s where ds: "ds = c # s" using assms(2) by (cases ds) auto
  then have c: "decimal c" using assms(1) by simp
  show "split_sign ds = (False, ds)" using decimal_chars [OF c] by (simp add: ds split_sign_def)
  show "py_lower ds \<notin> {''inf'', ''infinity''}" "py_lower ds \<noteq> ''nan''"
    using decimal_chars(5) [OF c] by (auto simp: ds py_lower_def)
  have all: "takeWhile decimal ds = ds" "dropWhile decimal ds = []"
    using assms(1) by (simp_all add: list_all_iff)
  show "float_literal ds = Some (of_nat (decimal_value ds))"
    unfolding float_literal_def Let_def all using assms(2) by simp
qed

text \<open>
  Settings printed in decimal read back: the integer reader returns every number of at most 4300
  digits exactly and refuses longer ones, and the float reader returns every number below 2 to the 53
  exactly, without rounding.
\<close>

theorem decimal_settings_read_back:
  "py_int (nat_digits n) = (if length (nat_digits n) \<le> 4300 then Some (int n) else None) \<and>
   (n < 2 ^ 53 \<longrightarrow> py_float (nat_digits n) = Some (Fin (of_nat n)))"
proof -
  note ds = plain_number [OF nat_digits_decimal nat_digits_not_Nil, of n]
  have "py_int (nat_digits n) = (if length (nat_digits n) \<le> 4300 then Some (int n) else None)"
    using ds by (simp add: py_int_def nat_digits_decimal nat_digits_not_Nil nat_digits_value max_str_digits_def)
  moreover have "py_float (nat_digits n) = Some (Fin (of_nat n))" if "n < 2 ^ 53"
    using ds float_integer [OF that] by (simp add: py_float_def nat_digits_value)
  ultimately show ?thesis by blast
qed

theorem decimal_settings_read_back_witness:
  "py_float (nat_digits 15000) = Some (Fin 15000)"
  using decimal_settings_read_back [of 15000] by simp

end
