(* ===== verification/Configuration.thy ===== *)
theory Configuration
  imports Python_Numbers
begin

text \<open>
  The runtime configuration of \<open>src/job_visibility/config.py\<close>: the validated groups, the loaders of
  the single processes and the loader of the whole configuration. \<open>gt_zero\<close> is pydantic's check of
  \<open>gt=0\<close> on floats, and \<open>locate\<close> is \<open>urlsplit\<close>; both are arguments.
\<close>

section \<open>Validation\<close>

type_synonym environ = "string \<Rightarrow> string option"

text \<open>
  A pydantic group refuses with the names of the fields out of bounds; when all are in bounds its
  after-validator raises the message of the first condition that holds.
\<close>

definition construct :: "(string \<times> bool) list \<Rightarrow> (string \<times> bool) list \<Rightarrow> 'a \<Rightarrow> 'a result" where
  "construct fields refusals x =
     (let wrong = filter (\<lambda>(name, ok). \<not> ok) fields
      in if wrong \<noteq> [] then Inl (ValidationError (map fst wrong))
         else
           (case filter snd refusals of
              [] \<Rightarrow> Inr x
            | (message, holds) # _ \<Rightarrow> Inl (ValidationError [message])))"

lemma construct_Inr_iff:
  "construct fields refusals x = Inr y \<longleftrightarrow>
     y = x \<and> list_all snd fields \<and> list_all (\<lambda>r. \<not> snd r) refusals"
proof (cases "filter snd refusals")
  case Nil
  then have "list_all (\<lambda>r. \<not> snd r) refusals" by (simp add: filter_empty_conv list_all_iff)
  moreover have "filter (\<lambda>(name, ok). \<not> ok) fields = [] \<longleftrightarrow> list_all snd fields"
    by (induction fields) auto
  ultimately show ?thesis using Nil by (auto simp: construct_def Let_def)
next
  case (Cons r rs)
  then show ?thesis by (auto simp: construct_def Let_def filter_eq_Cons_iff split: prod.splits)
qed

lemma construct_Inl: "construct fields refusals x = Inl err \<Longrightarrow> \<exists>ms. err = ValidationError ms"
  by (auto simp: construct_def Let_def split: if_splits list.splits)

text \<open>\<open>except ValueError\<close>; the errors of pydantic and of this module are value errors.\<close>

definition is_value_error :: "exn \<Rightarrow> bool" where
  "is_value_error err =
     (case err of
        ValueError m \<Rightarrow> True | ConfigurationError m \<Rightarrow> True | ValidationError ms \<Rightarrow> True | _ \<Rightarrow> False)"

definition value_error_as :: "exn \<Rightarrow> 'a result \<Rightarrow> 'a result" where
  "value_error_as err r =
     (case r of Inr x \<Rightarrow> Inr x | Inl e \<Rightarrow> if is_value_error e then Inl err else Inl e)"

section \<open>The groups\<close>

record database_config =
  dc_url :: string
  dc_pool_size :: int
  dc_max_overflow :: int
  dc_pool_timeout_seconds :: pyfloat
  dc_connect_timeout_seconds :: int
  dc_statement_timeout_ms :: int
  dc_lock_timeout_ms :: int
  dc_idle_transaction_timeout_ms :: int
  dc_transaction_timeout_ms :: int

definition database_config_of :: "(pyfloat \<Rightarrow> bool) \<Rightarrow> database_config \<Rightarrow> database_config result" where
  "database_config_of gt_zero c =
     construct
       [(''pool_size'', 1 \<le> dc_pool_size c),
        (''max_overflow'', 0 \<le> dc_max_overflow c),
        (''pool_timeout_seconds'', gt_zero (dc_pool_timeout_seconds c)),
        (''connect_timeout_seconds'', 1 \<le> dc_connect_timeout_seconds c),
        (''statement_timeout_ms'', 1 \<le> dc_statement_timeout_ms c),
        (''lock_timeout_ms'', 1 \<le> dc_lock_timeout_ms c),
        (''idle_transaction_timeout_ms'', 1 \<le> dc_idle_transaction_timeout_ms c),
        (''transaction_timeout_ms'', 1 \<le> dc_transaction_timeout_ms c)]
       [(''database lock timeout cannot exceed statement timeout'',
         dc_lock_timeout_ms c > dc_statement_timeout_ms c),
        (''database statement timeout cannot exceed transaction timeout'',
         dc_statement_timeout_ms c > dc_transaction_timeout_ms c)] c"

record kafka_config =
  kc_bootstrap_servers :: string
  kc_edr_topic :: string
  kc_edr_dlq_topic :: string
  kc_consumer_group :: string
  kc_schema_registry_url :: string
  kc_socket_timeout_ms :: int
  kc_request_timeout_ms :: int
  kc_delivery_timeout_ms :: int
  kc_metadata_timeout_ms :: int
  kc_flush_timeout_seconds :: pyfloat
  kc_schema_registry_connect_timeout_seconds :: pyfloat
  kc_schema_registry_read_timeout_seconds :: pyfloat

definition kafka_config_of :: "(pyfloat \<Rightarrow> bool) \<Rightarrow> kafka_config \<Rightarrow> kafka_config result" where
  "kafka_config_of gt_zero c =
     construct
       [(''socket_timeout_ms'', 1 \<le> kc_socket_timeout_ms c),
        (''request_timeout_ms'', 1 \<le> kc_request_timeout_ms c),
        (''delivery_timeout_ms'', 1 \<le> kc_delivery_timeout_ms c),
        (''metadata_timeout_ms'', 1 \<le> kc_metadata_timeout_ms c),
        (''flush_timeout_seconds'', gt_zero (kc_flush_timeout_seconds c)),
        (''schema_registry_connect_timeout_seconds'',
         gt_zero (kc_schema_registry_connect_timeout_seconds c)),
        (''schema_registry_read_timeout_seconds'', gt_zero (kc_schema_registry_read_timeout_seconds c))]
       [(''Kafka request timeout cannot exceed delivery timeout'',
         kc_request_timeout_ms c > kc_delivery_timeout_ms c),
        (''Kafka flush timeout cannot exceed delivery timeout'',
         float_gt (float_times (kc_flush_timeout_seconds c) 1000) (Fin (of_int (kc_delivery_timeout_ms c))))] c"

record cassandra_config =
  ca_contact_points :: "string list"
  ca_port :: int
  ca_keyspace :: string
  ca_consistency :: string
  ca_request_timeout_ms :: int
  ca_execution_timeout_ms :: int
  ca_max_record_count :: int
  ca_max_input_number :: int
  ca_page_size :: int
  ca_read_concurrency :: int
  ca_max_processing_delay_ms :: int
  ca_conditional_retry_limit :: int

definition cassandra_config_of :: "cassandra_config \<Rightarrow> cassandra_config result" where
  "cassandra_config_of c =
     construct
       [(''port'', 1 \<le> ca_port c \<and> ca_port c \<le> 65535),
        (''request_timeout_ms'', 1 \<le> ca_request_timeout_ms c),
        (''execution_timeout_ms'', 1 \<le> ca_execution_timeout_ms c),
        (''max_record_count'', 1 \<le> ca_max_record_count c),
        (''max_input_number'', 0 \<le> ca_max_input_number c),
        (''page_size'', 1 \<le> ca_page_size c),
        (''read_concurrency'', 1 \<le> ca_read_concurrency c),
        (''max_processing_delay_ms'', 0 \<le> ca_max_processing_delay_ms c),
        (''conditional_retry_limit'', 0 \<le> ca_conditional_retry_limit c)]
       [(''request timeout cannot exceed the whole-execution timeout'',
         ca_request_timeout_ms c > ca_execution_timeout_ms c),
        (''page size cannot exceed the maximum record count'',
         ca_page_size c > ca_max_record_count c)] c"

record scheduler_tuning =
  st_batch_size :: int
  st_claim_lease_seconds :: int
  st_poll_interval_seconds :: pyfloat
  st_recovery_batch_size :: int

definition scheduler_tuning_of :: "(pyfloat \<Rightarrow> bool) \<Rightarrow> scheduler_tuning \<Rightarrow> scheduler_tuning result" where
  "scheduler_tuning_of gt_zero c =
     construct
       [(''batch_size'', 1 \<le> st_batch_size c),
        (''claim_lease_seconds'', 1 \<le> st_claim_lease_seconds c),
        (''poll_interval_seconds'', gt_zero (st_poll_interval_seconds c)),
        (''recovery_batch_size'', 1 \<le> st_recovery_batch_size c)] [] c"

record outbox_tuning =
  ot_batch_size :: int
  ot_retry_initial_seconds :: pyfloat
  ot_retry_max_seconds :: pyfloat

definition outbox_tuning_of :: "(pyfloat \<Rightarrow> bool) \<Rightarrow> outbox_tuning \<Rightarrow> outbox_tuning result" where
  "outbox_tuning_of gt_zero c =
     construct
       [(''batch_size'', 1 \<le> ot_batch_size c),
        (''retry_initial_seconds'', gt_zero (ot_retry_initial_seconds c)),
        (''retry_max_seconds'', gt_zero (ot_retry_max_seconds c))]
       [(''initial outbox retry cannot exceed maximum retry'',
         float_gt (ot_retry_initial_seconds c) (ot_retry_max_seconds c))] c"

record sink_tuning =
  sk_batch_size :: int
  sk_max_retries :: int
  sk_retry_backoff_ms :: int

definition sink_tuning_of :: "sink_tuning \<Rightarrow> sink_tuning result" where
  "sink_tuning_of c =
     construct
       [(''batch_size'', 1 \<le> sk_batch_size c), (''max_retries'', 0 \<le> sk_max_retries c),
        (''retry_backoff_ms'', 1 \<le> sk_retry_backoff_ms c)] [] c"

record projection_tuning =
  pt_batch_size :: int

definition projection_tuning_of :: "projection_tuning \<Rightarrow> projection_tuning result" where
  "projection_tuning_of c = construct [(''batch_size'', 1 \<le> pt_batch_size c)] [] c"

record reconciliation_tuning =
  rt_batch_size :: int
  rt_interval_seconds :: int

definition reconciliation_tuning_of :: "reconciliation_tuning \<Rightarrow> reconciliation_tuning result" where
  "reconciliation_tuning_of c =
     construct [(''batch_size'', 1 \<le> rt_batch_size c), (''interval_seconds'', 1 \<le> rt_interval_seconds c)] [] c"

record observability_tuning =
  ov_oldest_due_seconds :: int
  ov_oldest_outbox_seconds :: int
  ov_oldest_unprojected_seconds :: int
  ov_dlq_growth_limit :: int

definition observability_tuning_of :: "observability_tuning \<Rightarrow> observability_tuning result" where
  "observability_tuning_of c =
     construct
       [(''oldest_due_seconds'', 1 \<le> ov_oldest_due_seconds c),
        (''oldest_outbox_seconds'', 1 \<le> ov_oldest_outbox_seconds c),
        (''oldest_unprojected_seconds'', 1 \<le> ov_oldest_unprojected_seconds c),
        (''dlq_growth_limit'', 0 \<le> ov_dlq_growth_limit c)] [] c"

record app_config =
  ac_scheduler_database :: database_config
  ac_edr_database :: database_config
  ac_kafka :: kafka_config
  ac_cassandra :: cassandra_config
  ac_scheduler :: scheduler_tuning
  ac_outbox :: outbox_tuning
  ac_sink :: sink_tuning
  ac_projection :: projection_tuning
  ac_reconciliation :: reconciliation_tuning
  ac_observability :: observability_tuning

section \<open>Logical databases\<close>

text \<open>
  What \<open>urlsplit\<close> answers: the scheme, the host name, the reading of the port, which may raise, and
  the path after \<open>unquote\<close>.
\<close>

record url_parts =
  up_scheme :: string
  up_hostname :: "string option"
  up_port :: "int option result"
  up_path :: string

type_synonym url_reader = "string \<Rightarrow> url_parts result"

type_synonym logical_id = "string \<times> string \<times> int option \<times> string"

definition logical_database :: "url_reader \<Rightarrow> string \<Rightarrow> logical_id result" where
  "logical_database locate url =
     bind_result (locate url) (\<lambda>parsed.
       let database = strip_by (\<lambda>c. c = CHR ''/'') (up_path parsed)
       in case up_hostname parsed of
            None \<Rightarrow> Inl (ConfigurationError ''database URLs must include scheme, host, and database name'')
          | Some host \<Rightarrow>
              if up_scheme parsed = [] \<or> host = [] \<or> database = []
              then Inl (ConfigurationError ''database URLs must include scheme, host, and database name'')
              else bind_result (up_port parsed) (\<lambda>port.
                     Inr (py_lower (up_scheme parsed), py_lower host, port, database)))"

text \<open>A value error inside the after-validator becomes a \<open>ValidationError\<close>.\<close>

definition message_of :: "exn \<Rightarrow> string list" where
  "message_of err =
     (case err of ValueError m \<Rightarrow> [m] | ConfigurationError m \<Rightarrow> [m] | ValidationError ms \<Rightarrow> ms | _ \<Rightarrow> [])"

definition in_validator :: "'a result \<Rightarrow> 'a result" where
  "in_validator r =
     (case r of
        Inr x \<Rightarrow> Inr x
      | Inl e \<Rightarrow> if is_value_error e then Inl (ValidationError (message_of e)) else Inl e)"

definition enforce_database_ownership :: "url_reader \<Rightarrow> app_config \<Rightarrow> app_config result" where
  "enforce_database_ownership locate cfg =
     in_validator
       (bind_result (logical_database locate (dc_url (ac_scheduler_database cfg))) (\<lambda>a.
        bind_result (logical_database locate (dc_url (ac_edr_database cfg))) (\<lambda>b.
        if a = b
        then Inl (ConfigurationError ''scheduler and EDR URLs must identify different logical databases'')
        else Inr cfg)))"


section \<open>Reading the environment\<close>

text \<open>\<open>values.get(name, default)\<close>\<close>

definition setting :: "environ \<Rightarrow> string \<Rightarrow> string \<Rightarrow> string" where
  "setting env name dflt = (case env name of None \<Rightarrow> dflt | Some raw \<Rightarrow> raw)"

definition parsed_int :: "string \<Rightarrow> int result" where
  "parsed_int raw =
     (case py_int raw of None \<Rightarrow> Inl (ValueError ''invalid literal for int()'') | Some i \<Rightarrow> Inr i)"

definition parsed_float :: "string \<Rightarrow> pyfloat result" where
  "parsed_float raw =
     (case py_float raw of None \<Rightarrow> Inl (ValueError ''could not convert string to float'') | Some x \<Rightarrow> Inr x)"

definition env_required :: "environ \<Rightarrow> string \<Rightarrow> string result" where
  "env_required env name =
     (case env name of
        None \<Rightarrow> Inl (ConfigurationError (''missing required setting: '' @ name))
      | Some raw \<Rightarrow> Inr raw)"

definition env_integer :: "environ \<Rightarrow> string \<Rightarrow> int \<Rightarrow> int result" where
  "env_integer env name dflt =
     (case env name of
        None \<Rightarrow> Inr dflt
      | Some raw \<Rightarrow> value_error_as (ConfigurationError (name @ '' must be an integer'')) (parsed_int raw))"

definition env_number :: "environ \<Rightarrow> string \<Rightarrow> rat \<Rightarrow> pyfloat result" where
  "env_number env name dflt =
     (case env name of
        None \<Rightarrow> Inr (Fin dflt)
      | Some raw \<Rightarrow> value_error_as (ConfigurationError (name @ '' must be a number'')) (parsed_float raw))"

text \<open>The readers of a single process print the default first and parse it like a setting.\<close>

definition printed_integer :: "environ \<Rightarrow> string \<Rightarrow> nat \<Rightarrow> int result" where
  "printed_integer env name dflt =
     value_error_as (ConfigurationError (name @ '' must be an integer''))
       (parsed_int (setting env name (nat_digits dflt)))"

definition printed_number :: "environ \<Rightarrow> string \<Rightarrow> nat \<Rightarrow> pyfloat result" where
  "printed_number env name dflt =
     value_error_as (ConfigurationError (name @ '' must be a number''))
       (parsed_float (setting env name (nat_digits dflt)))"

section \<open>Loaders of single processes\<close>

definition database_config_from_env ::
  "(pyfloat \<Rightarrow> bool) \<Rightarrow> string \<Rightarrow> environ \<Rightarrow> database_config result" where
  "database_config_from_env gt_zero prefix env =
     (case env (prefix @ ''_DATABASE_URL'') of
        None \<Rightarrow> Inl (ConfigurationError (''missing required setting: '' @ prefix @ ''_DATABASE_URL''))
      | Some url \<Rightarrow>
          bind_result (printed_integer env (prefix @ ''_DATABASE_POOL_SIZE'') 5) (\<lambda>pool_size.
          bind_result (printed_integer env (prefix @ ''_DATABASE_MAX_OVERFLOW'') 5) (\<lambda>max_overflow.
          bind_result (printed_number env (prefix @ ''_DATABASE_POOL_TIMEOUT_SECONDS'') 30) (\<lambda>pool_timeout.
          bind_result (printed_integer env (prefix @ ''_DATABASE_CONNECT_TIMEOUT_SECONDS'') 5) (\<lambda>connect.
          bind_result (printed_integer env (prefix @ ''_DATABASE_STATEMENT_TIMEOUT_MS'') 15000) (\<lambda>statement.
          bind_result (printed_integer env (prefix @ ''_DATABASE_LOCK_TIMEOUT_MS'') 5000) (\<lambda>lock.
          bind_result (printed_integer env (prefix @ ''_DATABASE_IDLE_TRANSACTION_TIMEOUT_MS'') 30000) (\<lambda>idle.
          bind_result (printed_integer env (prefix @ ''_DATABASE_TRANSACTION_TIMEOUT_MS'') 30000) (\<lambda>transaction.
          database_config_of gt_zero
            \<lparr>dc_url = url, dc_pool_size = pool_size, dc_max_overflow = max_overflow,
             dc_pool_timeout_seconds = pool_timeout, dc_connect_timeout_seconds = connect,
             dc_statement_timeout_ms = statement, dc_lock_timeout_ms = lock,
             dc_idle_transaction_timeout_ms = idle, dc_transaction_timeout_ms = transaction\<rparr>)))))))))"

definition scheduler_tuning_from_env :: "(pyfloat \<Rightarrow> bool) \<Rightarrow> environ \<Rightarrow> scheduler_tuning result" where
  "scheduler_tuning_from_env gt_zero env =
     value_error_as (ConfigurationError ''scheduler tuning values must be numeric'')
       (bind_result (parsed_int (setting env ''SCHEDULER_BATCH_SIZE'' ''100'')) (\<lambda>batch.
        bind_result (parsed_int (setting env ''SCHEDULER_CLAIM_LEASE_SECONDS'' ''60'')) (\<lambda>lease.
        bind_result (parsed_float (setting env ''SCHEDULER_POLL_INTERVAL_SECONDS'' ''0.5'')) (\<lambda>interval.
        bind_result (parsed_int (setting env ''SCHEDULER_RECOVERY_BATCH_SIZE'' ''100'')) (\<lambda>recovery.
        scheduler_tuning_of gt_zero
          \<lparr>st_batch_size = batch, st_claim_lease_seconds = lease, st_poll_interval_seconds = interval,
           st_recovery_batch_size = recovery\<rparr>)))))"

definition kafka_config_from_env :: "(pyfloat \<Rightarrow> bool) \<Rightarrow> environ \<Rightarrow> kafka_config result" where
  "kafka_config_from_env gt_zero env =
     value_error_as (ConfigurationError ''Kafka tuning values must be numeric'')
       (bind_result (parsed_int (setting env ''KAFKA_SOCKET_TIMEOUT_MS'' ''10000'')) (\<lambda>socket.
        bind_result (parsed_int (setting env ''KAFKA_REQUEST_TIMEOUT_MS'' ''10000'')) (\<lambda>request.
        bind_result (parsed_int (setting env ''KAFKA_DELIVERY_TIMEOUT_MS'' ''30000'')) (\<lambda>delivery.
        bind_result (parsed_int (setting env ''KAFKA_METADATA_TIMEOUT_MS'' ''10000'')) (\<lambda>metadata.
        bind_result (parsed_float (setting env ''KAFKA_FLUSH_TIMEOUT_SECONDS'' ''10'')) (\<lambda>flush.
        bind_result (parsed_float (setting env ''SCHEMA_REGISTRY_CONNECT_TIMEOUT_SECONDS'' ''5'')) (\<lambda>connect.
        bind_result (parsed_float (setting env ''SCHEMA_REGISTRY_READ_TIMEOUT_SECONDS'' ''10'')) (\<lambda>read.
        kafka_config_of gt_zero
          \<lparr>kc_bootstrap_servers = setting env ''KAFKA_BOOTSTRAP_SERVERS'' ''localhost:9092'',
           kc_edr_topic = setting env ''KAFKA_EDR_TOPIC'' ''job-lifecycle-edr.v1'',
           kc_edr_dlq_topic = setting env ''KAFKA_EDR_DLQ_TOPIC'' ''job-lifecycle-edr-dlq.v1'',
           kc_consumer_group = setting env ''KAFKA_CONSUMER_GROUP'' ''job-visibility-projector-v1'',
           kc_schema_registry_url = setting env ''SCHEMA_REGISTRY_URL'' ''http://localhost:8081'',
           kc_socket_timeout_ms = socket, kc_request_timeout_ms = request,
           kc_delivery_timeout_ms = delivery, kc_metadata_timeout_ms = metadata,
           kc_flush_timeout_seconds = flush, kc_schema_registry_connect_timeout_seconds = connect,
           kc_schema_registry_read_timeout_seconds = read\<rparr>))))))))"

definition outbox_tuning_from_env :: "(pyfloat \<Rightarrow> bool) \<Rightarrow> environ \<Rightarrow> outbox_tuning result" where
  "outbox_tuning_from_env gt_zero env =
     value_error_as (ConfigurationError ''outbox tuning values must be numeric'')
       (bind_result (parsed_int (setting env ''OUTBOX_BATCH_SIZE'' ''100'')) (\<lambda>batch.
        bind_result (parsed_float (setting env ''OUTBOX_RETRY_INITIAL_SECONDS'' ''1'')) (\<lambda>initial.
        bind_result (parsed_float (setting env ''OUTBOX_RETRY_MAX_SECONDS'' ''60'')) (\<lambda>maximum.
        outbox_tuning_of gt_zero
          \<lparr>ot_batch_size = batch, ot_retry_initial_seconds = initial, ot_retry_max_seconds = maximum\<rparr>))))"

definition projection_tuning_from_env :: "environ \<Rightarrow> projection_tuning result" where
  "projection_tuning_from_env env =
     value_error_as (ConfigurationError ''projection tuning values must be numeric'')
       (bind_result (parsed_int (setting env ''PROJECTION_BATCH_SIZE'' ''500'')) (\<lambda>batch.
        projection_tuning_of \<lparr>pt_batch_size = batch\<rparr>))"

section \<open>The whole configuration\<close>

text \<open>\<open>AppConfig.from_env\<close>, one definition per group it builds.\<close>

definition app_database :: "(pyfloat \<Rightarrow> bool) \<Rightarrow> environ \<Rightarrow> string \<Rightarrow> database_config result" where
  "app_database gt_zero env prefix =
     bind_result (env_required env (prefix @ ''_DATABASE_URL'')) (\<lambda>url.
     bind_result (env_integer env (prefix @ ''_DATABASE_POOL_SIZE'') 5) (\<lambda>pool_size.
     bind_result (env_integer env (prefix @ ''_DATABASE_MAX_OVERFLOW'') 5) (\<lambda>max_overflow.
     bind_result (env_number env (prefix @ ''_DATABASE_POOL_TIMEOUT_SECONDS'') 30) (\<lambda>pool_timeout.
     bind_result (env_integer env (prefix @ ''_DATABASE_CONNECT_TIMEOUT_SECONDS'') 5) (\<lambda>connect.
     bind_result (env_integer env (prefix @ ''_DATABASE_STATEMENT_TIMEOUT_MS'') 15000) (\<lambda>statement.
     bind_result (env_integer env (prefix @ ''_DATABASE_LOCK_TIMEOUT_MS'') 5000) (\<lambda>lock.
     bind_result (env_integer env (prefix @ ''_DATABASE_IDLE_TRANSACTION_TIMEOUT_MS'') 30000) (\<lambda>idle.
     bind_result (env_integer env (prefix @ ''_DATABASE_TRANSACTION_TIMEOUT_MS'') 30000) (\<lambda>transaction.
     database_config_of gt_zero
       \<lparr>dc_url = url, dc_pool_size = pool_size, dc_max_overflow = max_overflow,
        dc_pool_timeout_seconds = pool_timeout, dc_connect_timeout_seconds = connect,
        dc_statement_timeout_ms = statement, dc_lock_timeout_ms = lock,
        dc_idle_transaction_timeout_ms = idle, dc_transaction_timeout_ms = transaction\<rparr>)))))))))"

definition app_kafka :: "(pyfloat \<Rightarrow> bool) \<Rightarrow> environ \<Rightarrow> kafka_config result" where
  "app_kafka gt_zero env =
     bind_result (env_integer env ''KAFKA_SOCKET_TIMEOUT_MS'' 10000) (\<lambda>socket.
     bind_result (env_integer env ''KAFKA_REQUEST_TIMEOUT_MS'' 10000) (\<lambda>request.
     bind_result (env_integer env ''KAFKA_DELIVERY_TIMEOUT_MS'' 30000) (\<lambda>delivery.
     bind_result (env_integer env ''KAFKA_METADATA_TIMEOUT_MS'' 10000) (\<lambda>metadata.
     bind_result (env_number env ''KAFKA_FLUSH_TIMEOUT_SECONDS'' 10) (\<lambda>flush.
     bind_result (env_number env ''SCHEMA_REGISTRY_CONNECT_TIMEOUT_SECONDS'' 5) (\<lambda>connect.
     bind_result (env_number env ''SCHEMA_REGISTRY_READ_TIMEOUT_SECONDS'' 10) (\<lambda>read.
     kafka_config_of gt_zero
       \<lparr>kc_bootstrap_servers = setting env ''KAFKA_BOOTSTRAP_SERVERS'' ''localhost:9092'',
        kc_edr_topic = setting env ''KAFKA_EDR_TOPIC'' ''job-lifecycle-edr.v1'',
        kc_edr_dlq_topic = setting env ''KAFKA_EDR_DLQ_TOPIC'' ''job-lifecycle-edr-dlq.v1'',
        kc_consumer_group = setting env ''KAFKA_CONSUMER_GROUP'' ''job-visibility-projector-v1'',
        kc_schema_registry_url = setting env ''SCHEMA_REGISTRY_URL'' ''http://localhost:8081'',
        kc_socket_timeout_ms = socket, kc_request_timeout_ms = request,
        kc_delivery_timeout_ms = delivery, kc_metadata_timeout_ms = metadata,
        kc_flush_timeout_seconds = flush, kc_schema_registry_connect_timeout_seconds = connect,
        kc_schema_registry_read_timeout_seconds = read\<rparr>)))))))"

definition contact_points :: "string \<Rightarrow> string list" where
  "contact_points s = map py_strip (filter (\<lambda>point. py_strip point \<noteq> []) (py_split (CHR '','') s))"

definition app_cassandra :: "environ \<Rightarrow> cassandra_config result" where
  "app_cassandra env =
     bind_result (env_integer env ''CASSANDRA_PORT'' 9042) (\<lambda>port.
     bind_result (env_integer env ''CASSANDRA_REQUEST_TIMEOUT_MS'' 2000) (\<lambda>request.
     bind_result (env_integer env ''CASSANDRA_EXECUTION_TIMEOUT_MS'' 30000) (\<lambda>execution.
     bind_result (env_integer env ''CASSANDRA_MAX_RECORD_COUNT'' 10000) (\<lambda>records.
     bind_result (env_integer env ''CASSANDRA_MAX_INPUT_NUMBER'' 10000) (\<lambda>input.
     bind_result (env_integer env ''CASSANDRA_PAGE_SIZE'' 500) (\<lambda>page.
     bind_result (env_integer env ''CASSANDRA_READ_CONCURRENCY'' 8) (\<lambda>concurrency.
     bind_result (env_integer env ''CASSANDRA_MAX_PROCESSING_DELAY_MS'' 5000) (\<lambda>delay.
     bind_result (env_integer env ''CASSANDRA_CONDITIONAL_RETRY_LIMIT'' 3) (\<lambda>retries.
     cassandra_config_of
       \<lparr>ca_contact_points = contact_points (setting env ''CASSANDRA_CONTACT_POINTS'' ''localhost''),
        ca_port = port, ca_keyspace = setting env ''CASSANDRA_KEYSPACE'' ''worker_demo'',
        ca_consistency = setting env ''CASSANDRA_CONSISTENCY'' ''LOCAL_QUORUM'',
        ca_request_timeout_ms = request, ca_execution_timeout_ms = execution,
        ca_max_record_count = records, ca_max_input_number = input, ca_page_size = page,
        ca_read_concurrency = concurrency, ca_max_processing_delay_ms = delay,
        ca_conditional_retry_limit = retries\<rparr>)))))))))"

definition app_scheduler :: "(pyfloat \<Rightarrow> bool) \<Rightarrow> environ \<Rightarrow> scheduler_tuning result" where
  "app_scheduler gt_zero env =
     bind_result (env_integer env ''SCHEDULER_BATCH_SIZE'' 100) (\<lambda>batch.
     bind_result (env_integer env ''SCHEDULER_CLAIM_LEASE_SECONDS'' 60) (\<lambda>lease.
     bind_result (env_number env ''SCHEDULER_POLL_INTERVAL_SECONDS'' (1 / 2)) (\<lambda>interval.
     bind_result (env_integer env ''SCHEDULER_RECOVERY_BATCH_SIZE'' 100) (\<lambda>recovery.
     scheduler_tuning_of gt_zero
       \<lparr>st_batch_size = batch, st_claim_lease_seconds = lease, st_poll_interval_seconds = interval,
        st_recovery_batch_size = recovery\<rparr>))))"

definition app_outbox :: "(pyfloat \<Rightarrow> bool) \<Rightarrow> environ \<Rightarrow> outbox_tuning result" where
  "app_outbox gt_zero env =
     bind_result (env_integer env ''OUTBOX_BATCH_SIZE'' 100) (\<lambda>batch.
     bind_result (env_number env ''OUTBOX_RETRY_INITIAL_SECONDS'' 1) (\<lambda>initial.
     bind_result (env_number env ''OUTBOX_RETRY_MAX_SECONDS'' 60) (\<lambda>maximum.
     outbox_tuning_of gt_zero
       \<lparr>ot_batch_size = batch, ot_retry_initial_seconds = initial, ot_retry_max_seconds = maximum\<rparr>)))"

definition app_sink :: "environ \<Rightarrow> sink_tuning result" where
  "app_sink env =
     bind_result (env_integer env ''SINK_BATCH_SIZE'' 500) (\<lambda>batch.
     bind_result (env_integer env ''SINK_MAX_RETRIES'' 10) (\<lambda>retries.
     bind_result (env_integer env ''SINK_RETRY_BACKOFF_MS'' 3000) (\<lambda>backoff.
     sink_tuning_of \<lparr>sk_batch_size = batch, sk_max_retries = retries, sk_retry_backoff_ms = backoff\<rparr>)))"

definition app_projection :: "environ \<Rightarrow> projection_tuning result" where
  "app_projection env =
     bind_result (env_integer env ''PROJECTION_BATCH_SIZE'' 500) (\<lambda>batch.
     projection_tuning_of \<lparr>pt_batch_size = batch\<rparr>)"

definition app_reconciliation :: "environ \<Rightarrow> reconciliation_tuning result" where
  "app_reconciliation env =
     bind_result (env_integer env ''RECONCILIATION_BATCH_SIZE'' 500) (\<lambda>batch.
     bind_result (env_integer env ''RECONCILIATION_INTERVAL_SECONDS'' 60) (\<lambda>interval.
     reconciliation_tuning_of \<lparr>rt_batch_size = batch, rt_interval_seconds = interval\<rparr>))"

definition app_observability :: "environ \<Rightarrow> observability_tuning result" where
  "app_observability env =
     bind_result (env_integer env ''HEALTH_OLDEST_DUE_SECONDS'' 120) (\<lambda>due.
     bind_result (env_integer env ''HEALTH_OLDEST_OUTBOX_SECONDS'' 60) (\<lambda>outbox.
     bind_result (env_integer env ''HEALTH_OLDEST_UNPROJECTED_SECONDS'' 60) (\<lambda>unprojected.
     bind_result (env_integer env ''HEALTH_DLQ_GROWTH_LIMIT'' 0) (\<lambda>growth.
     observability_tuning_of
       \<lparr>ov_oldest_due_seconds = due, ov_oldest_outbox_seconds = outbox,
        ov_oldest_unprojected_seconds = unprojected, ov_dlq_growth_limit = growth\<rparr>))))"

definition from_env :: "(pyfloat \<Rightarrow> bool) \<Rightarrow> url_reader \<Rightarrow> environ \<Rightarrow> app_config result" where
  "from_env gt_zero locate env =
     bind_result (app_database gt_zero env ''SCHEDULER'') (\<lambda>scheduler_database.
     bind_result (app_database gt_zero env ''EDR'') (\<lambda>edr_database.
     bind_result (app_kafka gt_zero env) (\<lambda>kafka.
     bind_result (app_cassandra env) (\<lambda>cassandra.
     bind_result (app_scheduler gt_zero env) (\<lambda>scheduler.
     bind_result (app_outbox gt_zero env) (\<lambda>outbox.
     bind_result (app_sink env) (\<lambda>sink.
     bind_result (app_projection env) (\<lambda>projection.
     bind_result (app_reconciliation env) (\<lambda>reconciliation.
     bind_result (app_observability env) (\<lambda>observability.
     enforce_database_ownership locate
       \<lparr>ac_scheduler_database = scheduler_database, ac_edr_database = edr_database, ac_kafka = kafka,
        ac_cassandra = cassandra, ac_scheduler = scheduler, ac_outbox = outbox, ac_sink = sink,
        ac_projection = projection, ac_reconciliation = reconciliation,
        ac_observability = observability\<rparr>))))))))))"


section \<open>The two ways of reading agree\<close>

lemma value_error_as_Inr [simp]: "value_error_as err (Inr x) = Inr x"
  by (simp add: value_error_as_def)

lemma value_error_as_Inr_iff: "value_error_as err r = Inr x \<longleftrightarrow> r = Inr x"
  by (auto simp: value_error_as_def split: sum.splits if_splits)

lemma relabel_bind:
  assumes "value_error_as err m = value_error_as err m'"
    and "\<And>x. value_error_as err (f x) = value_error_as err (f' x)"
  shows "value_error_as err (bind_result m f) = value_error_as err (bind_result m' f')"
  using assms by (cases m; cases m') (auto simp: value_error_as_def split: if_splits)

lemma relabel_twice: "is_value_error err \<Longrightarrow> value_error_as err' (value_error_as err r) = value_error_as err' r"
  by (auto simp: value_error_as_def split: sum.splits)

lemma relabel_integer:
  assumes "py_int s = Some d"
  shows "value_error_as err (parsed_int (setting env name s)) = value_error_as err (env_integer env name d)"
  using assms
  by (cases "env name")
    (simp_all add: setting_def env_integer_def parsed_int_def relabel_twice is_value_error_def)

lemma relabel_number:
  assumes "py_float s = Some (Fin d)"
  shows "value_error_as err (parsed_float (setting env name s)) = value_error_as err (env_number env name d)"
  using assms
  by (cases "env name")
    (simp_all add: setting_def env_number_def parsed_float_def relabel_twice is_value_error_def)

lemma printed_integer_conv: "d < 10 ^ 9 \<Longrightarrow> printed_integer env name d = env_integer env name (int d)"
  using plain_number [OF nat_digits_decimal nat_digits_not_Nil, of d] length_nat_digits [of d 9]
  by (cases "env name")
    (simp_all add: printed_integer_def setting_def parsed_int_def env_integer_def py_int_def
      nat_digits_decimal nat_digits_not_Nil nat_digits_value max_str_digits_def)

lemma printed_number_conv: "d < 2 ^ 53 \<Longrightarrow> printed_number env name d = env_number env name (of_nat d)"
  using plain_number [OF nat_digits_decimal nat_digits_not_Nil, of d] float_integer [of d]
  by (cases "env name")
    (simp_all add: printed_number_def setting_def parsed_float_def env_number_def py_float_def nat_digits_value)

lemma database_loaders_agree: "database_config_from_env gt_zero prefix env = app_database gt_zero env prefix"
  by (cases "env (prefix @ ''_DATABASE_URL'')")
    (simp_all add: database_config_from_env_def app_database_def env_required_def printed_integer_conv
      printed_number_conv)

lemma plain_float:
  assumes "list_all decimal ds" "ds \<noteq> []" "decimal_value ds < 2 ^ 53"
  shows "py_float ds = Some (Fin (of_nat (decimal_value ds)))"
  using plain_number [OF assms(1,2)] float_integer [OF assms(3)] by (simp add: py_float_def)

lemma plain_int:
  assumes "list_all decimal ds" "ds \<noteq> []" "length ds \<le> 4300"
  shows "py_int ds = Some (int (decimal_value ds))"
  using plain_number [OF assms(1,2)] assms by (simp add: py_int_def max_str_digits_def)

lemma printed_defaults:
  "py_int ''100'' = Some 100" "py_int ''60'' = Some 60" "py_int ''500'' = Some 500"
  "py_int ''10000'' = Some 10000" "py_int ''30000'' = Some 30000"
  by (subst plain_int; simp add: decimal_def decimal_value_def)+

lemma printed_float_defaults:
  "py_float ''1'' = Some (Fin 1)" "py_float ''5'' = Some (Fin 5)" "py_float ''10'' = Some (Fin 10)"
  "py_float ''60'' = Some (Fin 60)"
  by (subst plain_float; simp add: decimal_def decimal_value_def)+

lemma printed_half: "py_float ''0.5'' = Some (Fin (1 / 2))"
proof -
  have "drop_underscores False (strip_by number_space ''0.5'') = Some ''0.5''" by code_simp
  moreover have "float_literal ''0.5'' = Some (1 / 2)"
    by (simp add: float_literal_def decimal_def decimal_value_def)
  moreover have "split_sign ''0.5'' = (False, ''0.5'')" by code_simp
  moreover have "py_lower ''0.5'' = ''0.5''" by code_simp
  ultimately show ?thesis by (simp add: py_float_def float_half)
qed

text \<open>
  Each process reads its settings as the whole configuration does: the loader of one database is
  the one \<open>AppConfig.from_env\<close> uses, errors included, and the loaders of the scheduler, Kafka, outbox
  and projection settings give the same group or, where a value error arises, one error in its place.
\<close>

theorem role_loaders_agree:
  "database_config_from_env gt_zero prefix env = app_database gt_zero env prefix \<and>
   scheduler_tuning_from_env gt_zero env =
     value_error_as (ConfigurationError ''scheduler tuning values must be numeric'') (app_scheduler gt_zero env) \<and>
   kafka_config_from_env gt_zero env =
     value_error_as (ConfigurationError ''Kafka tuning values must be numeric'') (app_kafka gt_zero env) \<and>
   outbox_tuning_from_env gt_zero env =
     value_error_as (ConfigurationError ''outbox tuning values must be numeric'') (app_outbox gt_zero env) \<and>
   projection_tuning_from_env env =
     value_error_as (ConfigurationError ''projection tuning values must be numeric'') (app_projection env)"
  unfolding scheduler_tuning_from_env_def app_scheduler_def kafka_config_from_env_def app_kafka_def
    outbox_tuning_from_env_def app_outbox_def projection_tuning_from_env_def app_projection_def
  by (intro conjI relabel_bind relabel_integer relabel_number refl database_loaders_agree
      printed_defaults printed_float_defaults printed_half)

section \<open>What a loaded configuration satisfies\<close>

definition database_bounded :: "(pyfloat \<Rightarrow> bool) \<Rightarrow> database_config \<Rightarrow> bool" where
  "database_bounded gt_zero c \<longleftrightarrow>
     1 \<le> dc_pool_size c \<and> 0 \<le> dc_max_overflow c \<and> 1 \<le> dc_connect_timeout_seconds c \<and>
     1 \<le> dc_idle_transaction_timeout_ms c \<and> gt_zero (dc_pool_timeout_seconds c) \<and>
     1 \<le> dc_lock_timeout_ms c \<and> dc_lock_timeout_ms c \<le> dc_statement_timeout_ms c \<and>
     dc_statement_timeout_ms c \<le> dc_transaction_timeout_ms c"

lemma database_bounded: "app_database gt_zero env prefix = Inr c \<Longrightarrow> database_bounded gt_zero c"
  by (auto simp: app_database_def bind_result_Inr_iff database_config_of_def construct_Inr_iff
      database_bounded_def)

lemma database_url: "app_database gt_zero env prefix = Inr c \<Longrightarrow> env (prefix @ ''_DATABASE_URL'') = Some (dc_url c)"
  by (auto simp: app_database_def bind_result_Inr_iff database_config_of_def construct_Inr_iff
      env_required_def split: option.splits)

lemma ownership:
  assumes "enforce_database_ownership locate cfg = Inr cfg'"
  shows "cfg' = cfg \<and> (\<exists>a b. logical_database locate (dc_url (ac_scheduler_database cfg)) = Inr a \<and>
    logical_database locate (dc_url (ac_edr_database cfg)) = Inr b \<and> a \<noteq> b)"
  using assms
  by (auto simp: enforce_database_ownership_def in_validator_def bind_result_Inr_iff split: sum.splits if_splits)

lemma app_config_groups:
  assumes "from_env gt_zero locate env = Inr cfg"
  shows "app_database gt_zero env ''SCHEDULER'' = Inr (ac_scheduler_database cfg)"
    "app_database gt_zero env ''EDR'' = Inr (ac_edr_database cfg)"
    "app_kafka gt_zero env = Inr (ac_kafka cfg)" "app_cassandra env = Inr (ac_cassandra cfg)"
    "app_scheduler gt_zero env = Inr (ac_scheduler cfg)" "app_outbox gt_zero env = Inr (ac_outbox cfg)"
    "app_sink env = Inr (ac_sink cfg)" "app_projection env = Inr (ac_projection cfg)"
    "app_reconciliation env = Inr (ac_reconciliation cfg)"
    "app_observability env = Inr (ac_observability cfg)"
    "enforce_database_ownership locate cfg = Inr cfg"
  using assms ownership by (fastforce simp: from_env_def bind_result_Inr_iff dest: ownership)+

lemmas app_group_defs = app_kafka_def kafka_config_of_def app_cassandra_def cassandra_config_of_def
  app_scheduler_def scheduler_tuning_of_def app_outbox_def outbox_tuning_of_def app_sink_def
  sink_tuning_of_def app_projection_def projection_tuning_of_def app_reconciliation_def
  reconciliation_tuning_of_def app_observability_def observability_tuning_of_def

lemma kafka_bounded:
  "app_kafka gt_zero env = Inr c \<Longrightarrow>
   1 \<le> kc_request_timeout_ms c \<and> kc_request_timeout_ms c \<le> kc_delivery_timeout_ms c \<and>
   \<not> float_gt (float_times (kc_flush_timeout_seconds c) 1000) (Fin (of_int (kc_delivery_timeout_ms c)))"
  by (auto simp: app_group_defs bind_result_Inr_iff construct_Inr_iff)

lemma cassandra_bounded:
  "app_cassandra env = Inr c \<Longrightarrow>
   ca_port c \<in> {1..65535} \<and> 1 \<le> ca_request_timeout_ms c \<and>
   ca_request_timeout_ms c \<le> ca_execution_timeout_ms c \<and>
   1 \<le> ca_page_size c \<and> ca_page_size c \<le> ca_max_record_count c \<and>
   ca_contact_points c = contact_points (setting env ''CASSANDRA_CONTACT_POINTS'' ''localhost'')"
  by (auto simp: app_group_defs bind_result_Inr_iff construct_Inr_iff)

lemma tuning_bounded:
  "app_scheduler gt_zero env = Inr c \<Longrightarrow>
   1 \<le> st_batch_size c \<and> 1 \<le> st_claim_lease_seconds c \<and> 1 \<le> st_recovery_batch_size c \<and>
   gt_zero (st_poll_interval_seconds c)"
  "app_outbox gt_zero env = Inr d \<Longrightarrow>
   1 \<le> ot_batch_size d \<and> gt_zero (ot_retry_initial_seconds d) \<and>
   \<not> float_gt (ot_retry_initial_seconds d) (ot_retry_max_seconds d)"
  "app_sink env = Inr e \<Longrightarrow> 1 \<le> sk_batch_size e"
  "app_projection env = Inr f \<Longrightarrow> 1 \<le> pt_batch_size f"
  "app_reconciliation env = Inr g \<Longrightarrow> 1 \<le> rt_batch_size g \<and> 1 \<le> rt_interval_seconds g"
  "app_observability env = Inr h \<Longrightarrow> 0 \<le> ov_dlq_growth_limit h"
  by (auto simp: app_group_defs bind_result_Inr_iff construct_Inr_iff)

lemma strip_by_ends: "strip_by P s \<noteq> [] \<Longrightarrow> \<not> P (hd (strip_by P s)) \<and> \<not> P (last (strip_by P s))"
proof -
  assume ne: "strip_by P s \<noteq> []"
  let ?t = "dropWhile P s"
  have r: "strip_by P s = rev (dropWhile P (rev ?t))" by (simp add: strip_by_def)
  then have l: "\<not> P (last (strip_by P s))" using ne hd_dropWhile [of P "rev ?t"] by (simp add: last_rev)
  obtain us where us: "?t = strip_by P s @ us"
    unfolding r by (metis rev_append rev_rev_ident takeWhile_dropWhile_id)
  then have "hd ?t = hd (strip_by P s)" "?t \<noteq> []" using ne by auto
  then show ?thesis using l hd_dropWhile [of P s] by auto
qed

lemma contact_points_trimmed:
  "p \<in> set (contact_points s) \<Longrightarrow> p \<noteq> [] \<and> \<not> py_space (hd p) \<and> \<not> py_space (last p)"
  unfolding contact_points_def py_strip_def using strip_by_ends by auto


definition example_locate :: url_reader where
  "example_locate url =
     Inr \<lparr>up_scheme = ''postgresql'', up_hostname = Some ''db'', up_port = Inr (Some 5432), up_path = url\<rparr>"

definition example_env :: environ where
  "example_env =
     [''SCHEDULER_DATABASE_URL'' \<mapsto> ''/scheduler'', ''EDR_DATABASE_URL'' \<mapsto> ''/edr'',
      ''CASSANDRA_CONTACT_POINTS'' \<mapsto> '' a, b'']"

lemma example_env_unset:
  "name \<notin> {''SCHEDULER_DATABASE_URL'', ''EDR_DATABASE_URL'', ''CASSANDRA_CONTACT_POINTS''} \<Longrightarrow>
   env_integer example_env name d = Inr d \<and> env_number example_env name x = Inr (Fin x)"
  by (simp add: env_integer_def env_number_def example_env_def)

lemma example_logical:
  "logical_database example_locate ''/scheduler'' = Inr (''postgresql'', ''db'', Some 5432, ''scheduler'')"
  "logical_database example_locate ''/edr'' = Inr (''postgresql'', ''db'', Some 5432, ''edr'')"
  by code_simp+


text \<open>
  The check compares what the URLs say, not the databases they reach: with the port left to the server's
  default on one side, one database passes for both roles.
\<close>

lemma same_database_behind_two_urls:
  assumes "locate a = Inr \<lparr>up_scheme = ''postgresql'', up_hostname = Some ''db'', up_port = Inr None, up_path = ''/jobs''\<rparr>"
    and "locate b = Inr \<lparr>up_scheme = ''postgresql'', up_hostname = Some ''db'', up_port = Inr (Some 5432), up_path = ''/jobs''\<rparr>"
    and "dc_url (ac_scheduler_database cfg) = a" "dc_url (ac_edr_database cfg) = b"
  shows "enforce_database_ownership locate cfg = Inr cfg"
  using assms
  by (simp add: enforce_database_ownership_def in_validator_def logical_database_def strip_by_def Let_def)

text \<open>A value that is numeric but out of bounds is reported as not numeric.\<close>

lemma out_of_bounds_called_not_numeric:
  "scheduler_tuning_from_env gt_zero [''SCHEDULER_BATCH_SIZE'' \<mapsto> ''0''] =
     Inl (ConfigurationError ''scheduler tuning values must be numeric'')"
proof -
  have "py_int ''0'' = Some 0" by (subst plain_int) (simp_all add: decimal_def decimal_value_def)
  then show ?thesis
    by (simp add: scheduler_tuning_from_env_def setting_def parsed_int_def parsed_float_def printed_defaults
        printed_half scheduler_tuning_of_def construct_def Let_def value_error_as_def is_value_error_def)
qed

end
