(* ===== verification/Health.thy ===== *)
theory Health
  imports Python_Numbers Edr_Wire Scheduler_System Projection_Properties
begin

text \<open>
  The readiness probes of \<open>src/job_visibility/observability/health.py\<close>, over the scheduler tables and
  the projected store, and what a ready answer says about the backlog.
\<close>

section \<open>Queues\<close>

text \<open>\<open>td.total_seconds()\<close>: the exact quotient, rounded to a double.\<close>

definition total_seconds :: "int \<Rightarrow> pyfloat" where
  "total_seconds us = round_double (of_int us / 1000000)"

text \<open>\<open>round(x, 3)\<close>: the decimal nearest to the exact value of the double, as a double.\<close>

fun round3 :: "pyfloat \<Rightarrow> pyfloat" where
  "round3 (Fin x) = round_double (of_int (half_even (x * 1000)) / 1000)"
| "round3 x = x"

text \<open>\<open>max(0.0, x)\<close>, and \<open>x <= n\<close> for an integer.\<close>

definition at_least_zero :: "pyfloat \<Rightarrow> pyfloat" where
  "at_least_zero x = (if float_gt x (Fin 0) then x else Fin 0)"

fun float_le_int :: "pyfloat \<Rightarrow> int \<Rightarrow> bool" where
  "float_le_int (Fin x) n = (x \<le> of_int n)"
| "float_le_int PInf n = False"
| "float_le_int NInf n = True"
| "float_le_int NaN n = False"

text \<open>The row of a backlog query: a count and the oldest entry, as JSON text or as a time.\<close>

datatype oldest = NoneOldest | OldestText string | OldestTime time

record queue_value =
  qv_count :: int
  qv_oldest :: oldest

record queue_report =
  qr_count :: int
  qr_oldest :: oldest
  qr_age_seconds :: pyfloat
  qr_threshold_seconds :: int
  qr_healthy :: bool

definition evaluate_queue ::
  "(string \<Rightarrow> time result) \<Rightarrow> time \<Rightarrow> queue_value \<Rightarrow> int \<Rightarrow> queue_report result" where
  "evaluate_queue fromiso now v threshold =
     bind_result
       (case qv_oldest v of
          NoneOldest \<Rightarrow> Inr None
        | OldestText s \<Rightarrow> bind_result (parse_time fromiso (JStr s)) (\<lambda>t. Inr (Some t))
        | OldestTime t \<Rightarrow> Inr (Some t)) (\<lambda>oldest.
     let age = (case oldest of None \<Rightarrow> Fin 0 | Some t \<Rightarrow> at_least_zero (total_seconds (now - t)))
     in Inr \<lparr>qr_count = qv_count v, qr_oldest = qv_oldest v, qr_age_seconds = round3 age,
             qr_threshold_seconds = threshold, qr_healthy = float_le_int age threshold\<rparr>)"

section \<open>Probes\<close>

datatype check_value =
    Answered bool
  | Queue queue_report
  | Connector "(string \<times> json) list" bool
  | Dlq int int bool

text \<open>\<open>value is not False and not (isinstance(value, dict) and value.get("healthy") is False)\<close>\<close>

fun passing :: "check_value \<Rightarrow> bool" where
  "passing (Answered b) = b"
| "passing (Queue r) = qr_healthy r"
| "passing (Connector v running) = running"
| "passing (Dlq growth limit ok) = ok"

text \<open>
  Every probe opens a session of its own: \<open>sessions check\<close> is the database it sees, or what opening the
  session or running the query raises.
\<close>

type_synonym 'db sessions = "string \<Rightarrow> 'db result"

definition probe_query :: "'db sessions \<Rightarrow> string \<Rightarrow> bool" where
  "probe_query sessions check = (case sessions check of Inl err \<Rightarrow> False | Inr db \<Rightarrow> True)"

text \<open>
  What the probes read beside the databases: the database clock and the local clock at each check, the
  text \<open>json_build_object\<close> makes of a time, and \<open>fromisoformat\<close>.
\<close>

record probe_env =
  pe_db_clock :: "string \<Rightarrow> time"
  pe_clock :: "string \<Rightarrow> time"
  pe_text :: "time \<Rightarrow> string"
  pe_fromiso :: "string \<Rightarrow> time result"

text \<open>\<open>json_build_object('count', count(*), 'oldest', min(t))\<close>\<close>

definition counted :: "probe_env \<Rightarrow> time list \<Rightarrow> queue_value" where
  "counted env ts =
     \<lparr>qv_count = int (length ts),
      qv_oldest = (if ts = [] then NoneOldest else OldestText (pe_text env (Min (set ts))))\<rparr>"

definition queue_check ::
  "probe_env \<Rightarrow> 'db sessions \<Rightarrow> string \<Rightarrow> ('db \<Rightarrow> time list) \<Rightarrow> int \<Rightarrow> check_value result" where
  "queue_check env sessions check query threshold =
     (case sessions check of
        Inl err \<Rightarrow> Inr (Answered False)
      | Inr db \<Rightarrow>
          bind_result (evaluate_queue (pe_fromiso env) (pe_clock env check) (counted env (query db)) threshold)
            (\<lambda>r. Inr (Queue r)))"

definition due_times :: "time \<Rightarrow> scheduler_db \<Rightarrow> time list" where
  "due_times now db =
     map jr_available_at
       (filter (\<lambda>r. (jr_status r = ''PENDING'' \<or> jr_status r = ''RETRY_WAIT'') \<and> jr_available_at r \<le> now)
         (dict_values (db_jobs db)))"

definition unpublished_times :: "scheduler_db \<Rightarrow> time list" where
  "unpublished_times db = map ob_created_at (filter (\<lambda>r. ob_published_at r = None) (dict_values (db_outbox db)))"

definition unprojected_times :: "edr_db \<Rightarrow> time list" where
  "unprojected_times db =
     map er_persisted_at
       (filter (\<lambda>e. dict_get (pd_projected db) (er_event_id e) = None) (dict_values (pd_events db)))"

text \<open>
  \<open>_dependency\<close>: \<open>status\<close> is what the connector answers; a value of the wrong shape raises inside the
  \<open>try\<close>.
\<close>

definition get_default :: "json \<Rightarrow> string \<Rightarrow> json \<Rightarrow> json option" where
  "get_default v k default' =
     (case v of JObj kvs \<Rightarrow> Some (case map_of kvs k of None \<Rightarrow> default' | Some x \<Rightarrow> x) | _ \<Rightarrow> None)"

fun iterated :: "json \<Rightarrow> json list option" where
  "iterated (JList xs) = Some xs"
| "iterated (JObj kvs) = Some (map (JStr \<circ> fst) kvs)"
| "iterated (JStr s) = Some (map (\<lambda>c. JStr [c]) s)"
| "iterated _ = None"

fun all_running :: "json list \<Rightarrow> bool option" where
  "all_running [] = Some True"
| "all_running (task # tasks) =
     (case get_default task ''state'' JNull of
        None \<Rightarrow> None
      | Some state \<Rightarrow> if state = JStr ''RUNNING'' then all_running tasks else Some False)"

definition connector_running :: "json \<Rightarrow> bool option" where
  "connector_running v =
     Option.bind (get_default v ''tasks'' (JList [])) (\<lambda>tasks.
     Option.bind (get_default v ''connector'' (JObj [])) (\<lambda>connector.
     Option.bind (get_default connector ''state'' JNull) (\<lambda>state.
       if state = JStr ''RUNNING'' then Option.bind (iterated tasks) all_running else Some False)))"

definition dependency :: "json result \<Rightarrow> check_value" where
  "dependency status =
     (case status of
        Inr (JObj kvs) \<Rightarrow>
          (case connector_running (JObj kvs) of
             None \<Rightarrow> Answered False
           | Some running \<Rightarrow> Connector (dict_put ''healthy'' (JBool running) kvs) running)
      | _ \<Rightarrow> Answered False)"

definition dlq :: "int result \<Rightarrow> int \<Rightarrow> check_value" where
  "dlq growth limit =
     (case growth of Inl err \<Rightarrow> Answered False | Inr n \<Rightarrow> Dlq n limit (n \<le> limit))"

section \<open>The service\<close>

record health_service =
  hs_scheduler :: "scheduler_db sessions option"
  hs_edr :: "edr_db sessions option"
  hs_oldest_due_seconds :: int
  hs_oldest_outbox_seconds :: int
  hs_oldest_unprojected_seconds :: int
  hs_connector_status :: "json result option"
  hs_dlq_growth :: "int result option"
  hs_dlq_growth_limit :: int

definition new_health ::
  "scheduler_db sessions option \<Rightarrow> edr_db sessions option \<Rightarrow> health_service" where
  "new_health scheduler edr =
     \<lparr>hs_scheduler = scheduler, hs_edr = edr, hs_oldest_due_seconds = 120, hs_oldest_outbox_seconds = 60,
      hs_oldest_unprojected_seconds = 60, hs_connector_status = None, hs_dlq_growth = None,
      hs_dlq_growth_limit = 0\<rparr>"

definition scheduler_checks :: "probe_env \<Rightarrow> health_service \<Rightarrow> (string \<times> check_value) list result" where
  "scheduler_checks env hs =
     (case hs_scheduler hs of
        None \<Rightarrow> Inr []
      | Some sessions \<Rightarrow>
          bind_result (queue_check env sessions ''dueJobs'' (due_times (pe_db_clock env ''dueJobs''))
              (hs_oldest_due_seconds hs)) (\<lambda>due.
          bind_result (queue_check env sessions ''outbox'' unpublished_times (hs_oldest_outbox_seconds hs))
            (\<lambda>outbox.
          Inr [(''schedulerDatabase'', Answered (probe_query sessions ''schedulerDatabase'')),
               (''dueJobs'', due), (''outbox'', outbox)])))"

definition edr_checks :: "probe_env \<Rightarrow> health_service \<Rightarrow> (string \<times> check_value) list result" where
  "edr_checks env hs =
     (case hs_edr hs of
        None \<Rightarrow> Inr []
      | Some sessions \<Rightarrow>
          bind_result (queue_check env sessions ''projection'' unprojected_times
              (hs_oldest_unprojected_seconds hs)) (\<lambda>projection.
          Inr [(''edrDatabase'', Answered (probe_query sessions ''edrDatabase'')),
               (''projection'', projection)]))"

record health_detail =
  hd_status :: string
  hd_checks :: "(string \<times> check_value) list"

definition health_check :: "probe_env \<Rightarrow> health_service \<Rightarrow> (bool \<times> health_detail) result" where
  "health_check env hs =
     bind_result (scheduler_checks env hs) (\<lambda>scheduler.
     bind_result (edr_checks env hs) (\<lambda>edr.
     let checks = scheduler @ edr @
           (case hs_connector_status hs of None \<Rightarrow> [] | Some status \<Rightarrow> [(''connector'', dependency status)]) @
           (case hs_dlq_growth hs of None \<Rightarrow> [] | Some growth \<Rightarrow> [(''dlq'', dlq growth (hs_dlq_growth_limit hs))]);
         ready = list_all (\<lambda>(name, v). passing v) checks
     in Inr (ready, \<lparr>hd_status = (if ready then ''ready'' else ''degraded''), hd_checks = checks\<rparr>)))"


section \<open>Ages\<close>

lemma half_even_error: "\<bar>of_int (half_even x) - x\<bar> \<le> 1 / 2"
proof -
  have "of_int \<lfloor>x\<rfloor> \<le> x" "x < of_int \<lfloor>x\<rfloor> + 1" by (rule of_int_floor_le) (rule floor_correct [THEN conjunct2, simplified])
  then show ?thesis by (auto simp: half_even_def Let_def abs_le_iff)
qed

lemma half_even_nonneg: "0 \<le> x \<Longrightarrow> 0 \<le> half_even x"
  by (simp add: half_even_def Let_def)

lemma round_double_nonpos: "\<not> float_gt (round_double q) (Fin 0)" if "q \<le> 0"
proof -
  have "0 \<le> of_int (half_even (\<bar>q\<bar> / 2 powi e)) * (2 powi e :: rat)" for e
    by (intro mult_nonneg_nonneg) (simp_all add: half_even_nonneg)
  then show ?thesis using that by (auto simp: round_double_def Let_def sgn_if not_less simp del: float_times.simps)
qed

lemma round_double_error:
  assumes "0 < q" "q < 2 ^ 34"
  shows "\<exists>v. round_double q = Fin v \<and> \<bar>v - q\<bar> \<le> 1 / 2 ^ 20"
proof -
  define e where "e = max (binary_exponent q - 52) (- 1074)"
  define v where "v = of_int (half_even (q / 2 powi e)) * (2 powi e :: rat)"
  have "(2 :: rat) powi binary_exponent q < 2 powi int 34"
    using binary_exponent_le [OF assms(1)] assms(2) unfolding power_int_of_nat by linarith
  then have "binary_exponent q < 34"
    using power_int_increasing [of "34" "binary_exponent q" "2 :: rat"] by force
  then have e: "e \<le> - 19" by (simp add: e_def)
  have factored: "v - q = (of_int (half_even (q / 2 powi e)) - q / 2 powi e) * 2 powi e"
    by (simp add: v_def field_simps)
  have "\<bar>v - q\<bar> = \<bar>of_int (half_even (q / 2 powi e)) - q / 2 powi e\<bar> * 2 powi e"
    by (simp add: factored abs_mult)
  also have "\<dots> \<le> 1 / 2 * 2 powi e" by (intro mult_right_mono half_even_error) simp
  also have "\<dots> \<le> 1 / 2 * 2 powi (- 19)" using e by (intro mult_left_mono power_int_increasing) auto
  also have "\<dots> = 1 / 2 ^ 20" by (simp add: power_int_minus power_int_def power_one_over)
  finally have err: "\<bar>v - q\<bar> \<le> 1 / 2 ^ 20" .
  then have "v \<le> 2 ^ 34 + 1 / 2 ^ 20" using assms(2) by linarith
  moreover have "(2 :: rat) ^ 34 + 1 / 2 ^ 20 < 2 ^ 1024" by simp
  ultimately have "\<not> 2 ^ 1024 \<le> v" by linarith
  then have "round_double q = Fin v"
    using assms(1) unfolding round_double_def Let_def by (simp add: abs_of_pos flip: e_def v_def)
  then show ?thesis using err by blast
qed

text \<open>Below 285 years the comparison of a rounded age with whole seconds is exact.\<close>

lemma age_exact:
  assumes "\<bar>n\<bar> < 2 ^ 53" "0 \<le> t"
  shows "float_le_int (at_least_zero (total_seconds n)) t \<longleftrightarrow> n \<le> t * 1000000"
proof (cases "0 < n")
  case False
  then have "\<not> float_gt (total_seconds n) (Fin 0)"
    unfolding total_seconds_def by (intro round_double_nonpos) (simp add: divide_nonpos_pos)
  then show ?thesis using False assms(2) by (simp add: at_least_zero_def)
next
  case True
  let ?q = "of_int n / 1000000 :: rat"
  have pos: "0 < ?q" using True by simp
  have "n < 2 ^ 53" using assms(1) by simp
  then have "of_int n < (of_int (2 ^ 53) :: rat)" by (simp only: of_int_less_iff)
  then have "?q < 2 ^ 34" by (simp add: divide_less_eq)
  then obtain v where v: "total_seconds n = Fin v" "\<bar>v - ?q\<bar> \<le> 1 / 2 ^ 20"
    using round_double_error [OF pos] unfolding total_seconds_def by blast
  have small: "\<bar>v - ?q\<bar> < 1 / 1000000" using v(2) by (rule le_less_trans) simp
  show ?thesis
  proof (cases "n = t * 1000000")
    case eq: True
    then have "?q = of_int t / 2 ^ 0" by simp
    moreover have "\<bar>t\<bar> < 2 ^ 53" using eq assms by simp
    ultimately have "v = of_int t" using round_double_dyadic [of t 0] v(1) by (simp add: total_seconds_def)
    then show ?thesis using eq v(1) assms(2) by (simp add: at_least_zero_def)
  next
    case False
    have "v \<le> of_int t \<longleftrightarrow> n \<le> t * 1000000"
    proof
      assume "n \<le> t * 1000000"
      then have "n + 1 \<le> t * 1000000" using False by simp
      then have "of_int (n + 1) \<le> (of_int (t * 1000000) :: rat)" by (simp only: of_int_le_iff)
      then have "?q + 1 / 1000000 \<le> of_int t" by (simp add: field_simps)
      then show "v \<le> of_int t" using small by linarith
    next
      assume le: "v \<le> of_int t"
      show "n \<le> t * 1000000"
      proof (rule ccontr)
        assume "\<not> n \<le> t * 1000000"
        then have "t * 1000000 + 1 \<le> n" by simp
        then have "(of_int (t * 1000000 + 1) :: rat) \<le> of_int n" by (simp only: of_int_le_iff)
        then have "of_int t + 1 / 1000000 \<le> ?q" by (simp add: field_simps)
        then show False using small le by linarith
      qed
    qed
    moreover have "0 \<le> t" by fact
    ultimately show ?thesis using v(1) True by (auto simp: at_least_zero_def intro: order_trans)
  qed
qed


section \<open>What ready means\<close>

text \<open>
  The session of a check sees a database in which no entry of the queue is older than the threshold.
\<close>

definition queue_fresh :: "probe_env \<Rightarrow> 'db sessions \<Rightarrow> string \<Rightarrow> ('db \<Rightarrow> time list) \<Rightarrow> int \<Rightarrow> bool" where
  "queue_fresh env sessions check query threshold \<longleftrightarrow>
     (\<exists>db. sessions check = Inr db \<and>
        (\<forall>t \<in> set (query db). pe_clock env check - t \<le> threshold * 1000000))"

text \<open>The times a query answers can be read back and are within 285 years of the clock.\<close>

definition readable_times :: "probe_env \<Rightarrow> 'db sessions \<Rightarrow> string \<Rightarrow> ('db \<Rightarrow> time list) \<Rightarrow> bool" where
  "readable_times env sessions check query \<longleftrightarrow>
     (\<forall>db. sessions check = Inr db \<longrightarrow>
        (\<forall>t \<in> set (query db).
           pe_fromiso env (str_replace ''Z'' ''+00:00'' (pe_text env t)) = Inr t \<and>
           \<bar>pe_clock env check - t\<bar> < 2 ^ 53))"

lemma queue_check_exact:
  assumes "readable_times env sessions check query" "0 \<le> threshold"
  shows "\<exists>v. queue_check env sessions check query threshold = Inr v \<and>
    (passing v \<longleftrightarrow> queue_fresh env sessions check query threshold)"
proof (cases "sessions check")
  case (Inl err)
  then show ?thesis by (simp add: queue_check_def queue_fresh_def)
next
  case (Inr db)
  let ?ts = "query db" and ?now = "pe_clock env check"
  show ?thesis
  proof (cases "?ts = []")
    case True
    then show ?thesis using Inr assms(2)
      by (simp add: queue_check_def queue_fresh_def evaluate_queue_def counted_def)
  next
    case False
    then have "Min (set ?ts) \<in> set ?ts" by simp
    with assms(1) Inr have m: "pe_fromiso env (str_replace ''Z'' ''+00:00'' (pe_text env (Min (set ?ts)))) =
        Inr (Min (set ?ts))" "\<bar>?now - Min (set ?ts)\<bar> < 2 ^ 53"
      unfolding readable_times_def by blast+
    have "?now - Min (set ?ts) \<le> threshold * 1000000 \<longleftrightarrow>
        (\<forall>t \<in> set ?ts. ?now - t \<le> threshold * 1000000)"
      using False Min_in [of "set ?ts"] Min_le [of "set ?ts"]
      by (auto simp del: Min_in) (metis List.finite_set Min_le diff_left_mono order_trans)
    then show ?thesis
      using Inr False m(1) age_exact [OF m(2) assms(2)]
      by (simp add: queue_check_def queue_fresh_def evaluate_queue_def counted_def parse_time_def)
  qed
qed

lemma answered: "probe_query sessions check \<longleftrightarrow> (\<exists>db. sessions check = Inr db)"
  by (simp add: probe_query_def split: sum.split)

lemma scheduler_checks_exact:
  assumes "0 \<le> hs_oldest_due_seconds hs" "0 \<le> hs_oldest_outbox_seconds hs"
    and "\<forall>sessions. hs_scheduler hs = Some sessions \<longrightarrow>
      readable_times env sessions ''dueJobs'' (due_times (pe_db_clock env ''dueJobs'')) \<and>
      readable_times env sessions ''outbox'' unpublished_times"
  shows "\<exists>vs. scheduler_checks env hs = Inr vs \<and>
    (list_all (\<lambda>(name, v). passing v) vs \<longleftrightarrow>
     (\<forall>sessions. hs_scheduler hs = Some sessions \<longrightarrow>
        (\<exists>db. sessions ''schedulerDatabase'' = Inr db) \<and>
        queue_fresh env sessions ''dueJobs'' (due_times (pe_db_clock env ''dueJobs''))
          (hs_oldest_due_seconds hs) \<and>
        queue_fresh env sessions ''outbox'' unpublished_times (hs_oldest_outbox_seconds hs)))"
proof (cases "hs_scheduler hs")
  case (Some sessions)
  with assms obtain due outbox where
    "queue_check env sessions ''dueJobs'' (due_times (pe_db_clock env ''dueJobs'')) (hs_oldest_due_seconds hs) =
      Inr due"
    "passing due \<longleftrightarrow> queue_fresh env sessions ''dueJobs'' (due_times (pe_db_clock env ''dueJobs''))
      (hs_oldest_due_seconds hs)"
    "queue_check env sessions ''outbox'' unpublished_times (hs_oldest_outbox_seconds hs) = Inr outbox"
    "passing outbox \<longleftrightarrow> queue_fresh env sessions ''outbox'' unpublished_times (hs_oldest_outbox_seconds hs)"
    using queue_check_exact by meson
  then show ?thesis using Some by (simp add: scheduler_checks_def answered)
qed (simp add: scheduler_checks_def)

lemma edr_checks_exact:
  assumes "0 \<le> hs_oldest_unprojected_seconds hs"
    and "\<forall>sessions. hs_edr hs = Some sessions \<longrightarrow> readable_times env sessions ''projection'' unprojected_times"
  shows "\<exists>vs. edr_checks env hs = Inr vs \<and>
    (list_all (\<lambda>(name, v). passing v) vs \<longleftrightarrow>
     (\<forall>sessions. hs_edr hs = Some sessions \<longrightarrow>
        (\<exists>db. sessions ''edrDatabase'' = Inr db) \<and>
        queue_fresh env sessions ''projection'' unprojected_times (hs_oldest_unprojected_seconds hs)))"
proof (cases "hs_edr hs")
  case (Some sessions)
  with assms obtain v where
    "queue_check env sessions ''projection'' unprojected_times (hs_oldest_unprojected_seconds hs) = Inr v"
    "passing v \<longleftrightarrow> queue_fresh env sessions ''projection'' unprojected_times (hs_oldest_unprojected_seconds hs)"
    using queue_check_exact by meson
  then show ?thesis using Some by (simp add: edr_checks_def answered)
qed (simp add: edr_checks_def)

lemma dependency_passing:
  "passing (dependency status) \<longleftrightarrow>
     (\<exists>kvs. status = Inr (JObj kvs) \<and> connector_running (JObj kvs) = Some True)"
  by (cases status) (auto simp: dependency_def split: json.splits option.splits)

lemma dlq_passing: "passing (dlq growth limit) \<longleftrightarrow> (\<exists>n. growth = Inr n \<and> n \<le> limit)"
  by (simp add: dlq_def split: sum.split)

text \<open>
  C38. Readiness is exact: whatever the databases, the connector and the dead letter counter answer, the
  check ends with a verdict, and it is ready exactly when each configured database answers, no due job,
  no unpublished event and no unprojected event is older than its threshold, the connector and all its
  tasks run, and the dead letters are within their limit.
\<close>

theorem readiness_is_exact:
  assumes "0 \<le> hs_oldest_due_seconds hs" "0 \<le> hs_oldest_outbox_seconds hs"
    "0 \<le> hs_oldest_unprojected_seconds hs"
    and "\<forall>sessions. hs_scheduler hs = Some sessions \<longrightarrow>
      readable_times env sessions ''dueJobs'' (due_times (pe_db_clock env ''dueJobs'')) \<and>
      readable_times env sessions ''outbox'' unpublished_times"
    and "\<forall>sessions. hs_edr hs = Some sessions \<longrightarrow> readable_times env sessions ''projection'' unprojected_times"
  shows "\<exists>ready detail. health_check env hs = Inr (ready, detail) \<and>
    hd_status detail = (if ready then ''ready'' else ''degraded'') \<and>
    (ready \<longleftrightarrow>
       (\<forall>sessions. hs_scheduler hs = Some sessions \<longrightarrow>
          (\<exists>db. sessions ''schedulerDatabase'' = Inr db) \<and>
          queue_fresh env sessions ''dueJobs'' (due_times (pe_db_clock env ''dueJobs''))
            (hs_oldest_due_seconds hs) \<and>
          queue_fresh env sessions ''outbox'' unpublished_times (hs_oldest_outbox_seconds hs)) \<and>
       (\<forall>sessions. hs_edr hs = Some sessions \<longrightarrow>
          (\<exists>db. sessions ''edrDatabase'' = Inr db) \<and>
          queue_fresh env sessions ''projection'' unprojected_times (hs_oldest_unprojected_seconds hs)) \<and>
       (\<forall>status. hs_connector_status hs = Some status \<longrightarrow>
          (\<exists>kvs. status = Inr (JObj kvs) \<and> connector_running (JObj kvs) = Some True)) \<and>
       (\<forall>growth. hs_dlq_growth hs = Some growth \<longrightarrow> (\<exists>n. growth = Inr n \<and> n \<le> hs_dlq_growth_limit hs)))"
proof -
  obtain scheduler where scheduler: "scheduler_checks env hs = Inr scheduler"
    "list_all (\<lambda>(name, v). passing v) scheduler \<longleftrightarrow>
     (\<forall>sessions. hs_scheduler hs = Some sessions \<longrightarrow>
        (\<exists>db. sessions ''schedulerDatabase'' = Inr db) \<and>
        queue_fresh env sessions ''dueJobs'' (due_times (pe_db_clock env ''dueJobs''))
          (hs_oldest_due_seconds hs) \<and>
        queue_fresh env sessions ''outbox'' unpublished_times (hs_oldest_outbox_seconds hs))"
    using scheduler_checks_exact [OF assms(1,2,4)] by blast
  obtain edr where edr: "edr_checks env hs = Inr edr"
    "list_all (\<lambda>(name, v). passing v) edr \<longleftrightarrow>
     (\<forall>sessions. hs_edr hs = Some sessions \<longrightarrow>
        (\<exists>db. sessions ''edrDatabase'' = Inr db) \<and>
        queue_fresh env sessions ''projection'' unprojected_times (hs_oldest_unprojected_seconds hs))"
    using edr_checks_exact [OF assms(3,5)] by blast
  show ?thesis
    unfolding health_check_def scheduler(1) edr(1) bind_result.simps Let_def
    by (intro exI conjI, rule refl, simp)
      (simp add: scheduler(2) edr(2) dependency_passing dlq_passing split: option.split)
qed

definition example_db :: scheduler_db where
  "example_db = empty_db\<lparr>db_jobs := [(''job-1'', new_job_row example_submission 0)]\<rparr>"

definition example_probe_env :: probe_env where
  "example_probe_env =
     \<lparr>pe_db_clock = \<lambda>check. 121000000, pe_clock = \<lambda>check. 121000000,
      pe_text = \<lambda>t. ''1970-01-01T00:00:00+00:00'', pe_fromiso = \<lambda>s. Inr 0\<rparr>"

theorem readiness_is_exact_witness:
  "\<exists>detail. health_check example_probe_env (new_health (Some (\<lambda>check. Inr example_db)) None) =
     Inr (False, detail) \<and> hd_status detail = ''degraded''"
proof -
  let ?hs = "new_health (Some (\<lambda>check. Inr example_db)) None"
  have due: "due_times 121000000 example_db = [0]"
    by (simp add: due_times_def example_db_def empty_db_def new_job_row_def example_submission_def)
  have outbox: "unpublished_times example_db = []"
    by (simp add: unpublished_times_def example_db_def empty_db_def)
  have "\<exists>ready detail. health_check example_probe_env ?hs = Inr (ready, detail) \<and>
      hd_status detail = (if ready then ''ready'' else ''degraded'') \<and>
      (ready \<longrightarrow> queue_fresh example_probe_env (\<lambda>check. Inr example_db) ''dueJobs'' (due_times 121000000) 120)"
    using readiness_is_exact [of ?hs example_probe_env]
    by (fastforce simp: new_health_def readable_times_def example_probe_env_def due outbox)
  moreover have "\<not> queue_fresh example_probe_env (\<lambda>check. Inr example_db) ''dueJobs'' (due_times 121000000) 120"
    by (simp add: queue_fresh_def due example_probe_env_def)
  ultimately show ?thesis by auto
qed

end
