(* ===== verification/Api.thy ===== *)
theory Api
  imports Health Visibility_Reader Engine_Reads
begin

text \<open>
  The HTTP handlers of \<open>src/job_visibility/api.py\<close> and the route selection of \<open>production_api.py\<close>. A
  handler answers with a status and a body or raises; what the framework makes of an exception no
  handler catches is not part of the program.
\<close>

section \<open>Requests and responses\<close>

record http_response =
  ht_status :: int
  ht_body :: json

text \<open>
  The parsed bodies: \<open>JobSubmissionInput\<close> has the fields of a submission and \<open>EventInput\<close> those of an
  event, with defaults of their own.
\<close>

definition submission_input :: "string \<Rightarrow> string \<Rightarrow> string \<Rightarrow> time \<Rightarrow> submission" where
  "submission_input job_id correlation_id job_type scheduled_at =
     \<lparr>su_job_id = job_id, su_correlation_id = correlation_id, su_job_type = job_type,
      su_scheduled_at = scheduled_at, su_payload = Some (JObj []), su_payload_reference = None,
      su_max_attempts = 3\<rparr>"

definition event_input :: "string \<Rightarrow> event_type \<Rightarrow> time \<Rightarrow> time \<Rightarrow> string \<Rightarrow> event" where
  "event_input event_id event_type event_time ingestion_time job_id =
     (new_event event_id event_type event_time ingestion_time job_id)\<lparr>ev_source_system := ''api''\<rparr>"

definition to_event :: "event \<Rightarrow> event result" where
  "to_event value' = event_post_init value'"

text \<open>What \<open>create_app\<close> closes over.\<close>

record api =
  ap_scheduler :: "service option"
  ap_durable_reader :: bool
  ap_ingress_topic :: "string option"
  ap_health :: "health_service option"
  ap_max_payload_bytes :: int
  ap_visibility_base_url :: string

definition new_api :: api where
  "new_api =
     \<lparr>ap_scheduler = None, ap_durable_reader = False, ap_ingress_topic = None, ap_health = None,
      ap_max_payload_bytes = 65536, ap_visibility_base_url = []\<rparr>"

section \<open>Health\<close>

definition liveness :: http_response where
  "liveness = \<lparr>ht_status = 200, ht_body = JObj [(''status'', JStr ''alive'')]\<rparr>"

datatype readiness_body = Simulation_Mode | Detail health_detail

definition readiness :: "probe_env \<Rightarrow> api \<Rightarrow> (int \<times> readiness_body) result" where
  "readiness env ap =
     (case ap_health ap of
        None \<Rightarrow> Inr (200, Simulation_Mode)
      | Some hs \<Rightarrow>
          bind_result (health_check env hs) (\<lambda>(ready, detail).
          Inr (if ready then 200 else 503, Detail detail)))"

section \<open>Submission\<close>

text \<open>\<open>json.dumps(value, separators=(",", ":"))\<close>: keys in order, every character outside printable ASCII escaped.\<close>

definition ascii_escape :: "char \<Rightarrow> string" where
  "ascii_escape c =
     (let n = of_char c :: nat
      in if 127 \<le> n
         then [CHR 0x5C, CHR ''u'', CHR ''0'', CHR ''0'', hex_digit (n div 16), hex_digit (n mod 16)]
         else json_escape c)"

definition ascii_string :: "string \<Rightarrow> string" where
  "ascii_string s = [CHR 0x22] @ concat (map ascii_escape s) @ [CHR 0x22]"

primrec compact_dumps :: "json \<Rightarrow> string" where
  "compact_dumps JNull = ''null''"
| "compact_dumps (JBool b) = (if b then ''true'' else ''false'')"
| "compact_dumps (JInt i) = int_digits i"
| "compact_dumps (JStr s) = ascii_string s"
| "compact_dumps (JList xs) = ''['' @ joined '','' (map compact_dumps xs) @ '']''"
| "compact_dumps (JObj kvs) =
     ''{'' @ joined '','' (map (\<lambda>(k, s). ascii_string k @ '':'' @ s)
        (map (map_prod id compact_dumps) kvs)) @ ''}''"

definition payload_size :: "json option \<Rightarrow> int" where
  "payload_size payload = int (length (compact_dumps (case payload of None \<Rightarrow> JNull | Some v \<Rightarrow> v)))"

text \<open>\<open>except SQLAlchemyError\<close>\<close>

definition is_sqlalchemy_error :: "exn \<Rightarrow> bool" where
  "is_sqlalchemy_error err = (case err of DriverError m \<Rightarrow> True | _ \<Rightarrow> False)"

text \<open>\<open>url.rstrip("/")\<close>\<close>

definition rstrip_slash :: "string \<Rightarrow> string" where
  "rstrip_slash s = rev (dropWhile (\<lambda>c. c = CHR ''/'') (rev s))"

text \<open>\<open>reach\<close> is what opening the session raises, if anything.\<close>

definition submit_in_session ::
  "service \<Rightarrow> exn option \<Rightarrow> faults \<Rightarrow> time \<Rightarrow> submission \<Rightarrow> scheduler_db \<Rightarrow>
   scheduler_db \<times> submission_decision result" where
  "submit_in_session svc reach faults now value' db =
     (case submission_post_init value' of
        Inl err \<Rightarrow> (db, Inl err)
      | Inr v \<Rightarrow> (case reach of Some err \<Rightarrow> (db, Inl err) | None \<Rightarrow> submit_checked svc faults now v db))"

definition submitted_body :: "api \<Rightarrow> string \<Rightarrow> bool \<Rightarrow> json" where
  "submitted_body ap job_id created =
     JObj [(''jobId'', JStr job_id), (''created'', JBool created),
           (''statusUrl'', JStr (rstrip_slash (ap_visibility_base_url ap) @ ''/scheduled-jobs/'' @ job_id))]"

definition submission_answer :: "api \<Rightarrow> string \<Rightarrow> submission_decision result \<Rightarrow> http_response result" where
  "submission_answer ap job_id decision =
     (case decision of
        Inl err \<Rightarrow>
          if is_sqlalchemy_error err
          then Inr \<lparr>ht_status = 503,
                    ht_body = JObj [(''code'', JStr ''SCHEDULER_DATABASE_UNAVAILABLE'')]\<rparr>
          else Inl err
      | Inr d \<Rightarrow>
          if d = SD_CONFLICT
          then Inr \<lparr>ht_status = 409,
                    ht_body = JObj [(''code'', JStr ''JOB_ID_CONFLICT''), (''jobId'', JStr job_id)]\<rparr>
          else Inr \<lparr>ht_status = (if d = SD_CREATED then 201 else 200),
                    ht_body = submitted_body ap job_id (d = SD_CREATED)\<rparr>)"

definition submit_job ::
  "api \<Rightarrow> service \<Rightarrow> exn option \<Rightarrow> faults \<Rightarrow> time \<Rightarrow> submission \<Rightarrow> scheduler_db \<Rightarrow>
   scheduler_db \<times> http_response result" where
  "submit_job ap svc reach faults now value' db =
     (if su_job_type value' \<notin> {''PRINT'', ''FIBONACCI''}
      then (db, Inr \<lparr>ht_status = 422,
                     ht_body = JObj [(''code'', JStr ''UNSUPPORTED_JOB_TYPE''),
                                     (''jobType'', JStr (su_job_type value'))]\<rparr>)
      else if payload_size (su_payload value') > ap_max_payload_bytes ap
      then (db, Inr \<lparr>ht_status = 413,
                     ht_body = JObj [(''code'', JStr ''JOB_PAYLOAD_TOO_LARGE''),
                                     (''limitBytes'', JInt (ap_max_payload_bytes ap))]\<rparr>)
      else
        (case submit_in_session svc reach faults now value' db of
           (db, decision) \<Rightarrow> (db, submission_answer ap (su_job_id value') decision)))"

section \<open>EDR ingestion and the lifecycle table\<close>

definition lifecycle_fields :: "event_type \<Rightarrow> string \<Rightarrow> (string \<times> json) list" where
  "lifecycle_fields t requirement =
     (let lifecycle = classify_event t
      in [(''edrType'', JStr (edr_type_value (lc_edr_type lifecycle))),
          (''edrGroup'', JStr (edr_group_value (lc_group lifecycle))),
          (requirement, JStr (edr_requirement_value (lc_requirement lifecycle)))])"

definition ingested :: "event_type \<Rightarrow> string \<Rightarrow> string \<Rightarrow> string option \<Rightarrow> http_response" where
  "ingested t event_id decision reason =
     \<lparr>ht_status = 202,
      ht_body = JObj ([(''eventId'', JStr event_id), (''decision'', JStr decision),
                       (''reason'', jopt JStr reason)] @ lifecycle_fields t ''edrRequirement'')\<rparr>"

definition ingest_edr ::
  "api \<Rightarrow> (string \<Rightarrow> string \<Rightarrow> string \<Rightarrow> coordinate result) \<Rightarrow> (string \<Rightarrow> string) \<Rightarrow> event \<Rightarrow> engine \<Rightarrow>
   engine \<times> http_response result" where
  "ingest_edr ap producer sha256 value' en =
     (case to_event value' of
        Inl err \<Rightarrow> (en, Inl err)
      | Inr e \<Rightarrow>
          (case ap_ingress_topic ap of
             Some topic \<Rightarrow>
               (en, bind_result (ingress_publish producer sha256 topic e) (\<lambda>u.
                    Inr (ingested (ev_event_type value') (ev_event_id e) ''ACCEPTED''
                          (Some ''awaiting durable projection''))))
           | None \<Rightarrow>
               (case engine_apply en e None of
                  (en, Inl err) \<Rightarrow> (en, Inl err)
                | (en, Inr decision) \<Rightarrow>
                    (en, Inr (ingested (ev_event_type value') (de_event_id decision) (de_decision decision)
                               (de_reason decision))))))"

definition retrieve_edr_lifecycle :: http_response where
  "retrieve_edr_lifecycle =
     (let items = map (\<lambda>t. JObj ((''eventType'', JStr (event_type_value t)) # lifecycle_fields t ''requirement''))
                    event_types
      in \<lparr>ht_status = 200, ht_body = JObj [(''items'', JList items), (''count'', JInt (int (length items)))]\<rparr>)"

section \<open>Reads\<close>

definition not_found :: http_response where
  "not_found =
     \<lparr>ht_status = 404,
      ht_body = JObj [(''code'', JStr ''JOB_VISIBILITY_RECORD_NOT_FOUND''),
        (''message'', JStr ''No job visibility record was found for the supplied job ID.''),
        (''meaning'', JStr (''The absence of a visibility record does not prove that the external '' @
                            ''scheduler has no such job.''))]\<rparr>"

definition or_not_found :: "json result \<Rightarrow> http_response result" where
  "or_not_found r =
     (case r of
        Inr body \<Rightarrow> Inr \<lparr>ht_status = 200, ht_body = body\<rparr>
      | Inl (JobNotFoundError i) \<Rightarrow> Inr not_found
      | Inl err \<Rightarrow> Inl err)"

definition retrieve_job :: "api \<Rightarrow> faults \<Rightarrow> edr_db \<Rightarrow> engine \<Rightarrow> time \<Rightarrow> string \<Rightarrow> http_response result" where
  "retrieve_job ap faults db en now job_id =
     or_not_found (if ap_durable_reader ap then reader_get faults db job_id else get_response en job_id now)"

definition retrieve_attempts :: "api \<Rightarrow> faults \<Rightarrow> edr_db \<Rightarrow> engine \<Rightarrow> string \<Rightarrow> http_response result" where
  "retrieve_attempts ap faults db en job_id =
     or_not_found
       (bind_result (if ap_durable_reader ap then reader_attempts faults db job_id else get_attempts en job_id)
          (\<lambda>attempts. Inr (JObj [(''jobId'', JStr job_id), (''attempts'', JList attempts)])))"

text \<open>The comprehension over the schedule: \<open>inside\<close> is the comparison with the bound.\<close>

fun scheduled_items ::
  "(string \<Rightarrow> time result) \<Rightarrow> (time \<Rightarrow> bool) \<Rightarrow> json list \<Rightarrow> json list result" where
  "scheduled_items fromiso inside [] = Inr []"
| "scheduled_items fromiso inside (item # items) =
     (case get_default item ''scheduledAt'' JNull of
        None \<Rightarrow> Inl (AttributeError ''get'')
      | Some v \<Rightarrow>
          if json_truthy v
          then bind_result (parse_time fromiso v) (\<lambda>t.
               bind_result (scheduled_items fromiso inside items) (\<lambda>kept.
               Inr (if inside t then item # kept else kept)))
          else scheduled_items fromiso inside items)"

definition bounded_items ::
  "(string \<Rightarrow> time result) \<Rightarrow> (time \<Rightarrow> bool) option \<Rightarrow> json list \<Rightarrow> json list result" where
  "bounded_items fromiso bound items =
     (case bound of None \<Rightarrow> Inr items | Some inside \<Rightarrow> scheduled_items fromiso inside items)"

definition search_jobs ::
  "api \<Rightarrow> (string \<Rightarrow> time result) \<Rightarrow> faults \<Rightarrow> edr_db \<Rightarrow> engine \<Rightarrow> time \<Rightarrow>
   status option \<Rightarrow> string option \<Rightarrow> time option \<Rightarrow> time option \<Rightarrow> http_response result" where
  "search_jobs ap fromiso faults db en now status correlation_id scheduled_from scheduled_to =
     bind_result
       (if ap_durable_reader ap
        then
          bind_result (reader_search faults db (map_option status_value status) correlation_id) (\<lambda>jobs.
          bind_result (bounded_items fromiso (map_option (\<lambda>from t. from \<le> t) scheduled_from) jobs) (\<lambda>jobs.
          bounded_items fromiso (map_option (\<lambda>until t. t \<le> until) scheduled_to) jobs))
        else search en now status correlation_id scheduled_from scheduled_to) (\<lambda>jobs.
     Inr \<lparr>ht_status = 200, ht_body = JObj [(''items'', JList jobs), (''count'', JInt (int (length jobs)))]\<rparr>)"

text \<open>\<open>render\<close> is the text the framework makes of a time.\<close>

definition finding_row_json :: "(time \<Rightarrow> string) \<Rightarrow> (string \<times> string \<times> time) \<times> finding_row \<Rightarrow> json" where
  "finding_row_json render entry =
     (case entry of
        ((job_id, code, first_observed_at), row) \<Rightarrow>
          JObj [(''job_id'', JStr job_id), (''code'', JStr code), (''message'', JStr (fr_message row)),
                (''first_observed_at'', JStr (render first_observed_at)), (''active'', JBool (fr_active row)),
                (''resolved_at'', jopt (\<lambda>t. JStr (render t)) (fr_resolved_at row))])"

definition reconciliation_run ::
  "api \<Rightarrow> (time \<Rightarrow> string) \<Rightarrow> faults \<Rightarrow> edr_db \<Rightarrow> time \<Rightarrow> engine \<Rightarrow> engine \<times> http_response result" where
  "reconciliation_run ap render faults db now en =
     (let body = (\<lambda>findings. \<lparr>ht_status = 200,
            ht_body = JObj [(''findings'', JList findings), (''count'', JInt (int (length findings)))]\<rparr>)
      in if ap_durable_reader ap
         then (en, bind_result (reader_findings faults db) (\<lambda>rows. Inr (body (map (finding_row_json render) rows))))
         else (case reconcile en now of
                 (en, findings) \<Rightarrow> (en, Inr (body (map finding_to_dict findings)))))"

section \<open>Roles\<close>

definition SHARED_PATHS :: "string list" where
  "SHARED_PATHS =
     [''/health/live'', ''/health/ready'', ''/metrics'', ''/openapi.json'', ''/docs'', ''/redoc'']"

text \<open>\<open>framework\<close> are the routes FastAPI registers itself; the others in the order of \<open>create_app\<close>.\<close>

definition app_routes :: "string list \<Rightarrow> bool \<Rightarrow> string list" where
  "app_routes framework scheduler =
     framework @ [''/health/live'', ''/health/ready'', ''/metrics''] @
     (if scheduler then [''/scheduler/jobs''] else []) @
     [''/edrs'', ''/edr-lifecycle'', ''/scheduled-jobs/{job_id}'', ''/scheduled-jobs/{job_id}/attempts'',
      ''/scheduled-jobs'', ''/reconciliation-runs'']"

definition starts_with :: "string \<Rightarrow> string \<Rightarrow> bool" where
  "starts_with path p = (take (length p) path = p)"

definition retain_paths :: "string list \<Rightarrow> string list \<Rightarrow> string list" where
  "retain_paths kept routes =
     filter (\<lambda>path. path \<in> set SHARED_PATHS \<or> list_ex (starts_with path) kept) routes"

definition scheduler_app_routes :: "string list \<Rightarrow> string list" where
  "scheduler_app_routes framework = retain_paths [''/scheduler/''] (app_routes framework True)"

definition visibility_app_routes :: "string list \<Rightarrow> string list" where
  "visibility_app_routes framework =
     retain_paths [''/scheduled-jobs'', ''/edr-lifecycle'', ''/reconciliation-runs''] (app_routes framework False)"


lemma scheduler_role_routes:
  "scheduler_app_routes [''/openapi.json'', ''/docs'', ''/docs/oauth2-redirect'', ''/redoc''] =
     [''/openapi.json'', ''/docs'', ''/redoc'', ''/health/live'', ''/health/ready'', ''/metrics'',
      ''/scheduler/jobs'']"
  by code_simp

lemma visibility_role_routes:
  "visibility_app_routes [''/openapi.json'', ''/docs'', ''/docs/oauth2-redirect'', ''/redoc''] =
     [''/openapi.json'', ''/docs'', ''/redoc'', ''/health/live'', ''/health/ready'', ''/metrics'',
      ''/edr-lifecycle'', ''/scheduled-jobs/{job_id}'', ''/scheduled-jobs/{job_id}/attempts'',
      ''/scheduled-jobs'', ''/reconciliation-runs'']"
  by code_simp

section \<open>What a submission answers\<close>

abbreviation submission_events :: "submission \<Rightarrow> time \<Rightarrow> event list" where
  "submission_events v now \<equiv>
     [submission_event v now JOB_CREATED, submission_event v now JOB_SCHEDULER_SUBMISSION_REQUESTED]"

text \<open>The row and its first EDRs are inserted together.\<close>

definition submitted :: "service \<Rightarrow> time \<Rightarrow> submission \<Rightarrow> scheduler_db \<Rightarrow> scheduler_db \<Rightarrow> bool" where
  "submitted svc now v db db' \<longleftrightarrow>
     dict_get (db_jobs db) (su_job_id v) = None \<and>
     (\<exists>db1. write_job (new_job_row v now) db = Inr db1 \<and>
        add_events svc now (submission_events v now) db1 = Inr db')"

lemma submit_checked_cases:
  assumes "submit_checked svc faults now v db = (db', decision)"
  shows "submitted svc now v db db' \<and>
      decision = inject faults ''scheduler.after_commit'' (Inr SD_CREATED) \<or>
    db' = db \<and>
      ((\<exists>err. decision = Inl err) \<or>
       (\<exists>r. dict_get (db_jobs db) (su_job_id v) = Some r \<and>
          decision = Inr (if identical_submission r v then SD_IDENTICAL else SD_CONFLICT)))"
proof (cases "dict_get (db_jobs db) (su_job_id v)")
  case (Some r)
  then show ?thesis using assms
    by (auto simp: submit_checked_def transaction_def split: if_splits)
next
  case None
  show ?thesis
  proof (cases "write_job (new_job_row v now) db")
    case (Inl err)
    with None assms show ?thesis by (auto simp: submit_checked_def transaction_def)
  next
    case w: (Inr db1)
    show ?thesis
    proof (cases "add_events svc now (submission_events v now) db1")
      case (Inl err)
      with None w assms show ?thesis
        by (auto simp: submit_checked_def transaction_def simp del: add_events.simps)
    next
      case (Inr db2)
      with None w assms show ?thesis
        by (auto simp: submit_checked_def transaction_def inject_def submitted_def simp del: add_events.simps
            split: option.splits)
    qed
  qed
qed



definition example_api :: api where
  "example_api = new_api\<lparr>ap_scheduler := Some example_service, ap_visibility_base_url := ''http://v/''\<rparr>"

lemma example_payload: "payload_size (Some (JObj [])) = 2"
  by code_simp


text \<open>
  Submissions can be repeated: once an identical job is stored, the same request gets 200 with
  \<open>created\<close> false and changes nothing, whatever the scheduler did with the job in between.
\<close>

theorem repeated_submission_answers_200:
  assumes "inj (sv_uuid svc)"
    and "dict_get (db_jobs (ss_db (run_scheduler svc ops))) (su_job_id v) = Some r" "identical_submission r v"
    and "submission_post_init v = Inr v" "su_job_type v \<in> {''PRINT'', ''FIBONACCI''}"
    and "payload_size (su_payload v) \<le> ap_max_payload_bytes ap"
  shows "let db = ss_db (run_scheduler svc (ops @ later)) in
    submit_job ap svc None faults now v db =
      (db, Inr \<lparr>ht_status = 200, ht_body = submitted_body ap (su_job_id v) False\<rparr>)"
proof -
  let ?db = "ss_db (run_scheduler svc (ops @ later))"
  have "db_le (ss_db (run_scheduler svc ops)) ?db"
    using run_scheduler_le [OF assms(1), of ops later] by (simp add: sys_le_def)
  then obtain r' where r': "dict_get (db_jobs ?db) (su_job_id v) = Some r'" "row_le r r'"
    using assms(2) unfolding db_le_def by blast
  then have "identical_submission r' v"
    using assms(3) by (simp add: row_le_def same_submission_def identical_submission_def)
  then show ?thesis
    using r'(1) assms(4-6)
    by (auto simp: Let_def submit_job_def submit_in_session_def submit_checked_def transaction_def
        submission_answer_def)
qed

lemma example_submitted:
  "dict_get (db_jobs (ss_db (run_scheduler example_service [OpSubmit no_faults 0 example_submission]))) ''job-1'' =
     Some (new_job_row example_submission 0)"
proof -
  have v: "submission_post_init example_submission = Inr example_submission"
    by (simp add: submission_post_init_def example_submission_def)
  have inv: "db_inv example_service {} empty_db"
    using run_scheduler_inv [OF example_uuids, of "[]"]
    by (simp add: sys_inv_def run_scheduler_def initial_system_def)
  obtain db' where "submit_checked example_service no_faults 0 example_submission empty_db = (db', Inr SD_CREATED)"
    "db_jobs db' = dict_put (su_job_id example_submission) (new_job_row example_submission 0) (db_jobs empty_db)"
    using submit_commits [OF example_uuids inv, of example_submission 0] v
    unfolding valid_submission_def by (auto simp: empty_db_def)
  moreover have "su_job_id example_submission = ''job-1''" by (simp add: example_submission_def)
  ultimately show ?thesis
    using v by (simp add: run_scheduler_def initial_system_def empty_db_def dict_simps)
qed

theorem repeated_submission_answers_200_witness:
  "let db = ss_db (run_scheduler example_service
         [OpSubmit no_faults 0 example_submission, OpClaim 5 6 {} ''w1'' 10, OpStart 7 0]) in
     submit_job example_api example_service None no_faults 9 example_submission db =
       (db, Inr \<lparr>ht_status = 200, ht_body = submitted_body example_api ''job-1'' False\<rparr>)"
proof -
  have id: "su_job_id example_submission = ''job-1''" by (simp add: example_submission_def)
  have "identical_submission (new_job_row example_submission 0) example_submission"
    by (simp add: identical_submission_def new_job_row_def example_submission_def payload_eq_def)
  moreover have "submission_post_init example_submission = Inr example_submission"
    "su_job_type example_submission \<in> {''PRINT'', ''FIBONACCI''}"
    "payload_size (su_payload example_submission) \<le> ap_max_payload_bytes example_api"
    using example_payload
    by (simp_all add: submission_post_init_def example_submission_def example_api_def new_api_def)
  ultimately show ?thesis
    using repeated_submission_answers_200 [OF example_uuids, of "[OpSubmit no_faults 0 example_submission]"
        example_submission "new_job_row example_submission 0" example_api
        "[OpClaim 5 6 {} ''w1'' 10, OpStart 7 0]" no_faults 9] example_submitted
    unfolding id by simp
qed

text \<open>
  Invalid fields escape as exceptions: a submission that gives only a payload reference, the payload
  left to its default, and an EDR with a negative attempt number raise \<open>ValueError\<close> out of their
  handlers, which answer no client error.
\<close>

theorem invalid_fields_escape:
  assumes "job_id \<noteq> []" "correlation_id \<noteq> []" "job_type \<in> {''PRINT'', ''FIBONACCI''}"
    and "2 \<le> ap_max_payload_bytes ap" and "n < 0"
  shows "submit_job ap svc reach faults now
      ((submission_input job_id correlation_id job_type start_at)\<lparr>su_payload_reference := Some ref\<rparr>) db =
      (db, Inl (ValueError ''exactly one of payload and payload_reference is required'')) \<and>
    ingest_edr ap producer sha256 ((event_input i t et it job_id)\<lparr>ev_attempt_number := n\<rparr>) en =
      (en, Inl (ValueError ''attempt_number cannot be negative''))"
  using assms example_payload
  by (auto simp: submit_job_def submit_in_session_def submission_input_def submission_post_init_def
      submission_answer_def is_sqlalchemy_error_def ingest_edr_def to_event_def event_post_init_def)

theorem invalid_fields_escape_witness:
  "submit_job example_api example_service None no_faults 0
      ((submission_input ''job-1'' ''corr-1'' ''PRINT'' 0)\<lparr>su_payload_reference := Some ''s3://p''\<rparr>) empty_db =
     (empty_db, Inl (ValueError ''exactly one of payload and payload_reference is required''))"
  using invalid_fields_escape [of "''job-1''" "''corr-1''" "''PRINT''" example_api "- 1"]
  by (simp add: example_api_def new_api_def)

end
