(* ===== verification/Test_Support.thy ===== *)
theory Test_Support
  imports Python_Numbers Edr_Wire
begin

text \<open>
  The helpers of the system tests under \<open>src/job_visibility/testing\<close>: the bounded polling loop, the
  resource pressure on containers and the control of outages. The shell is an argument: \<open>run check
  command\<close> is what a command prints, or what \<open>subprocess.run\<close> raises. Times of the polling loop are
  exact rationals.
\<close>

section \<open>Polling\<close>

text \<open>
  \<open>observe k\<close> is what attempt \<open>k\<close> sees, \<open>clock k\<close> the reading after it and \<open>clock 0\<close> the one at the
  start; \<open>retried\<close> are the exceptions that count as a failed observation. The waits are recorded. The
  loop may run forever, which is the value \<open>None\<close>.
\<close>

datatype 'a poll_outcome = Accepted 'a | Timed_Out rat "'a result" nat | Propagated exn

partial_function (option) poll_loop ::
  "(nat \<Rightarrow> 'a result) \<Rightarrow> ('a \<Rightarrow> bool) \<Rightarrow> (exn \<Rightarrow> bool) \<Rightarrow> (nat \<Rightarrow> rat) \<Rightarrow> rat \<Rightarrow> rat \<Rightarrow>
   nat \<Rightarrow> rat list \<Rightarrow> (rat list \<times> 'a poll_outcome) option" where
  "poll_loop observe accept retried clock timeout interval attempts waits =
     (let k = Suc attempts; elapsed = clock k - clock 0
      in case observe k of
           Inr v \<Rightarrow>
             if accept v then Some (waits, Accepted v)
             else if timeout \<le> elapsed then Some (waits, Timed_Out elapsed (Inr v) k)
             else poll_loop observe accept retried clock timeout interval k
                    (waits @ [min interval (timeout - elapsed)])
         | Inl err \<Rightarrow>
             if \<not> retried err then Some (waits, Propagated err)
             else if timeout \<le> elapsed then Some (waits, Timed_Out elapsed (Inl err) k)
             else poll_loop observe accept retried clock timeout interval k
                    (waits @ [min interval (timeout - elapsed)]))"


definition poll_until ::
  "(nat \<Rightarrow> 'a result) \<Rightarrow> ('a \<Rightarrow> bool) \<Rightarrow> (exn \<Rightarrow> bool) \<Rightarrow> (nat \<Rightarrow> rat) \<Rightarrow> rat \<Rightarrow> rat \<Rightarrow>
   (rat list \<times> 'a poll_outcome) option result" where
  "poll_until observe accept retried clock timeout interval =
     (if timeout \<le> 0 then Inl (ValueError ''poll timeout must be positive'')
      else if interval \<le> 0 then Inl (ValueError ''poll interval must be positive'')
      else Inr (poll_loop observe accept retried clock timeout interval 0 []))"

section \<open>Commands\<close>

type_synonym shell = "bool \<Rightarrow> string list \<Rightarrow> string result"

text \<open>A step of a controller: the commands it issued and its result.\<close>

type_synonym 'a commanded = "string list list \<times> 'a result"

definition issue :: "shell \<Rightarrow> bool \<Rightarrow> string list \<Rightarrow> string commanded" where
  "issue run check command = ([command], run check command)"

definition and_issue :: "'a commanded \<Rightarrow> ('a \<Rightarrow> 'b commanded) \<Rightarrow> 'b commanded" where
  "and_issue m f =
     (case m of
        (cs, Inl err) \<Rightarrow> (cs, Inl err)
      | (cs, Inr x) \<Rightarrow> (case f x of (cs', r) \<Rightarrow> (cs @ cs', r)))"

definition refuse :: "string \<Rightarrow> 'a commanded" where
  "refuse message = ([], Inl (ValueError message))"

definition project_char :: "char \<Rightarrow> bool" where
  "project_char c \<longleftrightarrow>
     (let n = of_char c :: nat in 97 \<le> n \<and> n \<le> 122 \<or> 48 \<le> n \<and> n \<le> 57 \<or> c = CHR ''-'')"

text \<open>\<open>fullmatch\<close> of a prefix and \<open>[a-z0-9-]+\<close>\<close>

definition matches_project :: "string \<Rightarrow> string \<Rightarrow> bool" where
  "matches_project beginning project \<longleftrightarrow>
     take (length beginning) project = beginning \<and> drop (length beginning) project \<noteq> [] \<and>
     list_all project_char (drop (length beginning) project)"

section \<open>Resource pressure\<close>

definition PRESSURE_SERVICES :: "string list" where
  "PRESSURE_SERVICES =
     [''scheduler-api'', ''visibility-api'', ''scheduler-worker'', ''outbox-publisher'', ''projector'',
      ''scheduler-postgres'', ''edr-postgres'', ''kafka-connect'']"

definition newline :: string where
  "newline = [CHR 0x0A]"

definition CPU_PRESSURE :: string where
  "CPU_PRESSURE =
     ''import time'' @ newline @ ''end=time.monotonic()+DURATION'' @ newline @
     ''while time.monotonic()<end:'' @ newline @ ''  sum(i*i for i in range(10000))'' @ newline"

definition MEMORY_PRESSURE :: string where
  "MEMORY_PRESSURE =
     ''import time'' @ newline @ ''chunks=[]'' @ newline @
     ''for _ in range(MEGABYTES): chunks.append(bytearray(1024*1024))'' @ newline @
     ''time.sleep(DURATION)'' @ newline"

definition pressure_controller :: "string \<Rightarrow> string result" where
  "pressure_controller project =
     (if matches_project ''job-visibility-chaos-'' project then Inr project
      else Inl (ValueError ''resource pressure requires job-visibility-chaos-* Compose project''))"

definition compose_command :: "string \<Rightarrow> string list \<Rightarrow> string list" where
  "compose_command project arguments = [''docker'', ''compose'', ''--project-name'', project] @ arguments"

definition container_of :: "shell \<Rightarrow> string \<Rightarrow> string \<Rightarrow> string commanded" where
  "container_of run project service =
     (if service \<notin> set PRESSURE_SERVICES
      then refuse (''service is not approved for resource pressure: '' @ service)
      else
        and_issue (issue run True (compose_command project [''ps'', ''-q'', service])) (\<lambda>stdout.
          ([], if py_strip stdout = []
               then Inl (RuntimeError (''chaos target is not running: '' @ service))
               else Inr (py_strip stdout))))"

definition docker :: "shell \<Rightarrow> bool \<Rightarrow> string list \<Rightarrow> string commanded" where
  "docker run check arguments = issue run check (''docker'' # arguments)"

definition bounded_duration :: "int \<Rightarrow> bool" where
  "bounded_duration d \<longleftrightarrow> 1 \<le> d \<and> d \<le> 60"

text \<open>\<open>0.1 <= cpus <= 4\<close>, with the double nearest to a tenth; \<open>show_float\<close> is \<open>str\<close> of a float.\<close>

definition cpus_in_range :: "pyfloat \<Rightarrow> bool" where
  "cpus_in_range cpus =
     (case cpus of Fin q \<Rightarrow> 3602879701896397 / 36028797018963968 \<le> q \<and> q \<le> 4 | _ \<Rightarrow> False)"

definition cpu ::
  "shell \<Rightarrow> (pyfloat \<Rightarrow> string) \<Rightarrow> string \<Rightarrow> string \<Rightarrow> pyfloat \<Rightarrow> int \<Rightarrow> unit commanded" where
  "cpu run show_float project service cpus duration =
     (if \<not> cpus_in_range cpus then refuse ''cpus must be between 0.1 and 4''
      else if \<not> bounded_duration duration
      then refuse ''pressure duration must be between 1 and 60 seconds''
      else
        and_issue (container_of run project service) (\<lambda>container.
        and_issue (docker run True [''update'', ''--cpus'', show_float cpus, container]) (\<lambda>_.
        and_issue (docker run True [''exec'', ''-d'', container, ''python'', ''-c'',
            str_replace ''DURATION'' (int_digits duration) CPU_PRESSURE]) (\<lambda>_. ([], Inr ())))))"

definition memory :: "shell \<Rightarrow> string \<Rightarrow> string \<Rightarrow> int \<Rightarrow> int \<Rightarrow> unit commanded" where
  "memory run project service megabytes duration =
     (if \<not> (16 \<le> megabytes \<and> megabytes \<le> 1024)
      then refuse ''memory pressure must be between 16 and 1024 MiB''
      else if \<not> bounded_duration duration
      then refuse ''pressure duration must be between 1 and 60 seconds''
      else
        and_issue (container_of run project service) (\<lambda>container.
        and_issue (docker run True [''exec'', ''-d'', container, ''python'', ''-c'',
            str_replace ''DURATION'' (int_digits duration)
              (str_replace ''MEGABYTES'' (int_digits megabytes) MEMORY_PRESSURE)]) (\<lambda>_. ([], Inr ()))))"

definition disk :: "shell \<Rightarrow> string \<Rightarrow> string \<Rightarrow> int \<Rightarrow> unit commanded" where
  "disk run project service megabytes =
     (if service \<notin> {''scheduler-postgres'', ''edr-postgres''}
      then refuse ''disk pressure is restricted to disposable chaos PostgreSQL volumes''
      else if \<not> (1 \<le> megabytes \<and> megabytes \<le> 512)
      then refuse ''disk pressure must be between 1 and 512 MiB''
      else
        and_issue (container_of run project service) (\<lambda>container.
        and_issue (docker run True [''exec'', container, ''dd'', ''if=/dev/zero'',
            ''of=/var/lib/postgresql/data/.chaos-pressure'', ''bs=1M'',
            ''count='' @ int_digits megabytes, ''conv=fsync'']) (\<lambda>_. ([], Inr ()))))"

definition cleanup :: "shell \<Rightarrow> string \<Rightarrow> string \<Rightarrow> unit commanded" where
  "cleanup run project service =
     and_issue (container_of run project service) (\<lambda>container.
     and_issue (docker run False [''update'', ''--cpus'', ''0'', container]) (\<lambda>_.
     if service \<in> {''scheduler-postgres'', ''edr-postgres''}
     then and_issue (docker run False [''exec'', container, ''rm'', ''-f'',
            ''/var/lib/postgresql/data/.chaos-pressure'']) (\<lambda>_. ([], Inr ()))
     else ([], Inr ())))"

definition stats :: "(string \<Rightarrow> json result) \<Rightarrow> shell \<Rightarrow> string \<Rightarrow> string \<Rightarrow> json commanded" where
  "stats loads run project service =
     and_issue (container_of run project service) (\<lambda>container.
     and_issue (docker run True [''stats'', ''--no-stream'', ''--format'', ''{{json .}}'', container])
       (\<lambda>stdout. ([], loads stdout)))"

section \<open>Outages\<close>

definition OUTAGE_SERVICES :: "string list" where
  "OUTAGE_SERVICES = [''scheduler-postgres'', ''edr-postgres'', ''kafka'', ''kafka-connect'', ''cassandra'']"

definition outage_controller :: "string \<Rightarrow> string result" where
  "outage_controller project =
     (if matches_project ''job-visibility-'' project then Inr project
      else Inl (ValueError ''outage tests require a job-visibility-* Compose project''))"

definition for_outage :: "string \<Rightarrow> 'a commanded \<Rightarrow> 'a commanded" where
  "for_outage service m =
     (if service \<notin> set OUTAGE_SERVICES
      then refuse (''service is not approved for outage tests: '' @ service) else m)"

definition outage_stop :: "shell \<Rightarrow> string \<Rightarrow> string \<Rightarrow> unit commanded" where
  "outage_stop run project service =
     for_outage service
       (and_issue (issue run True (compose_command project [''stop'', ''--timeout'', ''10'', service]))
         (\<lambda>_. ([], Inr ())))"

definition outage_state ::
  "(string \<Rightarrow> json result) \<Rightarrow> shell \<Rightarrow> string \<Rightarrow> string \<Rightarrow> json commanded" where
  "outage_state loads run project service =
     for_outage service
       (and_issue (issue run True (compose_command project [''ps'', ''-q'', service])) (\<lambda>stdout.
        if py_strip stdout = [] then ([], Inr (JObj [(''Status'', JStr ''missing'')]))
        else
          and_issue (issue run True [''docker'', ''inspect'', ''--format'', ''{{json .State}}'', py_strip stdout])
            (\<lambda>stdout. ([], loads stdout))))"


text \<open>
  The predicate of \<open>start\<close>: running, and healthy where the container has a health check. A state that is
  no object, or whose health is none, raises.
\<close>

definition service_up :: "json \<Rightarrow> bool result" where
  "service_up state =
     (case state of
        JObj kvs \<Rightarrow>
          (if dict_get kvs ''Status'' \<noteq> Some (JStr ''running'') then Inr False
           else (case dict_get kvs ''Health'' of
                   None \<Rightarrow> Inr True
                 | Some (JObj health) \<Rightarrow>
                     Inr (case dict_get health ''Status'' of None \<Rightarrow> True | Some s \<Rightarrow> s = JStr ''healthy'')
                 | Some v \<Rightarrow> Inl (AttributeError ''get'')))
      | _ \<Rightarrow> Inl (AttributeError ''get''))"

text \<open>
  \<open>start\<close>, and the polling that follows it: poll \<open>k\<close> asks the shell as it is then. \<open>retried\<close> are the
  errors of a subprocess and of the JSON decoder. The result is that of the polling; the questions of
  the polls are not among the commands.
\<close>

definition outage_start ::
  "(string \<Rightarrow> json result) \<Rightarrow> (nat \<Rightarrow> shell) \<Rightarrow> (nat \<Rightarrow> rat) \<Rightarrow> (exn \<Rightarrow> bool) \<Rightarrow> string \<Rightarrow> string \<Rightarrow> rat \<Rightarrow>
   (rat list \<times> json poll_outcome) option commanded" where
  "outage_start loads shells clock retried project service timeout =
     for_outage service
       (and_issue (issue (shells 0) True (compose_command project [''start'', service])) (\<lambda>_.
          ([], poll_until
             (\<lambda>k. bind_result (snd (outage_state loads (shells k) project service)) (\<lambda>state.
                  bind_result (service_up state) (\<lambda>_. Inr state)))
             (\<lambda>state. service_up state = Inr True) retried clock timeout 1)))"

text \<open>Only approved services are started, and only in the controller's project.\<close>

lemma outage_start_commands:
  "fst (outage_start loads shells clock retried project service timeout) =
     (if service \<in> set OUTAGE_SERVICES then [compose_command project [''start'', service]] else [])"
  by (simp add: outage_start_def for_outage_def refuse_def and_issue_def issue_def split: sum.split)

section \<open>The loop ends\<close>

lemma poll_loop_ends:
  fixes clock :: "nat \<Rightarrow> rat"
  assumes interval: "0 < interval"
    and moves: "\<And>k. 0 < k \<Longrightarrow> clock k - clock 0 < timeout \<Longrightarrow>
      clock k + min interval (timeout - (clock k - clock 0)) \<le> clock (Suc k)"
    and late: "timeout - of_nat m * interval \<le> clock (Suc k) - clock 0"
  shows "\<exists>ws out. poll_loop observe accept retried clock timeout interval k waits = Some (waits @ ws, out) \<and>
    length ws \<le> m \<and> (\<forall>w \<in> set ws. 0 < w \<and> w \<le> interval) \<and>
    (case out of
       Accepted v \<Rightarrow> observe (k + length ws + 1) = Inr v \<and> accept v
     | Timed_Out elapsed seen n \<Rightarrow>
         n = k + length ws + 1 \<and> seen = observe n \<and> elapsed = clock n - clock 0 \<and> timeout \<le> elapsed
     | Propagated err \<Rightarrow> observe (k + length ws + 1) = Inl err \<and> \<not> retried err)"
  using late
proof (induction m arbitrary: k waits)
  case 0
  then have "timeout \<le> clock (Suc k) - clock 0" by simp
  then show ?case
    by (subst poll_loop.simps) (auto simp: Let_def split: sum.splits intro!: exI [of _ "[]"])
next
  case (Suc m)
  let ?elapsed = "clock (Suc k) - clock 0"
  let ?w = "min interval (timeout - ?elapsed)"
  show ?case
  proof (cases "timeout \<le> ?elapsed \<or> (\<exists>v. observe (Suc k) = Inr v \<and> accept v) \<or>
      (\<exists>err. observe (Suc k) = Inl err \<and> \<not> retried err)")
    case True
    then show ?thesis
      by (subst poll_loop.simps) (auto simp: Let_def split: sum.splits intro!: exI [of _ "[]"])
  next
    case False
    then have step: "poll_loop observe accept retried clock timeout interval k waits =
        poll_loop observe accept retried clock timeout interval (Suc k) (waits @ [?w])"
      by (subst poll_loop.simps) (auto simp: Let_def split: sum.splits)
    have w: "0 < ?w" "?w \<le> interval" using False interval by auto
    have "clock (Suc k) + ?w \<le> clock (Suc (Suc k))" using moves [of "Suc k"] False by simp
    moreover have "of_nat (Suc m) * interval = of_nat m * interval + interval" by (simp add: algebra_simps)
    moreover have "0 \<le> of_nat m * interval" using interval by simp
    ultimately have "timeout - of_nat m * interval \<le> clock (Suc (Suc k)) - clock 0"
      using Suc.prems by linarith
    from Suc.IH [OF this, of "waits @ [?w]"] obtain ws out where
      "poll_loop observe accept retried clock timeout interval (Suc k) (waits @ [?w]) =
         Some ((waits @ [?w]) @ ws, out)" "length ws \<le> m" "\<forall>w \<in> set ws. 0 < w \<and> w \<le> interval"
      "case out of
         Accepted v \<Rightarrow> observe (Suc k + length ws + 1) = Inr v \<and> accept v
       | Timed_Out elapsed seen n \<Rightarrow>
           n = Suc k + length ws + 1 \<and> seen = observe n \<and> elapsed = clock n - clock 0 \<and> timeout \<le> elapsed
       | Propagated err \<Rightarrow> observe (Suc k + length ws + 1) = Inl err \<and> \<not> retried err"
      by blast
    then show ?thesis
      unfolding step using w by (intro exI [of _ "?w # ws"] exI [of _ out]) (auto split: poll_outcome.splits)
  qed
qed

text \<open>
  Bounded polling ends: on a clock that every wait moves by at least its length, polling ends after
  at most the timeout over the interval, rounded up, many waits, each of them positive and no longer
  than the interval; it returns the last observation only if that was accepted, and times out only once
  the timeout has passed.
\<close>

theorem polling_ends:
  fixes clock :: "nat \<Rightarrow> rat"
  assumes "0 < timeout" "0 < interval"
    and "clock 0 \<le> clock 1"
    and "\<forall>k > 0. clock k - clock 0 < timeout \<longrightarrow>
      clock k + min interval (timeout - (clock k - clock 0)) \<le> clock (Suc k)"
  shows "\<exists>ws out. poll_until observe accept retried clock timeout interval = Inr (Some (ws, out)) \<and>
    int (length ws) \<le> \<lceil>timeout / interval\<rceil> \<and> (\<forall>w \<in> set ws. 0 < w \<and> w \<le> interval) \<and>
    (case out of
       Accepted v \<Rightarrow> observe (length ws + 1) = Inr v \<and> accept v
     | Timed_Out elapsed seen n \<Rightarrow>
         n = length ws + 1 \<and> seen = observe n \<and> elapsed = clock n - clock 0 \<and> timeout \<le> elapsed
     | Propagated err \<Rightarrow> observe (length ws + 1) = Inl err \<and> \<not> retried err)"
proof -
  let ?m = "nat \<lceil>timeout / interval\<rceil>"
  have pos: "0 < timeout / interval" using assms(1,2) by simp
  then have m: "int ?m = \<lceil>timeout / interval\<rceil>" by simp
  have "timeout / interval \<le> of_int \<lceil>timeout / interval\<rceil>" by (rule le_of_int_ceiling)
  then have "timeout / interval \<le> of_nat ?m" using m by (metis of_int_of_nat_eq)
  then have "timeout \<le> of_nat ?m * interval" using assms(2) by (simp add: pos_divide_le_eq)
  then have "timeout - of_nat ?m * interval \<le> clock (Suc 0) - clock 0" using assms(3) by simp
  from poll_loop_ends [OF assms(2) _ this, of observe accept retried "[]", unfolded append_Nil add_0_left] assms(4)
  obtain ws out where out: "poll_loop observe accept retried clock timeout interval 0 [] = Some (ws, out)"
    "length ws \<le> ?m" "\<forall>w \<in> set ws. 0 < w \<and> w \<le> interval"
    "case out of
       Accepted v \<Rightarrow> observe (length ws + 1) = Inr v \<and> accept v
     | Timed_Out elapsed seen n \<Rightarrow>
         n = length ws + 1 \<and> seen = observe n \<and> elapsed = clock n - clock 0 \<and> timeout \<le> elapsed
     | Propagated err \<Rightarrow> observe (length ws + 1) = Inl err \<and> \<not> retried err"
    by blast
  moreover have "int (length ws) \<le> \<lceil>timeout / interval\<rceil>" using out(2) m by linarith
  ultimately show ?thesis using assms(1,2) unfolding poll_until_def by auto
qed

theorem polling_ends_witness:
  "\<exists>ws out. poll_until (\<lambda>k. Inr k) (\<lambda>k. k = 3) (\<lambda>err. False) (\<lambda>k. of_nat k / 10) 1 (1 / 10) =
     Inr (Some (ws, out :: nat poll_outcome)) \<and> int (length ws) \<le> 10"
proof -
  let ?clock = "\<lambda>k. of_nat k / 10 :: rat"
  have "?clock k + min (1 / 10) (1 - (?clock k - ?clock 0)) \<le> ?clock (Suc k)" for k
    using min.cobounded1 [of "1 / 10" "1 - (?clock k - ?clock 0)"] by (simp add: add_divide_distrib)
  then show ?thesis
    using polling_ends [of 1 "1 / 10" ?clock "\<lambda>k. Inr k" "\<lambda>k. k = 3" "\<lambda>err. False"] by fastforce
qed


section \<open>Pressure stays in its project\<close>

text \<open>
  A command either asks Compose for the container of an approved service of the project, or acts on the
  container that answer named.
\<close>

definition in_scope :: "shell \<Rightarrow> string \<Rightarrow> string list \<Rightarrow> bool" where
  "in_scope run project command \<longleftrightarrow>
     (\<exists>service \<in> set PRESSURE_SERVICES.
        command = compose_command project [''ps'', ''-q'', service] \<or>
        (\<exists>stdout container arguments.
           run True (compose_command project [''ps'', ''-q'', service]) = Inr stdout \<and>
           container = py_strip stdout \<and> container \<noteq> [] \<and>
           (command = [''docker'', ''update'', ''--cpus'', arguments, container] \<or>
            command = [''docker'', ''stats'', ''--no-stream'', ''--format'', arguments, container] \<or>
            take 3 command = [''docker'', ''exec'', container] \<or>
            take 4 command = [''docker'', ''exec'', ''-d'', container])))"

lemma in_scope_ask:
  "service \<in> set PRESSURE_SERVICES \<Longrightarrow> in_scope run project (compose_command project [''ps'', ''-q'', service])"
  by (auto simp: in_scope_def)

lemma in_scope_act:
  assumes "service \<in> set PRESSURE_SERVICES" "py_strip stdout \<noteq> []"
    and "run True (compose_command project [''ps'', ''-q'', service]) = Inr stdout"
  shows "in_scope run project [''docker'', ''update'', ''--cpus'', x, py_strip stdout]"
    "in_scope run project [''docker'', ''stats'', ''--no-stream'', ''--format'', x, py_strip stdout]"
    "in_scope run project (''docker'' # ''exec'' # py_strip stdout # xs)"
    "in_scope run project (''docker'' # ''exec'' # ''-d'' # py_strip stdout # xs)"
  unfolding in_scope_def using assms by force+

lemma and_issue_commands [simp]:
  "fst (and_issue m f) = fst m @ (case snd m of Inl err \<Rightarrow> [] | Inr x \<Rightarrow> fst (f x))"
  by (simp add: and_issue_def split: prod.split sum.split)

lemma issue_commands [simp]: "fst (issue run check command) = [command]" "fst (docker run check xs) = [''docker'' # xs]"
  by (simp_all add: issue_def docker_def)

lemma container_commands:
  "fst (container_of run project service) =
     (if service \<in> set PRESSURE_SERVICES then [compose_command project [''ps'', ''-q'', service]] else [])"
  "snd (container_of run project service) = Inr c \<Longrightarrow>
     service \<in> set PRESSURE_SERVICES \<and> c \<noteq> [] \<and>
     (\<exists>stdout. run True (compose_command project [''ps'', ''-q'', service]) = Inr stdout \<and> c = py_strip stdout)"
  by (auto simp: container_of_def refuse_def issue_def and_issue_def split: sum.splits if_splits)

lemma in_container:
  assumes "command \<in> set (fst (and_issue (container_of run project service) f))"
    and "\<And>stdout. service \<in> set PRESSURE_SERVICES \<Longrightarrow> py_strip stdout \<noteq> [] \<Longrightarrow>
      run True (compose_command project [''ps'', ''-q'', service]) = Inr stdout \<Longrightarrow>
      command \<in> set (fst (f (py_strip stdout))) \<Longrightarrow> in_scope run project command"
  shows "in_scope run project command"
proof (cases "snd (container_of run project service)")
  case (Inl err)
  then show ?thesis using assms(1) by (auto simp: container_commands(1) intro: in_scope_ask split: if_splits)
next
  case (Inr c)
  from container_commands(2) [OF Inr] show ?thesis
    using assms Inr by (auto simp: container_commands(1) intro: in_scope_ask)
qed

lemma pressure_in_scope:
  "command \<in> set (fst (cpu run show_float project service cpus d)) \<Longrightarrow> in_scope run project command"
  "command \<in> set (fst (memory run project service megabytes d)) \<Longrightarrow> in_scope run project command"
  "command \<in> set (fst (disk run project service megabytes)) \<Longrightarrow> in_scope run project command"
  "command \<in> set (fst (cleanup run project service)) \<Longrightarrow> in_scope run project command"
  "command \<in> set (fst (stats loads run project service)) \<Longrightarrow> in_scope run project command"
  unfolding cpu_def memory_def disk_def cleanup_def stats_def refuse_def
  by (auto simp del: and_issue_commands split: if_splits elim!: in_container)
    (auto split: sum.splits if_splits intro: in_scope_act)

text \<open>
  C40. Resource pressure stays in its project and within its bounds: a controller exists only for a chaos
  project, every command it issues asks for the container of an approved service of that project or
  acts on that container, and an operation that issues anything has its amount and duration in bounds.
\<close>

theorem pressure_is_scoped:
  assumes "pressure_controller name = Inr project"
  shows "project = name \<and> matches_project ''job-visibility-chaos-'' project \<and>
    (\<forall>service show_float cpus duration megabytes loads. \<forall>command \<in>
        set (fst (cpu run show_float project service cpus duration)) \<union>
        set (fst (memory run project service megabytes duration)) \<union>
        set (fst (disk run project service megabytes)) \<union>
        set (fst (cleanup run project service)) \<union> set (fst (stats loads run project service)).
      in_scope run project command) \<and>
    (\<forall>service show_float cpus duration. fst (cpu run show_float project service cpus duration) \<noteq> [] \<longrightarrow>
       cpus_in_range cpus \<and> duration \<in> {1..60}) \<and>
    (\<forall>service megabytes duration. fst (memory run project service megabytes duration) \<noteq> [] \<longrightarrow>
       megabytes \<in> {16..1024} \<and> duration \<in> {1..60}) \<and>
    (\<forall>service megabytes. fst (disk run project service megabytes) \<noteq> [] \<longrightarrow>
       service \<in> {''scheduler-postgres'', ''edr-postgres''} \<and> megabytes \<in> {1..512})"
proof (intro conjI)
  show "project = name" "matches_project ''job-visibility-chaos-'' project"
    using assms by (auto simp: pressure_controller_def split: if_splits)
  show "\<forall>service show_float cpus duration megabytes loads. \<forall>command \<in>
        set (fst (cpu run show_float project service cpus duration)) \<union>
        set (fst (memory run project service megabytes duration)) \<union>
        set (fst (disk run project service megabytes)) \<union>
        set (fst (cleanup run project service)) \<union> set (fst (stats loads run project service)).
      in_scope run project command"
    by (intro allI ballI, elim UnE) (rule pressure_in_scope, assumption)+
qed (auto simp: cpu_def memory_def disk_def refuse_def bounded_duration_def split: if_splits)

theorem pressure_is_scoped_witness:
  "in_scope (\<lambda>check command. Inr ''container-123'') ''job-visibility-chaos-a''
     [''docker'', ''exec'', ''container-123'', ''dd'', ''if=/dev/zero'',
      ''of=/var/lib/postgresql/data/.chaos-pressure'', ''bs=1M'', ''count=32'', ''conv=fsync'']"
proof -
  let ?run = "\<lambda>check command. Inr ''container-123''"
  have name: "pressure_controller ''job-visibility-chaos-a'' = Inr ''job-visibility-chaos-a''" by code_simp
  have "[''docker'', ''exec'', ''container-123'', ''dd'', ''if=/dev/zero'',
      ''of=/var/lib/postgresql/data/.chaos-pressure'', ''bs=1M'', ''count=32'', ''conv=fsync'']
    \<in> set (fst (disk ?run ''job-visibility-chaos-a'' ''edr-postgres'' 32))"
    by code_simp
  then show ?thesis using pressure_is_scoped [OF name, of ?run] by blast
qed

end
