(* ===== verification/Python_Json.thy ===== *)
theory Python_Json
  imports Wire_Format Python_Numbers
begin

text \<open>
  Python's \<open>json.loads\<close> for documents without fractions or exponents, as a scanner over the remaining
  text, and its round trip with \<open>json.dumps\<close>: reading a printed value gives the value with its keys
  sorted.
\<close>

section \<open>The scanner\<close>

definition skip_space :: "string \<Rightarrow> string" where
  "skip_space = dropWhile (\<lambda>c. of_char c \<in> {9, 10, 13, 32 :: nat})"

text \<open>The next character that is no space, when it is \<open>c\<close>.\<close>

definition expect :: "char \<Rightarrow> string \<Rightarrow> string option" where
  "expect c s = (case skip_space s of [] \<Rightarrow> None | x # r \<Rightarrow> if x = c then Some r else None)"

text \<open>
  \<open>scanstring\<close>, in its strict mode: after the opening quote. A code point above 255 is no character
  of the model.
\<close>

definition hex_value :: "char \<Rightarrow> nat option" where
  "hex_value c =
     (let n = of_char c in
      if 48 \<le> n \<and> n \<le> 57 then Some (n - 48)
      else if 97 \<le> n \<and> n \<le> 102 then Some (n - 87)
      else if 65 \<le> n \<and> n \<le> 70 then Some (n - 55) else None)"

definition unescape :: "char \<Rightarrow> char option" where
  "unescape c =
     map_of [(CHR 0x22, CHR 0x22), (CHR 0x5C, CHR 0x5C), (CHR ''/'', CHR ''/''),
       (CHR ''b'', CHR 0x08), (CHR ''f'', CHR 0x0C), (CHR ''n'', CHR 0x0A), (CHR ''r'', CHR 0x0D),
       (CHR ''t'', CHR 0x09)] c"

fun scan_escape :: "string \<Rightarrow> (char \<times> string) option" where
  "scan_escape (e # a # b # c # d # s) =
     (if e = CHR ''u'' then
        (case (hex_value a, hex_value b, hex_value c, hex_value d) of
           (Some 0, Some 0, Some m, Some n) \<Rightarrow> Some (char_of (16 * m + n), s)
         | _ \<Rightarrow> None)
      else map_option (\<lambda>x. (x, a # b # c # d # s)) (unescape e))"
| "scan_escape (e # s) = map_option (\<lambda>x. (x, s)) (unescape e)"
| "scan_escape [] = None"

lemma scan_escape_shorter: "scan_escape s = Some (c, r) \<Longrightarrow> length r < length s"
  by (cases s rule: scan_escape.cases) (auto split: if_splits option.splits nat.splits)

function scan_string :: "string \<Rightarrow> (string \<times> string) option" where
  "scan_string [] = None"
| "scan_string (c # s) =
     (if c = CHR 0x22 then Some ([], s)
      else if c = CHR 0x5C then
        (case scan_escape s of
           None \<Rightarrow> None
         | Some (x, r) \<Rightarrow> map_option (\<lambda>(xs, r). (x # xs, r)) (scan_string r))
      else if of_char c < (32 :: nat) then None
      else map_option (\<lambda>(xs, r). (c # xs, r)) (scan_string s))"
  by pat_completeness auto
termination
  by (relation "measure length") (auto dest: scan_escape_shorter)

text \<open>An integer; a fraction or an exponent makes it a float, which the model's values do not have.\<close>

definition leading_integer :: "string \<Rightarrow> string" where
  "leading_integer s =
     (case s of [] \<Rightarrow> [] | c # r \<Rightarrow> if c = CHR ''0'' then ''0'' else takeWhile decimal s)"

definition scan_number :: "string \<Rightarrow> (json \<times> string) option" where
  "scan_number s =
     (let minus = (take 1 s = ''-''); t = (if minus then drop 1 s else s); ds = leading_integer t;
          r = drop (length ds) t
      in if ds = [] \<or> r \<noteq> [] \<and> hd r \<in> {CHR ''.'', CHR ''e'', CHR ''E''} then None
         else Some (JInt ((if minus then - 1 else 1) * int (decimal_value ds)), r))"

text \<open>
  \<open>scan_once\<close> with the bodies of objects and arrays. Every call reads at least one character, so that
  the length of the text bounds the depth of the calls.
\<close>

fun scan_once :: "nat \<Rightarrow> string \<Rightarrow> (json \<times> string) option"
and scan_members :: "nat \<Rightarrow> (string \<times> json) list \<Rightarrow> string \<Rightarrow> ((string \<times> json) list \<times> string) option"
and scan_items :: "nat \<Rightarrow> json list \<Rightarrow> string \<Rightarrow> (json list \<times> string) option" where
  "scan_once 0 s = None"
| "scan_once (Suc n) s =
     (case s of
        [] \<Rightarrow> None
      | c # r \<Rightarrow>
          (if c = CHR 0x22 then map_option (map_prod JStr id) (scan_string r)
           else if c = CHR ''{'' then
             (case expect (CHR ''}'') r of
                Some r \<Rightarrow> Some (JObj [], r)
              | None \<Rightarrow> map_option (map_prod JObj id) (scan_members n [] r))
           else if c = CHR ''['' then
             (case expect (CHR '']'') r of
                Some r \<Rightarrow> Some (JList [], r)
              | None \<Rightarrow> map_option (map_prod JList id) (scan_items n [] r))
           else if take 4 s = ''null'' then Some (JNull, drop 4 s)
           else if take 4 s = ''true'' then Some (JBool True, drop 4 s)
           else if take 5 s = ''false'' then Some (JBool False, drop 5 s)
           else scan_number s))"
| "scan_members 0 kvs s = None"
| "scan_members (Suc n) kvs s =
     Option.bind (expect (CHR 0x22) s) (\<lambda>s.
     Option.bind (scan_string s) (\<lambda>(k, s).
     Option.bind (expect (CHR '':'') s) (\<lambda>s.
     Option.bind (scan_once n (skip_space s)) (\<lambda>(v, s).
     case expect (CHR ''}'') s of
       Some r \<Rightarrow> Some (dict_put k v kvs, r)
     | None \<Rightarrow> Option.bind (expect (CHR '','') s) (scan_members n (dict_put k v kvs))))))"
| "scan_items 0 xs s = None"
| "scan_items (Suc n) xs s =
     Option.bind (scan_once n (skip_space s)) (\<lambda>(v, s).
     case expect (CHR '']'') s of
       Some r \<Rightarrow> Some (xs @ [v], r)
     | None \<Rightarrow> Option.bind (expect (CHR '','') s) (scan_items n (xs @ [v])))"

definition json_loads :: "string \<Rightarrow> json result" where
  "json_loads s =
     (case scan_once (Suc (length s)) (skip_space s) of
        Some (v, r) \<Rightarrow>
          (if skip_space r = [] then Inr v else Inl (ValueError ''Extra data''))
      | None \<Rightarrow> Inl (ValueError ''Expecting value''))"

section \<open>Texts that are printed\<close>

primrec sorted_json :: "json \<Rightarrow> json" where
  "sorted_json JNull = JNull"
| "sorted_json (JBool b) = JBool b"
| "sorted_json (JInt i) = JInt i"
| "sorted_json (JStr s) = JStr s"
| "sorted_json (JList xs) = JList (map sorted_json xs)"
| "sorted_json (JObj kvs) = JObj (sort_key fst (map (map_prod id sorted_json) kvs))"

primrec distinct_keys :: "json \<Rightarrow> bool" where
  "distinct_keys JNull \<longleftrightarrow> True"
| "distinct_keys (JBool b) \<longleftrightarrow> True"
| "distinct_keys (JInt i) \<longleftrightarrow> True"
| "distinct_keys (JStr s) \<longleftrightarrow> True"
| "distinct_keys (JList xs) \<longleftrightarrow> list_all id (map distinct_keys xs)"
| "distinct_keys (JObj kvs) \<longleftrightarrow>
     distinct (map fst kvs) \<and> list_all id (map snd (map (map_prod id distinct_keys) kvs))"

text \<open>Every escaped character is read back.\<close>

lemma scan_simple_escape: "e \<noteq> CHR ''u'' \<Longrightarrow> unescape e = Some c \<Longrightarrow> scan_escape (e # s) = Some (c, s)"
  by (cases "e # s" rule: scan_escape.cases) simp_all

definition escape_ok :: "char \<Rightarrow> bool" where
  "escape_ok x \<longleftrightarrow>
     (let s = json_escape x; e = s ! 1 in
      s = [CHR 0x5C, e] \<and> e \<noteq> CHR ''u'' \<and> unescape e = Some x \<or>
      s = [CHR 0x5C, CHR ''u'', s ! 2, s ! 3, s ! 4, s ! 5] \<and> hex_value (s ! 2) = Some 0 \<and>
      hex_value (s ! 3) = Some 0 \<and> hex_value (s ! 4) \<noteq> None \<and> hex_value (s ! 5) \<noteq> None \<and>
      16 * the (hex_value (s ! 4)) + the (hex_value (s ! 5)) = of_char x)"

lemma control_escapes: "(of_char c :: nat) < 32 \<Longrightarrow> escape_ok c"
proof (cases c)
  case (Char b0 b1 b2 b3 b4 b5 b6 b7)
  assume "(of_char c :: nat) < 32"
  then have "\<not> b5" "\<not> b6" "\<not> b7" by (auto simp: Char split: if_splits)
  moreover have "escape_ok (Char b0 b1 b2 b3 b4 False False False)"
    by (cases b0; cases b1; cases b2; cases b3; cases b4)
      (simp_all add: escape_ok_def json_escape_def hex_digit_def hex_value_def unescape_def)
  ultimately show ?thesis using Char by simp
qed

lemma scan_escape_ok:
  assumes "escape_ok c"
  obtains e where "json_escape c = CHR 0x5C # e" "\<And>s. scan_escape (e @ s) = Some (c, s)"
proof -
  consider e where "json_escape c = [CHR 0x5C, e]" "e \<noteq> CHR ''u''" "unescape e = Some c"
    | y z p q p' q' where "json_escape c = [CHR 0x5C, CHR ''u'', y, z, p, q]" "hex_value y = Some 0"
      "hex_value z = Some 0" "hex_value p = Some p'" "hex_value q = Some q'" "16 * p' + q' = of_char c"
    using assms unfolding escape_ok_def Let_def by (metis option.collapse)
  then show thesis by cases (auto intro!: that simp: scan_simple_escape)
qed

lemma scan_string_escape:
  "scan_string (json_escape c @ s) = map_option (\<lambda>(xs, r). (c # xs, r)) (scan_string s)"
proof (cases "of_char c < (32 :: nat)")
  case True
  then show ?thesis by (rule scan_escape_ok [OF control_escapes]) auto
next
  case False
  then show ?thesis
    by (auto simp: json_escape_def Let_def scan_simple_escape unescape_def)
qed

lemma scan_string_printed: "scan_string (concat (map json_escape s) @ CHR 0x22 # r) = Some (s, r)"
  by (induction s) (simp_all add: scan_string_escape)

lemma nat_digits_head: "0 < n \<Longrightarrow> hd (nat_digits n) \<noteq> CHR ''0''"
proof (induction n rule: nat_digits.induct)
  case (1 n)
  show ?case
  proof (cases "n < 10")
    case True
    have "of_char (digit_char n) \<noteq> (of_char CHR ''0'' :: nat)"
      using digit_char_value [OF True] 1(2) by simp
    then show ?thesis using True by (subst nat_digits.simps) auto
  next
    case False
    then show ?thesis
      using 1 nat_digits_not_Nil [of "n div 10"] by (subst nat_digits.simps) (simp add: hd_append)
  qed
qed

text \<open>What may follow a value.\<close>

definition follows :: "string \<Rightarrow> bool" where
  "follows r \<longleftrightarrow> (case r of [] \<Rightarrow> True | c # s \<Rightarrow> c \<in> {CHR '','', CHR ''}'', CHR '']''})"

lemma scan_digits:
  assumes "follows r"
  shows "scan_number (int_digits i @ r) = Some (JInt i, r)"
proof -
  have r: "takeWhile decimal r = []" "r \<noteq> [] \<Longrightarrow> hd r \<notin> {CHR ''.'', CHR ''e'', CHR ''E''}"
    using assms by (auto simp: follows_def decimal_def split: list.splits)
  have int: "leading_integer (nat_digits n @ r) = nat_digits n" for n
  proof (cases "n = 0")
    case True
    have "nat_digits 0 = ''0''" by code_simp
    then show ?thesis using True by (simp add: leading_integer_def)
  next
    case False
    obtain c s where ds: "nat_digits n = c # s" using nat_digits_not_Nil by (metis list.exhaust)
    have "takeWhile decimal (nat_digits n @ r) = nat_digits n"
      using nat_digits_decimal [of n] r(1) by (simp add: takeWhile_append list_all_iff)
    then show ?thesis using nat_digits_head [of n] False ds by (simp add: leading_integer_def)
  qed
  have "take 1 (nat_digits n @ r) \<noteq> ''-''" for n
    using nat_digits_decimal [of n] nat_digits_not_Nil [of n] decimal_chars(3)
    by (cases "nat_digits n") auto
  then show ?thesis
    using r(2) int nat_digits_not_Nil
    by (cases "i < 0") (auto simp: int_digits_def scan_number_def nat_digits_value Let_def)
qed

text \<open>Tokens in front of a text that is no space.\<close>

lemma expect_here [simp]:
  "of_char x \<notin> {9, 10, 13, 32 :: nat} \<Longrightarrow> expect c (x # s) = (if x = c then Some s else None)"
  by (simp add: expect_def skip_space_def)

lemma int_digits_head: obtains c s where "int_digits i = c # s" "decimal c \<or> c = CHR ''-''"
proof (cases "i < 0")
  case False
  then show ?thesis
    using that nat_digits_decimal [of "nat i"] nat_digits_not_Nil [of "nat i"]
    by (cases "nat_digits (nat i)") (auto simp: int_digits_def)
qed (simp add: int_digits_def that)

lemma dumps_head:
  obtains c s where "json_dumps v = c # s" "of_char c \<notin> {9, 10, 13, 32 :: nat}"
    "c \<notin> {CHR '']'', CHR ''}''}"
proof (cases v)
  case (JInt i)
  obtain c s where "int_digits i = c # s" "decimal c \<or> c = CHR ''-''" by (rule int_digits_head)
  moreover from this(2) have "c \<notin> {CHR '']'', CHR ''}''}" by (auto simp: decimal_def)
  ultimately show ?thesis using JInt that [of c s] by (auto simp: decimal_def)
next
  case (JBool b)
  then show ?thesis using that by (cases b) simp_all
qed (auto intro: that simp: json_string_def)

lemma skip_dumps [simp]: "skip_space (json_dumps v @ r) = json_dumps v @ r"
  by (rule dumps_head [of v]) (simp add: skip_space_def)

lemma scan_once_digits:
  "follows r \<Longrightarrow> scan_once (Suc n) (int_digits i @ r) = Some (JInt i, r)"
proof -
  assume r: "follows r"
  obtain c s where ds: "int_digits i = c # s" "decimal c \<or> c = CHR ''-''" by (rule int_digits_head)
  have "c \<notin> {CHR 0x22, CHR ''{'', CHR ''['', CHR ''n'', CHR ''t'', CHR ''f''}"
    using ds(2) by (auto simp: decimal_def)
  then show ?thesis using scan_digits [OF r, of i] ds(1) by simp
qed

definition member_texts :: "(string \<times> json) list \<Rightarrow> string list" where
  "member_texts kvs = map (\<lambda>(k, v). json_string k @ '':'' @ json_dumps v) kvs"

lemma dumps_object: "json_dumps (JObj kvs) = ''{'' @ joined '','' (member_texts (sort_key fst kvs)) @ ''}''"
  by (simp add: member_texts_def sort_key_map comp_def case_prod_unfold)

text \<open>A value reads back whatever follows it.\<close>

definition reads_back :: "json \<Rightarrow> bool" where
  "reads_back v \<longleftrightarrow>
     (\<forall>n r. length (json_dumps v) \<le> n \<longrightarrow> follows r \<longrightarrow> scan_once n (json_dumps v @ r) = Some (sorted_json v, r))"

lemma scan_items_printed:
  assumes "list_all reads_back xs" and "xs \<noteq> []" and "length (joined '','' (map json_dumps xs)) < n"
  shows "scan_items n ys (joined '','' (map json_dumps xs) @ '']'' @ r) = Some (ys @ map sorted_json xs, r)"
  using assms
proof (induction xs arbitrary: n ys)
  case (Cons x xs)
  obtain m where n: "n = Suc m" using Cons.prems(3) by (cases n) auto
  have x: "reads_back x" using Cons.prems(1) by simp
  show ?case
  proof (cases xs)
    case Nil
    then show ?thesis
      using x Cons.prems(3) n by (simp add: reads_back_def follows_def)
  next
    case (Cons y zs)
    let ?rest = "joined '','' (map json_dumps xs)"
    have len: "length (json_dumps x) \<le> m" "length ?rest < m"
      using Cons.prems(3) n Cons by simp_all
    have "scan_once m (json_dumps x @ '','' @ ?rest @ '']'' @ r) = Some (sorted_json x, '','' @ ?rest @ '']'' @ r)"
      using x len(1) by (simp add: reads_back_def follows_def)
    then show ?thesis
      using Cons.IH [OF _ _ len(2), of "ys @ [sorted_json x]"] Cons.prems(1) Cons n by simp
  qed
qed simp

lemma scan_members_printed:
  assumes "list_all (\<lambda>(k, v). reads_back v) kvs" and "kvs \<noteq> []"
    and "distinct (map fst (d @ kvs))" and "length (joined '','' (member_texts kvs)) < n"
  shows "scan_members n d (joined '','' (member_texts kvs) @ ''}'' @ r) =
    Some (d @ map (map_prod id sorted_json) kvs, r)"
  using assms
proof (induction kvs arbitrary: n d)
  case (Cons kv kvs)
  obtain k v where kv: "kv = (k, v)" by (cases kv)
  obtain m where n: "n = Suc m" using Cons.prems(4) by (cases n) auto
  have v: "reads_back v" using Cons.prems(1) kv by simp
  have new: "dict_put k (sorted_json v) d = d @ [(k, sorted_json v)]"
    using Cons.prems(3) kv by (intro dict_put_new) auto
  show ?case
  proof (cases kvs)
    case Nil
    then show ?thesis
      using v Cons.prems(4) n kv new
      by (simp add: member_texts_def json_string_def scan_string_printed reads_back_def follows_def)
  next
    case (Cons y zs)
    let ?rest = "joined '','' (member_texts kvs)"
    have len: "length (json_dumps v) \<le> m" "length ?rest < m"
      using Cons.prems(4) n kv Cons by (simp_all add: member_texts_def)
    have "scan_once m (json_dumps v @ '','' @ ?rest @ ''}'' @ r) = Some (sorted_json v, '','' @ ?rest @ ''}'' @ r)"
      using v len(1) by (simp add: reads_back_def follows_def)
    then show ?thesis
      using Cons.IH [OF _ _ _ len(2), of "d @ [(k, sorted_json v)]"] Cons.prems(1,3) Cons n kv new
      by (simp add: member_texts_def json_string_def scan_string_printed)
  qed
qed simp

lemma printed_reads_back: "distinct_keys v \<Longrightarrow> reads_back v"
proof (induction v)
  case (JInt i)
  show ?case
    unfolding reads_back_def
  proof (intro allI impI)
    fix n r assume "length (json_dumps (JInt i)) \<le> n" "follows r"
    moreover have "0 < length (json_dumps (JInt i))" by (rule int_digits_head [of i]) simp
    ultimately show "scan_once n (json_dumps (JInt i) @ r) = Some (sorted_json (JInt i), r)"
      using scan_once_digits by (cases n) auto
  qed
next
  case (JStr s)
  show ?case
    unfolding reads_back_def
  proof (intro allI impI)
    fix n r assume "length (json_dumps (JStr s)) \<le> n"
    then show "scan_once n (json_dumps (JStr s) @ r) = Some (sorted_json (JStr s), r)"
      by (cases n) (simp_all add: json_string_def scan_string_printed)
  qed
next
  case (JList xs)
  have xs: "list_all reads_back xs" using JList by (simp add: list_all_iff)
  show ?case
    unfolding reads_back_def
  proof (intro allI impI)
    fix n r assume "length (json_dumps (JList xs)) \<le> n"
    then obtain m where n: "n = Suc m" "length (joined '','' (map json_dumps xs)) < m"
      by (cases n) auto
    show "scan_once n (json_dumps (JList xs) @ r) = Some (sorted_json (JList xs), r)"
    proof (cases xs)
      case (Cons y ys)
      obtain c s where c: "json_dumps y = c # s" "of_char c \<notin> {9, 10, 13, 32 :: nat}" "c \<noteq> CHR '']''"
        using dumps_head [of y] by blast
      have "expect (CHR '']'') (joined '','' (map json_dumps xs) @ '']'' @ r) = None"
        using c by (cases ys) (simp_all add: Cons)
      then show ?thesis using scan_items_printed [OF xs _ n(2)] n(1) Cons by simp
    qed (simp add: n(1))
  qed
next
  case (JObj kvs)
  let ?kvs = "sort_key fst kvs"
  have kvs: "list_all (\<lambda>(k, v). reads_back v) ?kvs" "distinct (map fst ?kvs)"
    using JObj by (auto simp: list_all_iff distinct_map_sort)
  have sorted: "sorted_json (JObj kvs) = JObj (map (map_prod id sorted_json) ?kvs)"
    by (simp add: sort_key_map comp_def)
  show ?case
    unfolding reads_back_def dumps_object sorted
  proof (intro allI impI)
    fix n r assume "length (''{'' @ joined '','' (member_texts ?kvs) @ ''}'') \<le> n"
    then obtain m where n: "n = Suc m" "length (joined '','' (member_texts ?kvs)) < m"
      by (cases n) auto
    show "scan_once n ((''{'' @ joined '','' (member_texts ?kvs) @ ''}'') @ r) =
        Some (JObj (map (map_prod id sorted_json) ?kvs), r)"
    proof (cases ?kvs)
      case (Cons y ys)
      have "expect (CHR ''}'') (joined '','' (member_texts ?kvs) @ ''}'' @ r) = None"
        by (cases ys; cases y) (simp_all add: Cons member_texts_def json_string_def)
      then show ?thesis using scan_members_printed [OF kvs(1) _ _ n(2), of "[]"] kvs(2) n(1) Cons by simp
    qed (simp add: n(1) member_texts_def)
  qed
qed (auto simp: reads_back_def gr0_conv_Suc dest: Suc_le_D)

lemma json_loads_dumps: "distinct_keys v \<Longrightarrow> json_loads (json_dumps v) = Inr (sorted_json v)"
proof -
  assume "distinct_keys v"
  then have "reads_back v" by (rule printed_reads_back)
  moreover have "length (json_dumps v) \<le> Suc (length (json_dumps v))" "follows []"
    by (simp_all add: follows_def)
  ultimately have "scan_once (Suc (length (json_dumps v))) (json_dumps v @ []) = Some (sorted_json v, [])"
    unfolding reads_back_def by blast
  moreover have "skip_space (json_dumps v) = json_dumps v" using skip_dumps [of v "[]"] by simp
  moreover have "skip_space [] = []" by (simp add: skip_space_def)
  ultimately show ?thesis by (simp add: json_loads_def del: scan_once.simps)
qed

end
