(* ===== verification/Python_Dates.thy ===== *)
theory Python_Dates
  imports Python_Numbers
begin

text \<open>
  The inverse of \<open>isoformat\<close>: Python's \<open>datetime.fromisoformat\<close> on the extended format with an offset,
  which is the format \<open>model.iso\<close> writes and the only one the program's own messages use, with the
  ordinal of a date of the proleptic Gregorian calendar. The other formats the function accepts are
  reported as errors.
\<close>

section \<open>Ordinals of dates\<close>

definition days_in_month :: "int \<Rightarrow> int \<Rightarrow> int" where
  "days_in_month y m =
     (if m = 2 then (if is_leap y then 29 else 28) else if m \<in> {4, 6, 9, 11} then 30 else 31)"

definition month_start :: "bool \<Rightarrow> int \<Rightarrow> int" where
  "month_start leap m = days_before_month m + (if m > 2 \<and> leap then 1 else 0)"

definition ymd2ord :: "int \<Rightarrow> int \<Rightarrow> int \<Rightarrow> int" where
  "ymd2ord y m d =
     (y - 1) * 365 + (y - 1) div 4 - (y - 1) div 100 + (y - 1) div 400 + month_start (is_leap y) m + d"

text \<open>The month and day in a year, from the day of the year: as in \<open>ord2ymd\<close>, checked for every day.\<close>

definition month_of :: "bool \<Rightarrow> int \<Rightarrow> int" where
  "month_of leap n =
     (let month = (n + 50) div 32 in if month_start leap month > n then month - 1 else month)"

definition month_ok :: "bool \<Rightarrow> int \<Rightarrow> bool" where
  "month_ok leap n \<longleftrightarrow>
     (let m = month_of leap n; d = n - month_start leap m + 1
      in 1 \<le> m \<and> m \<le> 12 \<and> 1 \<le> d \<and> d \<le> days_in_month (if leap then 4 else 1) m)"

lemma months_checked: "list_all (month_ok True) [0..364] \<and> list_all (month_ok False) [0..364]"
  by code_simp

lemma days_in_month_leap: "days_in_month y = days_in_month (if is_leap y then 4 else 1)"
proof -
  have "is_leap 4" "\<not> is_leap 1" by (simp_all add: is_leap_def)
  then show ?thesis by (simp add: days_in_month_def fun_eq_iff)
qed

lemma month_of_day:
  assumes "0 \<le> n" "n \<le> 364" and leap: "leap = is_leap y"
  defines "m \<equiv> month_of leap n"
  shows "1 \<le> m \<and> m \<le> 12 \<and> 1 \<le> n - month_start leap m + 1 \<and> n - month_start leap m + 1 \<le> days_in_month y m"
proof -
  have "n \<in> set [0..364]" using assms(1,2) by simp
  then have "month_ok leap n"
    using months_checked unfolding list_all_iff by (cases leap) (auto simp del: set_upto)
  then show ?thesis by (simp add: month_ok_def Let_def m_def leap [symmetric] days_in_month_leap [of y])
qed

lemma ord2ymd_year:
  fixes a b c e r :: int
  assumes n: "ordinal - 1 = a * 146097 + b * 36524 + c * 1461 + e * 365 + r"
    and "0 \<le> b" "b \<le> 3" "0 \<le> c" "c \<le> 24" "0 \<le> e" "e \<le> 3" "0 \<le> r" "r \<le> 364"
    and small: "b * 36524 + c * 1461 + e * 365 + r < 146097" "c * 1461 + e * 365 + r < 36524"
      "e * 365 + r < 1461"
  shows "ord2ymd ordinal =
    (let leap = (e = 3 \<and> (c \<noteq> 24 \<or> b = 3)); m = month_of leap r
     in (a * 400 + 1 + b * 100 + c * 4 + e, m,
         r - month_start leap m + 1))"
proof -
  have m1: "(ordinal - 1) mod 146097 = b * 36524 + c * 1461 + e * 365 + r"
    and d1: "(ordinal - 1) div 146097 = a"
    using n assms by (simp_all add: add.assoc)
  have m2: "(b * 36524 + c * 1461 + e * 365 + r) mod 36524 = c * 1461 + e * 365 + r"
    and d2: "(b * 36524 + c * 1461 + e * 365 + r) div 36524 = b"
    using assms by (simp_all add: add.assoc)
  have m3: "(c * 1461 + e * 365 + r) mod 1461 = e * 365 + r"
    and d3: "(c * 1461 + e * 365 + r) div 1461 = c"
    using assms by (simp_all add: add.assoc)
  have m4: "(e * 365 + r) mod 365 = r" and d4: "(e * 365 + r) div 365 = e"
    using assms by simp_all
  show ?thesis
    unfolding ord2ymd_def m1 d1 m2 d2 m3 d3 m4 d4 Let_def month_of_def month_start_def
    using assms by simp
qed

lemma ord2ymd_last:
  fixes a b c e :: int
  assumes n: "ordinal - 1 = a * 146097 + b * 36524 + c * 1461 + e * 365"
    and "0 \<le> c" "c \<le> 24" "b = 4 \<and> c = 0 \<and> e = 0 \<or> 0 \<le> b \<and> b \<le> 3 \<and> e = 4"
    and small: "c * 1461 + e * 365 < 36524"
  shows "ord2ymd ordinal = (a * 400 + b * 100 + c * 4 + e, 12, 31)"
proof -
  have m1: "(ordinal - 1) mod 146097 = b * 36524 + c * 1461 + e * 365"
    and d1: "(ordinal - 1) div 146097 = a"
    using assms by (auto simp: add.assoc)
  have m2: "(b * 36524 + c * 1461 + e * 365) mod 36524 = c * 1461 + e * 365"
    and d2: "(b * 36524 + c * 1461 + e * 365) div 36524 = b"
    using assms by (auto simp: add.assoc)
  have m3: "(c * 1461 + e * 365) mod 1461 = e * 365" and d3: "(c * 1461 + e * 365) div 1461 = c"
    using assms by auto
  show ?thesis
    unfolding ord2ymd_def m1 d1 m2 d2 m3 d3 Let_def using assms by auto
qed

text \<open>Years before a year of a cycle, and when it is a leap year.\<close>

lemma cycle_year:
  fixes a b c e :: int
  assumes "y - 1 = a * 400 + b * 100 + c * 4 + e"
    and "0 \<le> b" "b \<le> 3" "0 \<le> c" "c \<le> 24" "0 \<le> e" "e \<le> 3"
  shows "(y - 1) div 4 = a * 100 + b * 25 + c" "(y - 1) div 100 = a * 4 + b" "(y - 1) div 400 = a"
    "is_leap y \<longleftrightarrow> e = 3 \<and> (c \<noteq> 24 \<or> b = 3)"
proof -
  show "(y - 1) div 4 = a * 100 + b * 25 + c"
    using assms by (intro int_div_pos_eq [where r = e]) simp_all
  show "(y - 1) div 100 = a * 4 + b"
    using assms by (intro int_div_pos_eq [where r = "c * 4 + e"]) simp_all
  show "(y - 1) div 400 = a"
    using assms by (intro int_div_pos_eq [where r = "b * 100 + c * 4 + e"]) simp_all
  have "y mod 4 = (if e = 3 then 0 else e + 1)"
    using assms by (intro int_mod_pos_eq [where q = "a * 100 + b * 25 + c + of_bool (e = 3)"]) auto
  moreover have "y mod 100 = (if e = 3 \<and> c = 24 then 0 else c * 4 + e + 1)"
    using assms by (intro int_mod_pos_eq [where q = "a * 4 + b + of_bool (e = 3 \<and> c = 24)"]) auto
  moreover have "y mod 400 = (if e = 3 \<and> c = 24 \<and> b = 3 then 0 else b * 100 + c * 4 + e + 1)"
    using assms by (intro int_mod_pos_eq [where q = "a + of_bool (e = 3 \<and> c = 24 \<and> b = 3)"]) auto
  ultimately show "is_leap y \<longleftrightarrow> e = 3 \<and> (c \<noteq> 24 \<or> b = 3)"
    using assms unfolding is_leap_def by auto
qed

text \<open>Every ordinal by its place in the cycles: the last day of a cycle or of a leap year, or another.\<close>

lemma ord2ymd_cases:
  fixes ordinal :: int
  obtains (cycle) a where "ordinal - 1 = a * 146097 + 146096" "ord2ymd ordinal = (a * 400 + 400, 12, 31)"
  | (leap) a b c where "ordinal - 1 = a * 146097 + b * 36524 + c * 1461 + 1460"
      "0 \<le> b" "b \<le> 3" "0 \<le> c" "c \<le> 24" "c \<noteq> 24 \<or> b = 3"
      "ord2ymd ordinal = (a * 400 + b * 100 + c * 4 + 4, 12, 31)"
  | (inner) a b c e r where "ordinal - 1 = a * 146097 + b * 36524 + c * 1461 + e * 365 + r"
      "0 \<le> b" "b \<le> 3" "0 \<le> c" "c \<le> 24" "0 \<le> e" "e \<le> 3" "0 \<le> r" "r \<le> 364"
      "ord2ymd ordinal =
        (let leap = (e = 3 \<and> (c \<noteq> 24 \<or> b = 3)); m = month_of leap r
         in (a * 400 + 1 + b * 100 + c * 4 + e, m, r - month_start leap m + 1))"
proof -
  define n where "n = ordinal - 1"
  define a where "a = n div 146097"
  define n' where "n' = n mod 146097"
  define b where "b = n' div 36524"
  define n'' where "n'' = n' mod 36524"
  define c where "c = n'' div 1461"
  define n3 where "n3 = n'' mod 1461"
  define e where "e = n3 div 365"
  define r where "r = n3 mod 365"
  have n: "n = a * 146097 + n'" "n' = b * 36524 + n''" "n'' = c * 1461 + n3" "n3 = e * 365 + r"
    by (simp_all add: a_def n'_def b_def n''_def c_def n3_def e_def r_def)
  have "0 \<le> n'" "n' < 146097" "0 \<le> n''" "n'' < 36524" "0 \<le> n3" "n3 < 1461" "0 \<le> r" "r \<le> 364"
    by (simp_all add: n'_def n''_def n3_def r_def)
  then have bounds: "0 \<le> b" "b \<le> 4" "0 \<le> c" "c \<le> 24" "0 \<le> e" "e \<le> 4" "0 \<le> r" "r \<le> 364"
    "n' < 146097" "n'' < 36524" "n3 < 1461"
    using n by linarith+
  have ordinal: "ordinal - 1 = a * 146097 + b * 36524 + c * 1461 + e * 365 + r" using n n_def by simp
  consider "b = 4" | "b \<le> 3" "e = 4" | "b \<le> 3" "e \<le> 3" using bounds by linarith
  then show thesis
  proof cases
    case 1
    then have z: "c = 0" "e = 0" "r = 0" using bounds n by linarith+
    then show thesis using cycle [of a] ord2ymd_last [of ordinal a b c e] 1 ordinal by simp
  next
    case 2
    then have z: "r = 0" using bounds n by linarith
    have "c \<noteq> 24 \<or> b = 3" using bounds n 2 by linarith
    then show thesis using leap [of a b c] ord2ymd_last [of ordinal a b c e] 2 z ordinal bounds n by simp
  next
    case 3
    then show thesis using inner [of a b c e r] ord2ymd_year [of ordinal a b c e r] ordinal bounds n by simp
  qed
qed

lemma ord2ymd_ordinal:
  assumes o: "1 \<le> ordinal" "ordinal \<le> 3652059" and ymd: "ord2ymd ordinal = (y, m, d)"
  shows "1 \<le> y \<and> y \<le> 9999 \<and> 1 \<le> m \<and> m \<le> 12 \<and> 1 \<le> d \<and> d \<le> days_in_month y m \<and>
    ymd2ord y m d = ordinal"
proof (cases ordinal rule: ord2ymd_cases)
  case (cycle a)
  then have y: "y = a * 400 + 400" "m = 12" "d = 31" using ymd by simp_all
  have "is_leap y" "(y - 1) div 4 = a * 100 + 3 * 25 + 24" "(y - 1) div 100 = a * 4 + 3" "(y - 1) div 400 = a"
    using cycle_year [of y a 3 24 3] y by simp_all
  moreover have "0 \<le> a" "a \<le> 23" using cycle(1) o by linarith+
  ultimately show ?thesis
    using cycle(1) y by (simp add: ymd2ord_def month_start_def days_before_month_def days_in_month_def)
next
  case (leap a b c)
  then have y: "y = a * 400 + b * 100 + c * 4 + 4" "m = 12" "d = 31" using ymd by simp_all
  have "is_leap y" "(y - 1) div 4 = a * 100 + b * 25 + c" "(y - 1) div 100 = a * 4 + b" "(y - 1) div 400 = a"
    using cycle_year [of y a b c 3] y leap by simp_all
  moreover have "0 \<le> a" "a * 400 + b * 100 + c * 4 \<le> 9995" using leap o by linarith+
  ultimately show ?thesis
    using leap y by (simp add: ymd2ord_def month_start_def days_before_month_def days_in_month_def)
next
  case (inner a b c e r)
  let ?leap = "e = 3 \<and> (c \<noteq> 24 \<or> b = 3)" and ?y = "a * 400 + 1 + b * 100 + c * 4 + e"
  have y: "y = ?y" "m = month_of ?leap r" "d = r - month_start ?leap m + 1"
    using ymd inner(10) by (auto simp: Let_def)
  have leap: "is_leap y = ?leap" and div: "(y - 1) div 4 = a * 100 + b * 25 + c" "(y - 1) div 100 = a * 4 + b"
    "(y - 1) div 400 = a"
    using cycle_year [of y a b c e] y(1) inner by simp_all
  note md = month_of_day [OF inner(8,9) leap [symmetric], folded y(2,3)]
  then have "ymd2ord y m d = ordinal"
    using inner(1) y(1) unfolding ymd2ord_def div leap y(3) by (simp add: algebra_simps)
  moreover have "0 \<le> a" using inner o by linarith
  then have "1 \<le> y" "y \<le> 9999" using y(1) inner o by linarith+
  ultimately show ?thesis using md unfolding y(3) by blast
qed

text \<open>Outside the ordinals of \<open>datetime\<close> the year has no four digits.\<close>

lemma ord2ymd_outside:
  assumes "ord2ymd ordinal = (y, m, d)"
  shows "ordinal < 1 \<Longrightarrow> y < 1" and "3652059 < ordinal \<Longrightarrow> 9999 < y"
proof -
  show "y < 1" if o: "ordinal < 1"
  proof (cases ordinal rule: ord2ymd_cases)
    case (inner a b c e r)
    then have "a \<le> - 1" using o by linarith
    then show ?thesis using inner assms by (simp add: Let_def)
  next
    case (leap a b c)
    then have "a \<le> - 1" using o by linarith
    then show ?thesis using leap assms by simp
  next
    case (cycle a)
    then have "a \<le> - 1" using o by linarith
    then show ?thesis using cycle assms by simp
  qed
  show "9999 < y" if o: "3652059 < ordinal"
  proof (cases ordinal rule: ord2ymd_cases)
    case (inner a b c e r)
    then have "24 \<le> a" "25 \<le> a \<or> b = 3 \<and> c = 24 \<and> e = 3" using o by linarith+
    then show ?thesis using inner assms by (auto simp: Let_def)
  next
    case (leap a b c)
    then have "24 \<le> a" "25 \<le> a \<or> b = 3 \<and> c = 24" using o by linarith+
    then show ?thesis using leap assms by auto
  next
    case (cycle a)
    then have "24 \<le> a" using o by linarith
    then show ?thesis using cycle assms by simp
  qed
qed

section \<open>Reading a time stamp\<close>

text \<open>\<open>int(s)\<close> of a fixed number of digits.\<close>

definition read_digits :: "nat \<Rightarrow> string \<Rightarrow> int option" where
  "read_digits k s = (if length s = k \<and> list_all decimal s then Some (int (decimal_value s)) else None)"

definition bounded :: "int \<Rightarrow> int \<Rightarrow> int option \<Rightarrow> int option" where
  "bounded lo hi n = Option.bind n (\<lambda>n. if lo \<le> n \<and> n \<le> hi then Some n else None)"

text \<open>The date, \<open>YYYY-MM-DD\<close>, as an ordinal.\<close>

definition read_date :: "string \<Rightarrow> int option" where
  "read_date s =
     (if length s = 10 \<and> s ! 4 = CHR ''-'' \<and> s ! 7 = CHR ''-'' then
        Option.bind (bounded 1 9999 (read_digits 4 (take 4 s))) (\<lambda>y.
        Option.bind (bounded 1 12 (read_digits 2 (take 2 (drop 5 s)))) (\<lambda>m.
        Option.bind (bounded 1 (days_in_month y m) (read_digits 2 (drop 8 s))) (\<lambda>d.
        Some (ymd2ord y m d))))
      else None)"

text \<open>The time of the day, \<open>HH:MM:SS\<close> and perhaps six digits of microseconds, in microseconds.\<close>

definition read_clock :: "string \<Rightarrow> int option" where
  "read_clock s =
     (if 8 \<le> length s \<and> s ! 2 = CHR '':'' \<and> s ! 5 = CHR '':'' then
        Option.bind (bounded 0 23 (read_digits 2 (take 2 s))) (\<lambda>h.
        Option.bind (bounded 0 59 (read_digits 2 (take 2 (drop 3 s)))) (\<lambda>m.
        Option.bind (bounded 0 59 (read_digits 2 (take 2 (drop 6 s)))) (\<lambda>sec.
        Option.bind
          (case drop 8 s of
             [] \<Rightarrow> Some 0
           | c # ds \<Rightarrow> (if c = CHR ''.'' then read_digits 6 ds else None)) (\<lambda>us.
        Some ((h * 3600 + m * 60 + sec) * 1000000 + us)))))
      else None)"

text \<open>The offset from UTC, \<open>+HH:MM\<close> or \<open>-HH:MM\<close>, in microseconds.\<close>

definition read_offset :: "string \<Rightarrow> int option" where
  "read_offset s =
     (if length s = 6 \<and> s ! 0 \<in> {CHR ''+'', CHR ''-''} \<and> s ! 3 = CHR '':'' then
        Option.bind (bounded 0 23 (read_digits 2 (take 2 (drop 1 s)))) (\<lambda>h.
        Option.bind (bounded 0 59 (read_digits 2 (drop 4 s))) (\<lambda>m.
        Some ((if s ! 0 = CHR ''-'' then - 1 else 1) * (h * 3600 + m * 60) * 1000000)))
      else None)"

definition fromisoformat :: "string \<Rightarrow> time result" where
  "fromisoformat s =
     (let n = length s - 6 in
      case (read_date (take 10 s), read_clock (drop 11 (take n s)), read_offset (drop n s)) of
        (Some ordinal, Some clock, Some offset) \<Rightarrow>
          Inr ((ordinal - 719163) * 86400000000 + clock - offset)
      | _ \<Rightarrow> Inl (ValueError ''Invalid isoformat string''))"

section \<open>What is printed reads back\<close>

text \<open>The times of the years 1 to 9999.\<close>

definition printable_time :: "time \<Rightarrow> bool" where
  "printable_time t \<longleftrightarrow> - 719162 \<le> t div 86400000000 \<and> t div 86400000000 \<le> 2932896"

lemma zero_pad_length: "n < 10 ^ k \<Longrightarrow> 0 < k \<Longrightarrow> length (zero_pad k n) = k"
  using length_nat_digits [of n k] by (simp add: zero_pad_def)

lemma read_zero_pad: "n < 10 ^ k \<Longrightarrow> 0 < k \<Longrightarrow> read_digits k (zero_pad k n) = Some (int n)"
proof -
  assume n: "n < 10 ^ k" "0 < k"
  have zeros: "decimal_value (replicate j CHR ''0'' @ s) = decimal_value s" for j s
    by (induction j) (simp_all add: decimal_value_def)
  have "list_all decimal (zero_pad k n)"
    using nat_digits_decimal [of n] by (auto simp: zero_pad_def list_all_iff decimal_def)
  then show ?thesis
    using zero_pad_length [OF n] by (simp add: read_digits_def) (simp add: zero_pad_def zeros nat_digits_value)
qed

lemma read_date_printed:
  assumes "1 \<le> y" "y \<le> 9999" "1 \<le> m" "m \<le> 12" "1 \<le> d" "d \<le> days_in_month y m"
  shows "read_date (zero_pad 4 (nat y) @ ''-'' @ zero_pad 2 (nat m) @ ''-'' @ zero_pad 2 (nat d)) =
    Some (ymd2ord y m d)"
proof -
  have d: "d \<le> 31" using assms(6) by (simp add: days_in_month_def split: if_splits)
  have len: "length (zero_pad 4 (nat y)) = 4" "length (zero_pad 2 (nat m)) = 2" "length (zero_pad 2 (nat d)) = 2"
    using assms d by (intro zero_pad_length; simp)+
  have read: "read_digits 4 (zero_pad 4 (nat y)) = Some y" "read_digits 2 (zero_pad 2 (nat m)) = Some m"
    "read_digits 2 (zero_pad 2 (nat d)) = Some d"
    using assms d by (subst read_zero_pad; simp)+
  show ?thesis
    using assms len by (simp add: read_date_def nth_append read bounded_def)
qed

lemma read_clock_printed:
  assumes "0 \<le> h" "h < 24" "0 \<le> m" "m < 60" "0 \<le> s" "s < 60" "0 \<le> us" "us < 1000000"
  shows "read_clock (zero_pad 2 (nat h) @ '':'' @ zero_pad 2 (nat m) @ '':'' @ zero_pad 2 (nat s) @
         (if us = 0 then [] else ''.'' @ zero_pad 6 (nat us))) =
    Some ((h * 3600 + m * 60 + s) * 1000000 + us)"
proof -
  have len: "length (zero_pad 2 (nat h)) = 2" "length (zero_pad 2 (nat m)) = 2" "length (zero_pad 2 (nat s)) = 2"
    using assms by (intro zero_pad_length; simp)+
  have read: "read_digits 2 (zero_pad 2 (nat h)) = Some h" "read_digits 2 (zero_pad 2 (nat m)) = Some m"
    "read_digits 2 (zero_pad 2 (nat s)) = Some s" "read_digits 6 (zero_pad 6 (nat us)) = Some us"
    using assms by (subst read_zero_pad; simp)+
  show ?thesis
    using assms(1-6) len by (simp add: read_clock_def nth_append read bounded_def)
qed

lemma split_stamp:
  assumes "length date = 10" and "length offset = 6"
  shows "take 10 (date @ [sep] @ clock @ offset) = date"
    "drop 11 (take (length (date @ [sep] @ clock @ offset) - 6) (date @ [sep] @ clock @ offset)) = clock"
    "drop (length (date @ [sep] @ clock @ offset) - 6) (date @ [sep] @ clock @ offset) = offset"
  using assms by simp_all

lemma fromisoformat_isoformat:
  assumes "printable_time t"
  shows "fromisoformat (isoformat_utc t) = Inr t"
proof -
  define days us where "days = t div 86400000000" and "us = t mod 86400000000"
  have t: "t = days * 86400000000 + us" "0 \<le> us" "us < 86400000000" by (simp_all add: days_def us_def)
  define secs micro where "secs = us div 1000000" and "micro = us mod 1000000"
  have us: "us = secs * 1000000 + micro" "0 \<le> micro" "micro < 1000000" "0 \<le> secs" "secs < 86400"
    using t by (simp_all add: secs_def micro_def pos_imp_zdiv_nonneg_iff)
  define h m s where "h = secs div 3600" and "m = secs div 60 mod 60" and "s = secs mod 60"
  have hms: "0 \<le> h" "h < 24" "0 \<le> m" "m < 60" "0 \<le> s" "s < 60"
    using us by (simp_all add: h_def m_def s_def pos_imp_zdiv_nonneg_iff)
  have secs: "h * 3600 + m * 60 + s = secs"
  proof -
    have "h = secs div 60 div 60" using zdiv_zmult2_eq [of 60 secs 60] by (simp add: h_def)
    then show ?thesis
      using div_mult_mod_eq [of "secs div 60" 60] div_mult_mod_eq [of secs 60] unfolding m_def s_def by linarith
  qed
  obtain y mo d where ymd: "ord2ymd (days + 719163) = (y, mo, d)" by (metis prod_cases3)
  have date: "1 \<le> y" "y \<le> 9999" "1 \<le> mo" "mo \<le> 12" "1 \<le> d" "d \<le> days_in_month y mo"
    "ymd2ord y mo d = days + 719163"
    using ord2ymd_ordinal [OF _ _ ymd] assms by (simp_all add: printable_time_def days_def)
  have d: "d \<le> 31" using date(6) by (simp add: days_in_month_def split: if_splits)
  let ?date = "zero_pad 4 (nat y) @ ''-'' @ zero_pad 2 (nat mo) @ ''-'' @ zero_pad 2 (nat d)"
  let ?clock = "zero_pad 2 (nat h) @ '':'' @ zero_pad 2 (nat m) @ '':'' @ zero_pad 2 (nat s) @
         (if micro = 0 then [] else ''.'' @ zero_pad 6 (nat micro))"
  have shape: "isoformat_utc t = ?date @ ''T'' @ ?clock @ ''+00:00''"
    by (simp add: isoformat_utc_def Let_def days_def [symmetric] us_def [symmetric] secs_def [symmetric]
        micro_def [symmetric] h_def [symmetric] m_def [symmetric] s_def [symmetric] ymd)
  have len: "length ?date = 10"
  proof -
    have "length (zero_pad 4 (nat y)) = 4" "length (zero_pad 2 (nat mo)) = 2" "length (zero_pad 2 (nat d)) = 2"
      using date d by (intro zero_pad_length; simp)+
    then show ?thesis by simp
  qed
  have plus: "length ''+00:00'' = 6" by simp
  have offset: "read_offset ''+00:00'' = Some 0" by code_simp
  show ?thesis
    unfolding fromisoformat_def shape Let_def
      split_stamp [OF len plus, of "CHR ''T''" ?clock] read_date_printed [OF date(1-6)]
      read_clock_printed [OF hms us(2,3)] offset
    using t us secs by (simp add: date(7))
qed


text \<open>A time that \<open>datetime\<close> cannot represent has no text that reads back.\<close>

lemma nat_digits_length: "10 ^ k \<le> n \<Longrightarrow> k < length (nat_digits n)"
proof (induction n arbitrary: k rule: nat_digits.induct)
  case (1 n)
  show ?case
  proof (cases "n < 10")
    case True
    have "10 ^ 1 \<le> (10 :: nat) ^ k" if "k \<noteq> 0" using that by (intro power_increasing) simp_all
    then have "k = 0" using 1(2) True by fastforce
    then show ?thesis using nat_digits_not_Nil by simp
  next
    case False
    then show ?thesis using 1 by (cases k) (auto simp: nat_digits.simps [of n])
  qed
qed

lemma fromisoformat_printable:
  assumes "fromisoformat (isoformat_utc t) = Inr u"
  shows "printable_time t \<and> u = t"
proof (cases "printable_time t")
  case False
  define days where "days = t div 86400000000"
  obtain y m d where ymd: "ord2ymd (days + 719163) = (y, m, d)" by (metis prod_cases3)
  obtain r where s: "isoformat_utc t = zero_pad 4 (nat y) @ CHR ''-'' # r"
    using ymd by (auto simp: isoformat_utc_def Let_def days_def)
  have "read_date (take 10 (isoformat_utc t)) = None"
  proof (cases "y < 1")
    case True
    have "zero_pad 4 0 = ''0000''" by code_simp
    then have "zero_pad 4 (nat y) = ''0000''" using True by simp
    moreover have "read_digits 4 ''0000'' = Some 0" by code_simp
    ultimately show ?thesis by (simp add: read_date_def s bounded_def)
  next
    case False
    then have "9999 < y" using ord2ymd_outside [OF ymd] \<open>\<not> printable_time t\<close>
      by (auto simp: printable_time_def days_def)
    then have "10 ^ 4 \<le> nat y" by simp
    then have "4 < length (zero_pad 4 (nat y))" using nat_digits_length [of 4 "nat y"] by (simp add: zero_pad_def)
    moreover have "list_all decimal (zero_pad 4 (nat y))"
      using nat_digits_decimal [of "nat y"] by (auto simp: zero_pad_def list_all_iff decimal_def)
    ultimately have "decimal (zero_pad 4 (nat y) ! 4)" by (simp add: list_all_length)
    then show ?thesis
      using \<open>4 < length (zero_pad 4 (nat y))\<close> decimal_chars(3) by (auto simp: read_date_def s nth_append)
  qed
  then show ?thesis using assms by (simp add: fromisoformat_def Let_def)
qed (use assms fromisoformat_isoformat in simp)

end
