(* ===== verification/Wire_Codec.thy ===== *)
theory Wire_Codec
  imports Projection_Worker Python_Json Python_Dates
begin

text \<open>
  The wire format with the standard library's own readers: an EDR that \<open>canonical_edr\<close> printed, and the
  canonical payload embedded in it, read back through \<open>json.loads\<close> and \<open>datetime.fromisoformat\<close>.
\<close>

definition python_codec :: codec where
  "python_codec = \<lparr>co_loads = json_loads, co_fromiso = fromisoformat\<rparr>"

section \<open>Flat objects\<close>

text \<open>The values of an EDR are scalars, which sorting leaves alone.\<close>

lemma sorted_jopt [simp]: "sorted_json (jopt JStr a) = jopt JStr a" "sorted_json (jopt JBool b) = jopt JBool b"
  by (cases a; simp) (cases b; simp)

lemma distinct_jopt [simp]: "distinct_keys (jopt JStr a)" "distinct_keys (jopt JBool b)"
  by (cases a; simp) (cases b; simp)

lemma map_of_sort_key:
  assumes "distinct (map fst kvs)"
  shows "map_of (sort_key fst kvs) = map_of kvs"
proof -
  have "distinct (map fst (sort_key fst kvs))" by (rule distinct_map_sort [OF assms])
  then show ?thesis by (intro map_of_inject_set [THEN iffD2]) (simp_all add: assms)
qed

definition wire_value :: "string \<Rightarrow> event \<Rightarrow> (string \<times> json) list" where
  "wire_value digest e =
     edr_value e @ [(''canonicalPayload'', JStr (json_dumps (JObj (edr_value e)))), (''payloadHash'', JStr digest)]"

lemma wire_text: "fst (canonical_edr sha e) = json_dumps (JObj (wire_value (snd (canonical_edr sha e)) e))"
  by (simp add: canonical_edr_def wire_value_def Let_def)

lemma edr_value_sorted:
  "map (map_prod id sorted_json) (edr_value e) = edr_value e" "distinct_keys (JObj (edr_value e))"
  by (simp_all add: edr_value_def)

lemma wire_value_sorted:
  "map (map_prod id sorted_json) (wire_value h e) = wire_value h e" "distinct_keys (JObj (wire_value h e))"
  using edr_value_sorted [of e] by (simp_all add: wire_value_def) (simp add: edr_value_def)

lemma loads_flat:
  assumes "map (map_prod id sorted_json) kvs = kvs" "distinct_keys (JObj kvs)"
  shows "\<exists>kvs'. json_loads (json_dumps (JObj kvs)) = Inr (JObj kvs') \<and> map_of kvs' = map_of kvs"
  using json_loads_dumps [OF assms(2)] assms map_of_sort_key [of kvs] by simp

text \<open>The wire message keeps the fields of the EDR and adds the canonical payload and its hash.\<close>

lemma wire_value_fields:
  "map_of (wire_value h e) ''canonicalPayload'' = Some (JStr (json_dumps (JObj (edr_value e))))"
  "map_of (wire_value h e) ''payloadHash'' = Some (JStr h)"
  "k \<in> fst ` set (edr_value e) \<Longrightarrow> map_of (wire_value h e) k = map_of (edr_value e) k"
proof -
  have "map_of (edr_value e) ''canonicalPayload'' = None" "map_of (edr_value e) ''payloadHash'' = None"
    by (simp_all add: edr_value_def)
  moreover from this have "''canonicalPayload'' \<notin> fst ` set (edr_value e)" "''payloadHash'' \<notin> fst ` set (edr_value e)"
    unfolding map_of_eq_None_iff by simp_all
  ultimately show "map_of (wire_value h e) ''canonicalPayload'' = Some (JStr (json_dumps (JObj (edr_value e))))"
    "map_of (wire_value h e) ''payloadHash'' = Some (JStr h)"
    "k \<in> fst ` set (edr_value e) \<Longrightarrow> map_of (wire_value h e) k = map_of (edr_value e) k"
    unfolding wire_value_def map_of_append map_add_def
    by (simp_all del: json_dumps.simps split: option.split) metis
qed

lemma event_from_wire_value: "event_from_wire fromiso (wire_value h e) = event_from_wire fromiso (edr_value e)"
proof -
  have "map_of (wire_value h e) k = map_of (edr_value e) k"
    if "k \<in> {''eventId'', ''eventType'', ''eventTime'', ''ingestionTime'', ''jobId'', ''correlationId'',
      ''jobType'', ''scheduledAt'', ''attemptNumber'', ''maxAttempts'', ''retryable'', ''nextRetryAt'',
      ''resultCode'', ''errorCode''}" for k
    using that by (intro wire_value_fields(3)) (auto simp: edr_value_def)
  then show ?thesis
    by (simp add: event_from_wire_def required_field_def optional_field_def get_default_def)
qed

lemma read_edr:
  assumes "valid_event e" and "\<And>t. t \<in> event_times e \<Longrightarrow> printable_time t" and "map_of kvs = map_of (edr_value e)"
  shows "event_from_wire fromisoformat kvs = Inr (on_the_wire e)"
  using decode_encode [OF assms(1), of fromisoformat] fromisoformat_isoformat assms(2)
    event_from_wire_cong [OF assms(3), of fromisoformat] by simp


section \<open>Texts that read back\<close>

text \<open>A time in a text that reads back is one of the times \<open>datetime\<close> can represent.\<close>

lemma parse_time_printable: "parse_time fromisoformat (jtime (Some t)) = Inr u \<Longrightarrow> printable_time t"
  using fromisoformat_printable [of t u] by (simp add: parse_time_def iso_def zone_replacements_cancel)

lemma opt_time_printable: "opt_time fromisoformat (jtime (Some t)) = Inr u \<Longrightarrow> printable_time t"
proof -
  assume r: "opt_time fromisoformat (jtime (Some t)) = Inr u"
  have "json_truthy (jtime (Some t))"
  proof -
    obtain p where "isoformat_utc t = p @ ''+00:00''" "CHR ''+'' \<notin> set p" using isoformat_shape by blast
    then show ?thesis by (simp add: str_replace_skip iso_def)
  qed
  then show "printable_time t"
    using r parse_time_printable by (auto simp: opt_time_def bind_result_Inr_iff simp del: jopt_simps)
qed

lemma reads_back_printable:
  assumes "event_from_wire fromisoformat (edr_value e) = Inr e'"
  shows "t \<in> event_times e \<Longrightarrow> printable_time t"
proof -
  have "\<exists>a b c d. parse_time fromisoformat (jtime (Some (ev_event_time e))) = Inr a \<and>
      parse_time fromisoformat (jtime (Some (ev_ingestion_time e))) = Inr b \<and>
      opt_time fromisoformat (jtime (ev_scheduled_at e)) = Inr c \<and>
      opt_time fromisoformat (jtime (ev_next_retry_at e)) = Inr d"
    using assms
    unfolding event_from_wire_def required_field_def optional_field_def get_default_def wire_fields
      option.case bind_result_Inr_iff bind_result.simps
    by blast
  then show "t \<in> event_times e \<Longrightarrow> printable_time t"
    using parse_time_printable opt_time_printable unfolding event_times_def
    by (fastforce simp del: jopt_simps)
qed

section \<open>Properties\<close>

text \<open>
  C26. The wire format is lossless for what it carries: an EDR that is encoded by \<open>canonical_edr\<close> and read
  back with \<open>json.loads\<close> and \<open>datetime.fromisoformat\<close>, from the wire text or from the canonical payload
  embedded in it, is the event with its id, type, times, job, correlation, job type, attempt, limits,
  schedule, retry time and outcome, and with the defaults of the fields the wire leaves out. The event
  is valid and its times are in the years 1 to 9999 that \<open>datetime\<close> has.
\<close>

theorem canonical_text_reads_back:
  assumes "valid_event e" and "\<forall>t \<in> event_times e. printable_time t"
  shows "event_from_text json_loads fromisoformat (JStr (fst (canonical_edr sha e))) = Inr (on_the_wire e) \<and>
    (\<exists>wire. json_loads (fst (canonical_edr sha e)) = Inr (JObj wire) \<and>
       event_from_text json_loads fromisoformat (get_default wire ''canonicalPayload'' (JObj wire)) =
         Inr (on_the_wire e))"
proof -
  let ?h = "snd (canonical_edr sha e)"
  obtain wire where wire: "json_loads (fst (canonical_edr sha e)) = Inr (JObj wire)"
    "map_of wire = map_of (wire_value ?h e)"
    using loads_flat [OF wire_value_sorted] unfolding wire_text by blast
  obtain payload where payload: "json_loads (json_dumps (JObj (edr_value e))) = Inr (JObj payload)"
    "map_of payload = map_of (edr_value e)"
    using loads_flat [OF edr_value_sorted] by blast
  have "event_from_wire fromisoformat (edr_value e) = Inr (on_the_wire e)"
    using read_edr [OF assms(1) _ refl] assms(2) by blast
  then have "event_from_wire fromisoformat wire = Inr (on_the_wire e)"
    using event_from_wire_cong [OF wire(2)] event_from_wire_value by simp
  moreover have "event_from_wire fromisoformat payload = Inr (on_the_wire e)"
    using read_edr [OF assms(1) _ payload(2)] assms(2) by blast
  ultimately show ?thesis
    using wire payload(1)
    by (simp add: event_from_text_def get_default_def wire_value_fields del: json_dumps.simps)
qed

theorem canonical_text_reads_back_witness:
  "event_from_text json_loads fromisoformat (JStr (fst (canonical_edr (\<lambda>s. ''00'') example_wire_event))) =
     Inr example_wire_event"
proof -
  have "\<forall>t \<in> event_times example_wire_event. printable_time t"
    by (simp add: event_times_def example_wire_event_def new_event_def printable_time_def)
  moreover have "on_the_wire example_wire_event = example_wire_event"
    by (simp add: on_the_wire_def example_wire_event_def new_event_def str_or_def)
  ultimately show ?thesis
    using canonical_text_reads_back [OF example_wire_valid, of "\<lambda>s. ''00''"] by simp
qed

end
