(* ===== verification/End_To_End.thy ===== *)
theory End_To_End
  imports Scheduler_Visibility Visibility_Reader Wire_Codec
begin

text \<open>
  The whole path of a fact: a scheduler operation writes an EDR to the outbox, the broker carries its
  text to the sink, the sink writes a journal row, the projection worker replays the journal and the
  durable reads answer. Between the outbox and the journal stand Kafka and its JDBC sink connector,
  which are not part of the program; what the path needs of them is the relation \<open>carries\<close> and the
  order of the rows.
\<close>

section \<open>The sink\<close>

text \<open>
  The row that \<open>infra/kafka/connect/edr-jdbc-sink.json\<close> writes for a message: the renamed fields, and the
  canonical payload as \<open>jsonb\<close>, which keeps the members and not their order.
\<close>

definition carries :: "outbox_row \<Rightarrow> edr_row \<Rightarrow> bool" where
  "carries out row \<longleftrightarrow>
     (case json_loads (ob_canonical_payload out) of
        Inr (JObj message) \<Rightarrow>
          map_of message ''eventId'' = Some (JStr (er_event_id row)) \<and>
          map_of message ''jobId'' = Some (JStr (er_job_id row)) \<and>
          map_of message ''payloadHash'' = Some (JStr (er_payload_hash row)) \<and>
          (case (map_of message ''canonicalPayload'', er_payload row) of
             (Some (JStr s), JObj kvs) \<Rightarrow>
               (case json_loads s of Inr (JObj payload) \<Rightarrow> mset kvs = mset payload | _ \<Rightarrow> False)
           | _ \<Rightarrow> False)
      | _ \<Rightarrow> False)"

text \<open>The messages of a job in the order of the outbox.\<close>

definition job_messages :: "scheduler_db \<Rightarrow> string \<Rightarrow> outbox_row list" where
  "job_messages db i = filter (\<lambda>out. ob_message_key out = i) (map snd (db_outbox db))"

lemma carried_payload:
  assumes "carries (snd (outbox_entry svc t e)) row"
  obtains kvs where "er_payload row = JObj kvs" "map_of kvs = map_of (edr_value e)"
    "er_event_id row = ev_event_id e" "er_job_id row = ev_job_id e"
proof -
  let ?h = "snd (canonical_edr (sv_sha256 svc) e)"
  obtain wire where wire: "json_loads (fst (canonical_edr (sv_sha256 svc) e)) = Inr (JObj wire)"
    "map_of wire = map_of (wire_value ?h e)"
    using loads_flat [OF wire_value_sorted] unfolding wire_text by blast
  let ?payload = "sort_key fst (edr_value e)"
  have distinct: "distinct (map fst (edr_value e))" using edr_value_sorted(2) [of e] by simp
  have loads: "json_loads (json_dumps (JObj (edr_value e))) = Inr (JObj ?payload)"
    using json_loads_dumps [OF edr_value_sorted(2)] edr_value_sorted(1) by simp
  have ids: "map_of (wire_value ?h e) ''eventId'' = Some (JStr (ev_event_id e))"
    "map_of (wire_value ?h e) ''jobId'' = Some (JStr (ev_job_id e))"
    using wire_value_fields(3) [of _ e ?h] wire_fields by (simp_all add: edr_value_def)
  obtain kvs where kvs: "er_payload row = JObj kvs" "mset kvs = mset ?payload"
    and row: "er_event_id row = ev_event_id e" "er_job_id row = ev_job_id e"
    using assms wire loads ids
    by (auto simp: carries_def outbox_entry_def outbox_row_of_def wire_value_fields(1)
        simp del: json_dumps.simps split: json.splits)
  have "mset kvs = mset (edr_value e)" using kvs(2) by simp
  then have "distinct (map fst kvs)" "set kvs = set (edr_value e)"
    using distinct mset_eq_setD by (metis mset_eq_imp_distinct_iff mset_map, blast)
  then have "map_of kvs = map_of (edr_value e)" using distinct map_of_inject_set by blast
  then show thesis using that kvs(1) row by blast
qed

lemma carried_decodes:
  assumes "carries (snd (outbox_entry svc t e)) row" and "wire_safe e"
  shows "decodes python_codec row \<Longrightarrow> decoded python_codec row = e"
    and "(\<And>t. t \<in> event_times e \<Longrightarrow> printable_time t) \<Longrightarrow> decodes python_codec row"
proof -
  obtain kvs where kvs: "er_payload row = JObj kvs" "map_of kvs = map_of (edr_value e)"
    and row: "er_event_id row = ev_event_id e" "er_job_id row = ev_job_id e"
    by (rule carried_payload [OF assms(1)])
  have "map_of (edr_value e) ''canonicalPayload'' = None" by (simp add: edr_value_def)
  then have payload: "event_of_payload python_codec (er_payload row) = event_from_wire fromisoformat kvs"
    by (simp add: event_of_payload_def kvs get_default_def event_from_text_def python_codec_def)
  have safe: "valid_event e" "on_the_wire e = e" using assms(2) by (simp_all add: wire_safe_def)
  show "decodes python_codec row" if "\<And>t. t \<in> event_times e \<Longrightarrow> printable_time t"
    using read_edr [OF safe(1) that kvs(2)] safe row by (simp add: decodes_def payload)
  assume "decodes python_codec row"
  then obtain e' where e': "event_from_wire fromisoformat kvs = Inr e'" by (auto simp: decodes_def payload)
  then have "event_from_wire fromisoformat (edr_value e) = Inr e'"
    using event_from_wire_cong [OF kvs(2)] by simp
  from reads_back_printable [OF this] have "event_from_wire fromisoformat kvs = Inr e"
    using read_edr [OF safe(1) _ kvs(2)] safe(2) by simp
  then show "decoded python_codec row = e" by (simp add: decoded_def payload)
qed

text \<open>Rows that carry the messages of a job are the job's events of the log.\<close>

lemma carried_events:
  assumes "list_all2 carries (map (\<lambda>(t, e). snd (outbox_entry svc t e)) tes) rows"
    and "\<forall>(t, e) \<in> set tes. wire_safe e" and "\<forall>row \<in> set rows. decodes python_codec row"
  shows "map (decoded python_codec) rows = map snd tes"
  using assms
proof (induction tes arbitrary: rows)
  case (Cons te tes)
  obtain t e where te: "te = (t, e)" by (cases te)
  obtain row rows' where rows: "rows = row # rows'" "carries (snd (outbox_entry svc t e)) row"
    "list_all2 carries (map (\<lambda>(t, e). snd (outbox_entry svc t e)) tes) rows'"
    using Cons.prems(1) te by (auto simp: list_all2_Cons1)
  then show ?case using Cons carried_decodes(1) [OF rows(2)] te by auto
qed simp

lemma job_messages_log:
  "db_outbox db = map (\<lambda>(t, e). outbox_entry svc t e) tes \<Longrightarrow>
   job_messages db i = map (\<lambda>(t, e). snd (outbox_entry svc t e)) (filter (\<lambda>(t, e). ev_job_id e = i) tes)"
  by (simp add: job_messages_def filter_map comp_def case_prod_unfold outbox_entry_def outbox_row_of_def)

lemma log_events_filter: "log_events i tes = map snd (filter (\<lambda>(t, e). ev_job_id e = i) tes)"
  by (simp add: log_events_def filter_map comp_def case_prod_unfold)

lemma end_to_end:
  fixes svc ops sops i
  assumes inj: "inj (sv_uuid svc)" and sops: "list_all (readable python_codec) sops"
  defines "db \<equiv> ss_db (run_scheduler svc ops)" and "edr \<equiv> run_store python_codec sops"
  assumes carried: "list_all2 carries (job_messages db i) (job_rows edr i)" and up: "caught_up edr i"
  obtains r where "dict_get (db_jobs db) i = Some r"
    "mirrors (list_ex is_recovery ops) r (\<lambda>n. dict_get (db_attempts db) (i, n)) (replayed python_codec edr i)"
proof -
  let ?rc = "list_ex is_recovery ops"
  have "list_all (\<lambda>op. ?rc \<or> \<not> is_recovery op) ops" by (auto simp: list_all_iff list_ex_iff)
  then obtain tes where log: "log_inv svc ?rc tes db"
    using run_scheduler_log [OF inj] unfolding db_def by blast
  then have out: "db_outbox db = map (\<lambda>(t, e). outbox_entry svc t e) tes"
    and safe: "\<forall>(t, e) \<in> set tes. wire_safe e" and m: "job_mirrored ?rc db i (log_events i tes)"
    by (simp_all add: log_inv_def)
  have j: "journal_ok python_codec edr"
    using run_store_inv [OF sops] by (simp add: store_inv_def edr_def)
  have "job_events python_codec edr i = log_events i tes"
    unfolding job_events_def log_events_filter
  proof (rule carried_events)
    show "list_all2 carries (map (\<lambda>(t, e). snd (outbox_entry svc t e)) (filter (\<lambda>(t, e). ev_job_id e = i) tes))
        (job_rows edr i)"
      using carried by (simp add: job_messages_log [OF out])
    show "\<forall>(t, e) \<in> set (filter (\<lambda>(t, e). ev_job_id e = i) tes). wire_safe e" using safe by auto
    show "\<forall>row \<in> set (job_rows edr i). decodes python_codec row" using job_rows_decode [OF j] by blast
  qed
  moreover have "job_events python_codec edr i \<noteq> []" using up by (simp add: caught_up_def job_events_def)
  ultimately show thesis
    using m that by (auto simp: job_mirrored_def replayed_def split: option.splits)
qed

section \<open>A journal in the order of the outbox\<close>

lemma run_store_snoc [simp]: "run_store co (ops @ [op]) = store_step co (run_store co ops) op"
  by (simp add: run_store_def)

lemma sink_rows:
  "distinct (map er_event_id rows) \<Longrightarrow>
   pd_events (run_store co (map OpSink rows)) = map (\<lambda>r. (er_event_id r, r)) rows"
proof (induction rows rule: rev_induct)
  case Nil
  show ?case by (simp add: run_store_def empty_edr_db_def)
next
  case (snoc r rows)
  let ?db = "run_store co (map OpSink rows)"
  have ev: "pd_events ?db = map (\<lambda>r. (er_event_id r, r)) rows" using snoc by simp
  have new: "er_event_id r \<notin> set (dict_keys (pd_events ?db))" using snoc.prems by (simp add: ev comp_def)
  then have "dict_get (pd_events ?db) (er_event_id r) = None"
    using pd.get_keys [of "pd_events ?db" "er_event_id r"] by blast
  then show ?case using dict_put_new [OF new, of r] by (simp add: sink_upsert_def ev)
qed

lemma job_rows_in_order:
  assumes "pd_events db = map (\<lambda>r. (er_event_id r, r)) rows" and "sorted_wrt (<) (map er_persisted_at rows)"
  shows "job_rows db i = filter (\<lambda>r. er_job_id r = i) rows"
proof -
  have "dict_values (pd_events db) = rows" by (simp add: assms(1) comp_def)
  moreover have "sorted (map (\<lambda>r. (er_persisted_at r, er_event_id r)) (filter (\<lambda>r. er_job_id r = i) rows))"
    using assms(2) by (induction rows) auto
  ultimately show ?thesis unfolding job_rows_def by (simp add: sort_key_id_if_sorted)
qed

text \<open>
  The broker delivers a message at least once. The journal keeps the first row of each event: a row
  that arrives again changes nothing, whether the trigger lets it pass or refuses it.
\<close>

definition first_rows :: "edr_row list \<Rightarrow> edr_row list" where
  "first_rows rows =
     foldl (\<lambda>kept r. if er_event_id r \<in> set (map er_event_id kept) then kept else kept @ [r]) [] rows"

lemma first_rows_snoc [simp]:
  "first_rows [] = []"
  "first_rows (rows @ [r]) =
     (if er_event_id r \<in> set (map er_event_id (first_rows rows)) then first_rows rows else first_rows rows @ [r])"
  by (simp_all add: first_rows_def)

lemma first_rows_distinct: "distinct (map er_event_id (first_rows rows))"
  by (induction rows rule: rev_induct) simp_all

lemma sink_first_rows: "run_store co (map OpSink rows) = run_store co (map OpSink (first_rows rows))"
proof (induction rows rule: rev_induct)
  case (snoc r rows)
  let ?db = "run_store co (map OpSink (first_rows rows))"
  have "store_step co ?db (OpSink r) = ?db" if "er_event_id r \<in> set (map er_event_id (first_rows rows))"
  proof -
    have "er_event_id r \<in> set (dict_keys (pd_events ?db))"
      using that by (simp add: sink_rows [OF first_rows_distinct] comp_def)
    then obtain old where "dict_get (pd_events ?db) (er_event_id r) = Some old" unfolding pd.keys_get by blast
    then show ?thesis by (simp add: sink_upsert_def)
  qed
  then show ?case using snoc by (simp del: store_step.simps)
qed simp

text \<open>One fault-free round over such a journal catches every job up and keeps the journal.\<close>

abbreviation sink_and_project :: "edr_row list \<Rightarrow> int \<Rightarrow> store_op list" where
  "sink_and_project rows batch_size \<equiv>
     map OpSink rows @ [OpProject (\<lambda>c r. None) (\<lambda>ids. None) {} batch_size]"

lemma round_over_journal:
  assumes "list_all (decodes co) rows" and "distinct (map er_event_id rows)"
    and "sorted_wrt (<) (map er_persisted_at rows)" and "length rows \<le> nat batch_size"
  defines "edr \<equiv> run_store co (sink_and_project rows batch_size)"
  shows "job_rows edr i = filter (\<lambda>r. er_job_id r = i) rows"
    and "r \<in> set rows \<Longrightarrow> caught_up edr (er_job_id r)"
proof -
  let ?db = "run_store co (map OpSink rows)"
  have ops: "list_all (readable co) (map OpSink rows)" using assms(1) by (simp add: readable_def list_all_iff)
  have ev: "pd_events ?db = map (\<lambda>r. (er_event_id r, r)) rows" by (rule sink_rows [OF assms(2)])
  then have vals: "dict_values (pd_events ?db) = rows" by (simp add: comp_def)
  have edr: "edr = fst (projection_run_once co (\<lambda>c r. None) (\<lambda>ids. None) {} batch_size ?db)"
    by (simp add: edr_def)
  have "length (pd_events ?db) \<le> nat batch_size" using assms(4) ev by simp
  from projection_catches_up [OF ops this] show "r \<in> set rows \<Longrightarrow> caught_up edr (er_job_id r)"
    unfolding Let_def vals edr by auto
  have inv: "store_inv co ?db" by (rule run_store_inv [OF ops])
  then have "journal_ok co ?db" by (simp add: store_inv_def)
  note pending = pending_rows [OF this, where locked = "{}" and limit = batch_size]
  obtain db' where db': "project_pending co (\<lambda>c r. None) (pending_events {} batch_size ?db) ?db = Inr db'"
    using project_pending_total [OF inv pending] by blast
  then have "edr = db'" by (simp add: edr projection_run_once_def)
  then have "pd_events edr = map (\<lambda>r. (er_event_id r, r)) rows"
    using project_pending_inv [OF inv pending db'] ev by simp
  then show "job_rows edr i = filter (\<lambda>r. er_job_id r = i) rows" using assms(3) by (rule job_rows_in_order)
qed

text \<open>Rows that carry the whole outbox have its ids, and a job's rows carry its messages.\<close>

lemma carried_columns:
  assumes "carries (snd (outbox_entry svc t e)) row"
  shows "er_event_id row = ev_event_id e" "er_job_id row = ev_job_id e"
  using carried_payload [OF assms] by blast+

lemma carried_outbox:
  assumes "list_all2 carries (map (\<lambda>(t, e). snd (outbox_entry svc t e)) tes) rows"
  shows "map er_event_id rows = map (\<lambda>(t, e). ev_event_id e) tes"
    and "list_all2 carries (map (\<lambda>(t, e). snd (outbox_entry svc t e)) (filter (\<lambda>(t, e). ev_job_id e = i) tes))
      (filter (\<lambda>r. er_job_id r = i) rows)"
proof -
  show "map er_event_id rows = map (\<lambda>(t, e). ev_event_id e) tes"
    using assms by (induction tes arbitrary: rows) (auto simp: list_all2_Cons1 carried_columns)
  show "list_all2 carries (map (\<lambda>(t, e). snd (outbox_entry svc t e)) (filter (\<lambda>(t, e). ev_job_id e = i) tes))
      (filter (\<lambda>r. er_job_id r = i) rows)"
    using assms by (induction tes arbitrary: rows) (auto simp: list_all2_Cons1 carried_columns)
qed

lemma everything_arrives:
  fixes svc ops rows batch_size
  defines "db \<equiv> ss_db (run_scheduler svc ops)"
  assumes inj: "inj (sv_uuid svc)" and carried: "list_all2 carries (map snd (db_outbox db)) rows"
    and dec: "list_all (decodes python_codec) rows" and order: "sorted_wrt (<) (map er_persisted_at rows)"
    and len: "length rows \<le> nat batch_size"
  defines "edr \<equiv> run_store python_codec (sink_and_project rows batch_size)"
  assumes r: "dict_get (db_jobs db) i = Some r"
  shows "list_all2 carries (job_messages db i) (job_rows edr i)" and "caught_up edr i"
proof -
  let ?rc = "list_ex is_recovery ops"
  have "list_all (\<lambda>op. ?rc \<or> \<not> is_recovery op) ops" by (auto simp: list_all_iff list_ex_iff)
  then obtain tes where log: "log_inv svc ?rc tes db"
    using run_scheduler_log [OF inj] unfolding db_def by blast
  then have out: "db_outbox db = map (\<lambda>(t, e). outbox_entry svc t e) tes"
    and m: "job_mirrored ?rc db i (log_events i tes)"
    by (simp_all add: log_inv_def)
  have all: "list_all2 carries (map (\<lambda>(t, e). snd (outbox_entry svc t e)) tes) rows"
    using carried by (simp add: out comp_def case_prod_unfold)
  have "wf_dict (db_outbox db)"
    using run_scheduler_inv [OF inj, of ops] unfolding db_def by (simp add: sys_inv_def db_inv_def outbox_inv_def)
  then have "distinct (map er_event_id rows)"
    unfolding carried_outbox(1) [OF all]
    by (simp add: wf_dict_def out comp_def case_prod_unfold outbox_entry_def)
  note round = round_over_journal [OF dec this order len, folded edr_def]
  show "list_all2 carries (job_messages db i) (job_rows edr i)"
    unfolding round(1) job_messages_log [OF out] by (rule carried_outbox(2) [OF all])
  then have "length (job_rows edr i) = length (log_events i tes)"
    by (simp add: job_messages_log [OF out] log_events_filter list_all2_lengthD [symmetric])
  moreover have "log_events i tes \<noteq> []"
  proof
    assume "log_events i tes = []"
    then have "jv_recorded_status (new_job i) \<in> set (shown_as r)"
      using m r by (simp add: job_mirrored_def mirrors_def status_mirrors_def)
    then show False by (simp add: new_job_def shown_as_def split: if_splits)
  qed
  ultimately obtain q where "q \<in> set (job_rows edr i)" by (cases "job_rows edr i") auto
  then have "q \<in> set rows" "er_job_id q = i" unfolding round(1) by simp_all
  then show "caught_up edr i" using round(2) by blast
qed

section \<open>An example\<close>

definition example_run :: "sched_op list" where
  "example_run = [OpSubmit (\<lambda>c. None) 0 example_submission]"

definition example_events :: "event list" where
  "example_events = stamp_from example_service 0
     [submission_event example_submission 0 JOB_CREATED,
      submission_event example_submission 0 JOB_SCHEDULER_SUBMISSION_REQUESTED]"

definition sunk_row :: "service \<Rightarrow> event \<Rightarrow> time \<Rightarrow> edr_row" where
  "sunk_row svc e t =
     \<lparr>er_event_id = ev_event_id e, er_job_id = ev_job_id e, er_payload = JObj (edr_value e),
      er_payload_hash = snd (canonical_edr (sv_sha256 svc) e), er_persisted_at = t\<rparr>"

lemma sunk_row_carries: "carries (snd (outbox_entry svc t e)) (sunk_row svc e u)"
proof -
  let ?h = "snd (canonical_edr (sv_sha256 svc) e)"
  obtain wire where wire: "json_loads (fst (canonical_edr (sv_sha256 svc) e)) = Inr (JObj wire)"
    "map_of wire = map_of (wire_value ?h e)"
    using loads_flat [OF wire_value_sorted] unfolding wire_text by blast
  have "json_loads (json_dumps (JObj (edr_value e))) = Inr (JObj (sort_key fst (edr_value e)))"
    using json_loads_dumps [OF edr_value_sorted(2)] edr_value_sorted(1) by simp
  moreover have "map_of (wire_value ?h e) ''eventId'' = Some (JStr (ev_event_id e))"
    "map_of (wire_value ?h e) ''jobId'' = Some (JStr (ev_job_id e))"
    using wire_value_fields(3) [of _ e ?h] wire_fields by (simp_all add: edr_value_def)
  ultimately show ?thesis
    using wire
    by (simp add: carries_def outbox_entry_def outbox_row_of_def sunk_row_def wire_value_fields(1,2)
        del: json_dumps.simps)
qed

definition example_rows :: "edr_row list" where
  "example_rows = [sunk_row example_service (example_events ! 0) 1, sunk_row example_service (example_events ! 1) 2]"

lemma example_run_stored:
  "db_outbox (ss_db (run_scheduler example_service example_run)) =
     map (outbox_entry example_service 0) example_events"
  "dict_get (db_jobs (ss_db (run_scheduler example_service example_run))) ''job-1'' =
     Some (new_job_row example_submission 0)"
proof -
  have v: "submission_post_init example_submission = Inr example_submission"
    by (simp add: submission_post_init_def example_submission_def)
  then have valid: "valid_submission example_submission" by (simp add: valid_submission_def)
  then obtain db1 where sub: "submit_checked example_service (\<lambda>c. None) 0 example_submission empty_db =
      (db1, Inr SD_CREATED)" and jobs1: "db_jobs db1 = [(''job-1'', new_job_row example_submission 0)]"
    using submit_commits [OF example_uuids db_inv_empty, of example_submission 0]
    by (auto simp: empty_db_def example_submission_def)
  then have run: "ss_db (run_scheduler example_service example_run) = db1"
    using v by (simp add: run_scheduler_def example_run_def initial_system_def)
  have "db1 \<noteq> empty_db" using jobs1 by (auto simp: empty_db_def)
  then obtain db0 where w: "write_job (new_job_row example_submission 0) empty_db = Inr db0"
    and e: "add_events example_service 0 [submission_event example_submission 0 JOB_CREATED,
        submission_event example_submission 0 JOB_SCHEDULER_SUBMISSION_REQUESTED] db0 = Inr db1"
    using submit_effect [of example_service "\<lambda>c. None" 0 example_submission empty_db] sub by auto
  have "db_outbox db0 = []" "db_uuids db0 = 0" using w by (auto simp: write_job_Inr empty_db_def)
  then show "db_outbox (ss_db (run_scheduler example_service example_run)) =
      map (outbox_entry example_service 0) example_events"
    unfolding run using add_events_outbox [OF e] by (simp add: example_events_def)
  show "dict_get (db_jobs (ss_db (run_scheduler example_service example_run))) ''job-1'' =
      Some (new_job_row example_submission 0)"
    unfolding run by (simp add: jobs1)
qed

lemma example_rows_arrive:
  "list_all2 carries (map snd (db_outbox (ss_db (run_scheduler example_service example_run)))) example_rows"
  "list_all (decodes python_codec) example_rows" "sorted_wrt (<) (map er_persisted_at example_rows)"
proof -
  have ev: "example_events = [example_events ! 0, example_events ! 1]" by (simp add: example_events_def)
  show "list_all2 carries (map snd (db_outbox (ss_db (run_scheduler example_service example_run)))) example_rows"
    unfolding example_run_stored(1) by (subst ev) (simp add: example_rows_def sunk_row_carries)
  show "sorted_wrt (<) (map er_persisted_at example_rows)" by (simp add: example_rows_def sunk_row_def)
  have "decodes python_codec (sunk_row example_service e u)" if "e \<in> set example_events" for e u
  proof (rule carried_decodes(2) [OF sunk_row_carries])
    show "wire_safe e" "\<And>t. t \<in> event_times e \<Longrightarrow> printable_time t"
      using that
      by (auto simp: example_events_def example_submission_def submission_event_def stamped_def new_event_def
          wire_safe_def valid_event_def on_the_wire_def str_or_def event_times_def printable_time_def)
  qed
  moreover have "length example_events = 2" by (simp add: example_events_def)
  ultimately show "list_all (decodes python_codec) example_rows" by (simp add: example_rows_def)
qed

lemma every_job_served:
  assumes "inj (sv_uuid svc)"
    and "list_all2 carries (map snd (db_outbox (ss_db (run_scheduler svc ops)))) rows"
    and "list_all (decodes python_codec) rows" and "sorted_wrt (<) (map er_persisted_at rows)"
    and "length rows \<le> nat batch_size"
  shows "let db = ss_db (run_scheduler svc ops);
      edr = run_store python_codec (sink_and_project rows batch_size) in
    \<forall>i r. dict_get (db_jobs db) i = Some r \<longrightarrow>
      (\<exists>job as_of. mirrors (list_ex is_recovery ops) r (\<lambda>n. dict_get (db_attempts db) (i, n)) job \<and>
         reader_get no_faults edr i = Inr (response default_config job as_of))"
proof -
  have readable: "list_all (readable python_codec) (sink_and_project rows batch_size)"
    using assms(3) by (simp add: readable_def list_all_iff)
  have "\<exists>job as_of. mirrors (list_ex is_recovery ops) r
        (\<lambda>n. dict_get (db_attempts (ss_db (run_scheduler svc ops))) (i, n)) job \<and>
      reader_get no_faults (run_store python_codec (sink_and_project rows batch_size)) i =
        Inr (response default_config job as_of)"
    if r: "dict_get (db_jobs (ss_db (run_scheduler svc ops))) i = Some r" for i r
  proof -
    note arrives = everything_arrives [OF assms r]
    show ?thesis
      by (rule end_to_end [OF assms(1) readable arrives], rule caught_up_reads [OF readable arrives(2)])
        (use r in auto)
  qed
  then show ?thesis unfolding Let_def by blast
qed

section \<open>Properties\<close>

text \<open>
  C1. The reads mirror the scheduler, end to end. After any scheduler operations and any sink writes,
  projection rounds and rebuilds: when the journal holds a job's messages in the order of the outbox
  and all of them are projected, the durable read of the job answers the response of a job that mirrors
  the row and the attempts of the scheduler, as of its newest evidence, and the read of its attempts
  answers those attempts in ascending order.
\<close>

theorem reads_mirror_the_scheduler:
  assumes "inj (sv_uuid svc)" and "list_all (readable python_codec) sops"
    and "list_all2 carries (job_messages (ss_db (run_scheduler svc ops)) i)
      (job_rows (run_store python_codec sops) i)"
    and "caught_up (run_store python_codec sops) i"
  shows "let db = ss_db (run_scheduler svc ops); edr = run_store python_codec sops in
    \<exists>r job as_of. dict_get (db_jobs db) i = Some r \<and>
      mirrors (list_ex is_recovery ops) r (\<lambda>n. dict_get (db_attempts db) (i, n)) job \<and>
      jv_data_as_of job = Some as_of \<and>
      reader_get no_faults edr i = Inr (response default_config job as_of) \<and>
      reader_attempts no_faults edr i =
        Inr (map (\<lambda>n. attempt_to_dict (the (dict_get (jv_attempts job) n))) (sort (dict_keys (jv_attempts job))))"
proof -
  obtain r where r: "dict_get (db_jobs (ss_db (run_scheduler svc ops))) i = Some r"
    "mirrors (list_ex is_recovery ops) r (\<lambda>n. dict_get (db_attempts (ss_db (run_scheduler svc ops))) (i, n))
       (replayed python_codec (run_store python_codec sops) i)"
    by (rule end_to_end [OF assms])
  show ?thesis
    by (rule caught_up_reads [OF assms(2,4)]) (use r in \<open>auto simp: Let_def\<close>)
qed

theorem reads_mirror_the_scheduler_witness:
  "\<exists>job as_of. mirrors False (new_job_row example_submission 0) (\<lambda>n. None) job \<and>
     reader_get no_faults (run_store python_codec (sink_and_project example_rows 500)) ''job-1'' =
       Inr (response default_config job as_of)"
proof -
  let ?db = "ss_db (run_scheduler example_service example_run)"
  have len: "length example_rows \<le> nat 500" by (simp add: example_rows_def)
  note arrives = everything_arrives [OF example_uuids example_rows_arrive len example_run_stored(2)]
  have "list_all (readable python_codec) (sink_and_project example_rows 500)"
    using example_rows_arrive(2) by (simp add: readable_def list_all_iff)
  from reads_mirror_the_scheduler [OF example_uuids this arrives] obtain job as_of where
    m: "mirrors (list_ex is_recovery example_run) (new_job_row example_submission 0)
      (\<lambda>n. dict_get (db_attempts ?db) (''job-1'', n)) job" and
    g: "reader_get no_faults (run_store python_codec (sink_and_project example_rows 500)) ''job-1'' =
       Inr (response default_config job as_of)"
    unfolding Let_def example_run_stored(2) by blast
  have "attempts_inv {} ?db"
    using run_scheduler_inv [OF example_uuids, of example_run] by (simp add: sys_inv_def db_inv_def)
  then have "dict_get (db_attempts ?db) (''job-1'', n) \<noteq> None \<longleftrightarrow> False" for n
    using example_run_stored(2) by (simp add: attempts_inv_def new_job_row_def)
  then show ?thesis using m g by (auto simp: example_run_def)
qed

text \<open>
  C2. Every submitted job becomes visible. Let a sink write the whole outbox in order, each message at
  least once, with the first row of each read back, and let one fault-free projection round with a batch
  of that size follow: then every job of the scheduler, whatever operations led to it, is answered by the
  durable reads with a response that mirrors its row and attempts.
\<close>

theorem submitted_jobs_become_visible:
  assumes "inj (sv_uuid svc)"
    and "list_all2 carries (map snd (db_outbox (ss_db (run_scheduler svc ops)))) (first_rows rows)"
    and "list_all (decodes python_codec) (first_rows rows)"
    and "sorted_wrt (<) (map er_persisted_at (first_rows rows))"
    and "length (first_rows rows) \<le> nat batch_size"
  shows "let db = ss_db (run_scheduler svc ops);
      edr = run_store python_codec (sink_and_project rows batch_size) in
    \<forall>i r. dict_get (db_jobs db) i = Some r \<longrightarrow>
      (\<exists>job as_of. mirrors (list_ex is_recovery ops) r (\<lambda>n. dict_get (db_attempts db) (i, n)) job \<and>
         reader_get no_faults edr i = Inr (response default_config job as_of))"
proof -
  have "run_store python_codec (sink_and_project rows batch_size) =
      run_store python_codec (sink_and_project (first_rows rows) batch_size)"
    by (simp add: sink_first_rows [of _ rows] del: store_step.simps)
  then show ?thesis using every_job_served [OF assms] by simp
qed

theorem submitted_jobs_become_visible_witness:
  "\<exists>v. reader_get no_faults
       (run_store python_codec (sink_and_project (hd example_rows # example_rows @ example_rows) 500)) ''job-1'' = Inr v \<and>
     jfield v ''correlationId'' = Some (JStr ''corr-1'')"
proof -
  let ?rows = "hd example_rows # example_rows @ example_rows"
  have "ev_event_id (example_events ! 0) \<noteq> ev_event_id (example_events ! 1)"
    by (simp add: example_events_def stamped_def inj_eq [OF example_uuids])
  then have first: "first_rows ?rows = example_rows"
    by (simp add: first_rows_def example_rows_def sunk_row_def)
  have arrive: "list_all2 carries (map snd (db_outbox (ss_db (run_scheduler example_service example_run)))) (first_rows ?rows)"
    "list_all (decodes python_codec) (first_rows ?rows)" "sorted_wrt (<) (map er_persisted_at (first_rows ?rows))"
    unfolding first by (rule example_rows_arrive)+
  have len: "length (first_rows ?rows) \<le> nat 500" unfolding first by (simp add: example_rows_def)
  obtain job as_of where m: "mirrors (list_ex is_recovery example_run) (new_job_row example_submission 0)
      (\<lambda>n. dict_get (db_attempts (ss_db (run_scheduler example_service example_run))) (''job-1'', n)) job"
    and g: "reader_get no_faults (run_store python_codec (sink_and_project ?rows 500)) ''job-1'' =
       Inr (response default_config job as_of)"
    using submitted_jobs_become_visible [OF example_uuids arrive len] example_run_stored(2)
    unfolding Let_def by blast
  have "jv_correlation_id job = ''corr-1''"
    using m by (simp add: mirrors_def body_mirrors_def data_mirrors_def new_job_row_def example_submission_def)
  then show ?thesis using g by (simp add: response_def Let_def)
qed

end
