(* ===== verification/Delivery_Order.thy ===== *)
theory Delivery_Order
  imports Scheduler_Visibility
begin

text \<open>
  What the order of a job's messages means to its readers. One transaction of the scheduler may write
  two EDRs, and a publication that fails leaves the first for a later round while the second goes out;
  the theorem shows what the readers see of a job whose last attempt failed retryably.
\<close>

section \<open>A failed publication\<close>

text \<open>A round that fails to send one record goes on with the next one.\<close>

lemma failed_send_goes_on:
  assumes "se_before_send (env n) = None" "se_broker (env n) rec = Inl err" "\<And>st. se_meanwhile (env n) st = st"
    and "se_before_send (env (Suc n)) = None" "se_broker (env (Suc n)) rec' = Inr coordinate"
    and "se_after_ack (env (Suc n)) = None" "se_after_broker_ack (env (Suc n)) = None"
      "\<And>st. se_meanwhile (env (Suc n)) st = st"
    and "\<not> (pb_float p \<and> 1024 \<le> or_attempts rec)"
  shows "\<exists>db'. publish_all p env n [rec, rec'] (db, sent) = ((db', sent @ [(rec', coordinate)]), Inr ())"
  using assms
  by (simp add: publish_record_def send_def failed_def backoff_ceiling_def Let_def)

section \<open>The two orders\<close>

lemma in_order:
  assumes "\<not> is_semantic_duplicate job f" "ev_event_type f = JOB_EXECUTION_FAILED" "ev_event_type x = JOB_RETRIES_EXHAUSTED"
    and "attempt_key f = k" "dict_get (jv_attempts job) k = Some a" "at_status a \<noteq> AT_SUCCEEDED" "at_status a \<noteq> AT_FAILED"
    and "jv_recorded_status job = AWAITING_EXECUTION \<or> jv_recorded_status job = RUNNING"
    and "jv_findings job = []" "\<not> gap_before job f"
  shows "jv_recorded_status (replay job [f, x]) = RETRIES_EXHAUSTED"
    and "\<exists>b. dict_get (jv_attempts (replay job [f, x])) k = Some b \<and> at_status b = AT_FAILED \<and>
      at_completed_at b \<noteq> None"
    and "jv_findings (replay job [f, x]) = []"
proof -
  have at: "attempt_at job f = a" using assms(4,5) by (simp add: attempt_at_def)
  have ok: "accepted job f" using assms(2,6,7,8) by (auto simp: accepted_def attempt_permits_def at)
  note first = advance_table [OF assms(1)]
  have s: "jv_recorded_status (advance job f) \<in> {RETRY_PENDING, FAILED}" using ok assms(2) first(1) by auto
  have new: "\<not> is_semantic_duplicate (advance job f) x" using assms(3) by (simp add: is_semantic_duplicate_iff)
  have ok': "accepted (advance job f) x" using assms(3) s by (auto simp: accepted_def attempt_permits_def)
  note second = advance_table [OF new]
  show "jv_recorded_status (replay job [f, x]) = RETRIES_EXHAUSTED" using second(1) ok' assms(3) by simp
  show "\<exists>b. dict_get (jv_attempts (replay job [f, x])) k = Some b \<and> at_status b = AT_FAILED \<and> at_completed_at b \<noteq> None"
    using first(2) second(2) assms(2,3,4) ok
    by (auto simp: attempt_events_def attempt_after_def at dict_rules latest_def Let_def split: option.splits)
  show "jv_findings (replay job [f, x]) = []"
    using first(3) second(3) assms(2,3,9,10) ok
    by (simp add: findings_after_def conflict_findings_def gap_findings_def)
qed

lemma out_of_order:
  assumes "at_status a \<noteq> AT_FAILED" "ev_event_type f = JOB_EXECUTION_FAILED" "ev_event_type x = JOB_RETRIES_EXHAUSTED"
    and "attempt_key f = k" "dict_get (jv_attempts job) k = Some a"
    and "jv_recorded_status job = AWAITING_EXECUTION \<or> jv_recorded_status job = RUNNING"
  shows "jv_recorded_status (replay job [x, f]) = RETRIES_EXHAUSTED"
    and "dict_get (jv_attempts (replay job [x, f])) k = Some a"
    and "\<exists>fi. dict_get (jv_findings (replay job [x, f])) ''CONFLICTING_TERMINAL_OUTCOME'' = Some fi \<and> fi_active fi"
proof -
  have new: "\<not> is_semantic_duplicate job x" using assms(3) by (simp add: is_semantic_duplicate_iff)
  have ok: "accepted job x" using assms(3,6) by (auto simp: accepted_def attempt_permits_def)
  note first = advance_table [OF new]
  have s: "jv_recorded_status (advance job x) = RETRIES_EXHAUSTED" using first(1) ok assms(3) by simp
  have at: "attempt_at (advance job x) f = a"
    using first(2) assms(3,4,5) by (simp add: attempt_at_def attempt_events_def)
  have no: "\<not> accepted (advance job x) f" using s assms(2) by (simp add: accepted_def)
  have "\<not> is_semantic_duplicate (advance job x) f" using assms(1,2) by (simp add: is_semantic_duplicate_iff at)
  note second = advance_table [OF this]
  show "jv_recorded_status (replay job [x, f]) = RETRIES_EXHAUSTED" using second(1) no s by simp
  show "dict_get (jv_attempts (replay job [x, f])) k = Some a"
    using second(2) assms(2,4) at no by (simp add: attempt_events_def attempt_after_def dict_rules)
  show "\<exists>fi. dict_get (jv_findings (replay job [x, f])) ''CONFLICTING_TERMINAL_OUTCOME'' = Some fi \<and> fi_active fi"
    using second(3) assms(2) no
    by (simp add: findings_after_def conflict_findings_def dict_rules raised_def split: option.split)
qed

section \<open>Properties\<close>



end
