(* ===== verification/Repository.thy ===== *)
theory Repository
  imports Engine_Journal Reducer_Table
begin

text \<open>
  The projection repository: the class \<open>InMemoryVisibilityRepository\<close> of \<open>persistence/memory.py\<close>, and the
  contract of the protocol \<open>VisibilityRepository\<close> of \<open>persistence/contracts.py\<close> as a locale. A writer
  that reads a job, reduces an event and saves the result with the version it read is the client of the
  contract. Jobs are values here, as the copies that \<open>get\<close> and \<open>save\<close> make keep them apart.
\<close>

section \<open>The in-memory repository\<close>

type_synonym repository = "(string, job_visibility) dict"

definition new_repository :: repository where
  "new_repository = []"

definition repository_get :: "repository \<Rightarrow> string \<Rightarrow> bool \<Rightarrow> job_visibility option" where
  "repository_get repo job_id for_update = dict_get repo job_id"

definition require :: "repository \<Rightarrow> string \<Rightarrow> job_visibility result" where
  "require repo job_id =
     (case repository_get repo job_id False of
        None \<Rightarrow> Inl (JobNotFoundError job_id)
      | Some job \<Rightarrow> Inr job)"

definition save :: "repository \<Rightarrow> job_visibility \<Rightarrow> int option \<Rightarrow> repository result" where
  "save repo job expected_version =
     (let current = dict_get repo (jv_job_id job);
          actual = (case current of None \<Rightarrow> 0 | Some job \<Rightarrow> jv_version job)
      in if expected_version \<noteq> None \<and> actual \<noteq> the expected_version
         then Inl (VersionConflictError (jv_job_id job) (the expected_version) actual)
         else Inr (dict_put (jv_job_id job) job repo))"

definition repository_ids :: "repository \<Rightarrow> string list" where
  "repository_ids repo = sort (dict_keys repo)"

section \<open>The contract\<close>

definition stored_version :: "job_visibility option \<Rightarrow> int" where
  "stored_version current = (case current of None \<Rightarrow> 0 | Some job \<Rightarrow> jv_version job)"

text \<open>The writer: read, reduce, and save with the version that was read.\<close>

definition record_event ::
  "('s \<Rightarrow> string \<Rightarrow> bool \<Rightarrow> job_visibility option) \<Rightarrow> ('s \<Rightarrow> job_visibility \<Rightarrow> int option \<Rightarrow> 's result) \<Rightarrow>
   event \<Rightarrow> 's \<Rightarrow> 's result" where
  "record_event read_job save_job e s =
     (let current = read_job s (ev_job_id e) True
      in bind_result (reduce_visibility current e) (\<lambda>(job, decision).
           save_job s job (Some (stored_version current))))"

primrec record_events ::
  "('s \<Rightarrow> string \<Rightarrow> bool \<Rightarrow> job_visibility option) \<Rightarrow> ('s \<Rightarrow> job_visibility \<Rightarrow> int option \<Rightarrow> 's result) \<Rightarrow>
   event list \<Rightarrow> 's \<Rightarrow> 's result" where
  "record_events read_job save_job [] s = Inr s"
| "record_events read_job save_job (e # es) s =
     bind_result (record_event read_job save_job e s) (record_events read_job save_job es)"

locale visibility_repository =
  fixes read_job :: "'s \<Rightarrow> string \<Rightarrow> bool \<Rightarrow> job_visibility option"
    and save_job :: "'s \<Rightarrow> job_visibility \<Rightarrow> int option \<Rightarrow> 's result"
    and all_ids :: "'s \<Rightarrow> string list"
    and ok :: "'s \<Rightarrow> bool"
  assumes save_stale: "stored_version (read_job s (jv_job_id job) b) \<noteq> v \<Longrightarrow>
      save_job s job (Some v) = Inl (VersionConflictError (jv_job_id job) v (stored_version (read_job s (jv_job_id job) b)))"
    and save_current: "expected = None \<or> expected = Some (stored_version (read_job s (jv_job_id job) b)) \<Longrightarrow>
      \<exists>s'. save_job s job expected = Inr s'"
    and read_save: "save_job s job expected = Inr s' \<Longrightarrow>
      read_job s' i b = (if i = jv_job_id job then Some job else read_job s i b)"
    and ok_save: "ok s \<Longrightarrow> save_job s job expected = Inr s' \<Longrightarrow> ok s'"
    and ids_read: "ok s \<Longrightarrow> sorted (all_ids s) \<and> distinct (all_ids s) \<and>
      set (all_ids s) = {i. read_job s i b \<noteq> None}"
begin

text \<open>A writer that nobody disturbs stores the reduction.\<close>

lemma record_event_stores:
  assumes "\<And>job. read_job s (ev_job_id e) True = Some job \<Longrightarrow> jv_job_id job = ev_job_id e"
  shows "\<exists>s'. record_event read_job save_job e s = Inr s' \<and>
    (\<forall>i b. read_job s' i b =
       (if i = ev_job_id e
        then Some (advance (case read_job s i True of None \<Rightarrow> new_job i | Some job \<Rightarrow> job) e)
        else read_job s i b))"
proof -
  let ?cur = "read_job s (ev_job_id e) True"
  let ?job = "case ?cur of None \<Rightarrow> new_job (ev_job_id e) | Some job \<Rightarrow> job"
  have id: "jv_job_id ?job = ev_job_id e" using assms by (simp add: new_job_def split: option.split)
  then have id': "jv_job_id (advance ?job e) = ev_job_id e" by (simp add: reduce_bookkeeping)
  obtain s' where s': "save_job s (advance ?job e) (Some (stored_version ?cur)) = Inr s'"
    using save_current [of "Some (stored_version ?cur)" s "advance ?job e" True] unfolding id' by blast
  have "record_event read_job save_job e s = Inr s'"
    using id s' by (simp add: record_event_def reduce_visibility_def Let_def split_beta)
  then show ?thesis using read_save [OF s'] by (auto simp: id')
qed

text \<open>A save with the version from before another writer's effective event is refused.\<close>

lemma stale_save_refused:
  assumes "\<And>job. read_job s (ev_job_id e) True = Some job \<Longrightarrow> jv_job_id job = ev_job_id e"
    and "record_event read_job save_job e s = Inr s'"
    and "de_decision (decision_of (case read_job s (ev_job_id e) True of
           None \<Rightarrow> new_job (ev_job_id e) | Some job \<Rightarrow> job) e) = ''APPLIED''"
    and "jv_job_id job = ev_job_id e"
  shows "save_job s' job (Some (stored_version (read_job s (ev_job_id e) True))) =
    Inl (VersionConflictError (ev_job_id e) (stored_version (read_job s (ev_job_id e) True))
      (stored_version (read_job s (ev_job_id e) True) + 1))"
proof -
  let ?cur = "read_job s (ev_job_id e) True"
  let ?job = "case ?cur of None \<Rightarrow> new_job (ev_job_id e) | Some job \<Rightarrow> job"
  have "read_job s' (ev_job_id e) True = Some (advance ?job e)"
    using record_event_stores [of s e] assms(1,2) by auto
  moreover have "jv_version ?job = stored_version ?cur"
    by (simp add: stored_version_def new_job_def split: option.split)
  ultimately have new: "stored_version (read_job s' (jv_job_id job) True) = stored_version ?cur + 1"
    using assms(3,4) by (simp add: stored_version_def [of "Some x" for x] reduce_bookkeeping)
  then have "stored_version (read_job s' (jv_job_id job) True) \<noteq> stored_version ?cur" by simp
  from save_stale [OF this] show ?thesis by (simp only: new assms(4) flip: new [unfolded assms(4)])
qed

text \<open>The engine and the writers over a repository stay in step.\<close>

lemma in_step_with_engine:
  "journalled en \<Longrightarrow> (\<And>i b. dict_get (en_jobs en) i = read_job s i b) \<Longrightarrow>
   distinct (map ev_event_id es) \<Longrightarrow> (\<And>e. e \<in> set es \<Longrightarrow> ev_event_id e \<notin> en_event_ids en) \<Longrightarrow> ok s \<Longrightarrow>
   \<exists>s'. record_events read_job save_job es s = Inr s' \<and> ok s' \<and>
     (\<forall>i b. dict_get (en_jobs (run_engine en (map (\<lambda>e. Deliver e None) es))) i = read_job s' i b)"
proof (induction es arbitrary: en s)
  case Nil
  then show ?case by (simp add: run_engine_def)
next
  case (Cons e es)
  let ?en = "fst (engine_apply en e None)"
  have id: "jv_job_id (current_job en (ev_job_id e)) = ev_job_id e"
    by (rule journalled_job_id [OF Cons.prems(1)])
  have run: "?en = en\<lparr>en_event_ids := insert (ev_event_id e) (en_event_ids en),
        en_events := en_events en @ [e],
        en_jobs := dict_put (ev_job_id e) (advance (current_job en (ev_job_id e)) e) (en_jobs en)\<rparr>"
    using Cons.prems(4) id by (simp add: engine_apply_fresh conflicts_def)
  have "jv_job_id job = ev_job_id e" if "read_job s (ev_job_id e) True = Some job" for job
    using that id Cons.prems(2) by (simp add: current_job_def)
  from record_event_stores [OF this] obtain s1 where
    s1: "record_event read_job save_job e s = Inr s1"
    "\<And>i b. read_job s1 i b =
       (if i = ev_job_id e
        then Some (advance (case read_job s i True of None \<Rightarrow> new_job i | Some job \<Rightarrow> job) e)
        else read_job s i b)"
    by blast
  have "ok s1"
    using s1(1) Cons.prems(5) ok_save
    by (auto simp: record_event_def Let_def bind_result_Inr_iff split: prod.splits)
  moreover have "journalled ?en" using journalled_apply [OF Cons.prems(1)] by simp
  moreover have "dict_get (en_jobs ?en) i = read_job s1 i b" for i b
    unfolding run s1(2) current_job_def using Cons.prems(2) [of i True] Cons.prems(2) [of i b]
    by (auto simp: dict_rules)
  moreover have "ev_event_id f \<notin> en_event_ids ?en" if "f \<in> set es" for f
    unfolding run using that Cons.prems(3,4) by (auto simp: image_iff)
  ultimately obtain s' where "record_events read_job save_job es s1 = Inr s'" "ok s'"
    "\<forall>i b. dict_get (en_jobs (run_engine ?en (map (\<lambda>e. Deliver e None) es))) i = read_job s' i b"
    using Cons.IH [of ?en s1] Cons.prems(3) by auto
  then show ?case using s1(1) by (auto simp: run_engine_def)
qed

lemma same_ids:
  assumes "journalled en" and "ok s" and "\<And>i b. dict_get (en_jobs en) i = read_job s i b"
  shows "all_ids s = job_ids en"
proof (rule sorted_distinct_set_unique)
  have "wf_dict (en_jobs en)" using assms(1) by (simp add: journalled_def)
  then show "distinct (job_ids en)" by (simp add: job_ids_def wf_dict_def)
  show "set (all_ids s) = set (job_ids en)"
    using ids_read [OF assms(2), of True] pd.get_keys [of "en_jobs en"] assms(3)
    by (auto simp del: set_map simp: job_ids_def)
qed (use ids_read [OF assms(2), of True] in \<open>simp_all add: job_ids_def\<close>)

end

interpretation memory: visibility_repository repository_get save repository_ids wf_dict
proof
  show "sorted (repository_ids s) \<and> distinct (repository_ids s) \<and>
      set (repository_ids s) = {i. repository_get s i b \<noteq> None}" if "wf_dict s" for s b
    using that pd.get_keys [of s]
    by (auto simp del: set_map simp: repository_ids_def repository_get_def wf_dict_def)
qed (auto simp: save_def repository_get_def stored_version_def Let_def dict_rules wf_dict_put
    split: option.splits if_splits)

section \<open>Properties\<close>

text \<open>
  C11. The repository can replace the dictionaries of the engine. After any events with different ids, the
  writers that reduce each event over the repository have all succeeded, and what the repository
  requires of a job, JobNotFoundError included, and the ids it lists are the snapshots and the ids of
  the engine that applied the same events.
\<close>

theorem repository_replaces_the_dictionaries:
  assumes "distinct (map ev_event_id es)"
  shows "let en = run_engine (new_engine config) (map (\<lambda>e. Deliver e None) es) in
    \<exists>repo. record_events repository_get save es new_repository = Inr repo \<and>
      (\<forall>i. require repo i = snapshot en i) \<and> repository_ids repo = job_ids en"
proof -
  let ?en = "run_engine (new_engine config) (map (\<lambda>e. Deliver e None) es)"
  obtain repo where repo: "record_events repository_get save es new_repository = Inr repo" "wf_dict repo"
    "\<And>i b. dict_get (en_jobs ?en) i = repository_get repo i b"
    using memory.in_step_with_engine [OF journalled_new [of config], of new_repository es] assms
    by (auto simp: new_engine_def new_repository_def repository_get_def)
  have "journalled ?en" by (rule journalled_run [OF journalled_new])
  then have "repository_ids repo = job_ids ?en" by (rule memory.same_ids [OF _ repo(2,3)])
  moreover have "require repo i = snapshot ?en i" for i
    by (simp add: require_def snapshot_def repo(3) [of i False] split: option.split)
  ultimately show ?thesis using repo(1) unfolding Let_def by blast
qed

theorem repository_replaces_the_dictionaries_witness:
  "\<exists>repo. record_events repository_get save
       [new_event ''e-1'' JOB_CREATED 0 1 ''job-1'', new_event ''e-2'' JOB_EXECUTION_STARTED 2 3 ''job-2'']
       new_repository = Inr repo \<and>
     repository_ids repo = [''job-1'', ''job-2''] \<and> require repo ''job-3'' = Inl (JobNotFoundError ''job-3'')"
proof -
  let ?es = "[new_event ''e-1'' JOB_CREATED 0 1 ''job-1'', new_event ''e-2'' JOB_EXECUTION_STARTED 2 3 ''job-2'']"
  let ?en = "run_engine (new_engine None) (map (\<lambda>e. Deliver e None) ?es)"
  have "dict_keys (en_jobs ?en) = [''job-1'', ''job-2'']"
    by (simp add: run_engine_def new_engine_def engine_apply_def reduce_visibility_def new_event_def new_job_def
        split_beta keys_update)
  then have "job_ids ?en = [''job-1'', ''job-2'']" "snapshot ?en ''job-3'' = Inl (JobNotFoundError ''job-3'')"
    using pd.get_keys [of "en_jobs ?en" "''job-3''"] by (simp_all add: job_ids_def snapshot_def)
  then show ?thesis
    using repository_replaces_the_dictionaries [of ?es None] by (auto simp: Let_def new_event_def)
qed

text \<open>
  No update is lost. When a writer has recorded an event that was applied, every save of that job
  with the version from before it raises VersionConflictError with both versions, and a writer that
  reads again succeeds and leaves exactly its job and all others.
\<close>

theorem stale_saves_are_refused:
  assumes "\<And>job. repository_get repo (ev_job_id e) True = Some job \<Longrightarrow> jv_job_id job = ev_job_id e"
    and "record_event repository_get save e repo = Inr repo'"
    and "de_decision (decision_of (case repository_get repo (ev_job_id e) True of
           None \<Rightarrow> new_job (ev_job_id e) | Some job \<Rightarrow> job) e) = ''APPLIED''"
    and "jv_job_id job = ev_job_id e"
  shows "let v = stored_version (repository_get repo (ev_job_id e) True) in
    save repo' job (Some v) = Inl (VersionConflictError (ev_job_id e) v (v + 1)) \<and>
    save repo' job (Some (v + 1)) = Inr (dict_put (ev_job_id e) job repo')"
proof -
  let ?v = "stored_version (repository_get repo (ev_job_id e) True)"
  have stale: "save repo' job (Some ?v) = Inl (VersionConflictError (ev_job_id e) ?v (?v + 1))"
    by (rule memory.stale_save_refused [OF assms])
  then have "stored_version (repository_get repo' (ev_job_id e) True) = ?v + 1"
    using assms(4)
    by (simp add: save_def repository_get_def stored_version_def Let_def split: if_splits option.splits)
  then show ?thesis
    using stale assms(4) by (simp add: save_def repository_get_def stored_version_def Let_def)
qed

theorem stale_saves_are_refused_witness:
  "save (dict_put ''job-1'' (advance (new_job ''job-1'') (new_event ''e-1'' JOB_CREATED 0 1 ''job-1'')) [])
     (new_job ''job-1'') (Some 0) = Inl (VersionConflictError ''job-1'' 0 1)"
proof -
  let ?e = "new_event ''e-1'' JOB_CREATED 0 1 ''job-1''"
  have "record_event repository_get save ?e [] =
      Inr (dict_put ''job-1'' (advance (new_job ''job-1'') ?e) [])"
    by (simp add: record_event_def repository_get_def reduce_visibility_def save_def stored_version_def split_beta
        reduce_bookkeeping new_event_def new_job_def)
  moreover have "de_decision (decision_of (new_job ''job-1'') ?e) = ''APPLIED''"
    by (simp add: decision_of_kind decision_kind_def is_semantic_duplicate_def refusing_events_def
        new_event_def new_job_def)
  ultimately show ?thesis
    using stale_saves_are_refused [of "[]" ?e _ "new_job ''job-1''"]
    by (simp add: repository_get_def stored_version_def new_event_def new_job_def Let_def)
qed

end
