(* ===== verification/Process_Roles.thy ===== *)
theory Process_Roles
  imports Projection_Properties Configuration Scheduler_Worker Outbox_Publisher Fault_Injection Python_Json
begin

text \<open>
  The durable process roles: \<open>src/job_visibility/runtime.py\<close> with the pools of
  \<open>persistence/sessions.py\<close> and the producer that \<open>outbox/publisher.py\<close> builds. A process is a function
  of the environment, of what each of its rounds meets and of the store it works on; it returns the
  store, the actions it took in order and how it ended. The rounds themselves are those of the
  theories of the workers.
\<close>

section \<open>Database pools\<close>

text \<open>The arguments of \<open>create_engine\<close>, which opens no connection.\<close>

record engine_settings =
  es_url :: string
  es_pool_size :: int
  es_max_overflow :: int
  es_pool_timeout :: pyfloat
  es_pool_pre_ping :: bool
  es_application_name :: string
  es_connect_timeout :: int
  es_options :: string

definition server_options :: "database_config \<Rightarrow> string" where
  "server_options config =
     ''-c statement_timeout='' @ int_digits (dc_statement_timeout_ms config) @
     '' -c lock_timeout='' @ int_digits (dc_lock_timeout_ms config) @
     '' -c idle_in_transaction_session_timeout='' @ int_digits (dc_idle_transaction_timeout_ms config) @
     '' -c transaction_timeout='' @ int_digits (dc_transaction_timeout_ms config)"

definition build_database_sessions :: "database_config \<Rightarrow> string \<Rightarrow> engine_settings" where
  "build_database_sessions config role =
     \<lparr>es_url = dc_url config, es_pool_size = dc_pool_size config, es_max_overflow = dc_max_overflow config,
      es_pool_timeout = dc_pool_timeout_seconds config, es_pool_pre_ping = True,
      es_application_name = ''job-visibility-'' @ role,
      es_connect_timeout = dc_connect_timeout_seconds config, es_options = server_options config\<rparr>"

definition build_durable_sessions :: "app_config \<Rightarrow> engine_settings \<times> engine_settings" where
  "build_durable_sessions config =
     (build_database_sessions (ac_scheduler_database config) ''scheduler'',
      build_database_sessions (ac_edr_database config) ''edr'')"

section \<open>The Kafka producer\<close>

record producer_settings =
  ps_bootstrap_servers :: string
  ps_enable_idempotence :: bool
  ps_acks :: string
  ps_socket_timeout_ms :: int
  ps_request_timeout_ms :: int
  ps_delivery_timeout_ms :: int
  ps_serializes :: bool

text \<open>
  \<open>ConfluentBrokerProducer.__init__\<close> as the runtime calls it; \<open>latest_schema\<close> is the exception of the
  schema registry, if it raises one. A registry is asked only when its URL is not empty.
\<close>

definition confluent_producer :: "(string \<Rightarrow> exn option) \<Rightarrow> kafka_config \<Rightarrow> producer_settings result" where
  "confluent_producer latest_schema kafka =
     (let registry_url = kc_schema_registry_url kafka;
          settings = \<lparr>ps_bootstrap_servers = kc_bootstrap_servers kafka, ps_enable_idempotence = True,
            ps_acks = ''all'', ps_socket_timeout_ms = kc_socket_timeout_ms kafka,
            ps_request_timeout_ms = kc_request_timeout_ms kafka,
            ps_delivery_timeout_ms = kc_delivery_timeout_ms kafka, ps_serializes = registry_url \<noteq> []\<rparr>
      in if registry_url = [] then Inr settings
         else case latest_schema registry_url of Some err \<Rightarrow> Inl err | None \<Rightarrow> Inr settings)"

section \<open>Rounds, actions and endings\<close>

text \<open>A round returns what it processed, raises, or is broken off by \<open>KeyboardInterrupt\<close>.\<close>

datatype round_end = Did int | Failed exn | Interrupted

definition round_of :: "'s \<times> int result \<Rightarrow> 's \<times> round_end" where
  "round_of r = (case r of (s, Inl err) \<Rightarrow> (s, Failed err) | (s, Inr n) \<Rightarrow> (s, Did n))"

datatype action =
    Opened engine_settings
  | Connected producer_settings
  | Round
  | Slept rat
  | Printed int
  | Stopped_Worker
  | Stopped_Publisher pyfloat
  | Disposed

datatype loop_end = Left | Propagated_Out exn | Broken_Off | Ongoing

datatype process_end = Finished | Crashed exn | Still_Running

text \<open>
  The loop of the publisher and the projector over what its rounds meet: \<open>asleep e\<close> says whether the
  interrupt comes while the process sleeps after the round. The list may end before the loop does.
\<close>

fun polling_loop ::
  "bool \<Rightarrow> ('e \<Rightarrow> 's \<Rightarrow> 's \<times> round_end) \<Rightarrow> ('e \<Rightarrow> bool) \<Rightarrow> 'e list \<Rightarrow> 's \<Rightarrow> 's \<times> action list \<times> loop_end" where
  "polling_loop once run asleep [] s = (s, [], Ongoing)"
| "polling_loop once run asleep (e # es) s =
     (case run e s of
        (s, Failed err) \<Rightarrow> (s, [Round], Propagated_Out err)
      | (s, Interrupted) \<Rightarrow> (s, [Round], Broken_Off)
      | (s, Did processed) \<Rightarrow>
          if once then (s, [Round], Left)
          else if processed = 0
          then (if asleep e then (s, [Round, Slept (1 / 2)], Broken_Off)
                else (case polling_loop once run asleep es s of
                        (s, as, out) \<Rightarrow> (s, Round # Slept (1 / 2) # as, out)))
          else (case polling_loop once run asleep es s of (s, as, out) \<Rightarrow> (s, Round # as, out)))"

text \<open>
  The \<open>try\<close> around the work: an interrupt runs its handler, every way out disposes of the database, and
  a loop that goes on has done neither.
\<close>

definition concluded ::
  "action list \<Rightarrow> 's \<times> action list \<times> loop_end \<Rightarrow> 's \<times> action list \<times> process_end" where
  "concluded on_interrupt run =
     (case run of
        (s, as, Left) \<Rightarrow> (s, as @ [Disposed], Finished)
      | (s, as, Propagated_Out err) \<Rightarrow> (s, as @ [Disposed], Crashed err)
      | (s, as, Broken_Off) \<Rightarrow> (s, as @ on_interrupt @ [Disposed], Finished)
      | (s, as, Ongoing) \<Rightarrow> (s, as, Still_Running))"

definition after_opening ::
  "engine_settings result \<Rightarrow> (engine_settings \<Rightarrow> 's \<times> action list \<times> process_end) \<Rightarrow> 's \<Rightarrow>
   's \<times> action list \<times> process_end" where
  "after_opening opened body s =
     (case opened of
        Inl err \<Rightarrow> (s, [], Crashed err)
      | Inr settings \<Rightarrow> (case body settings of (s, as, out) \<Rightarrow> (s, Opened settings # as, out)))"

section \<open>The roles\<close>

text \<open>
  What a process finds around it: its environment, pydantic's positivity check, the conversion of the
  fault rules, durations in microseconds, the schema registry and the name of the host.
\<close>

record runtime =
  rn_environ :: environ
  rn_gt_zero :: "pyfloat \<Rightarrow> bool"
  rn_shaped :: "json \<Rightarrow> fault_rule list option"
  rn_micros :: "pyfloat \<Rightarrow> int"
  rn_latest_schema :: "string \<Rightarrow> exn option"
  rn_hostname :: string

text \<open>The faults that the injector raises are part of what the rounds meet; here it is only built.\<close>

definition injector_then :: "runtime \<Rightarrow> 'a result \<Rightarrow> 'a result" where
  "injector_then rn r = bind_result (fault_injector_from_env json_loads (rn_shaped rn) (rn_environ rn)) (\<lambda>ij. r)"

definition open_database :: "runtime \<Rightarrow> string \<Rightarrow> string \<Rightarrow> engine_settings result" where
  "open_database rn db_prefix role =
     bind_result (database_config_from_env (rn_gt_zero rn) db_prefix (rn_environ rn))
       (\<lambda>config. Inr (build_database_sessions config role))"

text \<open>One projection round: what is injected into it and locked, and whether it is interrupted.\<close>

record projector_input =
  pj_faults :: "string \<Rightarrow> edr_row \<Rightarrow> exn option"
  pj_before_commit :: "string list \<Rightarrow> exn option"
  pj_locked :: "string set"
  pj_interrupted :: bool
  pj_asleep :: bool

definition projector_round :: "codec \<Rightarrow> int \<Rightarrow> projector_input \<Rightarrow> edr_db \<Rightarrow> edr_db \<times> round_end" where
  "projector_round co batch_size e db =
     (if pj_interrupted e then (db, Interrupted)
      else round_of (projection_run_once co (pj_faults e) (pj_before_commit e) (pj_locked e) batch_size db))"

definition projector_process ::
  "runtime \<Rightarrow> codec \<Rightarrow> bool \<Rightarrow> projector_input list \<Rightarrow> edr_db \<Rightarrow> edr_db \<times> action list \<times> process_end" where
  "projector_process rn co once inputs db =
     after_opening (injector_then rn (open_database rn ''EDR'' ''projector'')) (\<lambda>settings.
       concluded []
         (case projection_tuning_from_env (rn_environ rn) of
            Inl err \<Rightarrow> (db, [], Propagated_Out err)
          | Inr tuning \<Rightarrow>
              polling_loop once (projector_round co (pt_batch_size tuning)) pj_asleep inputs db)) db"

definition rebuild_process :: "runtime \<Rightarrow> codec \<Rightarrow> edr_db \<Rightarrow> edr_db \<times> action list \<times> process_end" where
  "rebuild_process rn co db =
     after_opening (injector_then rn (open_database rn ''EDR'' ''rebuild'')) (\<lambda>settings.
       concluded []
         (case projection_tuning_from_env (rn_environ rn) of
            Inl err \<Rightarrow> (db, [], Propagated_Out err)
          | Inr tuning \<Rightarrow>
              (case rebuild co db of
                 (db, Inl err) \<Rightarrow> (db, [], Propagated_Out err)
               | (db, Inr n) \<Rightarrow> (db, [Printed n], Left)))) db"

text \<open>
  One publisher round; an interrupt comes between two records, after the first \<open>n\<close> of the batch, and
  leaves the leases of the others to expire.
\<close>

record publisher_input =
  pu_now :: time
  pu_locked :: "string set"
  pu_sends :: "nat \<Rightarrow> send_env"
  pu_interrupted :: "nat option"
  pu_asleep :: bool

definition publisher_round ::
  "service \<Rightarrow> publisher \<Rightarrow> publisher_input \<Rightarrow> scheduler_db \<times> broker_log \<Rightarrow>
   (scheduler_db \<times> broker_log) \<times> round_end" where
  "publisher_round svc p e state =
     (case pu_interrupted e of
        None \<Rightarrow> round_of (publisher_run_once svc p False (pu_now e) (pu_locked e) (pu_sends e) state)
      | Some n \<Rightarrow>
          (let (db, log) = state;
               (db, records) = lease svc p (pu_now e) (pu_locked e) db
           in case publish_all p (pu_sends e) 0 (take n records) (db, log) of
                (state, Inl err) \<Rightarrow> (state, Failed err)
              | (state, Inr _) \<Rightarrow> (state, Interrupted)))"

definition outbox_publisher :: "runtime \<Rightarrow> outbox_tuning \<Rightarrow> publisher" where
  "outbox_publisher rn outbox =
     \<lparr>pb_owner = ''publisher'', pb_batch_size = ot_batch_size outbox, pb_lease_seconds = 30,
      pb_retry_initial = rn_micros rn (ot_retry_initial_seconds outbox),
      pb_retry_max = rn_micros rn (ot_retry_max_seconds outbox), pb_float = True\<rparr>"

definition publisher_process ::
  "runtime \<Rightarrow> service \<Rightarrow> bool \<Rightarrow> publisher_input list \<Rightarrow> scheduler_db \<times> broker_log \<Rightarrow>
   (scheduler_db \<times> broker_log) \<times> action list \<times> process_end" where
  "publisher_process rn svc once inputs state =
     after_opening (injector_then rn (open_database rn ''SCHEDULER'' ''publisher'')) (\<lambda>settings.
       (case bind_result (kafka_config_from_env (rn_gt_zero rn) (rn_environ rn)) (\<lambda>kafka.
             bind_result (outbox_tuning_from_env (rn_gt_zero rn) (rn_environ rn)) (\<lambda>outbox.
             bind_result (confluent_producer (rn_latest_schema rn) kafka) (\<lambda>producer.
             Inr (kafka, outbox, producer)))) of
          Inl err \<Rightarrow> concluded [] (state, [], Propagated_Out err)
        | Inr (kafka, outbox, producer) \<Rightarrow>
            (case concluded [Stopped_Publisher (kc_flush_timeout_seconds kafka)]
                    (polling_loop once (publisher_round svc (outbox_publisher rn outbox)) pu_asleep inputs state) of
               (state, as, out) \<Rightarrow> (state, Connected producer # as, out)))) state"

text \<open>
  The scheduler runs the loop of its worker, which waits after idle rounds; \<open>interrupted\<close> says whether
  an interrupt follows the listed rounds, which also ends a single round. An error of the worker's
  constructor comes before the \<open>try\<close>.
\<close>

definition scheduler_worker :: "runtime \<Rightarrow> scheduler_tuning \<Rightarrow> worker result" where
  "scheduler_worker rn tuning =
     worker_init \<lparr>wk_owner = setting (rn_environ rn) ''SCHEDULER_WORKER_OWNER'' (rn_hostname rn),
       wk_batch_size = st_batch_size tuning, wk_recovery_batch_size = st_recovery_batch_size tuning,
       wk_poll_interval = rn_micros rn (st_poll_interval_seconds tuning)\<rparr>"

definition scheduler_rounds ::
  "service \<Rightarrow> registry \<Rightarrow> worker \<Rightarrow> bool \<Rightarrow> bool \<Rightarrow> round_env list \<Rightarrow> scheduler_db \<Rightarrow>
   scheduler_db \<times> action list \<times> loop_end" where
  "scheduler_rounds svc handlers w once interrupted envs db =
     (if once then
        (case envs of
           [] \<Rightarrow> (db, [], if interrupted then Broken_Off else Ongoing)
         | env # envs \<Rightarrow>
             (case worker_run_once svc handlers w env db of
                (db, Inl err) \<Rightarrow> (db, [Round], Propagated_Out err)
              | (db, Inr n) \<Rightarrow> (db, [Round], Left)))
      else
        (case run_forever svc handlers w envs 0 db of
           (db, waits, Some err) \<Rightarrow> (db, [Round], Propagated_Out err)
         | (db, waits, None) \<Rightarrow> (db, [Round], if interrupted then Broken_Off else Ongoing)))"

definition scheduler_process ::
  "runtime \<Rightarrow> service \<Rightarrow> registry \<Rightarrow> bool \<Rightarrow> bool \<Rightarrow> round_env list \<Rightarrow> scheduler_db \<Rightarrow>
   scheduler_db \<times> action list \<times> process_end" where
  "scheduler_process rn svc handlers once interrupted envs db =
     (case injector_then rn (scheduler_tuning_from_env (rn_gt_zero rn) (rn_environ rn)) of
        Inl err \<Rightarrow> (db, [], Crashed err)
      | Inr tuning \<Rightarrow>
          after_opening (open_database rn ''SCHEDULER'' ''scheduler-worker'') (\<lambda>settings.
            (case scheduler_worker rn tuning of
               Inl err \<Rightarrow> (db, [], Crashed err)
             | Inr w \<Rightarrow>
                 concluded [Stopped_Worker]
                   (scheduler_rounds (svc\<lparr>sv_claim_lease_seconds := st_claim_lease_seconds tuning\<rparr>)
                      handlers w once interrupted envs db))) db)"

section \<open>The resources of a process\<close>

text \<open>
  How a process leaves: before it opened its pool it only raises; afterwards everything it does lies
  between opening and disposing, and what the interrupt runs comes right before disposing.
\<close>

definition is_cleanup :: "action \<Rightarrow> bool" where
  "is_cleanup a =
     (case a of Opened s \<Rightarrow> True | Stopped_Worker \<Rightarrow> True | Stopped_Publisher t \<Rightarrow> True | Disposed \<Rightarrow> True | _ \<Rightarrow> False)"

definition releases :: "action list \<Rightarrow> action list \<times> process_end \<Rightarrow> bool" where
  "releases on_interrupt run \<longleftrightarrow>
     (case run of (as, out) \<Rightarrow>
        (as = [] \<and> out \<noteq> Finished \<and> out \<noteq> Still_Running) \<or>
        (\<exists>settings work. \<not> list_ex is_cleanup work \<and>
           (as = Opened settings # work \<and> out = Still_Running \<or>
            as = Opened settings # work @ [Disposed] \<and> out \<noteq> Still_Running \<or>
            as = Opened settings # work @ on_interrupt @ [Disposed] \<and> out = Finished)))"

lemma polling_loop_actions:
  "polling_loop once run asleep es s = (s', as, out) \<Longrightarrow> \<not> list_ex is_cleanup as"
proof (induction es arbitrary: s as)
  case (Cons e es)
  then show ?case
    by (auto simp: is_cleanup_def split: prod.splits round_end.splits if_splits)
qed simp

text \<open>What \<open>concluded\<close> makes of a run without releases, after steps without releases.\<close>

definition leaves_well :: "action list \<Rightarrow> 's \<times> action list \<times> process_end \<Rightarrow> bool" where
  "leaves_well on_interrupt run \<longleftrightarrow>
     (case run of (s, as, out) \<Rightarrow> \<forall>settings. releases on_interrupt (Opened settings # as, out))"

lemma concluded_leaves_well:
  assumes "\<And>s as out. r = (s, as, out) \<Longrightarrow> \<not> list_ex is_cleanup as"
  shows "leaves_well stop (concluded stop r)"
proof -
  obtain s as out where r: "r = (s, as, out)" by (metis prod_cases3)
  have "\<not> list_ex is_cleanup as" by (rule assms [OF r])
  then show ?thesis
    by (cases out) (auto simp: releases_def concluded_def leaves_well_def r)
qed

lemma leaves_well_any: "leaves_well [] r \<Longrightarrow> leaves_well stop r"
  by (auto simp: leaves_well_def releases_def) blast+

lemma leaves_well_Cons:
  assumes "leaves_well stop (s, as, out)" and "\<not> is_cleanup a"
  shows "leaves_well stop (s, a # as, out)"
proof -
  have "releases stop (Opened settings # a # as, out)" for settings
  proof -
    obtain work where "\<not> list_ex is_cleanup work"
      "as = work \<and> out = Still_Running \<or> as = work @ [Disposed] \<and> out \<noteq> Still_Running \<or>
       as = work @ stop @ [Disposed] \<and> out = Finished"
      using assms(1) by (auto simp: leaves_well_def releases_def)
    then have "\<not> list_ex is_cleanup (a # work)"
      "a # as = (a # work) \<and> out = Still_Running \<or> a # as = (a # work) @ [Disposed] \<and> out \<noteq> Still_Running \<or>
       a # as = (a # work) @ stop @ [Disposed] \<and> out = Finished"
      using assms(2) by auto
    then show ?thesis by (simp only: releases_def prod.case) blast
  qed
  then show ?thesis by (simp add: leaves_well_def)
qed

lemma opened_releases:
  assumes "\<And>settings. leaves_well stop (body settings)"
  shows "releases stop (snd (after_opening opened body s))"
proof (cases opened)
  case (Inl err)
  then show ?thesis by (simp add: after_opening_def releases_def)
next
  case (Inr settings)
  then show ?thesis using assms [of settings] by (auto simp: after_opening_def leaves_well_def split: prod.split)
qed

text \<open>A round without faults takes the oldest events of the backlog and leaves the rest.\<close>

definition backlog :: "edr_db \<Rightarrow> edr_row list" where
  "backlog db =
     filter (\<lambda>r. dict_get (pd_projected db) (er_event_id r) = None) (dict_values (pd_events db))"

definition quiet :: "projector_input \<Rightarrow> bool" where
  "quiet e \<longleftrightarrow> (\<forall>c r. pj_faults e c r = None) \<and> (\<forall>ids. pj_before_commit e ids = None) \<and> pj_locked e = {} \<and>
     \<not> pj_interrupted e \<and> \<not> pj_asleep e"

lemma length_filter_notin:
  assumes "distinct xs" and "set ys \<subseteq> set xs" and "distinct ys"
  shows "length (filter (\<lambda>x. x \<notin> set ys) xs) = length xs - length ys"
proof -
  have "length (filter (\<lambda>x. x \<in> set ys) xs) = card (set xs \<inter> set ys)"
    using assms(1) by (simp add: distinct_length_filter Int_commute)
  also have "\<dots> = length ys" using assms(2,3) by (simp add: Int_absorb1 distinct_card)
  finally show ?thesis using sum_length_filter_compl [of "\<lambda>x. x \<in> set ys" xs] by simp
qed

lemma quiet_round:
  assumes inv: "store_inv co db" and quiet: "quiet e"
  obtains db' where "projector_round co b e db = (db', Did (int (min (nat b) (length (backlog db)))))"
    "store_inv co db'" "pd_events db' = pd_events db"
    "length (backlog db') = length (backlog db) - nat b"
    "backlog db = [] \<Longrightarrow> db' = db"
proof -
  let ?rs = "pending_events {} b db"
  let ?key = "\<lambda>r. (er_persisted_at r, er_event_id r)"
  have j: "journal_ok co db" using inv by (simp add: store_inv_def)
  have rs: "?rs = take (nat b) (sort_key ?key (backlog db))" by (simp add: pending_events_def backlog_def)
  have len: "length ?rs = min (nat b) (length (backlog db))" by (simp add: rs)
  have rows: "dict_get (pd_events db) (er_event_id r) = Some r" if "r \<in> set ?rs" for r
    by (rule pending_rows [OF j that])
  obtain db' where db': "project_pending co (\<lambda>c r. None) ?rs db = Inr db'"
    using project_pending_total [OF inv rows] by blast
  note eff = project_pending_inv [OF inv rows db']
  have "pj_faults e = (\<lambda>c r. None)" using quiet by (auto simp: quiet_def)
  then have run: "projector_round co b e db = (db', Did (int (length ?rs)))"
    using quiet db'
    by (simp add: projector_round_def round_of_def projection_run_once_def quiet_def Let_def)
  let ?vs = "dict_values (pd_events db)"
  have "distinct (map er_event_id ?vs)" by (rule journal_values(2) [OF j])
  then have dv: "distinct ?vs" "inj_on er_event_id (set ?vs)"
    using distinct_map [of er_event_id ?vs] by blast+
  then have db: "distinct (backlog db)" by (simp add: backlog_def)
  have sub: "set ?rs \<subseteq> set (backlog db)" by (metis rs set_sort set_take_subset)
  then have sub': "set ?rs \<subseteq> set ?vs" by (auto simp: backlog_def)
  have "dict_get (pd_projected db') (er_event_id r) = None \<longleftrightarrow>
      dict_get (pd_projected db) (er_event_id r) = None \<and> r \<notin> set ?rs" if "r \<in> set ?vs" for r
    using inj_on_image_mem_iff [OF dv(2) that sub'] eff by blast
  moreover have "pd_events db' = pd_events db" using eff by blast
  ultimately have "backlog db' = filter (\<lambda>r. dict_get (pd_projected db) (er_event_id r) = None \<and> r \<notin> set ?rs) ?vs"
    unfolding backlog_def by (simp only: cong: filter_cong)
  then have "backlog db' = filter (\<lambda>r. r \<notin> set ?rs) (backlog db)"
    by (simp only: backlog_def filter_filter)
  moreover have "distinct ?rs" using db by (simp add: rs)
  ultimately have "length (backlog db') = length (backlog db) - length ?rs"
    using length_filter_notin [OF db sub] by simp
  then have left: "length (backlog db') = length (backlog db) - nat b" using len by (simp add: min_def)
  have "db' = db" if "backlog db = []" using db' that by (simp add: rs)
  then show thesis using that run len eff left by auto
qed

text \<open>Without a backlog everything is caught up and served.\<close>

lemma no_backlog:
  assumes inv: "store_inv co db" and "backlog db = []" and r: "r \<in> set (dict_values (pd_events db))"
  shows "caught_up db (er_job_id r) \<and> serves co db (er_job_id r)"
proof -
  have j: "journal_ok co db" using inv by (simp add: store_inv_def)
  have proj: "dict_get (pd_projected db) (er_event_id q) \<noteq> None" if "q \<in> set (dict_values (pd_events db))" for q
    using assms(2) that by (auto simp: backlog_def filter_empty_conv)
  have "caught_up db (er_job_id r)"
    unfolding caught_up_def
  proof
    show "job_rows db (er_job_id r) \<noteq> []" using r by (auto simp: job_rows_nonempty)
    show "\<forall>q \<in> set (job_rows db (er_job_id r)). dict_get (pd_projected db) (er_event_id q) \<noteq> None"
      using job_rows_set(1) [OF j] journal_values(1) [OF j] proj by blast
  qed
  then show ?thesis using inv by (simp add: store_inv_def)
qed

section \<open>The projector drains its backlog\<close>

lemma polling_loop_append:
  "polling_loop False run asleep es s = (s', as, Ongoing) \<Longrightarrow>
   polling_loop False run asleep (es @ fs) s =
     (case polling_loop False run asleep fs s' of (s'', bs, out) \<Rightarrow> (s'', as @ bs, out))"
proof (induction es arbitrary: s as)
  case (Cons e es)
  obtain s1 r where run: "run e s = (s1, r)" by fastforce
  obtain s2 bs out where rest: "polling_loop False run asleep es s1 = (s2, bs, out)" by (metis prod_cases3)
  obtain n where r: "r = Did n" using Cons.prems run by (cases r) simp_all
  then have "out = Ongoing" "s2 = s'" "\<not> (n = 0 \<and> asleep e)"
    using Cons.prems run rest by (auto split: if_splits)
  moreover from this have "as = (if n = 0 then [Round, Slept (1 / 2)] else [Round]) @ bs"
    using Cons.prems run rest r by auto
  moreover note Cons.IH [of s1 bs]
  ultimately show ?case using run rest r by (auto split: prod.split)
qed simp

lemma rounds_step:
  fixes n b :: nat
  assumes "0 < b" and "0 < n"
  shows "(n + b - 1) div b = Suc ((n - b + b - 1) div b)"
proof -
  have "n + b - 1 = (n - 1) + b" using assms(2) by simp
  then have "(n + b - 1) div b = (n - 1 + b) div b" by (rule arg_cong)
  also have "\<dots> = (n - 1) div b + 1" by (rule div_add_self2) (use assms(1) in simp)
  finally have "(n + b - 1) div b = Suc ((n - 1) div b)" by (simp only: Suc_eq_plus1)
  moreover have "(n - 1) div b = (n - b + b - 1) div b"
  proof (cases "b \<le> n")
    case False
    then have "n - 1 < b" "n - b + b - 1 < b" using assms by arith+
    then show ?thesis by simp
  qed simp
  ultimately show ?thesis by simp
qed

lemma quiet_rounds:
  "store_inv co db \<Longrightarrow> list_all quiet es \<Longrightarrow> 0 < nat b \<Longrightarrow>
   (length (backlog db) + nat b - 1) div nat b \<le> length es \<Longrightarrow>
   \<exists>db'. polling_loop False (projector_round co b) pj_asleep es db =
       (db', replicate ((length (backlog db) + nat b - 1) div nat b) Round @
          concat (replicate (length es - (length (backlog db) + nat b - 1) div nat b) [Round, Slept (1 / 2)]),
        Ongoing) \<and>
     store_inv co db' \<and> pd_events db' = pd_events db \<and> backlog db' = []"
proof (induction es arbitrary: db)
  case Nil
  then have "length (backlog db) = 0"
    using rounds_step [of "nat b" "length (backlog db)"] by (cases "backlog db = []") auto
  then show ?case using Nil by simp
next
  case (Cons e es)
  let ?n = "length (backlog db)"
  have q: "quiet e" "list_all quiet es" using Cons.prems(2) by simp_all
  obtain db1 where r: "projector_round co b e db = (db1, Did (int (min (nat b) ?n)))"
    and db1: "store_inv co db1" "pd_events db1 = pd_events db" "length (backlog db1) = ?n - nat b"
      "backlog db = [] \<Longrightarrow> db1 = db"
    by (rule quiet_round [OF Cons.prems(1) q(1), where b = b]) (rule that)
  have rounds: "(length (backlog db1) + nat b - 1) div nat b \<le> length es \<and>
      (?n + nat b - 1) div nat b = (if ?n = 0 then 0 else Suc ((length (backlog db1) + nat b - 1) div nat b))"
    using Cons.prems(3,4) rounds_step [of "nat b" ?n] db1(3) by auto
  then obtain db' where IH: "polling_loop False (projector_round co b) pj_asleep es db1 =
       (db', replicate ((length (backlog db1) + nat b - 1) div nat b) Round @
          concat (replicate (length es - (length (backlog db1) + nat b - 1) div nat b) [Round, Slept (1 / 2)]),
        Ongoing)"
    "store_inv co db'" "pd_events db' = pd_events db1" "backlog db' = []"
    using Cons.IH [OF db1(1) q(2) Cons.prems(3)] by blast
  show ?case
  proof (cases "?n = 0")
    case True
    then show ?thesis
      using IH r rounds q(1) db1(2,3) by (simp add: quiet_def Suc_diff_le)
  next
    case False
    then have "int (min (nat b) ?n) \<noteq> 0" using Cons.prems(3) by simp
    then show ?thesis using IH r rounds False db1(2) by simp
  qed
qed

section \<open>Properties\<close>



text \<open>An environment with one setting, which leaves the others at their defaults.\<close>

definition example_runtime :: runtime where
  "example_runtime =
     \<lparr>rn_environ = [''EDR_DATABASE_URL'' \<mapsto> ''/edr''], rn_gt_zero = (\<lambda>x. float_gt x (Fin 0)),
      rn_shaped = (\<lambda>v. None), rn_micros = (\<lambda>x. 1000000), rn_latest_schema = (\<lambda>url. None), rn_hostname = ''host''\<rparr>"

definition example_pool :: database_config where
  "example_pool =
     \<lparr>dc_url = ''/edr'', dc_pool_size = 5, dc_max_overflow = 5, dc_pool_timeout_seconds = Fin 30,
      dc_connect_timeout_seconds = 5, dc_statement_timeout_ms = 15000, dc_lock_timeout_ms = 5000,
      dc_idle_transaction_timeout_ms = 30000, dc_transaction_timeout_ms = 30000\<rparr>"

lemma example_settings:
  "injector_then example_runtime (open_database example_runtime ''EDR'' ''projector'') =
     Inr (build_database_sessions example_pool ''projector'')"
  "projection_tuning_from_env (rn_environ example_runtime) = Inr \<lparr>pt_batch_size = 500\<rparr>"
proof -
  have "map lower_char ''disabled'' \<noteq> ''enabled''" by code_simp
  then show "injector_then example_runtime (open_database example_runtime ''EDR'' ''projector'') =
      Inr (build_database_sessions example_pool ''projector'')"
    by (simp add: injector_then_def fault_injector_from_env_def open_database_def database_loaders_agree
        app_database_def env_required_def env_integer_def env_number_def example_runtime_def
        database_config_of_def construct_def example_pool_def Let_def)
  show "projection_tuning_from_env (rn_environ example_runtime) = Inr \<lparr>pt_batch_size = 500\<rparr>"
    by (simp add: projection_tuning_from_env_def projection_tuning_of_def construct_def setting_def parsed_int_def
        printed_defaults example_runtime_def value_error_as_def)
qed

definition quiet_input :: projector_input where
  "quiet_input =
     \<lparr>pj_faults = (\<lambda>c r. None), pj_before_commit = (\<lambda>ids. None), pj_locked = {}, pj_interrupted = False,
      pj_asleep = False\<rparr>"


lemma publisher_leaves_well:
  assumes "concluded stop (polling_loop once run asleep es s) = (s', as, out)"
  shows "leaves_well stop (s', Connected producer # as, out)"
proof (rule leaves_well_Cons)
  show "leaves_well stop (s', as, out)"
    using concluded_leaves_well [of "polling_loop once run asleep es s" stop, OF polling_loop_actions]
    unfolding assms .
qed (simp add: is_cleanup_def)


end
