(* ===== verification/Command_Lines.thy ===== *)
theory Command_Lines
  imports Scenarios Fault_Injection Test_Support Api Python_Json
begin

text \<open>
  The command lines: \<open>src/job_visibility/cli.py\<close>, which runs the scenario suite and reports on it, and
  \<open>chaos/cli.py\<close>, which lists and validates experiments and applies pressure. \<open>argparse\<close> is left out:
  a command starts from parsed arguments.
\<close>

section \<open>json.dumps for readers\<close>

text \<open>The default separators, and \<open>indent=2\<close> at a depth; empty lists and objects stay on one line.\<close>

primrec spaced_dumps :: "json \<Rightarrow> string" where
  "spaced_dumps JNull = ''null''"
| "spaced_dumps (JBool b) = (if b then ''true'' else ''false'')"
| "spaced_dumps (JInt i) = int_digits i"
| "spaced_dumps (JStr s) = ascii_string s"
| "spaced_dumps (JList xs) = ''['' @ joined '', '' (map spaced_dumps xs) @ '']''"
| "spaced_dumps (JObj kvs) =
     ''{'' @ joined '', '' (map (\<lambda>(k, s). ascii_string k @ '': '' @ s)
        (map (map_prod id spaced_dumps) kvs)) @ ''}''"

definition line_at :: "nat \<Rightarrow> string" where
  "line_at depth = newline @ replicate (2 * depth) CHR '' ''"

primrec pretty_dumps :: "json \<Rightarrow> nat \<Rightarrow> string" where
  "pretty_dumps JNull depth = ''null''"
| "pretty_dumps (JBool b) depth = (if b then ''true'' else ''false'')"
| "pretty_dumps (JInt i) depth = int_digits i"
| "pretty_dumps (JStr s) depth = ascii_string s"
| "pretty_dumps (JList xs) depth =
     (if xs = [] then ''[]''
      else ''['' @ line_at (Suc depth) @
        joined ('','' @ line_at (Suc depth)) (map (\<lambda>f. f (Suc depth)) (map pretty_dumps xs)) @
        line_at depth @ '']'')"
| "pretty_dumps (JObj kvs) depth =
     (if kvs = [] then ''{}''
      else ''{'' @ line_at (Suc depth) @
        joined ('','' @ line_at (Suc depth)) (map (\<lambda>(k, f). ascii_string k @ '': '' @ f (Suc depth))
          (map (map_prod id pretty_dumps) kvs)) @
        line_at depth @ ''}'')"

section \<open>The scenario command\<close>

text \<open>\<open>SystemExit\<close> with a message, or the exception of a scenario.\<close>

datatype cli_stop = System_Exit string | Scenario_Raised exn

definition run_selected :: "string list \<Rightarrow> cli_stop + json list \<times> nat" where
  "run_selected selected =
     (let known = map fst SCENARIOS;
          scenario_ids = (if selected = [] then known
                          else if selected = [''ci''] then CI_SCENARIOS else selected);
          unknown = sort (filter (\<lambda>i. i \<notin> set known) (remdups scenario_ids))
      in if unknown \<noteq> [] then Inl (System_Exit (''Unknown scenario(s): '' @ joined '', '' unknown))
         else
           (case collect_results
                  (\<lambda>i. bind_result (the (dict_get SCENARIOS i)) (\<lambda>r. Inr (scenario_to_dict r))) scenario_ids of
              Inl err \<Rightarrow> Inl (Scenario_Raised err)
            | Inr results \<Rightarrow>
                Inr (results, length (filter (\<lambda>result. jfield result ''result'' \<noteq> Some (JStr ''PASS'')) results))))"

record cli_args =
  cl_scenario :: "string list"
  cl_output :: "string option"
  cl_pretty :: bool

definition cli_report :: "json list \<Rightarrow> nat \<Rightarrow> json" where
  "cli_report results failures =
     JObj [(''summary'',
              JObj [(''total'', JInt (int (length results))),
                    (''passed'', JInt (int (length results) - int failures)),
                    (''failed'', JInt (int failures))]),
           (''scenarios'', JList results)]"

text \<open>What the command leaves: the file it wrote, if any, the line it printed, and its exit code.\<close>

record cli_effect =
  ef_written :: "(string \<times> string) option"
  ef_printed :: string
  ef_code :: int

definition cli_main :: "cli_args \<Rightarrow> cli_stop + cli_effect" where
  "cli_main args =
     (case run_selected (cl_scenario args) of
        Inl stop \<Rightarrow> Inl stop
      | Inr (results, failures) \<Rightarrow>
          (let report = cli_report results failures;
               rendered = (if cl_pretty args then pretty_dumps report 0 else spaced_dumps report);
               code = (if failures \<noteq> 0 then 1 else 0)
           in Inr (case cl_output args of
                None \<Rightarrow> \<lparr>ef_written = None, ef_printed = rendered, ef_code = code\<rparr>
              | Some path \<Rightarrow>
                  \<lparr>ef_written = Some (path, rendered @ newline),
                   ef_printed = int_digits (int (length results) - int failures) @ ''/'' @
                     int_digits (int (length results)) @ '' scenarios passed; report: '' @ path,
                   ef_code = code\<rparr>)))"

section \<open>The chaos command\<close>

datatype pressure_kind = CPU_Kind | Memory_Kind | Disk_Kind

datatype chaos_command =
    Chaos_List
  | Chaos_Validate string
  | Chaos_Pressure pressure_kind string string pyfloat int
  | Chaos_Cleanup string string
  | Chaos_Stats string string

text \<open>\<open>int(x)\<close> of a float truncates; infinities and NaN raise.\<close>

definition int_of_float :: "pyfloat \<Rightarrow> int result" where
  "int_of_float x =
     (case x of
        Fin q \<Rightarrow> Inr (if q < 0 then - \<lfloor>- q\<rfloor> else \<lfloor>q\<rfloor>)
      | NaN \<Rightarrow> Inl (ValueError ''cannot convert float NaN to integer'')
      | _ \<Rightarrow> Inl (OverflowError ''cannot convert float infinity to integer''))"

text \<open>
  What a command prints, if it prints, and the commands it issued. \<open>read_text\<close> is the content of the rule
  file, and \<open>shaped\<close> the conversion of a JSON value to a list of rules, as in \<open>fault_injector_from_env\<close>.
\<close>

definition chaos_main ::
  "shell \<Rightarrow> (pyfloat \<Rightarrow> string) \<Rightarrow> (string \<Rightarrow> string result) \<Rightarrow> (json \<Rightarrow> fault_rule list option) \<Rightarrow>
   chaos_command \<Rightarrow> string option commanded" where
  "chaos_main sh show_float read_text shaped command =
     (let silent = (\<lambda>m. and_issue m (\<lambda>_. ([], Inr None)));
          under = (\<lambda>name act. case pressure_controller name of
             Inl err \<Rightarrow> ([], Inl err) | Inr controller \<Rightarrow> act controller)
      in case command of
        Chaos_List \<Rightarrow> ([], Inr (Some (pretty_dumps (JList catalog_json) 0)))
      | Chaos_Validate path \<Rightarrow>
          ([], bind_result (read_text path) (\<lambda>raw.
               bind_result (json_loads raw) (\<lambda>v.
               bind_result (case shaped v of None \<Rightarrow> Inl (ValidationError [''rules'']) | Some rules \<Rightarrow> validate_rules rules)
                 (\<lambda>rules. Inr (Some (spaced_dumps
                    (JObj [(''valid'', JBool True), (''rules'', JInt (int (length rules))),
                           (''scenarios'', JInt (int (length chaos_catalog)))])))))))
      | Chaos_Cleanup service name \<Rightarrow>
          under name (\<lambda>controller. silent (cleanup sh controller service))
      | Chaos_Stats service name \<Rightarrow>
          under name (\<lambda>controller.
            and_issue (stats json_loads sh controller service) (\<lambda>v. ([], Inr (Some (pretty_dumps v 0)))))
      | Chaos_Pressure kind service name amount duration \<Rightarrow>
          under name (\<lambda>controller.
            case kind of
              CPU_Kind \<Rightarrow> silent (cpu sh show_float controller service amount duration)
            | Memory_Kind \<Rightarrow>
                (case int_of_float amount of
                   Inl err \<Rightarrow> ([], Inl err)
                 | Inr megabytes \<Rightarrow> silent (memory sh controller service megabytes duration))
            | Disk_Kind \<Rightarrow>
                (case int_of_float amount of
                   Inl err \<Rightarrow> ([], Inl err)
                 | Inr megabytes \<Rightarrow> silent (disk sh controller service megabytes))))"

section \<open>What the commands do\<close>

text \<open>Collecting results that never fail.\<close>

lemma collect_results_total:
  "(\<And>x. x \<in> set xs \<Longrightarrow> f x = Inr (g x)) \<Longrightarrow> collect_results f xs = Inr (map g xs)"
  by (induction xs) auto

lemma suite_ids:
  "map fst SCENARIOS =
     [''HP-01'', ''HP-02'', ''HP-03'', ''HP-04'', ''HP-05'', ''CH-01'', ''CH-02'', ''CH-03'', ''CH-04'', ''CH-05'',
      ''CH-06'', ''CH-07'', ''CH-08'', ''CH-09'', ''CH-10'', ''CH-11'', ''CH-12'', ''CH-13'', ''CH-14'', ''CH-15'',
      ''CH-16'', ''CH-17'', ''CH-18''] @
     map (\<lambda>n. ''POLL-'' @ zero_pad 2 n) [1, 2, 3, 4, 5, 6, 7, 8, 9, 10, 11, 12]"
  by (simp only: suite map_append list.map fst_conv append.simps)

lemma ci_known: "set CI_SCENARIOS \<subseteq> set (map fst SCENARIOS)"
proof -
  have "list_all (\<lambda>i. i \<in> set (map fst SCENARIOS)) CI_SCENARIOS"
    unfolding suite_ids CI_SCENARIOS_def by code_simp
  then show ?thesis by (simp only: list_all_iff subset_code)
qed

text \<open>The commands of the chaos command line are those of the pressure controller.\<close>

lemma controller_project: "pressure_controller name = Inr c \<Longrightarrow> matches_project ''job-visibility-chaos-'' c"
  by (auto simp: pressure_controller_def split: if_splits)

lemma chaos_in_scope:
  assumes "command \<in> set (fst (chaos_main sh show_float read_text shaped c))"
  shows "\<exists>name. matches_project ''job-visibility-chaos-'' name \<and> in_scope sh name command"
  using assms unfolding chaos_main_def Let_def
  by (cases c)
    (auto split: pressure_kind.splits sum.splits dest!: controller_project dest: pressure_in_scope)

section \<open>Properties\<close>


end
