(* ===== verification/Toxiproxy.thy ===== *)
theory Toxiproxy
  imports Test_Support Python_Json
begin

text \<open>
  The client of the fault proxy, \<open>src/job_visibility/testing/toxiproxy.py\<close>. The HTTP transport is an
  argument: a request is answered with a status and a body, or raises. An operation returns the
  requests it sent with its result.
\<close>

section \<open>Requests\<close>

datatype http_method = GET | POST | DELETE

record http_request =
  hr_method :: http_method
  hr_url :: string
  hr_json :: "json option"

type_synonym transport = "http_request \<Rightarrow> (int \<times> string) result"

type_synonym 'a requested = "http_request list \<times> 'a result"

record toxiproxy_client =
  tc_base_url :: string
  tc_connect_timeout :: rat
  tc_read_timeout :: rat
  tc_open :: bool

text \<open>\<open>base_url.rstrip("/")\<close>\<close>

definition new_client :: "string \<Rightarrow> rat \<Rightarrow> rat \<Rightarrow> toxiproxy_client" where
  "new_client base_url connect_timeout read_timeout =
     \<lparr>tc_base_url = rev (dropWhile (\<lambda>c. c = CHR ''/'') (rev base_url)), tc_connect_timeout = connect_timeout,
      tc_read_timeout = read_timeout, tc_open = True\<rparr>"

definition close_client :: "toxiproxy_client \<Rightarrow> toxiproxy_client" where
  "close_client client = client\<lparr>tc_open := False\<rparr>"

text \<open>A closed \<open>httpx\<close> client refuses to send.\<close>

definition send_request ::
  "transport \<Rightarrow> toxiproxy_client \<Rightarrow> http_method \<Rightarrow> string \<Rightarrow> json option \<Rightarrow> (int \<times> string) requested" where
  "send_request http client verb path body =
     (if \<not> tc_open client then ([], Inl (RuntimeError ''Cannot send a request, as the client has been closed.''))
      else
        (let request = \<lparr>hr_method = verb, hr_url = tc_base_url client @ path, hr_json = body\<rparr>
         in ([request], http request)))"

text \<open>\<open>raise_for_status\<close>: every status outside 200 to 299 raises.\<close>

definition raise_for_status :: "int \<Rightarrow> unit result" where
  "raise_for_status status =
     (if 200 \<le> status \<and> status \<le> 299 then Inr () else Inl (DriverError ''HTTPStatusError''))"

definition and_then :: "'a requested \<Rightarrow> ('a \<Rightarrow> 'b result) \<Rightarrow> 'b requested" where
  "and_then m f = (fst m, bind_result (snd m) f)"

section \<open>Operations\<close>

definition proxy :: "transport \<Rightarrow> toxiproxy_client \<Rightarrow> string \<Rightarrow> json requested" where
  "proxy http client name =
     and_then (send_request http client GET (''/proxies/'' @ name) None) (\<lambda>(status, body).
       bind_result (raise_for_status status) (\<lambda>_. json_loads body))"

text \<open>\<open>toxicity\<close> is a JSON number; the dictionary of attributes defaults to an empty one.\<close>

definition add_toxic ::
  "transport \<Rightarrow> toxiproxy_client \<Rightarrow> string \<Rightarrow> string \<Rightarrow> string \<Rightarrow> string \<Rightarrow> json \<Rightarrow>
   (string \<times> json) list option \<Rightarrow> json requested" where
  "add_toxic http client proxy_name name toxic_type stream toxicity attributes =
     and_then (send_request http client POST (''/proxies/'' @ proxy_name @ ''/toxics'')
       (Some (JObj [(''name'', JStr name), (''type'', JStr toxic_type), (''stream'', JStr stream),
                    (''toxicity'', toxicity),
                    (''attributes'', JObj (case attributes of None \<Rightarrow> [] | Some kvs \<Rightarrow> kvs))])))
       (\<lambda>(status, body). bind_result (raise_for_status status) (\<lambda>_. json_loads body))"

definition remove_toxic :: "transport \<Rightarrow> toxiproxy_client \<Rightarrow> string \<Rightarrow> string \<Rightarrow> unit requested" where
  "remove_toxic http client proxy_name name =
     and_then (send_request http client DELETE (''/proxies/'' @ proxy_name @ ''/toxics/'' @ name) None)
       (\<lambda>(status, body). if status \<noteq> 404 then raise_for_status status else Inr ())"

definition reset_proxies :: "transport \<Rightarrow> toxiproxy_client \<Rightarrow> unit requested" where
  "reset_proxies http client =
     and_then (send_request http client POST ''/reset'' None) (\<lambda>(status, body). raise_for_status status)"

text \<open>\<open>with\<close>: the client is closed however the body ends.\<close>

definition with_client ::
  "toxiproxy_client \<Rightarrow> (toxiproxy_client \<Rightarrow> 'a requested) \<Rightarrow> toxiproxy_client \<times> 'a requested" where
  "with_client client body = (close_client client, body client)"

section \<open>What the operations do\<close>

lemmas request_defs = proxy_def add_toxic_def remove_toxic_def reset_proxies_def and_then_def send_request_def

text \<open>Removing a toxic that is not there succeeds, so that removing is repeatable.\<close>

lemma remove_toxic_repeatable:
  "snd (remove_toxic http (new_client url c r) p name) = Inr () \<longleftrightarrow>
     (\<exists>status body. http \<lparr>hr_method = DELETE,
        hr_url = tc_base_url (new_client url c r) @ ''/proxies/'' @ p @ ''/toxics/'' @ name, hr_json = None\<rparr> =
          Inr (status, body) \<and> (status = 404 \<or> 200 \<le> status \<and> status \<le> 299))"
  by (auto simp: request_defs raise_for_status_def new_client_def bind_result_Inr_iff Let_def split: if_splits)

text \<open>Every operation sends one request to the address it was given, and a closed client none.\<close>

lemma one_request:
  "request \<in> set (fst (proxy http client name)) \<or> request \<in> set (fst (add_toxic http client name t ty st x attrs)) \<or>
   request \<in> set (fst (remove_toxic http client name t)) \<or> request \<in> set (fst (reset_proxies http client)) \<Longrightarrow>
   tc_open client \<and> take (length (tc_base_url client)) (hr_url request) = tc_base_url client"
  by (auto simp: request_defs Let_def split: if_splits)

end
