(* ===== verification/Api_Roles.thy ===== *)
theory Api_Roles
  imports Process_Roles Api
begin

text \<open>
  The HTTP roles of \<open>src/job_visibility/production_api.py\<close>: what each of the two applications is built
  from, the routes it keeps, and the address it is served at. The application server is not part of the
  program.
\<close>

section \<open>The applications\<close>

text \<open>
  An application: its pool, what its handlers close over, its title and the paths of its routes.
  \<open>ra_disposes\<close> says that the end of its lifespan disposes of the pool.
\<close>

record role_app =
  ra_pool :: engine_settings
  ra_api :: api
  ra_title :: string
  ra_routes :: "string list"
  ra_disposes :: bool

text \<open>\<open>framework\<close> are the routes of the framework; \<open>scheduler\<close> and \<open>edr\<close> open a session of the pool.\<close>

definition create_scheduler_app ::
  "runtime \<Rightarrow> service \<Rightarrow> scheduler_db sessions \<Rightarrow> string list \<Rightarrow> role_app result" where
  "create_scheduler_app rn svc scheduler framework =
     bind_result (open_database rn ''SCHEDULER'' ''scheduler-api'') (\<lambda>pool.
     bind_result (scheduler_tuning_from_env (rn_gt_zero rn) (rn_environ rn)) (\<lambda>tuning.
     bind_result (fault_injector_from_env json_loads (rn_shaped rn) (rn_environ rn)) (\<lambda>ij.
     bind_result (parsed_int (setting (rn_environ rn) ''API_MAX_PAYLOAD_BYTES'' ''65536'')) (\<lambda>limit.
     Inr \<lparr>ra_pool = pool,
          ra_api = new_api\<lparr>
            ap_scheduler := Some (svc\<lparr>sv_claim_lease_seconds := st_claim_lease_seconds tuning\<rparr>),
            ap_health := Some (new_health (Some scheduler) None), ap_max_payload_bytes := limit,
            ap_visibility_base_url :=
              setting (rn_environ rn) ''VISIBILITY_API_PUBLIC_URL'' ''http://localhost:8001''\<rparr>,
          ra_title = ''Job Scheduler API'', ra_routes = scheduler_app_routes framework,
          ra_disposes = True\<rparr>))))"

definition create_visibility_app :: "runtime \<Rightarrow> edr_db sessions \<Rightarrow> string list \<Rightarrow> role_app result" where
  "create_visibility_app rn edr framework =
     bind_result (open_database rn ''EDR'' ''visibility-api'') (\<lambda>pool.
     bind_result (fault_injector_from_env json_loads (rn_shaped rn) (rn_environ rn)) (\<lambda>ij.
     Inr \<lparr>ra_pool = pool,
          ra_api = new_api\<lparr>ap_durable_reader := True, ap_health := Some (new_health None (Some edr))\<rparr>,
          ra_title = ''Job Visibility API'', ra_routes = visibility_app_routes framework,
          ra_disposes = True\<rparr>))"

section \<open>Serving\<close>

datatype api_role = Scheduler_Api | Visibility_Api

text \<open>The port: \<open>args.port or int(os.getenv(...))\<close>, so that a port of 0 is taken for none.\<close>

definition api_port :: "environ \<Rightarrow> api_role \<Rightarrow> int option \<Rightarrow> int result" where
  "api_port env role port =
     (case port of
        Some n \<Rightarrow> if n \<noteq> 0 then Inr n else parsed_int (setting env
            (if role = Scheduler_Api then ''SCHEDULER_API_PORT'' else ''VISIBILITY_API_PORT'') ''8000'')
      | None \<Rightarrow> parsed_int (setting env
            (if role = Scheduler_Api then ''SCHEDULER_API_PORT'' else ''VISIBILITY_API_PORT'') ''8000''))"

definition api_host :: "environ \<Rightarrow> string option \<Rightarrow> string" where
  "api_host env host = (case host of None \<Rightarrow> setting env ''API_HOST'' ''127.0.0.1'' | Some h \<Rightarrow> h)"

text \<open>What \<open>main\<close> hands to the server: the application, the host and the port.\<close>

definition api_main ::
  "runtime \<Rightarrow> service \<Rightarrow> scheduler_db sessions \<Rightarrow> edr_db sessions \<Rightarrow> string list \<Rightarrow>
   api_role \<Rightarrow> string option \<Rightarrow> int option \<Rightarrow> (role_app \<times> string \<times> int) result" where
  "api_main rn svc scheduler edr framework role host port =
     bind_result (api_port (rn_environ rn) role port) (\<lambda>port.
     bind_result
       (if role = Scheduler_Api then create_scheduler_app rn svc scheduler framework
        else create_visibility_app rn edr framework) (\<lambda>app.
     Inr (app, api_host (rn_environ rn) host, port)))"

section \<open>The roles stay apart\<close>

text \<open>
  Whatever the framework registers: the scheduler role keeps no route under which EDRs are delivered or
  jobs are looked up, and the visibility role none that submits a job; each closes over its own database
  only.
\<close>

lemma kept_routes:
  "p \<in> set (retain_paths kept routes) \<longleftrightarrow> p \<in> set routes \<and> (p \<in> set SHARED_PATHS \<or> list_ex (starts_with p) kept)"
  by (auto simp: retain_paths_def)

lemma roles_stay_apart:
  assumes "api_main rn svc scheduler edr framework role host port = Inr (app, h, n)"
  shows "case role of
      Scheduler_Api \<Rightarrow>
        ap_scheduler (ra_api app) \<noteq> None \<and> \<not> ap_durable_reader (ra_api app) \<and>
        ''/edrs'' \<notin> set (ra_routes app) \<and> ''/scheduled-jobs'' \<notin> set (ra_routes app) \<and>
        ''/scheduler/jobs'' \<in> set (ra_routes app)
    | Visibility_Api \<Rightarrow>
        ap_scheduler (ra_api app) = None \<and> ap_durable_reader (ra_api app) \<and>
        ''/edrs'' \<notin> set (ra_routes app) \<and> ''/scheduler/jobs'' \<notin> set (ra_routes app) \<and>
        ''/scheduled-jobs'' \<in> set (ra_routes app)"
  using assms
  by (cases role)
    (auto simp: api_main_def create_scheduler_app_def create_visibility_app_def bind_result_Inr_iff new_api_def
      scheduler_app_routes_def visibility_app_routes_def kept_routes app_routes_def SHARED_PATHS_def starts_with_def)

end
