(* ===== verification/Spec2Isabelle.thy ===== *)
theory Spec2Isabelle
  imports Reducer_Table Engine_Delivery Scheduler_Worker Scheduler_Visibility Projection_Properties Simulation Cassandra_Workload
    Visibility_Reader Fault_Injection Scenarios Configuration Api Test_Support End_To_End Delivery_Order Repository Process_Roles Command_Lines Toxiproxy Api_Roles
begin

text \<open>
  Verification of the job visibility simulation, the Python package \<open>src/job_visibility\<close> of this
  repository.

  \<^bold>\<open>The program.\<close> A durable scheduler keeps jobs, attempts and an outbox in one database
  (\<open>scheduler/service.py\<close>). Workers claim due jobs, run a handler and record its outcome under a
  fence (\<open>scheduler/worker.py\<close>, \<open>scheduler/handlers.py\<close>). Every change writes an event data record
  (EDR) to the outbox (\<open>outbox/serialization.py\<close>), which a publisher hands to the broker
  (\<open>outbox/publisher.py\<close>). The EDRs end up in an immutable journal, and a projection worker
  (\<open>edr_store/projection_worker.py\<close>) replays them through the visibility engine (\<open>engine.py\<close> over
  \<open>model.py\<close>) into the tables the read API serves. EDRs may be duplicated, late, out of order and
  contradictory; the reducer of the engine has to make sense of them in any order.

  \<^bold>\<open>Theories, parts and definitions.\<close>

  \<^item> \<open>Prelude\<close>: exceptions (\<open>exn\<close>), the result type with \<open>bind_result\<close>, insertion-ordered
    dictionaries (\<open>dict_get\<close>, \<open>dict_put\<close>), Python truth tests, and the locales for dictionaries
    (\<open>dictionary\<close>), invariants and growth along runs of a step function (\<open>invariant_machine\<close>,
    \<open>monotone_machine\<close>) and order independence (\<open>commuting_observation\<close>). Times and durations are \<open>int\<close>, in microseconds.
  \<^item> \<open>Json_Values\<close>, \<open>Wire_Format\<close>: JSON values, \<open>json.dumps\<close> with sorted keys and escapes, and
    \<open>canonical_edr\<close> of \<open>outbox/serialization.py\<close>.
  \<^item> \<open>Visibility_Model\<close>: \<open>model.py\<close>; its enumerations, \<open>event\<close> with the checks of
    \<open>Event.__post_init__\<close>, attempts, findings, decisions, the aggregate \<open>job_visibility\<close>, response values.
  \<^item> \<open>Reducer\<close>: \<open>reduce_visibility\<close> and its thirteen handlers (\<open>_on_job_created\<close> and so on).
    \<open>Reducer_Table\<close> gives the decision table that the handlers together compute; \<open>Reducer_Lifecycle\<close>
    the well-formedness and coherence invariants and the monotone facts (success is final, exits of
    terminal statuses); \<open>Reducer_Timeline\<close> shows that times and attempts depend on the set of EDRs only.
  \<^item> \<open>Engine\<close>: the class \<open>VisibilityEngine\<close>, with \<open>apply\<close>, \<open>apply_with_retry\<close>, the clock-dependent
    reads, \<open>search\<close> and \<open>reconcile\<close>. \<open>Engine_Journal\<close>, \<open>Engine_Reads\<close>, \<open>Engine_Reconcile\<close> and
    \<open>Engine_Delivery\<close> hold the lemmas on journal and versions, reads, alarms, and repeated deliveries.
  \<^item> \<open>Scheduler_Tables\<close>: the records of \<open>scheduler/models.py\<close> and the tables of
    \<open>migrations/scheduler/versions/0001_scheduler_base.py\<close> with keys and \<open>CHECK\<close> constraints; a
    \<open>transaction\<close> keeps the database on an exception. \<open>Scheduler_Service\<close>: every operation of
    \<open>SchedulerService\<close>. \<open>Scheduler_Invariant\<close>, \<open>Scheduler_Progress\<close>: the table invariant and the
    relation of later to earlier databases, per operation. \<open>Scheduler_System\<close>: the machine whose steps
    are these operations in any order, by any owner, on any clock readings and locks.
    \<open>Scheduler_Completion\<close>: what a completion writes on each branch.
    \<open>Scheduler_Visibility\<close>: the log of EDRs behind the outbox and the relation between a row and the
    replay of its events, kept by every operation; the theorems of this file rest on it.
  \<^item> \<open>Scheduler_Handlers\<close>: \<open>scheduler/handlers.py\<close>; \<open>Scheduler_Worker\<close>: \<open>SchedulerService.execute\<close>
    and \<open>scheduler/worker.py\<close>, with the refinement of worker rounds to scheduler operations.
  \<^item> \<open>Outbox_Publisher\<close>: \<open>outbox/publisher.py\<close>; \<open>Outbox_Invariant\<close> and \<open>Outbox_Properties\<close>: leases,
    acknowledgements, and rounds interleaved with other publishers and with the scheduler.
    \<open>Delivery_Order\<close>: what readers see of a job's last failure when its messages are swapped.
  \<^item> \<open>Edr_Wire\<close>: \<open>event_from_wire\<close> and its round trip with \<open>canonical_edr\<close> over any decoders.
    \<open>Python_Json\<close> and \<open>Python_Dates\<close> are those of the standard library, \<open>json.loads\<close> as a scanner and
    \<open>fromisoformat\<close> over the proleptic calendar, each with its round trip; \<open>Wire_Codec\<close> puts them in.
  \<^item> \<open>Projection_Worker\<close>: the tables and the trigger of \<open>migrations/edr/versions/0001_edr_base.py\<close> and
    the class \<open>ProjectionWorker\<close>; \<open>Projection_Replay\<close> relates the projection of a job to \<open>replay\<close>;
    \<open>Projection_Properties\<close> runs sink and projector against each other.
  \<^item> \<open>Simulation\<close>: \<open>simulation.py\<close>; the virtual clock, the event factory, the polling scheduler over
    the engine and the faulty transport, with the index rules of Python lists.
  \<^item> \<open>Cassandra_Workload\<close>: \<open>scheduler/cassandra_client.py\<close> and \<open>scheduler/cassandra_workload.py\<close>; calls
    whose statements may be lost before or after the server executed them, among other clients.
  \<^item> \<open>Visibility_Reader\<close>: \<open>edr_store/repository.py\<close>, the SQL reads over the projected tables, related
    to the reads of the engine, and \<open>edr_store/ingress.py\<close>. \<open>End_To_End\<close> joins the outbox, the sink, the
    projection and these reads; the sink is the relation \<open>carries\<close> between a message and its row, and it
    may write a message again.
  \<^item> \<open>Repository\<close>: \<open>persistence/memory.py\<close> with the contract \<open>VisibilityRepository\<close> of
    \<open>persistence/contracts.py\<close> as the locale \<open>visibility_repository\<close>.
  \<^item> \<open>Process_Roles\<close>: \<open>runtime.py\<close> and \<open>persistence/sessions.py\<close>; each role as a function of its
    environment and of what its rounds meet, with the actions it takes. \<open>Api_Roles\<close>: the two
    applications of \<open>production_api.py\<close>. \<open>Command_Lines\<close>: \<open>cli.py\<close> and \<open>chaos/cli.py\<close>.
  \<^item> \<open>Fault_Injection\<close>: the package \<open>chaos\<close>; rules and their checks, the injector with threads taking
    turns at its counters, the gate \<open>fault_injector_from_env\<close> and the catalogue of experiments.
  \<^item> \<open>Scenarios\<close>: \<open>scenarios.py\<close>; every scripted scenario over engine and simulation, evaluated.
  \<^item> \<open>Python_Numbers\<close>, \<open>Configuration\<close>: \<open>config.py\<close>; \<open>int\<close> and \<open>float\<close> on text with IEEE doubles as
    rationals, the validated groups, the loaders and what every loaded configuration satisfies.
  \<^item> \<open>Health\<close>: \<open>observability/health.py\<close>; the probes over the scheduler and EDR tables.
  \<^item> \<open>Api\<close>: \<open>api.py\<close> and the routes of \<open>production_api.py\<close>; the handlers over all of the above.
  \<^item> \<open>Test_Support\<close>: \<open>testing/polling.py\<close>, \<open>testing/resource_pressure.py\<close> and \<open>testing/compose.py\<close>;
    the bounded polling loop, and the commands the controllers issue. \<open>Toxiproxy\<close>:
    \<open>testing/toxiproxy.py\<close>, the requests of the client.

  \<^bold>\<open>Conventions.\<close> A class is a record and a method a function that returns the object it leaves
  behind with its result, also when it raises; exceptions are values of \<open>exn\<close>. Locks other
  transactions hold, clock readings, fresh UUIDs, SHA-256, random jitter, injected faults and the broker
  client are arguments of the operations that use them, so that a theorem holds for each of their
  behaviours unless it names a hypothesis about them. The decoders of the wire reader are arguments too,
  and the theorems along the whole path take those of the standard library, \<open>python_codec\<close>.

  \<^bold>\<open>Termination.\<close> The retrying writer, the Fibonacci enumeration and the doubling recursion are total
  functions with measures. \<open>poll_until\<close> may run forever and is a partial function; it is shown to end on
  any clock that its waits move. \<open>run_forever\<close> runs over the list of environments it meets until the stop
  flag is read, so its length bounds the rounds; nothing is claimed beyond the rounds that it runs. The
  loop of the other roles is likewise a function of the list of its rounds, and \<open>Still_Running\<close> says that
  the list ended first; the projector is shown to drain its backlog in as many rounds as batches fill it.

  \<^bold>\<open>Not modelled.\<close> Argument parsing and help texts; signals other than the interrupt, which comes between
  two records of the publisher, after the rounds of the scheduler and within a round of the projector;
  the protocols of \<open>persistence/contracts.py\<close> other than \<open>VisibilityRepository\<close>, which declare methods
  without code. The frameworks themselves (request parsing, SQLAlchemy and its pools, the HTTP server, the
  Kafka and Cassandra clients, the sink connector), metrics counters, index definitions and log text are
  outside the model.
\<close>

section \<open>The scheduler seen through its events\<close>

text \<open>
  C3. The visibility service shows what the scheduler did. After any operations in any order, the
  outbox is the encoding of a log of EDRs, and replaying the EDRs of a job through the reducer mirrors
  its row: its correlation id, type and schedule, every attempt with its outcome, and no finding. The
  recorded status is the one of the row; only after a recovery of expired claims may a row that
  recovery moved still show the job awaiting execution or running. The shown limit of attempts is
  never below 3, the default of a new aggregate, whatever the job was submitted with.
\<close>

theorem visibility_mirrors_the_scheduler:
  assumes "inj (sv_uuid svc)"
  shows "let db = ss_db (run_scheduler svc ops) in
    \<exists>log. db_outbox db = map (\<lambda>(t, e). outbox_entry svc t e) log \<and> (\<forall>(t, e) \<in> set log. wire_safe e) \<and>
      (\<forall>i r. dict_get (db_jobs db) i = Some r \<longrightarrow>
         mirrors (list_ex is_recovery ops) r (\<lambda>n. dict_get (db_attempts db) (i, n)) (visible i log))"
proof -
  have "list_all (\<lambda>op. list_ex is_recovery ops \<or> \<not> is_recovery op) ops"
    by (auto simp: list_all_iff list_ex_iff)
  then obtain log where log: "log_inv svc (list_ex is_recovery ops) log (ss_db (run_scheduler svc ops))"
    using run_scheduler_log [OF assms] by blast
  have "mirrors (list_ex is_recovery ops) r
      (\<lambda>n. dict_get (db_attempts (ss_db (run_scheduler svc ops))) (i, n)) (visible i log)"
    if "dict_get (db_jobs (ss_db (run_scheduler svc ops))) i = Some r" for i r
  proof -
    have "job_mirrored (list_ex is_recovery ops) (ss_db (run_scheduler svc ops)) i (log_events i log)"
      using log by (simp add: log_inv_def)
    then show ?thesis using that by (simp add: job_mirrored_def)
  qed
  then show ?thesis using log unfolding Let_def log_inv_def by blast
qed

theorem visibility_mirrors_the_scheduler_witness:
  "\<exists>log. jv_recorded_status (visible ''job-1'' log) \<in> {AWAITING_EXECUTION, RUNNING} \<and>
     db_outbox (ss_db (run_scheduler example_service example_ops)) =
       map (\<lambda>(t, e). outbox_entry example_service t e) log"
proof -
  let ?db = "ss_db (run_scheduler example_service example_ops)"
  obtain c r where r: "dict_get (db_jobs ?db) ''job-1'' = Some r" "\<forall>t \<le> 60000005. holds_claim t c r"
    using example_claim by blast
  then have h: "holds_claim 7 c r" by simp
  have "row_ok r"
    using run_scheduler_inv [OF example_uuids, of example_ops] r(1)
    by (simp add: sys_inv_def db_inv_def jobs_inv_def)
  then have claimed: "is_claimed r" using held_is_claimed h by blast
  obtain log where log: "db_outbox ?db = map (\<lambda>(t, e). outbox_entry example_service t e) log"
    and m: "mirrors (list_ex is_recovery example_ops) r (\<lambda>n. dict_get (db_attempts ?db) (''job-1'', n))
      (visible ''job-1'' log)"
    using visibility_mirrors_the_scheduler [OF example_uuids, of example_ops] r(1)
    unfolding Let_def by blast
  then show ?thesis
    using claimed_shown [OF claimed, of "list_ex is_recovery example_ops"] unfolding mirrors_def by blast
qed



end
